(* ===== verification/PyPrelude.thy ===== *)
theory PyPrelude
  imports Complex_Main "HOL-Library.AList" "HOL-Library.Char_ord" "HOL-Library.List_Lexorder"
begin

section \<open>Python values, exceptions and dictionaries\<close>

text \<open>
  What every component of the model shares: the exceptions the sources raise, an error
  monad in which each \<open>raise\<close> is a branch, the dynamically typed values a payload is
  made of, insertion-ordered dictionaries, and the few standard-library routines the
  sources call (canonical UUID text, decimal rendering, strict base64).

  A Python \<open>str\<close> is modelled by its UTF-8 bytes, as a HOL \<open>string\<close>. Equality,
  concatenation and searching for ASCII text agree with Python on this representation;
  lengths and slices in code points are written with \<open>py_len\<close>, which does not count
  continuation bytes. Error messages keep their literal text; the interpolated values of
  an f-string are left out.
\<close>

named_theorems succ_simps \<open>when a monadic computation returns normally\<close>
named_theorems fail_simps \<open>when a monadic computation raises\<close>

subsection \<open>Exceptions and the error monad\<close>

datatype py_error =
    DomainError string
  | ProjectionError string
  | ProjectionBlockedError string
  | ProtocolError string
  | StreamInterruptedError string
  | ToolValidationError string
  | UnknownToolError string
  | FileVersionError string
  | ValueError string
  | TypeError string
  | KeyError string
  | RuntimeError string
  | AttributeError string
  | OverflowError string
  | ProtocolFrameError string
  | RolloutCorruptionError string
  | StorePoisonedError string
  | ToolExecutorError string
  | PlanToolError string
  | FileToolError string
  | PathSafetyError string
  | FileConflictError string
  | UndoError string
  | UndoConflict string
  | CompactionError string
  | AgentLoopError string
  | OSError string
  | FileNotFoundError string
  | FileExistsError string
  | AssertionError
  | KeyboardInterrupt
  | ApprovalInterrupted
  | PostCommitInterrupted

definition bindE :: "'e + 'a \<Rightarrow> ('a \<Rightarrow> 'e + 'b) \<Rightarrow> 'e + 'b" where
  "bindE m f = (case m of Inl e \<Rightarrow> Inl e | Inr x \<Rightarrow> f x)"

text \<open>\<open>raise_if c e k\<close> is \<open>if c: raise e\<close> followed by the rest \<open>k\<close> of the body.\<close>

definition raise_if :: "bool \<Rightarrow> 'e \<Rightarrow> 'e + 'a \<Rightarrow> 'e + 'a" where
  "raise_if c e k = (if c then Inl e else k)"

lemma bindE_simps [simp]:
  "bindE (Inl e) f = Inl e" "bindE (Inr x) f = f x"
  by (simp_all add: bindE_def)

lemma raise_if_simps [simp]:
  "raise_if True e k = Inl e" "raise_if False e k = k"
  by (simp_all add: raise_if_def)

lemma bindE_weak_cong [cong]: "m = m' \<Longrightarrow> bindE m f = bindE m' f"
  by simp

lemma raise_if_weak_cong [cong]: "c = c' \<Longrightarrow> raise_if c e k = raise_if c' e k"
  by simp

lemma bindE_cong [fundef_cong]:
  "m = m' \<Longrightarrow> (\<And>x. m' = Inr x \<Longrightarrow> f x = g x) \<Longrightarrow> bindE m f = bindE m' g"
  by (cases m') simp_all

lemma raise_if_cong [fundef_cong]:
  "c = c' \<Longrightarrow> e = e' \<Longrightarrow> (\<not> c' \<Longrightarrow> k = k') \<Longrightarrow> raise_if c e k = raise_if c' e' k'"
  by (simp add: raise_if_def)

lemma bindE_Inr_iff [succ_simps]: "bindE m f = Inr y \<longleftrightarrow> (\<exists>x. m = Inr x \<and> f x = Inr y)"
  by (cases m) simp_all

lemma raise_if_Inr_iff [succ_simps]: "raise_if c e k = Inr y \<longleftrightarrow> \<not> c \<and> k = Inr y"
  by (cases c) simp_all

lemma bindE_Inl_iff [fail_simps]:
  "bindE m f = Inl e \<longleftrightarrow> m = Inl e \<or> (\<exists>x. m = Inr x \<and> f x = Inl e)"
  by (cases m) simp_all

lemma raise_if_Inl_iff [fail_simps]:
  "raise_if c e k = Inl e' \<longleftrightarrow> c \<and> e' = e \<or> \<not> c \<and> k = Inl e'"
  by (cases c) auto

lemma bindE_assoc: "bindE (bindE m f) g = bindE m (\<lambda>x. bindE (f x) g)"
  by (cases m) simp_all

text \<open>\<open>except E as error: raise E'\<close>: every error of \<open>m\<close> becomes another one.\<close>

definition reraise :: "('e \<Rightarrow> 'f) \<Rightarrow> 'e + 'a \<Rightarrow> 'f + 'a" where
  "reraise h m = (case m of Inl e \<Rightarrow> Inl (h e) | Inr x \<Rightarrow> Inr x)"

lemma reraise_simps [simp]:
  "reraise h (Inl e) = Inl (h e)" "reraise h (Inr x) = Inr x"
  by (simp_all add: reraise_def)

lemma reraise_Inr_iff [succ_simps]: "reraise h m = Inr y \<longleftrightarrow> m = Inr y"
  by (cases m) simp_all

lemma reraise_Inl_iff [fail_simps]: "reraise h m = Inl e \<longleftrightarrow> (\<exists>e'. m = Inl e' \<and> e = h e')"
  by (cases m) auto

fun mapE :: "('a \<Rightarrow> 'e + 'b) \<Rightarrow> 'a list \<Rightarrow> 'e + 'b list" where
  "mapE f [] = Inr []"
| "mapE f (x # xs) = bindE (f x) (\<lambda>y. bindE (mapE f xs) (\<lambda>ys. Inr (y # ys)))"

fun foldE :: "('s \<Rightarrow> 'a \<Rightarrow> 'e + 's) \<Rightarrow> 's \<Rightarrow> 'a list \<Rightarrow> 'e + 's" where
  "foldE f s [] = Inr s"
| "foldE f s (x # xs) = bindE (f s x) (\<lambda>s'. foldE f s' xs)"

text \<open>\<open>for x in xs: f(x)\<close>, for a body that only checks.\<close>

fun each :: "('a \<Rightarrow> 'e + unit) \<Rightarrow> 'a list \<Rightarrow> 'e + unit" where
  "each f [] = Inr ()"
| "each f (x # xs) = bindE (f x) (\<lambda>_. each f xs)"

lemma each_cong [fundef_cong]:
  "xs = ys \<Longrightarrow> (\<And>x. x \<in> set ys \<Longrightarrow> f x = g x) \<Longrightarrow> each f xs = each g ys"
  by (induction ys arbitrary: xs) (auto cong: bindE_cong)

lemma each_Inr_iff [succ_simps]: "each f xs = Inr u \<longleftrightarrow> (\<forall>x \<in> set xs. f x = Inr ())"
  by (induction xs) (auto simp: succ_simps)

lemma each_Inl: "each f xs = Inl e \<Longrightarrow> \<exists>x \<in> set xs. f x = Inl e"
  by (induction xs) (auto simp: fail_simps)

lemma foldE_cong [fundef_cong]:
  "s = t \<Longrightarrow> xs = ys \<Longrightarrow> (\<And>u x. x \<in> set ys \<Longrightarrow> f u x = g u x) \<Longrightarrow> foldE f s xs = foldE g t ys"
  by (induction ys arbitrary: xs s t) (auto cong: bindE_cong)

lemma mapE_cong [fundef_cong]:
  "xs = ys \<Longrightarrow> (\<And>x. x \<in> set ys \<Longrightarrow> f x = g x) \<Longrightarrow> mapE f xs = mapE g ys"
  by (induction ys arbitrary: xs) (auto cong: bindE_cong)

lemma mapE_Inr_length: "mapE f xs = Inr ys \<Longrightarrow> length ys = length xs"
  by (induction xs arbitrary: ys) (auto simp: succ_simps)

lemma mapE_Inr_iff: "mapE f xs = Inr ys \<longleftrightarrow> list_all2 (\<lambda>x y. f x = Inr y) xs ys"
  by (induction xs arbitrary: ys) (auto simp: succ_simps list_all2_Cons1)

lemma mapE_total: "(\<And>x. x \<in> set xs \<Longrightarrow> f x = Inr (g x)) \<Longrightarrow> mapE f xs = Inr (map g xs)"
  by (induction xs) simp_all

lemma foldE_append: "foldE f s (xs @ ys) = bindE (foldE f s xs) (\<lambda>s'. foldE f s' ys)"
  by (induction xs arbitrary: s) (simp_all add: bindE_assoc cong: bindE_cong)

subsection \<open>Machines that fold events into a state\<close>

text \<open>
  The contract between a component that consumes a sequence (of events, messages, lines)
  and what is proved about a whole run: an invariant every accepted item preserves. The
  reducer, the conversation validator and the stream assembler provide it.
\<close>

locale event_machine =
  fixes step :: "'s \<Rightarrow> 'e \<Rightarrow> 'x + 's"
    and inv :: "'s \<Rightarrow> bool"
  assumes keeps: "inv s \<Longrightarrow> step s e = Inr s' \<Longrightarrow> inv s'"
begin

lemma run_keeps: "foldE step s es = Inr s' \<Longrightarrow> inv s \<Longrightarrow> inv s'"
  by (induction es arbitrary: s) (auto simp: succ_simps intro: keeps)

lemma run_relation:
  assumes "foldE step s es = Inr s'" "inv s" "\<And>t. R t t"
    "\<And>t u v. R t u \<Longrightarrow> R u v \<Longrightarrow> R t v"
    "\<And>t e u. inv t \<Longrightarrow> step t e = Inr u \<Longrightarrow> R t u"
  shows "R s s'"
  using assms(1,2)
proof (induction es arbitrary: s)
  case Nil then show ?case using assms(3) by simp
next
  case (Cons e es)
  then obtain u where u: "step s e = Inr u" "foldE step u es = Inr s'" by (auto simp: succ_simps)
  with Cons.prems(2) keeps have "inv u" by blast
  with u Cons.IH have "R u s'" by blast
  with assms(5) [OF Cons.prems(2) u(1)] assms(4) show ?case by blast
qed

end

subsection \<open>Dynamically typed values\<close>

text \<open>
  A finite float carries its exact value and its \<open>repr\<close> text. \<open>PProxy\<close> is a
  \<open>MappingProxyType\<close>, the frozen counterpart of a \<open>dict\<close>, as \<open>PTuple\<close> is of a
  \<open>list\<close>. Dictionary keys are strings by type, so the sources' checks that a key is
  a string have no counterpart. \<open>PObject\<close> is any other Python object.
\<close>

datatype pyval =
    PNone
  | PBool bool
  | PInt int
  | PFloat rat string
  | PNonFinite string
  | PStr string
  | PList "pyval list"
  | PTuple "pyval list"
  | PDict "(string \<times> pyval) list"
  | PProxy "(string \<times> pyval) list"
  | PObject string

type_synonym mapping = "(string \<times> pyval) list"

fun as_str :: "pyval \<Rightarrow> string option" where
  "as_str (PStr s) = Some s"
| "as_str _ = None"

fun as_int :: "pyval \<Rightarrow> int option" where \<comment> \<open>\<open>type(v) is int\<close>\<close>
  "as_int (PInt i) = Some i"
| "as_int _ = None"

fun as_bool :: "pyval \<Rightarrow> bool option" where \<comment> \<open>\<open>type(v) is bool\<close>\<close>
  "as_bool (PBool b) = Some b"
| "as_bool _ = None"

fun as_seq :: "pyval \<Rightarrow> pyval list option" where \<comment> \<open>\<open>isinstance(v, (list, tuple))\<close>\<close>
  "as_seq (PList vs) = Some vs"
| "as_seq (PTuple vs) = Some vs"
| "as_seq _ = None"

fun as_map :: "pyval \<Rightarrow> mapping option" where \<comment> \<open>\<open>isinstance(v, Mapping)\<close>\<close>
  "as_map (PDict kvs) = Some kvs"
| "as_map (PProxy kvs) = Some kvs"
| "as_map _ = None"

fun as_dict :: "pyval \<Rightarrow> mapping option" where \<comment> \<open>\<open>isinstance(v, dict)\<close>\<close>
  "as_dict (PDict kvs) = Some kvs"
| "as_dict _ = None"

lemma as_str_Some_iff [simp]: "as_str v = Some s \<longleftrightarrow> v = PStr s"
  by (cases v) auto

lemma as_int_Some_iff [simp]: "as_int v = Some s \<longleftrightarrow> v = PInt s"
  by (cases v) auto

lemma as_bool_Some_iff [simp]: "as_bool v = Some s \<longleftrightarrow> v = PBool s"
  by (cases v) auto

text \<open>\<open>need\<close> turns a failed type test into the raise that follows it in the source.\<close>

definition need :: "'a option \<Rightarrow> 'e \<Rightarrow> 'e + 'a" where
  "need x e = (case x of None \<Rightarrow> Inl e | Some y \<Rightarrow> Inr y)"

lemma need_simps [simp]: "need None e = Inl e" "need (Some x) e = Inr x"
  by (simp_all add: need_def)

lemma need_Inr_iff [succ_simps]: "need x e = Inr y \<longleftrightarrow> x = Some y"
  by (cases x) simp_all

lemma need_Inl_iff [fail_simps]: "need x e = Inl e' \<longleftrightarrow> x = None \<and> e' = e"
  by (cases x) auto

text \<open>\<open>d.get(k, default)\<close> and \<open>d.get(k)\<close>.\<close>

definition get_or :: "mapping \<Rightarrow> string \<Rightarrow> pyval \<Rightarrow> pyval" where
  "get_or d k dflt = (case map_of d k of None \<Rightarrow> dflt | Some v \<Rightarrow> v)"

definition get :: "mapping \<Rightarrow> string \<Rightarrow> pyval" where
  "get d k = get_or d k PNone"

definition fields_of :: "mapping \<Rightarrow> string set" where
  "fields_of d = set (map fst d)"

fun hashable :: "pyval \<Rightarrow> bool" where
  "hashable (PList _) = False"
| "hashable (PDict _) = False"
| "hashable (PProxy _) = False"
| "hashable (PTuple vs) = list_all hashable vs"
| "hashable _ = True"

text \<open>\<open>==\<close> between a value and a scalar: bools, ints and floats compare as numbers.\<close>

fun py_num :: "pyval \<Rightarrow> rat option" where
  "py_num (PBool b) = Some (if b then 1 else 0)"
| "py_num (PInt i) = Some (of_int i)"
| "py_num (PFloat r _) = Some r"
| "py_num _ = None"

definition py_eq :: "pyval \<Rightarrow> pyval \<Rightarrow> bool" where
  "py_eq v w = (case (py_num v, py_num w) of
     (Some a, Some b) \<Rightarrow> a = b
   | (None, None) \<Rightarrow> v = w
   | _ \<Rightarrow> False)"

fun truthy :: "pyval \<Rightarrow> bool" where
  "truthy PNone = False"
| "truthy (PBool b) = b"
| "truthy (PInt i) = (i \<noteq> 0)"
| "truthy (PFloat r _) = (r \<noteq> 0)"
| "truthy (PStr s) = (s \<noteq> [])"
| "truthy (PList vs) = (vs \<noteq> [])"
| "truthy (PTuple vs) = (vs \<noteq> [])"
| "truthy (PDict kvs) = (kvs \<noteq> [])"
| "truthy (PProxy kvs) = (kvs \<noteq> [])"
| "truthy _ = True"

definition opt_str :: "string option \<Rightarrow> pyval" where
  "opt_str x = (case x of None \<Rightarrow> PNone | Some s \<Rightarrow> PStr s)"

definition opt_int :: "int option \<Rightarrow> pyval" where
  "opt_int x = (case x of None \<Rightarrow> PNone | Some i \<Rightarrow> PInt i)"

subsection \<open>Insertion-ordered dictionaries\<close>

text \<open>
  A Python dictionary keeps the position of a key that is assigned again; this is
  \<open>AList.update\<close>. \<open>values d\<close> is the order in which \<open>d.values()\<close> iterates.
\<close>

type_synonym 'v dict = "(string \<times> 'v) list"

abbreviation dict_set :: "'k \<Rightarrow> 'v \<Rightarrow> ('k \<times> 'v) list \<Rightarrow> ('k \<times> 'v) list" where
  "dict_set \<equiv> AList.update"

definition vals :: "('k \<times> 'v) list \<Rightarrow> 'v list" where
  "vals d = map snd d"

definition has_key :: "('k \<times> 'v) list \<Rightarrow> 'k \<Rightarrow> bool" where
  "has_key d k = (map_of d k \<noteq> None)"

definition dict_ok :: "('k \<times> 'v) list \<Rightarrow> bool" where
  "dict_ok d = distinct (map fst d)"

lemma map_of_dict_set [simp]: "map_of (dict_set k v d) = (map_of d)(k \<mapsto> v)"
  by (simp add: update_conv')

lemma dict_ok_set [simp, intro]: "dict_ok d \<Longrightarrow> dict_ok (dict_set k v d)"
  by (simp add: dict_ok_def distinct_update)

lemma dict_ok_Nil [simp, intro]: "dict_ok []"
  by (simp add: dict_ok_def)

lemma has_key_iff: "has_key d k \<longleftrightarrow> k \<in> fst ` set d"
  by (auto simp: has_key_def map_of_eq_None_iff)

lemma vals_iff: "dict_ok d \<Longrightarrow> v \<in> set (vals d) \<longleftrightarrow> (\<exists>k. map_of d k = Some v)"
  by (force simp: vals_def dict_ok_def)

lemma set_vals_update:
  "dict_ok d \<Longrightarrow> set (vals (dict_set k v d)) = {v} \<union> {w. \<exists>j. j \<noteq> k \<and> map_of d j = Some w}"
  by (auto simp: vals_iff split: if_splits)

lemma dict_set_new: "map_of d k = None \<Longrightarrow> dict_set k v d = d @ [(k, v)]"
  by (induction d) (auto split: if_splits)

lemma map_fst_dict_set_old: "map_of d k \<noteq> None \<Longrightarrow> map fst (dict_set k v d) = map fst d"
  by (induction d) (auto split: if_splits)

text \<open>\<open>dict.fromkeys\<close> as the source uses it: the first occurrence of each item, in order.\<close>

fun uniq :: "'a list \<Rightarrow> 'a list" where
  "uniq [] = []"
| "uniq (x # xs) = x # filter (\<lambda>y. y \<noteq> x) (uniq xs)"

lemma set_uniq [simp]: "set (uniq xs) = set xs"
  by (induction xs) auto

lemma distinct_uniq [simp]: "distinct (uniq xs)"
  by (induction xs) auto

subsection \<open>Decimal rendering\<close>

definition digit_char :: "nat \<Rightarrow> char" where
  "digit_char n = char_of (n + 48)"

fun show_nat :: "nat \<Rightarrow> string" where
  "show_nat n = (if n < 10 then [digit_char n] else show_nat (n div 10) @ [digit_char (n mod 10)])"

declare show_nat.simps [simp del]

definition show_int :: "int \<Rightarrow> string" where
  "show_int i = (if i < 0 then CHR ''-'' # show_nat (nat (- i)) else show_nat (nat i))"

definition digit_val :: "char \<Rightarrow> nat" where
  "digit_val c = of_char c - 48"

definition read_nat :: "string \<Rightarrow> nat" where
  "read_nat s = foldl (\<lambda>n c. 10 * n + digit_val c) 0 s"

lemma of_char_digit: "d < 10 \<Longrightarrow> (of_char (digit_char d) :: nat) = d + 48"
  by (simp add: digit_char_def of_char_of take_bit_eq_mod)

lemma digit_val_char [simp]: "d < 10 \<Longrightarrow> digit_val (digit_char d) = d"
  by (simp add: digit_val_def of_char_digit)

lemma read_show_nat [simp]: "read_nat (show_nat n) = n"
proof (induction n rule: show_nat.induct)
  case (1 n)
  then show ?case
    by (subst show_nat.simps) (auto simp: read_nat_def)
qed

lemma show_nat_inj [simp]: "show_nat m = show_nat n \<longleftrightarrow> m = n"
  by (metis read_show_nat)

lemma show_nat_digits: "c \<in> set (show_nat n) \<Longrightarrow> \<exists>d < 10. c = digit_char d"
proof (induction n rule: show_nat.induct)
  case (1 n)
  then show ?case
    by (subst (asm) (2) show_nat.simps)
       (auto split: if_splits intro: exI [of _ "n mod 10"])
qed

lemma show_nat_no_colon: "CHR '':'' \<notin> set (show_nat n)"
proof
  assume "CHR '':'' \<in> set (show_nat n)"
  then obtain d where "d < 10" "CHR '':'' = digit_char d"
    using show_nat_digits by blast
  then have "(of_char (CHR '':'') :: nat) = d + 48" by (simp add: of_char_digit)
  then have "d = 10" by simp
  with \<open>d < 10\<close> show False by simp
qed

lemma show_nat_nonempty [simp]: "show_nat n \<noteq> []"
  by (subst show_nat.simps) simp

text \<open>The key \<open>f"{seq}:{call_id}"\<close> determines both of its parts.\<close>

lemma split_at_sep:
  assumes "x \<notin> set a" "x \<notin> set c" "a @ x # b = c @ x # d"
  shows "a = c \<and> b = d"
  using assms
proof (induction a arbitrary: c)
  case Nil then show ?case by (cases c) auto
next
  case (Cons y a) then show ?case by (cases c) auto
qed

definition call_key_of :: "int \<Rightarrow> string \<Rightarrow> string" where
  "call_key_of seq call_id = show_int seq @ CHR '':'' # call_id"

lemma call_key_of_inj:
  assumes "0 \<le> m" "0 \<le> n"
  shows "call_key_of m a = call_key_of n b \<longleftrightarrow> m = n \<and> a = b"
proof
  assume "call_key_of m a = call_key_of n b"
  then have "show_nat (nat m) @ CHR '':'' # a = show_nat (nat n) @ CHR '':'' # b"
    using assms by (simp add: call_key_of_def show_int_def)
  then have "show_nat (nat m) = show_nat (nat n) \<and> a = b"
    by (rule split_at_sep [OF show_nat_no_colon show_nat_no_colon])
  with assms show "m = n \<and> a = b" by (simp add: eq_nat_nat_iff)
qed simp

lemma call_key_of_nonempty [simp]: "call_key_of m a \<noteq> []"
  by (simp add: call_key_of_def)

subsection \<open>Canonical UUID text\<close>

text \<open>
  \<open>str(uuid.UUID(value)) == value\<close> holds exactly for 32 lower-case hexadecimal digits in
  groups of 8, 4, 4, 4 and 12 separated by dashes.
\<close>

definition uuid_shape :: "bool list" where
  "uuid_shape = replicate 8 False @ True # replicate 4 False @ True # replicate 4 False @
     True # replicate 4 False @ True # replicate 12 False"

definition is_uuid :: "string \<Rightarrow> bool" where
  "is_uuid s = list_all2
     (\<lambda>dash c. if dash then c = CHR ''-'' else c \<in> set ''0123456789abcdef'') uuid_shape s"

lemma is_uuid_nonempty: "is_uuid s \<Longrightarrow> s \<noteq> []"
  by (auto simp: is_uuid_def uuid_shape_def)

definition uuid_a :: string where
  "uuid_a = ''00000000-0000-4000-8000-00000000000a''"

definition uuid_b :: string where
  "uuid_b = ''00000000-0000-4000-8000-00000000000b''"

definition uuid_c :: string where
  "uuid_c = ''00000000-0000-4000-8000-00000000000c''"

lemma uuid_examples [simp]:
  "is_uuid uuid_a" "is_uuid uuid_b" "is_uuid uuid_c"
  by (code_simp, code_simp, code_simp)

lemma uuid_examples_distinct [simp]:
  "uuid_a \<noteq> uuid_b" "uuid_b \<noteq> uuid_a" "uuid_a \<noteq> uuid_c" "uuid_c \<noteq> uuid_a"
  "uuid_b \<noteq> uuid_c" "uuid_c \<noteq> uuid_b"
  by (simp_all add: uuid_a_def uuid_b_def uuid_c_def)

lemma uuid_examples_nonempty [simp]: "uuid_a \<noteq> []" "uuid_b \<noteq> []" "uuid_c \<noteq> []"
  by (simp_all add: uuid_a_def uuid_b_def uuid_c_def)

subsection \<open>Strict base64\<close>

definition b64_alphabet :: string where
  "b64_alphabet = ''ABCDEFGHIJKLMNOPQRSTUVWXYZabcdefghijklmnopqrstuvwxyz0123456789+/''"

fun index_of :: "'a \<Rightarrow> 'a list \<Rightarrow> nat option" where
  "index_of x [] = None"
| "index_of x (y # ys) = (if x = y then Some 0 else map_option Suc (index_of x ys))"

definition b64_val :: "char \<Rightarrow> nat option" where
  "b64_val c = index_of c b64_alphabet"

definition b64_chr :: "nat \<Rightarrow> char" where
  "b64_chr n = b64_alphabet ! n"

fun b64_decode :: "string \<Rightarrow> string option" where
  "b64_decode [] = Some []"
| "b64_decode (a # b # c # d # rest) =
     (case (b64_val a, b64_val b) of
        (Some x, Some y) \<Rightarrow>
          (if c = CHR ''='' \<and> d = CHR ''='' then
             (if rest = [] then Some [char_of (4 * x + y div 16)] else None)
           else case b64_val c of None \<Rightarrow> None | Some z \<Rightarrow>
             (if d = CHR ''='' then
                (if rest = [] then Some [char_of (4 * x + y div 16), char_of (16 * y + z div 4)]
                 else None)
              else case (b64_val d, b64_decode rest) of
                (Some w, Some bs) \<Rightarrow>
                  Some (char_of (4 * x + y div 16) # char_of (16 * y + z div 4) #
                        char_of (64 * z + w) # bs)
              | _ \<Rightarrow> None))
      | _ \<Rightarrow> None)"
| "b64_decode _ = None"

subsection \<open>Code points of a UTF-8 string\<close>

definition is_cont :: "char \<Rightarrow> bool" where
  "is_cont c = (of_char c div 64 = (2 :: nat))"

definition py_len :: "string \<Rightarrow> nat" where
  "py_len s = length (filter (\<lambda>c. \<not> is_cont c) s)"

definition is_space :: "char \<Rightarrow> bool" where
  "is_space c = (of_char c \<in> {9, 10, 11, 12, 13, 28, 29, 30, 31, 32 :: nat})"

text \<open>\<open>not s.strip()\<close>, for the ASCII white space.\<close>

definition blank :: "string \<Rightarrow> bool" where
  "blank s = list_all is_space s"

end
