(* ===== verification/PyJson.thy ===== *)
theory PyJson
  imports PyPrelude
begin

section \<open>json.dumps as the sources call it\<close>

text \<open>
  Every component serialises with the same options: \<open>ensure_ascii=False\<close>,
  \<open>allow_nan=False\<close>, \<open>separators=(",", ":")\<close>, \<open>sort_keys=True\<close>. A value that is not
  a plain JSON value (a \<open>MappingProxyType\<close> included) raises \<open>TypeError\<close>, a non-finite
  float raises \<open>ValueError\<close>.
\<close>

definition hex_digit :: "nat \<Rightarrow> char" where
  "hex_digit n = ''0123456789abcdef'' ! n"

definition json_escape_char :: "char \<Rightarrow> string" where
  "json_escape_char c =
     (let n = of_char c :: nat in
      if n = 34 then [CHR 0x5C, c]
      else if n = 92 then [CHR 0x5C, c]
      else if n = 10 then CHR 0x5C # ''n''
      else if n = 13 then CHR 0x5C # ''r''
      else if n = 9 then CHR 0x5C # ''t''
      else if n = 12 then CHR 0x5C # ''f''
      else if n = 8 then CHR 0x5C # ''b''
      else if n < 32 then CHR 0x5C # ''u00'' @ [hex_digit (n div 16), hex_digit (n mod 16)]
      else [c])"

definition json_quote :: "string \<Rightarrow> string" where
  "json_quote s = CHR 0x22 # concat (map json_escape_char s) @ [CHR 0x22]"

fun join :: "string \<Rightarrow> string list \<Rightarrow> string" where
  "join sep [] = []"
| "join sep [x] = x"
| "join sep (x # y # xs) = x @ sep @ join sep (y # xs)"

fun dumps :: "pyval \<Rightarrow> py_error + string" where
  "dumps PNone = Inr ''null''"
| "dumps (PBool b) = Inr (if b then ''true'' else ''false'')"
| "dumps (PInt i) = Inr (show_int i)"
| "dumps (PFloat r s) = Inr s"
| "dumps (PNonFinite s) = Inl (ValueError ''Out of range float values are not JSON compliant'')"
| "dumps (PStr s) = Inr (json_quote s)"
| "dumps (PList vs) =
     bindE (mapE dumps vs) (\<lambda>parts. Inr (''['' @ join '','' parts @ '']''))"
| "dumps (PTuple vs) =
     bindE (mapE dumps vs) (\<lambda>parts. Inr (''['' @ join '','' parts @ '']''))"
| "dumps (PDict kvs) =
     bindE (mapE (\<lambda>kv. bindE (dumps (snd kv)) (\<lambda>d. Inr (json_quote (fst kv) @ CHR '':'' # d)))
                 (sort_key fst kvs))
       (\<lambda>parts. Inr (CHR 0x7B # join '','' parts @ [CHR 0x7D]))"
| "dumps (PProxy _) = Inl (TypeError ''Object of type mappingproxy is not JSON serializable'')"
| "dumps (PObject _) = Inl (TypeError ''Object is not JSON serializable'')"

text \<open>A value is plain JSON when it holds only what \<open>json.loads\<close> can produce, or tuples.\<close>

fun plain :: "pyval \<Rightarrow> bool" where
  "plain (PNonFinite _) = False"
| "plain (PProxy _) = False"
| "plain (PObject _) = False"
| "plain (PList vs) = list_all plain vs"
| "plain (PTuple vs) = list_all plain vs"
| "plain (PDict kvs) = list_all (\<lambda>kv. plain (snd kv)) kvs"
| "plain _ = True"

lemma mapE_total_iff: "(\<exists>ys. mapE f xs = Inr ys) \<longleftrightarrow> (\<forall>x \<in> set xs. \<exists>y. f x = Inr y)"
  by (induction xs) (auto simp: succ_simps)

lemma dumps_total_iff: "(\<exists>s. dumps v = Inr s) \<longleftrightarrow> plain v"
proof (induction v rule: plain.induct)
  case (6 kvs)
  have "(\<exists>s. dumps (PDict kvs) = Inr s) \<longleftrightarrow> (\<forall>kv \<in> set kvs. \<exists>d. dumps (snd kv) = Inr d)"
    by (simp add: succ_simps mapE_total_iff)
  with 6 show ?case by (auto simp: list_all_iff)
qed (auto simp: succ_simps mapE_total_iff list_all_iff)

end
