(* ===== verification/CodeGraph.thy ===== *)
theory CodeGraph
  imports PyPrelude
begin

section \<open>Durable Code Mode graphs (code_graph.py)\<close>

text \<open>
  The values a session keeps for each \<open>run_code\<close> program and its tool nodes, the summary
  computed from them, and the warning about shell commands that ran while a file was being
  written. Timestamps and the presentation view built from them are not modelled.
\<close>

datatype code_run_status = RunActive | RunSucceeded | RunFailed | RunInterrupted

fun code_run_status_value :: "code_run_status \<Rightarrow> string" where
  "code_run_status_value RunActive = ''active''"
| "code_run_status_value RunSucceeded = ''succeeded''"
| "code_run_status_value RunFailed = ''failed''"
| "code_run_status_value RunInterrupted = ''interrupted''"

definition code_run_status_of :: "string \<Rightarrow> code_run_status option" where
  "code_run_status_of v = map_of (map (\<lambda>s. (code_run_status_value s, s))
     [RunActive, RunSucceeded, RunFailed, RunInterrupted]) v"

datatype code_node_status =
    NPlanned | NStarted | NSucceeded | NFailed | NDenied | NInvalidArguments | NUnknownTool
  | NConflict | NTimedOut | NInterrupted | NCancelled | NNotExecuted | NUpstreamFailed
  | NOutcomeUnknown | NAbandoned | NBatchLimitExceeded | NUserConfirmedSuccess
  | NUserConfirmedFailure

fun code_node_status_value :: "code_node_status \<Rightarrow> string" where
  "code_node_status_value NPlanned = ''planned''"
| "code_node_status_value NStarted = ''started''"
| "code_node_status_value NSucceeded = ''succeeded''"
| "code_node_status_value NFailed = ''failed''"
| "code_node_status_value NDenied = ''denied''"
| "code_node_status_value NInvalidArguments = ''invalid_arguments''"
| "code_node_status_value NUnknownTool = ''unknown_tool''"
| "code_node_status_value NConflict = ''conflict''"
| "code_node_status_value NTimedOut = ''timed_out''"
| "code_node_status_value NInterrupted = ''interrupted''"
| "code_node_status_value NCancelled = ''cancelled''"
| "code_node_status_value NNotExecuted = ''not_executed''"
| "code_node_status_value NUpstreamFailed = ''upstream_failed''"
| "code_node_status_value NOutcomeUnknown = ''outcome_unknown''"
| "code_node_status_value NAbandoned = ''abandoned''"
| "code_node_status_value NBatchLimitExceeded = ''batch_limit_exceeded''"
| "code_node_status_value NUserConfirmedSuccess = ''user_confirmed_success''"
| "code_node_status_value NUserConfirmedFailure = ''user_confirmed_failure''"

definition all_node_statuses :: "code_node_status list" where
  "all_node_statuses = [NPlanned, NStarted, NSucceeded, NFailed, NDenied, NInvalidArguments,
     NUnknownTool, NConflict, NTimedOut, NInterrupted, NCancelled, NNotExecuted, NUpstreamFailed,
     NOutcomeUnknown, NAbandoned, NBatchLimitExceeded, NUserConfirmedSuccess,
     NUserConfirmedFailure]"

definition code_node_status_of :: "string \<Rightarrow> code_node_status option" where
  "code_node_status_of v =
     map_of (map (\<lambda>s. (code_node_status_value s, s)) all_node_statuses) v"

lemma code_node_status_of_value [simp]: "code_node_status_of (code_node_status_value s) = Some s"
  by (cases s) (simp_all add: code_node_status_of_def all_node_statuses_def)

lemma code_node_status_value_inj [simp]:
  "code_node_status_value s = code_node_status_value s' \<longleftrightarrow> s = s'"
  by (metis code_node_status_of_value option.inject)

lemma set_all_node_statuses [simp]: "set all_node_statuses = UNIV"
  by (auto simp: all_node_statuses_def) (metis code_node_status.exhaust)

lemma distinct_all_node_statuses [simp]: "distinct all_node_statuses"
  by (simp add: all_node_statuses_def)

fun node_is_terminal :: "code_node_status \<Rightarrow> bool" where
  "node_is_terminal NPlanned = False"
| "node_is_terminal NStarted = False"
| "node_is_terminal _ = True"

lemma node_is_terminal_iff: "node_is_terminal s \<longleftrightarrow> s \<noteq> NPlanned \<and> s \<noteq> NStarted"
  by (cases s) auto

record code_run =
  cr_run_id :: string
  cr_turn_id :: string
  cr_parent_call_key :: string
  cr_description :: string
  cr_source_hash :: string
  cr_status :: code_run_status
  cr_node_ids :: "string list"
  cr_result :: "string option"

record code_node =
  cn_node_id :: string
  cn_run_id :: string
  cn_parent_call_key :: string
  cn_turn_id :: string
  cn_ordinal :: int
  cn_name :: string
  cn_arguments :: string
  cn_dependencies :: "string list"
  cn_status :: code_node_status
  cn_result :: "string option"
  cn_blocked_by :: "string list"
  cn_root_failures :: "string list"
  cn_requested_seq :: "int option"
  cn_started_seq :: "int option"
  cn_finished_seq :: "int option"

subsection \<open>The run summary\<close>

text \<open>The roots one node contributes: its recorded root failures, or itself when it failed.\<close>

definition root_candidates :: "code_node \<Rightarrow> string list" where
  "root_candidates node =
     (if cn_root_failures node \<noteq> [] then cn_root_failures node
      else if cn_status node \<notin> {NPlanned, NStarted, NSucceeded, NNotExecuted}
      then [cn_node_id node] else [])"

definition add_candidates :: "string list \<Rightarrow> string list \<Rightarrow> string list" where
  "add_candidates roots candidates =
     foldl (\<lambda>roots candidate. if candidate \<notin> set roots then roots @ [candidate] else roots)
       roots candidates"

definition root_failures_of :: "code_node list \<Rightarrow> string list" where
  "root_failures_of nodes =
     foldl (\<lambda>roots node. add_candidates roots (root_candidates node)) [] nodes"

definition count_status :: "code_node_status \<Rightarrow> code_node list \<Rightarrow> nat" where
  "count_status s nodes = length (filter (\<lambda>n. cn_status n = s) nodes)"

definition summarize :: "code_node list \<Rightarrow> mapping" where
  "summarize nodes =
     (''planned'', PInt (int (length nodes))) #
     (''started'', PInt (int (length (filter (\<lambda>n. cn_started_seq n \<noteq> None) nodes)))) #
     map (\<lambda>s. (code_node_status_value s, PInt (int (count_status s nodes))))
       (filter (\<lambda>s. s \<notin> {NPlanned, NStarted}) all_node_statuses) @
     [(''root_failures'', PList (map PStr (root_failures_of nodes)))]"

definition graph_summary ::
  "code_run dict \<Rightarrow> code_node dict \<Rightarrow> string \<Rightarrow> py_error + mapping" where
  "graph_summary runs code_nodes run_id =
     bindE (need (map_of runs run_id) (KeyError run_id)) (\<lambda>run.
     bindE (mapE (\<lambda>node_id. need (map_of code_nodes node_id) (KeyError node_id)) (cr_node_ids run))
       (\<lambda>nodes. Inr (summarize nodes)))"

lemma set_add_candidates: "set (add_candidates roots cs) = set roots \<union> set cs"
  by (induction cs arbitrary: roots) (auto simp: add_candidates_def)

lemma distinct_add_candidates: "distinct roots \<Longrightarrow> distinct (add_candidates roots cs)"
  by (induction cs arbitrary: roots) (auto simp: add_candidates_def)

lemma root_failures_of_gen:
  "set (foldl (\<lambda>roots node. add_candidates roots (root_candidates node)) rs nodes) =
     set rs \<union> (\<Union>n \<in> set nodes. set (root_candidates n)) \<and>
   (distinct rs \<longrightarrow>
     distinct (foldl (\<lambda>roots node. add_candidates roots (root_candidates node)) rs nodes))"
  by (induction nodes arbitrary: rs) (auto simp: set_add_candidates distinct_add_candidates)

lemma set_root_failures_of: "set (root_failures_of nodes) = (\<Union>n \<in> set nodes. set (root_candidates n))"
  using root_failures_of_gen [of "[]" nodes] by (simp add: root_failures_of_def)

lemma distinct_root_failures_of: "distinct (root_failures_of nodes)"
  using root_failures_of_gen [of "[]" nodes] by (simp add: root_failures_of_def)

lemma sum_count_statuses: "(\<Sum>s \<leftarrow> all_node_statuses. count_status s nodes) = length nodes"
proof (induction nodes)
  case Nil
  show ?case by (simp add: count_status_def all_node_statuses_def)
next
  case (Cons n nodes)
  have "(\<Sum>s \<leftarrow> all_node_statuses. count_status s (n # nodes)) =
      (\<Sum>s \<leftarrow> all_node_statuses. (if cn_status n = s then 1 else 0) + count_status s nodes)"
    by (intro arg_cong [of _ _ sum_list] map_cong refl) (simp add: count_status_def)
  also have "\<dots> = 1 + (\<Sum>s \<leftarrow> all_node_statuses. count_status s nodes)"
    by (cases "cn_status n") (simp_all add: all_node_statuses_def)
  finally show ?case using Cons by simp
qed

definition terminal_counters :: "code_node list \<Rightarrow> nat" where
  "terminal_counters nodes =
     (\<Sum>s \<leftarrow> filter (\<lambda>s. s \<notin> {NPlanned, NStarted}) all_node_statuses. count_status s nodes)"

lemma terminal_counters_eq:
  "terminal_counters nodes = length (filter (\<lambda>n. node_is_terminal (cn_status n)) nodes)"
proof -
  have split: "length nodes = count_status NPlanned nodes + count_status NStarted nodes +
      terminal_counters nodes"
    by (subst sum_count_statuses [symmetric])
       (simp add: terminal_counters_def all_node_statuses_def)
  have "length nodes = count_status NPlanned nodes + count_status NStarted nodes +
      length (filter (\<lambda>n. node_is_terminal (cn_status n)) nodes)"
    by (induction nodes) (auto simp: count_status_def node_is_terminal_iff)
  with split show ?thesis by simp
qed


definition example_node :: "string \<Rightarrow> int \<Rightarrow> code_node_status \<Rightarrow> string list \<Rightarrow> code_node" where
  "example_node i n s roots = \<lparr>cn_node_id = i, cn_run_id = ''r'', cn_parent_call_key = ''k'',
     cn_turn_id = ''t'', cn_ordinal = n, cn_name = ''bash'', cn_arguments = ''{}'',
     cn_dependencies = [], cn_status = s, cn_result = None, cn_blocked_by = [],
     cn_root_failures = roots, cn_requested_seq = Some 1, cn_started_seq = None,
     cn_finished_seq = None\<rparr>"

definition example_run :: code_run where
  "example_run = \<lparr>cr_run_id = ''r'', cr_turn_id = ''t'', cr_parent_call_key = ''k'',
     cr_description = ''d'', cr_source_hash = ''h'', cr_status = RunActive,
     cr_node_ids = [''a'', ''b''], cr_result = None\<rparr>"


subsection \<open>Overlapping executions\<close>

text \<open>An unfinished node's end is infinite: \<open>None\<close> here.\<close>

definition before_end :: "int \<Rightarrow> int option \<Rightarrow> bool" where
  "before_end s e = (case e of None \<Rightarrow> True | Some f \<Rightarrow> s < f)"

definition execution_intervals_overlap :: "code_node \<Rightarrow> code_node \<Rightarrow> bool" where
  "execution_intervals_overlap first second =
     (case (cn_started_seq first, cn_started_seq second) of
        (Some s1, Some s2) \<Rightarrow>
          before_end s1 (cn_finished_seq second) \<and> before_end s2 (cn_finished_seq first)
      | _ \<Rightarrow> False)"

definition has_unordered_shell_mutation :: "code_node list \<Rightarrow> bool" where
  "has_unordered_shell_mutation nodes =
     (let shells = filter (\<lambda>n. cn_name n = ''bash'') nodes;
          mutations = filter (\<lambda>n. cn_name n \<in> {''write_file'', ''edit_file''}) nodes
      in list_ex (\<lambda>shell. list_ex (\<lambda>mutation. execution_intervals_overlap shell mutation) mutations)
           shells)"

text \<open>A node is executing at an event when it has started and not yet finished there.\<close>

definition executing_at :: "code_node \<Rightarrow> int \<Rightarrow> bool" where
  "executing_at n x \<longleftrightarrow> (\<exists>s. cn_started_seq n = Some s \<and> s \<le> x \<and> before_end x (cn_finished_seq n))"

definition interval_ok :: "code_node \<Rightarrow> bool" where
  "interval_ok n \<longleftrightarrow> (\<forall>s f. cn_started_seq n = Some s \<longrightarrow> cn_finished_seq n = Some f \<longrightarrow> s < f)"

lemma overlap_iff_common:
  assumes "interval_ok a" "interval_ok b"
  shows "execution_intervals_overlap a b \<longleftrightarrow> (\<exists>x. executing_at a x \<and> executing_at b x)"
proof
  assume "execution_intervals_overlap a b"
  then obtain s1 s2 where s: "cn_started_seq a = Some s1" "cn_started_seq b = Some s2"
    "before_end s1 (cn_finished_seq b)" "before_end s2 (cn_finished_seq a)"
    by (auto simp: execution_intervals_overlap_def split: option.splits)
  with assms have "executing_at a (max s1 s2) \<and> executing_at b (max s1 s2)"
    by (auto simp: executing_at_def interval_ok_def before_end_def max_def split: option.splits)
  then show "\<exists>x. executing_at a x \<and> executing_at b x" by blast
next
  assume "\<exists>x. executing_at a x \<and> executing_at b x"
  then show "execution_intervals_overlap a b"
    by (auto simp: executing_at_def execution_intervals_overlap_def before_end_def
        split: option.splits)
qed

text \<open>
  C28. The shell-mutation warning is exact: when every finished node finished after it
  started, the warning is raised if and only if at some event a \<open>bash\<close> node and a
  \<open>write_file\<close> or \<open>edit_file\<close> node were executing at the same time.
\<close>

theorem shell_mutation_warning_exact:
  assumes "\<forall>n \<in> set nodes. interval_ok n"
  shows "has_unordered_shell_mutation nodes \<longleftrightarrow>
    (\<exists>shell \<in> set nodes. \<exists>mutation \<in> set nodes. \<exists>x. cn_name shell = ''bash'' \<and>
       cn_name mutation \<in> {''write_file'', ''edit_file''} \<and>
       executing_at shell x \<and> executing_at mutation x)"
  using assms by (fastforce simp: has_unordered_shell_mutation_def list_ex_iff overlap_iff_common)

theorem shell_mutation_warning_exact_witness:
  "interval_ok (example_node ''a'' 1 NStarted []\<lparr>cn_started_seq := Some 3\<rparr>) \<and>
   has_unordered_shell_mutation
     [example_node ''a'' 1 NStarted []\<lparr>cn_started_seq := Some 3\<rparr>,
      example_node ''b'' 2 NSucceeded []\<lparr>cn_name := ''write_file'', cn_started_seq := Some 2,
        cn_finished_seq := Some 5\<rparr>] \<and>
   executing_at (example_node ''a'' 1 NStarted []\<lparr>cn_started_seq := Some 3\<rparr>) 4"
  by (subst shell_mutation_warning_exact)
     (auto simp: interval_ok_def example_node_def executing_at_def before_end_def
       intro!: exI [of _ "3::int"])

end
