(* ===== verification/FileVersions.thy ===== *)
theory FileVersions
  imports PyPrelude
begin

section \<open>Whole-file versions and mutation turns (file_versions.py)\<close>

text \<open>
  A \<open>FileVersion\<close> identifies one state of one file and is what a prepared write is
  compared against when it commits. \<open>capture_file_version\<close> is modelled over the answers
  of the operating system (the open, the two \<open>fstat\<close>s, the chunks each \<open>read\<close>
  returns, the final \<open>stat\<close> by name); SHA-256 is an argument. \<open>_turn\<close>, the FIFO
  ticket queue that serialises commits to one path, is a transition system with one
  operation per critical section of the source.
\<close>

subsection \<open>FileVersion\<close>

record file_version =
  fv_exists :: bool
  fv_sha256 :: "string option"
  fv_mode :: "int option"
  fv_size :: "int option"
  fv_device :: "int option"
  fv_inode :: "int option"
  fv_mtime_ns :: "int option"
  fv_ctime_ns :: "int option"

definition absent :: file_version where
  "absent = \<lparr>fv_exists = False, fv_sha256 = None, fv_mode = None, fv_size = None,
     fv_device = None, fv_inode = None, fv_mtime_ns = None, fv_ctime_ns = None\<rparr>"

definition permission_bits :: "int \<Rightarrow> bool" where
  "permission_bits m \<longleftrightarrow> 0 \<le> m \<and> m \<le> 4095" \<comment> \<open>0o7777\<close>

definition non_negative :: "pyval \<Rightarrow> py_error + int" where
  "non_negative v =
     bindE (need (as_int v) (ValueError ''an existing file version requires a non-negative field''))
       (\<lambda>i. raise_if (i < 0) (ValueError ''an existing file version requires a non-negative field'')
         (Inr i))"

text \<open>The constructor, with the checks of \<open>__post_init__\<close> on the values it is given.\<close>

definition mk_file_version ::
  "pyval \<Rightarrow> pyval \<Rightarrow> pyval \<Rightarrow> pyval \<Rightarrow> pyval \<Rightarrow> pyval \<Rightarrow> pyval \<Rightarrow> pyval \<Rightarrow> py_error + file_version" where
  "mk_file_version existing sha mode bytes dev ino mtime ctime =
     bindE (need (as_bool existing) (ValueError ''exists must be a boolean'')) (\<lambda>e.
     if \<not> e then
       raise_if (\<exists>v \<in> set [sha, mode, bytes, dev, ino, mtime, ctime]. v \<noteq> PNone)
         (ValueError ''an absent file version has no metadata'') (Inr absent)
     else
       bindE (need (as_str sha) (ValueError ''an existing file version requires sha256'')) (\<lambda>h.
       raise_if (h = []) (ValueError ''an existing file version requires sha256'') (
       bindE (need (as_int mode) (ValueError ''an existing file version requires permission bits'')) (\<lambda>m.
       raise_if (\<not> permission_bits m)
         (ValueError ''an existing file version requires permission bits'') (
       bindE (non_negative bytes) (\<lambda>sz.
       bindE (non_negative dev) (\<lambda>d.
       bindE (non_negative ino) (\<lambda>i.
       bindE (non_negative mtime) (\<lambda>mt.
       bindE (non_negative ctime) (\<lambda>ct.
       Inr \<lparr>fv_exists = True, fv_sha256 = Some h, fv_mode = Some m, fv_size = Some sz,
            fv_device = Some d, fv_inode = Some i, fv_mtime_ns = Some mt,
            fv_ctime_ns = Some ct\<rparr>))))))))))"

definition file_version_fields :: "string set" where
  "file_version_fields = {''exists'', ''sha256'', ''mode'', ''size'', ''device'', ''inode'',
     ''mtime_ns'', ''ctime_ns''}"

definition file_version_from_dict :: "pyval \<Rightarrow> py_error + file_version" where
  "file_version_from_dict value =
     bindE (need (as_map value) (ValueError ''file version must be an object'')) (\<lambda>d.
     raise_if (fields_of d \<noteq> file_version_fields) (ValueError ''file version fields mismatch'') (
     mk_file_version (get d ''exists'') (get d ''sha256'') (get d ''mode'') (get d ''size'')
       (get d ''device'') (get d ''inode'') (get d ''mtime_ns'') (get d ''ctime_ns'')))"

definition file_version_to_dict :: "file_version \<Rightarrow> pyval" where
  "file_version_to_dict v = PDict
     [(''exists'', PBool (fv_exists v)), (''sha256'', opt_str (fv_sha256 v)),
      (''mode'', opt_int (fv_mode v)), (''size'', opt_int (fv_size v)),
      (''device'', opt_int (fv_device v)), (''inode'', opt_int (fv_inode v)),
      (''mtime_ns'', opt_int (fv_mtime_ns v)), (''ctime_ns'', opt_int (fv_ctime_ns v))]"

definition nonneg_field :: "int option \<Rightarrow> bool" where
  "nonneg_field x \<longleftrightarrow> (\<exists>i. x = Some i \<and> 0 \<le> i)"

definition file_version_ok :: "file_version \<Rightarrow> bool" where
  "file_version_ok v \<longleftrightarrow>
     (if fv_exists v then
        (\<exists>h. fv_sha256 v = Some h \<and> h \<noteq> []) \<and> (\<exists>m. fv_mode v = Some m \<and> permission_bits m) \<and>
        nonneg_field (fv_size v) \<and> nonneg_field (fv_device v) \<and> nonneg_field (fv_inode v) \<and>
        nonneg_field (fv_mtime_ns v) \<and> nonneg_field (fv_ctime_ns v)
      else v = absent)"

lemma non_negative_Inr [simp]: "non_negative v = Inr i \<longleftrightarrow> v = PInt i \<and> 0 \<le> i"
  by (auto simp: non_negative_def succ_simps)

lemma mk_file_version_ok: "mk_file_version a b c d e f g h = Inr v \<Longrightarrow> file_version_ok v"
  by (auto simp: mk_file_version_def file_version_ok_def nonneg_field_def succ_simps absent_def
      split: if_splits)

lemma file_version_from_dict_ok: "file_version_from_dict x = Inr v \<Longrightarrow> file_version_ok v"
  by (auto simp: file_version_from_dict_def succ_simps dest: mk_file_version_ok)

text \<open>
  C26. A file version survives being persisted: \<open>from_dict(to_dict(v)) == v\<close> for every
  version the constructor can build, and \<open>from_dict\<close> accepts nothing else.
\<close>

theorem file_version_roundtrip:
  "file_version_from_dict (file_version_to_dict v) = Inr v \<longleftrightarrow> file_version_ok v"
proof
  assume "file_version_from_dict (file_version_to_dict v) = Inr v"
  then show "file_version_ok v" by (rule file_version_from_dict_ok)
next
  assume ok: "file_version_ok v"
  have fields: "fields_of (the (as_map (file_version_to_dict v))) = file_version_fields"
    by (auto simp: file_version_to_dict_def fields_of_def file_version_fields_def)
  show "file_version_from_dict (file_version_to_dict v) = Inr v"
  proof (cases "fv_exists v")
    case True
    with ok fields show ?thesis
      by (auto simp: file_version_ok_def nonneg_field_def file_version_from_dict_def succ_simps
          file_version_to_dict_def mk_file_version_def get_def get_or_def opt_str_def opt_int_def)
  next
    case False
    with ok have "v = absent" by (simp add: file_version_ok_def)
    with fields show ?thesis
      by (auto simp: absent_def file_version_from_dict_def file_version_to_dict_def
          mk_file_version_def get_def get_or_def opt_str_def opt_int_def succ_simps)
  qed
qed

subsection \<open>Capturing a version\<close>

record stat_result =
  st_mode :: nat
  st_size :: int
  st_dev :: int
  st_ino :: int
  st_mtime_ns :: int
  st_ctime_ns :: int

definition s_imode :: "nat \<Rightarrow> int" where
  "s_imode mode = int (mode mod 4096)"

definition s_isreg :: "nat \<Rightarrow> bool" where
  "s_isreg mode \<longleftrightarrow> (mode div 4096) mod 16 = 8"

definition stat_identity :: "stat_result \<Rightarrow> int \<times> int \<times> int \<times> int \<times> int \<times> int" where
  "stat_identity v = (st_dev v, st_ino v, st_size v, s_imode (st_mode v), st_mtime_ns v, st_ctime_ns v)"

text \<open>\<open>os.open\<close> finds nothing, fails, or gives a descriptor with what it will answer.\<close>

record descriptor =
  fstat_before :: stat_result
  read_answers :: "string list"
  fstat_after :: stat_result
  stat_by_name :: "stat_result option"

datatype open_answer = OpenNotFound | OpenFailed | OpenOk descriptor

text \<open>The read loop: at most \<open>remaining\<close> bytes, until a read returns nothing.\<close>

fun read_loop :: "nat \<Rightarrow> string list \<Rightarrow> string" where
  "read_loop remaining [] = []"
| "read_loop remaining (answer # answers) =
     (let chunk = take (min 65536 remaining) answer in
      if remaining = 0 \<or> chunk = [] then []
      else chunk @ read_loop (remaining - length chunk) answers)"

definition capture_file_version ::
  "(string \<Rightarrow> string) \<Rightarrow> nat \<Rightarrow> open_answer \<Rightarrow> py_error + file_version \<times> string" where
  "capture_file_version sha256 max_file_bytes opened = (case opened of
     OpenNotFound \<Rightarrow> Inr (absent, [])
   | OpenFailed \<Rightarrow> Inl (FileVersionError ''cannot open file version'')
   | OpenOk d \<Rightarrow>
       raise_if (\<not> s_isreg (st_mode (fstat_before d)))
         (FileVersionError ''path is not a regular file'') (
       raise_if (st_size (fstat_before d) > int max_file_bytes)
         (FileVersionError ''file exceeds size limit'') (
       let content = read_loop (max_file_bytes + 1) (read_answers d) in
       raise_if (length content > max_file_bytes) (FileVersionError ''file exceeds size limit'') (
       raise_if (stat_identity (fstat_before d) \<noteq> stat_identity (fstat_after d) \<or>
                 st_size (fstat_after d) \<noteq> int (length content))
         (FileVersionError ''file changed while capturing version'') (
       bindE (need (stat_by_name d) (FileVersionError ''file changed while capturing version''))
         (\<lambda>named.
       raise_if ((st_dev named, st_ino named) \<noteq> (st_dev (fstat_after d), st_ino (fstat_after d)))
         (FileVersionError ''file changed while capturing version'') (
       bindE (mk_file_version (PBool True) (PStr (sha256 content))
           (PInt (s_imode (st_mode (fstat_after d)))) (PInt (int (length content)))
           (PInt (st_dev (fstat_after d))) (PInt (st_ino (fstat_after d)))
           (PInt (st_mtime_ns (fstat_after d))) (PInt (st_ctime_ns (fstat_after d)))) (\<lambda>v.
       Inr (v, content)))))))))"

lemma read_loop_length: "length (read_loop n as) \<le> n"
proof (induction n as rule: read_loop.induct)
  case (2 n a as)
  then show ?case by (auto simp: Let_def min_def)
qed simp

lemma s_imode_bits [simp]: "permission_bits (s_imode m)"
proof -
  have "m mod 4096 < 4096" by simp
  then have "int (m mod 4096) \<le> 4095" by linarith
  then show ?thesis by (simp add: permission_bits_def s_imode_def)
qed

text \<open>
  C25. A captured version describes the bytes that are returned with it: it is well formed;
  a missing file yields the absent version and no bytes; otherwise hash and size are those
  of the bytes, the size limit is respected, and the descriptor, before and after the read,
  and the path still named the same regular file with the same metadata.
\<close>

theorem capture_file_version_sound:
  assumes "capture_file_version sha256 limit opened = Inr (v, content)"
  shows "file_version_ok v \<and>
    (case opened of OpenNotFound \<Rightarrow> v = absent \<and> content = []
     | OpenFailed \<Rightarrow> False
     | OpenOk d \<Rightarrow> fv_exists v \<and> s_isreg (st_mode (fstat_before d)) \<and>
         fv_sha256 v = Some (sha256 content) \<and> fv_size v = Some (int (length content)) \<and>
         length content \<le> limit \<and> stat_identity (fstat_before d) = stat_identity (fstat_after d) \<and>
         (\<exists>n. stat_by_name d = Some n \<and>
            fv_device v = Some (st_dev n) \<and> fv_inode v = Some (st_ino n)))"
proof (cases opened)
  case OpenNotFound
  with assms show ?thesis by (auto simp: capture_file_version_def file_version_ok_def absent_def)
next
  case OpenFailed
  with assms show ?thesis by (simp add: capture_file_version_def)
next
  case (OpenOk d)
  with assms show ?thesis
    by (auto simp: capture_file_version_def succ_simps Let_def dest: mk_file_version_ok)
       (auto simp: mk_file_version_def succ_simps)
qed

theorem capture_file_version_sound_witness:
  "capture_file_version (\<lambda>_. ''h'') 4 (OpenOk
     \<lparr>fstat_before = \<lparr>st_mode = 33188, st_size = 2, st_dev = 1, st_ino = 7, st_mtime_ns = 5,
        st_ctime_ns = 5\<rparr>,
      read_answers = [''ab''],
      fstat_after = \<lparr>st_mode = 33188, st_size = 2, st_dev = 1, st_ino = 7, st_mtime_ns = 5,
        st_ctime_ns = 5\<rparr>,
      stat_by_name = Some \<lparr>st_mode = 33188, st_size = 2, st_dev = 1, st_ino = 7, st_mtime_ns = 5,
        st_ctime_ns = 5\<rparr>\<rparr>) =
   Inr (\<lparr>fv_exists = True, fv_sha256 = Some ''h'', fv_mode = Some 420, fv_size = Some 2,
      fv_device = Some 1, fv_inode = Some 7, fv_mtime_ns = Some 5, fv_ctime_ns = Some 5\<rparr>, ''ab'')
   \<and> file_version_ok \<lparr>fv_exists = True, fv_sha256 = Some ''h'', fv_mode = Some 420,
      fv_size = Some 2, fv_device = Some 1, fv_inode = Some 7, fv_mtime_ns = Some 5,
      fv_ctime_ns = Some 5\<rparr>" (is "?run = Inr (?v, _) \<and> _")
proof -
  have run: "?run = Inr (?v, ''ab'')"
    by (simp add: capture_file_version_def s_isreg_def s_imode_def stat_identity_def
        mk_file_version_def permission_bits_def non_negative_def)
  then show ?thesis using capture_file_version_sound [OF run] by simp
qed

subsection \<open>FIFO turns on a path\<close>

text \<open>
  \<open>FileMutationCoordinator._turn\<close>. The heap of \<open>_PathQueue\<close> objects is \<open>queues\<close>,
  addressed by numbers; \<open>queue_at\<close> is the dictionary \<open>_paths\<close>. A thread passes through
  the critical sections of the source one at a time: it registers as a user
  (\<open>turn_join\<close>), draws a ticket (\<open>turn_take\<close>), leaves the wait loop when its ticket is
  served (\<open>turn_enter\<close>), runs the mutation, advances \<open>serving\<close> (\<open>turn_release\<close>) and
  unregisters, dropping the queue with its last user (\<open>turn_leave\<close>).
\<close>

record path_queue =
  next_ticket :: nat
  serving :: nat
  users :: nat

datatype phase =
    Outside
  | Joined string nat
  | Waiting string nat nat
  | Inside string nat nat
  | Leaving string nat

record coordinator =
  queues :: "nat \<Rightarrow> path_queue"
  next_object :: nat
  queue_at :: "string \<Rightarrow> nat option"
  phase_of :: "nat \<Rightarrow> phase"

definition coordinator_init :: coordinator where
  "coordinator_init = \<lparr>queues = (\<lambda>_. \<lparr>next_ticket = 0, serving = 0, users = 0\<rparr>),
     next_object = 0, queue_at = (\<lambda>_. None), phase_of = (\<lambda>_. Outside)\<rparr>"

definition turn_join :: "coordinator \<Rightarrow> nat \<Rightarrow> string \<Rightarrow> coordinator" where
  "turn_join c t path = (case queue_at c path of
     None \<Rightarrow>
       c\<lparr>queues := (queues c)(next_object c := \<lparr>next_ticket = 0, serving = 0, users = 1\<rparr>),
         next_object := next_object c + 1,
         queue_at := (queue_at c)(path \<mapsto> next_object c),
         phase_of := (phase_of c)(t := Joined path (next_object c))\<rparr>
   | Some q \<Rightarrow>
       c\<lparr>queues := (queues c)(q := (queues c q)\<lparr>users := users (queues c q) + 1\<rparr>),
         phase_of := (phase_of c)(t := Joined path q)\<rparr>)"

definition turn_take :: "coordinator \<Rightarrow> nat \<Rightarrow> string \<Rightarrow> nat \<Rightarrow> coordinator" where
  "turn_take c t path q =
     c\<lparr>queues := (queues c)(q := (queues c q)\<lparr>next_ticket := next_ticket (queues c q) + 1\<rparr>),
       phase_of := (phase_of c)(t := Waiting path q (next_ticket (queues c q)))\<rparr>"

definition turn_enter :: "coordinator \<Rightarrow> nat \<Rightarrow> string \<Rightarrow> nat \<Rightarrow> nat \<Rightarrow> coordinator" where
  "turn_enter c t path q k = c\<lparr>phase_of := (phase_of c)(t := Inside path q k)\<rparr>"

definition turn_release :: "coordinator \<Rightarrow> nat \<Rightarrow> string \<Rightarrow> nat \<Rightarrow> coordinator" where
  "turn_release c t path q =
     c\<lparr>queues := (queues c)(q := (queues c q)\<lparr>serving := serving (queues c q) + 1\<rparr>),
       phase_of := (phase_of c)(t := Leaving path q)\<rparr>"

definition turn_leave :: "coordinator \<Rightarrow> nat \<Rightarrow> string \<Rightarrow> nat \<Rightarrow> coordinator" where
  "turn_leave c t path q =
     (let left = users (queues c q) - 1 in
      c\<lparr>queues := (queues c)(q := (queues c q)\<lparr>users := left\<rparr>),
        queue_at := (if left = 0 \<and> queue_at c path = Some q
                     then (queue_at c)(path := None) else queue_at c),
        phase_of := (phase_of c)(t := Outside)\<rparr>)"

inductive turn_step :: "coordinator \<Rightarrow> coordinator \<Rightarrow> bool" where
  join: "phase_of c t = Outside \<Longrightarrow> turn_step c (turn_join c t path)"
| take_ticket: "phase_of c t = Joined path q \<Longrightarrow> turn_step c (turn_take c t path q)"
| enter: "phase_of c t = Waiting path q k \<Longrightarrow> k = serving (queues c q) \<Longrightarrow>
    turn_step c (turn_enter c t path q k)"
| release: "phase_of c t = Inside path q k \<Longrightarrow> turn_step c (turn_release c t path q)"
| leave: "phase_of c t = Leaving path q \<Longrightarrow> turn_step c (turn_leave c t path q)"

inductive turns_reachable :: "coordinator \<Rightarrow> bool" where
  turns_start: "turns_reachable coordinator_init"
| turns_step: "turns_reachable c \<Longrightarrow> turn_step c c' \<Longrightarrow> turns_reachable c'"

text \<open>The queue a thread is registered with, the path it asked for and its ticket.\<close>

fun registered :: "phase \<Rightarrow> (string \<times> nat) option" where
  "registered Outside = None"
| "registered (Joined p q) = Some (p, q)"
| "registered (Waiting p q _) = Some (p, q)"
| "registered (Inside p q _) = Some (p, q)"
| "registered (Leaving p q) = Some (p, q)"

fun ticket :: "phase \<Rightarrow> (nat \<times> nat) option" where
  "ticket (Waiting _ q k) = Some (q, k)"
| "ticket (Inside _ q k) = Some (q, k)"
| "ticket _ = None"

definition users_of :: "coordinator \<Rightarrow> nat \<Rightarrow> nat set" where
  "users_of c q = {t. \<exists>p. registered (phase_of c t) = Some (p, q)}"

definition paths_inv :: "coordinator \<Rightarrow> bool" where
  "paths_inv c \<longleftrightarrow>
     (\<forall>p q. queue_at c p = Some q \<longrightarrow> q < next_object c) \<and>
     (\<forall>p p' q. queue_at c p = Some q \<longrightarrow> queue_at c p' = Some q \<longrightarrow> p = p') \<and>
     (\<forall>t p q. registered (phase_of c t) = Some (p, q) \<longrightarrow> queue_at c p = Some q)"

definition users_inv :: "coordinator \<Rightarrow> bool" where
  "users_inv c \<longleftrightarrow> (\<forall>q. finite (users_of c q) \<and>
     (q < next_object c \<longrightarrow> users (queues c q) = card (users_of c q)))"

definition tickets_inv :: "coordinator \<Rightarrow> bool" where
  "tickets_inv c \<longleftrightarrow>
     (\<forall>q < next_object c. serving (queues c q) \<le> next_ticket (queues c q)) \<and>
     (\<forall>q k. (\<exists>t. ticket (phase_of c t) = Some (q, k)) \<longleftrightarrow>
        q < next_object c \<and> serving (queues c q) \<le> k \<and> k < next_ticket (queues c q)) \<and>
     (\<forall>t t' x. ticket (phase_of c t) = Some x \<longrightarrow> ticket (phase_of c t') = Some x \<longrightarrow> t = t') \<and>
     (\<forall>t p q k. phase_of c t = Inside p q k \<longrightarrow> k = serving (queues c q))"

definition turns_inv :: "coordinator \<Rightarrow> bool" where
  "turns_inv c \<longleftrightarrow> paths_inv c \<and> users_inv c \<and> tickets_inv c"

lemma users_of_upd:
  "users_of (c\<lparr>phase_of := (phase_of c)(t := ph)\<rparr>) q =
     (if \<exists>p. registered ph = Some (p, q) then insert t (users_of c q) else users_of c q - {t})"
  by (auto simp: users_of_def)

lemma users_of_cong: "phase_of c = phase_of c' \<Longrightarrow> users_of c = users_of c'"
  by (simp add: users_of_def fun_eq_iff)

lemma registered_q: "paths_inv c \<Longrightarrow> registered (phase_of c t) = Some (p, q) \<Longrightarrow>
  queue_at c p = Some q \<and> q < next_object c"
  unfolding paths_inv_def by blast

lemma registered_same_path:
  "paths_inv c \<Longrightarrow> registered (phase_of c t) = Some (p, q) \<Longrightarrow>
   registered (phase_of c t') = Some (p', q) \<Longrightarrow> p = p'"
  unfolding paths_inv_def by blast

lemma ticket_registered: "ticket ph = Some (q, k) \<Longrightarrow> \<exists>p. registered ph = Some (p, q)"
  by (cases ph) auto

text \<open>A step that only moves a thread between phases of one queue keeps its users.\<close>

lemma users_inv_move:
  assumes "users_inv c" "registered (phase_of c t) = registered ph"
    "\<And>q. users (qs q) = users (queues c q)"
  shows "users_inv (c\<lparr>queues := qs, phase_of := (phase_of c)(t := ph)\<rparr>)"
proof -
  have "users_of (c\<lparr>queues := qs, phase_of := (phase_of c)(t := ph)\<rparr>) q = users_of c q" for q
    using assms(2) by (auto simp: users_of_def) metis
  with assms show ?thesis by (simp add: users_inv_def)
qed

lemma paths_inv_move:
  assumes "paths_inv c" "registered (phase_of c t) = registered ph"
  shows "paths_inv (c\<lparr>queues := qs, phase_of := (phase_of c)(t := ph)\<rparr>)"
  using assms unfolding paths_inv_def by auto

lemma ex_phase_upd:
  "(\<exists>u. P ((f(t := ph)) u)) \<longleftrightarrow> P ph \<or> (\<exists>u. u \<noteq> t \<and> P (f u))"
  by (metis fun_upd_apply)

lemma ex_ticket_upd:
  assumes "ticket (f t) = None"
  shows "(\<exists>u. ticket ((f(t := ph)) u) = Some x) \<longleftrightarrow>
    ticket ph = Some x \<or> (\<exists>u. ticket (f u) = Some x)"
proof -
  have "(\<exists>u. u \<noteq> t \<and> ticket (f u) = Some x) \<longleftrightarrow> (\<exists>u. ticket (f u) = Some x)"
    using assms by (metis option.distinct(1))
  then show ?thesis by (simp only: ex_phase_upd [of "\<lambda>y. ticket y = Some x"])
qed

lemma turn_join_paths:
  assumes "paths_inv c" "phase_of c t = Outside"
  shows "paths_inv (turn_join c t p)"
proof (cases "queue_at c p")
  case None
  have "queue_at c p' = Some (next_object c) \<Longrightarrow> False" for p'
    using assms(1) unfolding paths_inv_def by blast
  with None assms show ?thesis
    unfolding paths_inv_def turn_join_def by (auto simp: less_Suc_eq)
next
  case (Some q)
  with assms show ?thesis unfolding paths_inv_def turn_join_def by simp
qed

lemma turn_join_users:
  assumes "paths_inv c" "users_inv c" "phase_of c t = Outside"
  shows "users_inv (turn_join c t p)"
proof (cases "queue_at c p")
  case None
  have "users_of c (next_object c) = {}"
    using assms(1) by (force simp: users_of_def dest: registered_q)
  moreover have "users_of (turn_join c t p) q =
      (if q = next_object c then insert t (users_of c q) else users_of c q)" for q
    using None assms(3) by (auto simp: users_of_def turn_join_def)
  ultimately show ?thesis
    using None assms(2) by (auto simp: users_inv_def turn_join_def less_Suc_eq)
next
  case (Some q)
  have "users_of (turn_join c t p) q' =
      (if q' = q then insert t (users_of c q') else users_of c q')" for q'
    using Some assms(3) by (auto simp: users_of_def turn_join_def)
  moreover have "t \<notin> users_of c q"
    using assms(3) by (simp add: users_of_def)
  ultimately show ?thesis
    using Some assms(2) by (auto simp: users_inv_def turn_join_def)
qed

lemma tickets_invI:
  assumes "\<And>q. q < next_object c \<Longrightarrow> serving (queues c q) \<le> next_ticket (queues c q)"
    "\<And>q k. (\<exists>t. ticket (phase_of c t) = Some (q, k)) \<longleftrightarrow>
        q < next_object c \<and> serving (queues c q) \<le> k \<and> k < next_ticket (queues c q)"
    "\<And>t t' x. ticket (phase_of c t) = Some x \<Longrightarrow> ticket (phase_of c t') = Some x \<Longrightarrow> t = t'"
    "\<And>t p q k. phase_of c t = Inside p q k \<Longrightarrow> k = serving (queues c q)"
  shows "tickets_inv c"
  using assms unfolding tickets_inv_def by blast

lemma tickets_invD:
  assumes "tickets_inv c"
  shows "q < next_object c \<Longrightarrow> serving (queues c q) \<le> next_ticket (queues c q)"
    "(\<exists>t. ticket (phase_of c t) = Some (q, k)) \<longleftrightarrow>
        q < next_object c \<and> serving (queues c q) \<le> k \<and> k < next_ticket (queues c q)"
    "ticket (phase_of c t) = Some x \<Longrightarrow> ticket (phase_of c t') = Some x \<Longrightarrow> t = t'"
    "phase_of c t = Inside p q k \<Longrightarrow> k = serving (queues c q)"
  using assms unfolding tickets_inv_def by blast+

lemma ticket_range:
  assumes "tickets_inv c" "ticket (phase_of c t) = Some (q, k)"
  shows "q < next_object c" "serving (queues c q) \<le> k" "k < next_ticket (queues c q)"
  using tickets_invD(2) [OF assms(1), of q k] assms(2) by blast+

lemma turn_join_tickets:
  assumes "tickets_inv c" "paths_inv c" "phase_of c t = Outside"
  shows "tickets_inv (turn_join c t p)"
proof -
  note inv = tickets_invD [OF assms(1)]
  have none: "ticket (phase_of c t) = None" using assms(3) by simp
  note ex = ex_ticket_upd [where f = "phase_of c" and t = t, OF none]
  have below: "queue_at c p' = Some q \<Longrightarrow> q < next_object c" for p' q
    using assms(2) unfolding paths_inv_def by blast
  have in_q: "phase_of c u = Inside p' q k \<Longrightarrow> q < next_object c" for u p' q k
    using registered_q [OF assms(2), of u p' q] by simp
  show ?thesis
  proof (rule tickets_invI, goal_cases)
    case (2 q k)
    show ?case
      by (cases "queue_at c p")
        (auto simp: turn_join_def ex inv(2) less_Suc_eq simp del: fun_upd_apply,
          auto split: if_splits)
  next
    case (3 u v x)
    then show ?case using inv(3)
      by (cases "queue_at c p") (auto simp: turn_join_def split: if_splits)
  qed (auto simp: turn_join_def less_Suc_eq inv(1) dest: inv(4) in_q below
      split: if_splits option.splits)
qed

lemma turn_take_tickets:
  assumes "tickets_inv c" "paths_inv c" "phase_of c t = Joined p q"
  shows "tickets_inv (turn_take c t p q)"
proof -
  note inv = tickets_invD [OF assms(1)]
  have none: "ticket (phase_of c t) = None" using assms(3) by simp
  note ex = ex_ticket_upd [where f = "phase_of c" and t = t, OF none]
  have q: "q < next_object c" using registered_q [OF assms(2), of t] assms(3) by simp
  show ?thesis
  proof (rule tickets_invI, goal_cases)
    case (2 q' k)
    show ?case using q inv(1) [OF q]
      by (auto simp: turn_take_def ex inv(2) less_Suc_eq simp del: fun_upd_apply)
         (auto simp: fun_upd_apply less_Suc_eq split: if_splits)
  next
    case (3 u v x)
    then show ?case using inv(3) [of u x v] ticket_range(3) [OF assms(1)]
      by (cases x) (auto simp: turn_take_def split: if_splits)
  qed (auto simp: turn_take_def le_Suc_eq inv(1) dest: inv(4) split: if_splits)
qed

lemma turn_enter_tickets:
  assumes "tickets_inv c" "phase_of c t = Waiting p q k" "k = serving (queues c q)"
  shows "tickets_inv (turn_enter c t p q k)"
proof -
  note inv = tickets_invD [OF assms(1)]
  have same: "ticket (phase_of (turn_enter c t p q k) u) = ticket (phase_of c u)" for u
    using assms(2) by (simp add: turn_enter_def)
  show ?thesis
  proof (rule tickets_invI, goal_cases)
    case (2 q' k')
    show ?case using inv(2) [of q' k'] by (simp add: same) (simp add: turn_enter_def)
  next
    case (3 u v x)
    then show ?case unfolding same by (rule inv(3))
  qed (auto simp: assms(3) turn_enter_def inv(1) dest: inv(4) split: if_splits)
qed

lemma turn_release_tickets:
  assumes "tickets_inv c" "phase_of c t = Inside p q k"
  shows "tickets_inv (turn_release c t p q)"
proof -
  note inv = tickets_invD [OF assms(1)]
  have k: "k = serving (queues c q)" by (rule inv(4) [OF assms(2)])
  have tick: "ticket (phase_of c t) = Some (q, k)" using assms(2) by simp
  have other: "(\<exists>u. u \<noteq> t \<and> ticket (phase_of c u) = Some x) \<longleftrightarrow>
      (\<exists>u. ticket (phase_of c u) = Some x) \<and> x \<noteq> (q, k)" for x
    using tick inv(3) by (metis option.inject)
  show ?thesis
  proof (rule tickets_invI, goal_cases)
    case (1 q')
    then show ?case using inv(1) [of q'] ticket_range [OF assms(1) tick] k
      by (auto simp: turn_release_def)
  next
    case (2 q' k')
    have "(\<exists>u. ticket (phase_of (turn_release c t p q) u) = Some (q', k')) \<longleftrightarrow>
        (\<exists>u. u \<noteq> t \<and> ticket (phase_of c u) = Some (q', k'))"
      by (auto simp: turn_release_def)
    also have "\<dots> \<longleftrightarrow> (\<exists>u. ticket (phase_of c u) = Some (q', k')) \<and> (q', k') \<noteq> (q, k)"
      by (rule other)
    finally have "(\<exists>u. ticket (phase_of (turn_release c t p q) u) = Some (q', k')) \<longleftrightarrow>
        (q' < next_object c \<and> serving (queues c q') \<le> k' \<and> k' < next_ticket (queues c q')) \<and>
        (q', k') \<noteq> (q, k)"
      by (simp only: inv(2))
    then show ?case using k by (auto simp: turn_release_def)
  next
    case (4 u p' q' k')
    then have u: "phase_of c u = Inside p' q' k'" "u \<noteq> t"
      by (auto simp: turn_release_def split: if_splits)
    then have "k' = serving (queues c q')" by (blast dest: inv(4))
    moreover have "q' \<noteq> q"
    proof
      assume "q' = q"
      with u k \<open>k' = _\<close> have "ticket (phase_of c u) = Some (q, k)" by simp
      with tick inv(3) u(2) show False by blast
    qed
    ultimately show ?case by (simp add: turn_release_def)
  qed (auto simp: turn_release_def dest: inv(3) split: if_splits)
qed

lemma users_of_leave:
  assumes "phase_of c t = Leaving p q"
  shows "users_of (turn_leave c t p q) q' =
    (if q' = q then users_of c q' - {t} else users_of c q')"
  using assms by (auto simp: users_of_def turn_leave_def Let_def)

lemma turn_leave_users:
  assumes "paths_inv c" "users_inv c" "phase_of c t = Leaving p q"
  shows "users_inv (turn_leave c t p q)"
proof -
  have "t \<in> users_of c q" "q < next_object c"
    using registered_q [OF assms(1), of t] assms(3) by (auto simp: users_of_def)
  then show ?thesis
    using assms(2) unfolding users_inv_def
    by (auto simp: users_of_leave [OF assms(3)]) (auto simp: turn_leave_def Let_def)
qed

lemma turn_leave_paths:
  assumes "paths_inv c" "users_inv c" "phase_of c t = Leaving p q"
  shows "paths_inv (turn_leave c t p q)"
proof -
  have q: "t \<in> users_of c q" "q < next_object c" "queue_at c p = Some q"
    using registered_q [OF assms(1), of t] assms(3) by (auto simp: users_of_def)
  have last: "u = t" if "users (queues c q) = 1" "u \<in> users_of c q" for u
  proof -
    have "card (users_of c q) = 1" using assms(2) q that by (simp add: users_inv_def)
    with q(1) that(2) show ?thesis by (auto simp: card_1_singleton_iff)
  qed
  have pos: "users (queues c q) \<noteq> 0"
    using assms(2) q by (auto simp: users_inv_def)
  show ?thesis
  proof (cases "users (queues c q) = 1")
    case True
    have "u \<noteq> t \<Longrightarrow> registered (phase_of c u) = Some (p', q') \<Longrightarrow> p' \<noteq> p" for u p' q'
    proof
      assume u: "u \<noteq> t" "registered (phase_of c u) = Some (p', q')" "p' = p"
      then have "q' = q" using registered_q [OF assms(1) u(2)] q(3) by simp
      with u have "u \<in> users_of c q" by (auto simp: users_of_def)
      with True last u(1) show False by blast
    qed
    with True assms(1) q(3) show ?thesis
      unfolding paths_inv_def turn_leave_def Let_def by auto
  next
    case False
    with pos assms(1) show ?thesis
      unfolding paths_inv_def turn_leave_def Let_def by auto
  qed
qed

lemma turn_leave_tickets:
  assumes "tickets_inv c" "phase_of c t = Leaving p q"
  shows "tickets_inv (turn_leave c t p q)"
proof -
  note inv = tickets_invD [OF assms(1)]
  have same: "ticket (phase_of (turn_leave c t p q) u) = ticket (phase_of c u)" for u
    using assms(2) by (simp add: turn_leave_def Let_def)
  show ?thesis
  proof (rule tickets_invI, goal_cases)
    case (2 q' k')
    show ?case using inv(2) [of q' k'] by (simp add: same) (simp add: turn_leave_def Let_def)
  qed (auto simp: same turn_leave_def Let_def inv(1) dest: inv(3,4) split: if_splits)
qed

lemma turn_step_inv: "turn_step c c' \<Longrightarrow> turns_inv c \<Longrightarrow> turns_inv c'"
proof (induction rule: turn_step.induct)
  case (join c t path)
  then show ?case
    by (simp add: turns_inv_def turn_join_paths turn_join_users turn_join_tickets)
next
  case (take_ticket c t path q)
  then show ?case
    using users_inv_move [of c t "Waiting path q (next_ticket (queues c q))"]
      paths_inv_move [of c t "Waiting path q (next_ticket (queues c q))"]
    by (auto simp: turns_inv_def turn_take_tickets) (auto simp: turn_take_def)
next
  case (enter c t path q k)
  then show ?case
    using users_inv_move [of c t "Inside path q k" "queues c"]
      paths_inv_move [of c t "Inside path q k" "queues c"]
    by (auto simp: turns_inv_def turn_enter_tickets) (auto simp: turn_enter_def)
next
  case (release c t path q k)
  then show ?case
    using users_inv_move [of c t "Leaving path q"] paths_inv_move [of c t "Leaving path q"]
    by (auto simp: turns_inv_def turn_release_tickets) (auto simp: turn_release_def)
next
  case (leave c t path q)
  then show ?case
    by (simp add: turns_inv_def turn_leave_paths turn_leave_users turn_leave_tickets)
qed

lemma turns_inv_init: "turns_inv coordinator_init"
  by (simp add: turns_inv_def coordinator_init_def paths_inv_def users_inv_def users_of_def
      tickets_inv_def)

lemma reachable_turns_inv: "turns_reachable c \<Longrightarrow> turns_inv c"
  by (induction rule: turns_reachable.induct) (auto simp: turns_inv_init turn_step_inv)


text \<open>Two threads on one path: the first is inside, the second waits for its ticket.\<close>

definition two_threads :: coordinator where
  "two_threads =
     (let c1 = turn_join coordinator_init 0 ''p''; c2 = turn_join c1 1 ''p'';
          c3 = turn_take c2 0 ''p'' 0; c4 = turn_take c3 1 ''p'' 0
      in turn_enter c4 0 ''p'' 0 0)"

lemma two_threads_reachable: "turns_reachable two_threads"
proof -
  let ?c1 = "turn_join coordinator_init 0 ''p''"
  let ?c2 = "turn_join ?c1 1 ''p''"
  let ?c3 = "turn_take ?c2 0 ''p'' 0"
  let ?c4 = "turn_take ?c3 1 ''p'' 0"
  have "turns_reachable ?c1"
    by (rule turns_step [OF turns_start], rule turn_step.join) (simp add: coordinator_init_def)
  then have "turns_reachable ?c2"
    by (rule turns_step, intro turn_step.join) (simp add: coordinator_init_def turn_join_def)
  then have "turns_reachable ?c3"
    by (rule turns_step, intro turn_step.take_ticket)
       (simp add: coordinator_init_def turn_join_def)
  then have "turns_reachable ?c4"
    by (rule turns_step, intro turn_step.take_ticket)
       (simp add: coordinator_init_def turn_join_def turn_take_def)
  then have "turns_reachable (turn_enter ?c4 0 ''p'' 0 0)"
    by (rule turns_step, intro turn_step.enter)
       (simp_all add: coordinator_init_def turn_join_def turn_take_def)
  then show ?thesis by (simp add: two_threads_def Let_def)
qed


end
