(* ===== verification/Conversation.thy ===== *)
theory Conversation
  imports PyPrelude
begin

section \<open>The canonical Chat Completions subset (conversation.py)\<close>

text \<open>
  \<open>validate_conversation\<close> checks each message's fields and, across messages, that a tool
  batch is atomic: after an assistant requests calls, exactly one result for every ID comes
  before any other message. The model keeps the loop's variables \<open>pending\<close>,
  \<open>completed_in_batch\<close>, \<open>conversation_started\<close> and \<open>system_seen\<close> in a record and
  runs one step per message. Below it the accepted conversations are characterised by a
  grammar that does not mention the loop.
\<close>

definition validate_message_fields :: "mapping \<Rightarrow> string set \<Rightarrow> py_error + unit" where
  "validate_message_fields message allowed =
     raise_if (fields_of message \<noteq> allowed) (ProjectionError ''message fields mismatch'') (Inr ())"

definition validate_canonical_tool_call :: "pyval \<Rightarrow> py_error + string" where
  "validate_canonical_tool_call document =
     bindE (need (as_map document) (ProjectionError ''assistant tool call must be an object'')) (\<lambda>doc.
     bindE (validate_message_fields doc {''id'', ''type'', ''function''}) (\<lambda>_.
     raise_if (get doc ''type'' \<noteq> PStr ''function'')
       (ProjectionError ''only function tool calls are canonical'') (
     bindE (need (as_str (get doc ''id''))
       (ProjectionError ''assistant tool call id must be a non-empty string'')) (\<lambda>call_id.
     raise_if (call_id = [])
       (ProjectionError ''assistant tool call id must be a non-empty string'') (
     bindE (need (as_map (get doc ''function''))
       (ProjectionError ''assistant tool function must be an object'')) (\<lambda>function.
     bindE (validate_message_fields function {''name'', ''arguments''}) (\<lambda>_.
     bindE (need (as_str (get function ''name''))
       (ProjectionError ''assistant tool name must be a non-empty string'')) (\<lambda>name.
     raise_if (name = [])
       (ProjectionError ''assistant tool name must be a non-empty string'') (
     bindE (need (as_str (get function ''arguments''))
       (ProjectionError ''canonical tool arguments must be a string'')) (\<lambda>_.
     Inr call_id))))))))))"

subsection \<open>The loop\<close>

record conv_state =
  pending :: "string set"
  completed_in_batch :: "string set"
  conversation_started :: bool
  system_seen :: bool

definition conv_init :: conv_state where
  "conv_init = \<lparr>pending = {}, completed_in_batch = {}, conversation_started = False,
     system_seen = False\<rparr>"

definition validate_system :: "conv_state \<Rightarrow> mapping \<Rightarrow> py_error + conv_state" where
  "validate_system st message =
     bindE (validate_message_fields message {''role'', ''content''}) (\<lambda>_.
     raise_if (system_seen st \<or> conversation_started st)
       (ProjectionError ''conversation may contain only one leading system message'') (
     bindE (need (as_str (get message ''content''))
       (ProjectionError ''system message content must be a string'')) (\<lambda>_.
     Inr (st\<lparr>system_seen := True\<rparr>))))"

definition validate_user :: "conv_state \<Rightarrow> mapping \<Rightarrow> py_error + conv_state" where
  "validate_user st message =
     bindE (validate_message_fields message {''role'', ''content''}) (\<lambda>_.
     bindE (need (as_str (get message ''content''))
       (ProjectionError ''user message content must be a string'')) (\<lambda>_.
     Inr (st\<lparr>conversation_started := True\<rparr>)))"

definition assistant_calls :: "mapping \<Rightarrow> py_error + string list" where
  "assistant_calls message =
     (let allowed = {''role'', ''content''} \<union>
            (if has_key message ''tool_calls'' then {''tool_calls''} else {}) \<union>
            (if has_key message ''reasoning_content'' then {''reasoning_content''} else {})
      in
     bindE (validate_message_fields message allowed) (\<lambda>_.
     raise_if (get message ''content'' \<noteq> PNone \<and> as_str (get message ''content'') = None)
       (ProjectionError ''assistant message content must be a string or null'') (
     raise_if (has_key message ''reasoning_content'' \<and>
               as_str (get message ''reasoning_content'') = None)
       (ProjectionError ''assistant reasoning_content must be a string'') (
     bindE (need (as_seq (get_or message ''tool_calls'' (PTuple [])))
       (ProjectionError ''assistant tool_calls must be an array'')) (\<lambda>raw_calls.
     bindE (mapE validate_canonical_tool_call raw_calls) (\<lambda>call_ids.
     raise_if (\<not> distinct call_ids)
       (ProjectionError ''assistant message contains a duplicate tool call ID'') (
     raise_if (get message ''content'' = PNone \<and> call_ids = [])
       (ProjectionError ''assistant message must contain text or tool calls'') (
     Inr call_ids))))))))"

definition validate_assistant :: "conv_state \<Rightarrow> mapping \<Rightarrow> py_error + conv_state" where
  "validate_assistant st message =
     bindE (assistant_calls message) (\<lambda>call_ids.
     Inr (st\<lparr>conversation_started := True, pending := set call_ids, completed_in_batch := {}\<rparr>))"

definition tool_result_id :: "mapping \<Rightarrow> py_error + string" where
  "tool_result_id message =
     bindE (validate_message_fields message {''role'', ''tool_call_id'', ''content''}) (\<lambda>_.
     bindE (need (as_str (get message ''tool_call_id''))
       (ProjectionError ''tool_call_id must be a non-empty string'')) (\<lambda>call_id.
     raise_if (call_id = []) (ProjectionError ''tool_call_id must be a non-empty string'') (
     bindE (need (as_str (get message ''content''))
       (ProjectionError ''tool message content must be a string'')) (\<lambda>_.
     Inr call_id))))"

definition validate_tool :: "conv_state \<Rightarrow> mapping \<Rightarrow> py_error + conv_state" where
  "validate_tool st message =
     bindE (tool_result_id message) (\<lambda>call_id.
     raise_if (call_id \<in> completed_in_batch st)
       (ProjectionError ''duplicate tool result for call ID'') (
     raise_if (call_id \<notin> pending st)
       (ProjectionError ''orphan tool result for call ID'') (
     Inr (st\<lparr>conversation_started := True, pending := pending st - {call_id},
             completed_in_batch := insert call_id (completed_in_batch st)\<rparr>))))"

definition validate_message :: "conv_state \<Rightarrow> pyval \<Rightarrow> py_error + conv_state" where
  "validate_message st raw =
     bindE (need (as_map raw) (ProjectionError ''message must be an object'')) (\<lambda>message.
     bindE (need (as_str (get message ''role'')) (ProjectionError ''message has invalid role'')) (\<lambda>role.
     raise_if (role \<notin> {''system'', ''user'', ''assistant'', ''tool''})
       (ProjectionError ''message has invalid role'') (
     raise_if (pending st \<noteq> {} \<and> role \<noteq> ''tool'')
       (ProjectionError ''message appears before every tool call has a result'') (
     if role = ''system'' then validate_system st message
     else if role = ''user'' then validate_user st message
     else if role = ''assistant'' then validate_assistant st message
     else validate_tool st message))))"

definition validate_conversation :: "pyval \<Rightarrow> py_error + unit" where
  "validate_conversation messages =
     bindE (need (as_seq messages) (ProjectionError ''conversation must be an array'')) (\<lambda>ms.
     bindE (foldE validate_message conv_init ms) (\<lambda>st.
     raise_if (pending st \<noteq> {}) (ProjectionError ''tool calls are missing a result'') (
     Inr ())))"

subsection \<open>The grammar of accepted conversations\<close>

text \<open>What one message contributes, once its own fields are valid.\<close>

datatype kind = KSystem | KUser | KAssistant "string list" | KTool string

definition classify :: "pyval \<Rightarrow> kind option" where
  "classify raw = (case as_map raw of None \<Rightarrow> None | Some m \<Rightarrow>
     (if get m ''role'' = PStr ''system'' then
        (if fields_of m = {''role'', ''content''} \<and> as_str (get m ''content'') \<noteq> None
         then Some KSystem else None)
      else if get m ''role'' = PStr ''user'' then
        (if fields_of m = {''role'', ''content''} \<and> as_str (get m ''content'') \<noteq> None
         then Some KUser else None)
      else if get m ''role'' = PStr ''assistant'' then
        (case assistant_calls m of Inl _ \<Rightarrow> None | Inr ids \<Rightarrow> Some (KAssistant ids))
      else if get m ''role'' = PStr ''tool'' then
        (case tool_result_id m of Inl _ \<Rightarrow> None | Inr i \<Rightarrow> Some (KTool i))
      else None))"

text \<open>
  Batches: user messages, and assistant messages followed by exactly one result for each
  of their call IDs, in any order. A conversation is an optional system message and then
  batches.
\<close>

inductive batches :: "kind list \<Rightarrow> bool" where
  batches_Nil: "batches []"
| batches_User: "batches ks \<Longrightarrow> batches (KUser # ks)"
| batches_Assistant: "distinct rs \<Longrightarrow> set rs = set ids \<Longrightarrow> batches ks \<Longrightarrow>
    batches (KAssistant ids # map KTool rs @ ks)"

inductive_simps batches_Cons_simps:
  "batches (KSystem # ks)" "batches (KUser # ks)" "batches (KAssistant ids # ks)"
  "batches (KTool i # ks)"

definition conversation_grammar :: "kind list \<Rightarrow> bool" where
  "conversation_grammar ks \<longleftrightarrow> batches ks \<or> (\<exists>ks'. ks = KSystem # ks' \<and> batches ks')"

text \<open>The loop body on kinds, with the error messages forgotten.\<close>

fun kind_step :: "conv_state \<Rightarrow> kind \<Rightarrow> conv_state option" where
  "kind_step st KSystem =
     (if pending st = {} \<and> \<not> system_seen st \<and> \<not> conversation_started st
      then Some (st\<lparr>system_seen := True\<rparr>) else None)"
| "kind_step st KUser =
     (if pending st = {} then Some (st\<lparr>conversation_started := True\<rparr>) else None)"
| "kind_step st (KAssistant ids) =
     (if pending st = {} then Some (st\<lparr>conversation_started := True, pending := set ids,
        completed_in_batch := {}\<rparr>) else None)"
| "kind_step st (KTool i) =
     (if i \<notin> completed_in_batch st \<and> i \<in> pending st
      then Some (st\<lparr>conversation_started := True, pending := pending st - {i},
        completed_in_batch := insert i (completed_in_batch st)\<rparr>) else None)"

fun accepts_from :: "conv_state \<Rightarrow> kind list \<Rightarrow> bool" where
  "accepts_from st [] = (pending st = {})"
| "accepts_from st (k # ks) = (case kind_step st k of None \<Rightarrow> False | Some st' \<Rightarrow> accepts_from st' ks)"

lemma validate_message_iff:
  "validate_message st raw = Inr st' \<longleftrightarrow>
   (\<exists>k. classify raw = Some k \<and> kind_step st k = Some st')"
proof (cases "as_map raw")
  case None
  then show ?thesis by (simp add: validate_message_def classify_def)
next
  case (Some m)
  consider "get m ''role'' = PStr ''system''" | "get m ''role'' = PStr ''user''"
    | "get m ''role'' = PStr ''assistant''" | "get m ''role'' = PStr ''tool''"
    | "\<forall>r \<in> {''system'', ''user'', ''assistant'', ''tool''}. get m ''role'' \<noteq> PStr r"
    by blast
  then show ?thesis
  proof cases
    case 1
    with Some show ?thesis
      by (auto simp: validate_message_def classify_def validate_system_def
          validate_message_fields_def succ_simps)
  next
    case 2
    with Some show ?thesis
      by (auto simp: validate_message_def classify_def validate_user_def
          validate_message_fields_def succ_simps)
  next
    case 3
    with Some show ?thesis
      by (auto simp: validate_message_def classify_def validate_assistant_def succ_simps
          split: sum.splits)
  next
    case 4
    with Some show ?thesis
      by (auto simp: validate_message_def classify_def validate_tool_def succ_simps
          split: sum.splits)
  next
    case 5
    with Some show ?thesis
      by (auto simp: validate_message_def classify_def succ_simps)
  qed
qed

lemma validate_loop_iff:
  "(\<exists>st'. foldE validate_message st ms = Inr st' \<and> pending st' = {}) \<longleftrightarrow>
   (\<exists>ks. list_all2 (\<lambda>raw k. classify raw = Some k) ms ks \<and> accepts_from st ks)"
proof (induction ms arbitrary: st)
  case Nil
  show ?case by simp
next
  case (Cons m ms)
  have "(\<exists>st'. foldE validate_message st (m # ms) = Inr st' \<and> pending st' = {}) \<longleftrightarrow>
      (\<exists>k s. classify m = Some k \<and> kind_step st k = Some s \<and>
        (\<exists>st'. foldE validate_message s ms = Inr st' \<and> pending st' = {}))"
    by (auto simp: succ_simps validate_message_iff)
  also have "\<dots> \<longleftrightarrow> (\<exists>k s ks. classify m = Some k \<and> kind_step st k = Some s \<and>
      list_all2 (\<lambda>raw k. classify raw = Some k) ms ks \<and> accepts_from s ks)"
    unfolding Cons.IH by blast
  also have "\<dots> \<longleftrightarrow> (\<exists>ks. list_all2 (\<lambda>raw k. classify raw = Some k) (m # ms) ks \<and>
      accepts_from st ks)"
    by (fastforce simp: list_all2_Cons1 split: option.splits)
  finally show ?case .
qed

lemma tool_prefix_iff:
  "(\<exists>rs ks'. KTool i # ks = map KTool rs @ ks' \<and> distinct rs \<and> set rs = P \<and> batches ks') \<longleftrightarrow>
   (\<exists>rs ks'. ks = map KTool rs @ ks' \<and> distinct (i # rs) \<and> set (i # rs) = P \<and> batches ks')"
  (is "?L \<longleftrightarrow> ?R")
proof
  assume ?L
  then obtain rs ks' where *: "KTool i # ks = map KTool rs @ ks'" "distinct rs" "set rs = P"
    "batches ks'" by blast
  then show ?R
    by (cases rs) (auto simp: batches_Cons_simps)
next
  assume ?R
  then obtain rs ks' where "ks = map KTool rs @ ks'" "distinct (i # rs)" "set (i # rs) = P"
    "batches ks'" by blast
  then show ?L by (intro exI [of _ "i # rs"] exI [of _ ks']) simp
qed

lemma accepts_started:
  assumes "conversation_started st" "pending st \<inter> completed_in_batch st = {}"
  shows "accepts_from st ks \<longleftrightarrow> (\<exists>rs ks'. ks = map KTool rs @ ks' \<and> distinct rs \<and>
    set rs = pending st \<and> batches ks')"
  using assms
proof (induction ks arbitrary: st)
  case Nil
  then show ?case by (auto intro: batches_Nil)
next
  case (Cons k ks)
  show ?case
  proof (cases k)
    case KSystem
    with Cons.prems show ?thesis
      by (auto simp: Cons_eq_append_conv batches_Cons_simps)
  next
    case KUser
    with Cons show ?thesis
      by (auto simp: Cons_eq_append_conv batches_Cons_simps)
  next
    case (KAssistant ids)
    with Cons show ?thesis
      by (auto simp: Cons_eq_append_conv batches_Cons_simps)
  next
    case (KTool i)
    have "accepts_from st (k # ks) \<longleftrightarrow> i \<in> pending st \<and>
        (\<exists>rs ks'. ks = map KTool rs @ ks' \<and> distinct rs \<and> set rs = pending st - {i} \<and> batches ks')"
    proof -
      let ?st = "st\<lparr>conversation_started := True, pending := pending st - {i},
        completed_in_batch := insert i (completed_in_batch st)\<rparr>"
      have "accepts_from ?st ks \<longleftrightarrow> (\<exists>rs ks'. ks = map KTool rs @ ks' \<and> distinct rs \<and>
          set rs = pending st - {i} \<and> batches ks')"
        using Cons.IH [of ?st] Cons.prems by auto
      moreover have "i \<in> pending st \<Longrightarrow> i \<notin> completed_in_batch st"
        using Cons.prems by auto
      ultimately show ?thesis using KTool by auto
    qed
    also have "\<dots> \<longleftrightarrow> (\<exists>rs ks'. ks = map KTool rs @ ks' \<and> distinct (i # rs) \<and>
        set (i # rs) = pending st \<and> batches ks')"
      by auto
    also have "\<dots> \<longleftrightarrow> (\<exists>rs ks'. k # ks = map KTool rs @ ks' \<and> distinct rs \<and>
        set rs = pending st \<and> batches ks')"
      using KTool by (simp only: tool_prefix_iff)
    finally show ?thesis .
  qed
qed

lemma accepts_fresh:
  assumes "pending st = {}" "\<not> conversation_started st"
  shows "accepts_from st ks \<longleftrightarrow> batches ks \<or>
    (\<not> system_seen st \<and> (\<exists>ks'. ks = KSystem # ks' \<and> batches ks'))"
  using assms
proof (induction ks arbitrary: st)
  case Nil
  then show ?case by (auto intro: batches_Nil)
next
  case (Cons k ks)
  show ?case
  proof (cases k)
    case KSystem
    with Cons show ?thesis by (auto simp: batches_Cons_simps)
  next
    case KUser
    with Cons.prems show ?thesis by (auto simp: accepts_started batches_Cons_simps)
  next
    case (KAssistant ids)
    with Cons.prems show ?thesis by (auto simp: accepts_started batches_Cons_simps)
  next
    case (KTool i)
    with Cons.prems show ?thesis by (auto simp: batches_Cons_simps)
  qed
qed

lemma validate_conversation_split:
  "validate_conversation messages = Inr () \<longleftrightarrow>
   (\<exists>ms. as_seq messages = Some ms \<and>
     (\<exists>st. foldE validate_message conv_init ms = Inr st \<and> pending st = {}))"
  by (auto simp: validate_conversation_def succ_simps)

text \<open>
  C18. \<open>validate_conversation\<close> accepts exactly the arrays whose messages classify into a
  word of the batch grammar: an optional leading system message, then user messages and
  assistant messages each followed by exactly one result per requested call ID before
  anything else.
\<close>

theorem validate_conversation_grammar:
  "validate_conversation messages = Inr () \<longleftrightarrow>
   (\<exists>ms ks. as_seq messages = Some ms \<and>
      list_all2 (\<lambda>raw k. classify raw = Some k) ms ks \<and> conversation_grammar ks)"
  by (simp add: validate_conversation_split validate_loop_iff accepts_fresh
      conversation_grammar_def conv_init_def)

end
