(* ===== verification/DomainTypes.thy ===== *)
theory DomainTypes
  imports PyJson CodeGraph FileVersions Conversation
begin

section \<open>Events and the values derived from them (domain.py)\<close>

text \<open>
  The enumerations, the immutable \<open>Event\<close>, and the dataclasses a session state is made
  of, each with the checks of its \<open>__post_init__\<close>. \<open>datetime.fromisoformat\<close> enters as
  an argument: \<open>iso_utc ts\<close> says that the text, with a final \<open>Z\<close> read as \<open>+00:00\<close>,
  parses to a time whose offset is zero.
\<close>

subsection \<open>Enumerations\<close>

datatype tool_status =
    Requested | Started | Succeeded | Failed | Denied | InvalidArguments | UnknownTool
  | TimedOut | Interrupted | Cancelled | NotExecuted | BatchLimitExceeded | Conflict
  | OutcomeUnknown | UserConfirmedSuccess | UserConfirmedFailure | Abandoned | UpstreamFailed

fun tool_status_value :: "tool_status \<Rightarrow> string" where
  "tool_status_value Requested = ''requested''"
| "tool_status_value Started = ''started''"
| "tool_status_value Succeeded = ''succeeded''"
| "tool_status_value Failed = ''failed''"
| "tool_status_value Denied = ''denied''"
| "tool_status_value InvalidArguments = ''invalid_arguments''"
| "tool_status_value UnknownTool = ''unknown_tool''"
| "tool_status_value TimedOut = ''timed_out''"
| "tool_status_value Interrupted = ''interrupted''"
| "tool_status_value Cancelled = ''cancelled''"
| "tool_status_value NotExecuted = ''not_executed''"
| "tool_status_value BatchLimitExceeded = ''batch_limit_exceeded''"
| "tool_status_value Conflict = ''conflict''"
| "tool_status_value OutcomeUnknown = ''outcome_unknown''"
| "tool_status_value UserConfirmedSuccess = ''user_confirmed_success''"
| "tool_status_value UserConfirmedFailure = ''user_confirmed_failure''"
| "tool_status_value Abandoned = ''abandoned''"
| "tool_status_value UpstreamFailed = ''upstream_failed''"

definition all_tool_statuses :: "tool_status list" where
  "all_tool_statuses = [Requested, Started, Succeeded, Failed, Denied, InvalidArguments,
     UnknownTool, TimedOut, Interrupted, Cancelled, NotExecuted, BatchLimitExceeded, Conflict,
     OutcomeUnknown, UserConfirmedSuccess, UserConfirmedFailure, Abandoned, UpstreamFailed]"

definition tool_status_of :: "string \<Rightarrow> tool_status option" where
  "tool_status_of v = map_of (map (\<lambda>s. (tool_status_value s, s)) all_tool_statuses) v"

lemma tool_status_of_value [simp]: "tool_status_of (tool_status_value s) = Some s"
  by (cases s) (simp_all add: tool_status_of_def all_tool_statuses_def)

lemma tool_status_of_Some: "tool_status_of v = Some s \<Longrightarrow> v = tool_status_value s"
  by (auto simp: tool_status_of_def all_tool_statuses_def split: if_splits)

datatype turn_status =
    TActive | TRecoveryBlocked | TCompleted | TFailed | TInterrupted | TMaxStepsReached | TAbandoned

fun turn_status_value :: "turn_status \<Rightarrow> string" where
  "turn_status_value TActive = ''active''"
| "turn_status_value TRecoveryBlocked = ''recovery_blocked''"
| "turn_status_value TCompleted = ''completed''"
| "turn_status_value TFailed = ''failed''"
| "turn_status_value TInterrupted = ''interrupted''"
| "turn_status_value TMaxStepsReached = ''max_steps_reached''"
| "turn_status_value TAbandoned = ''abandoned''"

definition turn_status_of :: "string \<Rightarrow> turn_status option" where
  "turn_status_of v = map_of (map (\<lambda>s. (turn_status_value s, s))
     [TActive, TRecoveryBlocked, TCompleted, TFailed, TInterrupted, TMaxStepsReached, TAbandoned]) v"

definition tool_terminal :: "tool_status \<Rightarrow> bool" where \<comment> \<open>\<open>_TERMINAL_TOOL_STATUSES\<close>\<close>
  "tool_terminal s \<longleftrightarrow> s \<notin> {Requested, Started}"

definition turn_terminal :: "turn_status \<Rightarrow> bool" where \<comment> \<open>\<open>_TERMINAL_TURN_STATUSES\<close>\<close>
  "turn_terminal s \<longleftrightarrow> s \<notin> {TActive, TRecoveryBlocked}"

definition managed_write :: "string \<Rightarrow> bool" where \<comment> \<open>\<open>_MANAGED_WRITE_TOOL_NAMES\<close>\<close>
  "managed_write name \<longleftrightarrow> name \<in> {''write_file'', ''edit_file''}"

fun finish_transitions :: "tool_status \<Rightarrow> tool_status set" where
    \<comment> \<open>\<open>_TOOL_FINISH_TRANSITIONS\<close>\<close>
  "finish_transitions Requested = {Denied, InvalidArguments, UnknownTool, NotExecuted,
     BatchLimitExceeded, Cancelled, Failed, UpstreamFailed}"
| "finish_transitions Started = {Succeeded, Failed, TimedOut, Interrupted, Conflict, Cancelled,
     OutcomeUnknown}"
| "finish_transitions _ = {}"

text \<open>\<open>CodeNodeStatus(status.value)\<close>, which raises \<open>ValueError\<close> for a value it lacks.\<close>

definition node_status_of_tool :: "tool_status \<Rightarrow> py_error + code_node_status" where
  "node_status_of_tool s = need (code_node_status_of (tool_status_value s))
     (ValueError ''not a valid CodeNodeStatus'')"

subsection \<open>Freezing payloads\<close>

fun freeze_json :: "pyval \<Rightarrow> py_error + pyval" where
  "freeze_json PNone = Inr PNone"
| "freeze_json (PStr s) = Inr (PStr s)"
| "freeze_json (PBool b) = Inr (PBool b)"
| "freeze_json (PInt i) = Inr (PInt i)"
| "freeze_json (PFloat r s) = Inr (PFloat r s)"
| "freeze_json (PNonFinite s) = Inl (DomainError ''contains a non-finite number'')"
| "freeze_json (PList vs) = bindE (mapE freeze_json vs) (\<lambda>ws. Inr (PTuple ws))"
| "freeze_json (PTuple vs) = bindE (mapE freeze_json vs) (\<lambda>ws. Inr (PTuple ws))"
| "freeze_json (PDict kvs) =
     bindE (mapE (\<lambda>kv. bindE (freeze_json (snd kv)) (\<lambda>w. Inr (fst kv, w))) kvs) (\<lambda>ws. Inr (PProxy ws))"
| "freeze_json (PProxy kvs) =
     bindE (mapE (\<lambda>kv. bindE (freeze_json (snd kv)) (\<lambda>w. Inr (fst kv, w))) kvs) (\<lambda>ws. Inr (PProxy ws))"
| "freeze_json (PObject _) = Inl (DomainError ''contains a non-JSON value'')"

fun thaw_json :: "pyval \<Rightarrow> pyval" where
  "thaw_json (PDict kvs) = PDict (map (\<lambda>kv. (fst kv, thaw_json (snd kv))) kvs)"
| "thaw_json (PProxy kvs) = PDict (map (\<lambda>kv. (fst kv, thaw_json (snd kv))) kvs)"
| "thaw_json (PTuple vs) = PList (map thaw_json vs)"
| "thaw_json v = v"

fun frozen :: "pyval \<Rightarrow> bool" where
  "frozen (PNonFinite _) = False"
| "frozen (PList _) = False"
| "frozen (PDict _) = False"
| "frozen (PObject _) = False"
| "frozen (PTuple vs) = list_all frozen vs"
| "frozen (PProxy kvs) = list_all (\<lambda>kv. frozen (snd kv)) kvs"
| "frozen _ = True"

lemma mapE_Inr_all:
  assumes "mapE f xs = Inr ys" "\<And>x y. x \<in> set xs \<Longrightarrow> f x = Inr y \<Longrightarrow> P y"
  shows "list_all P ys"
  using assms
proof (induction xs arbitrary: ys)
  case (Cons x xs)
  from Cons.prems(1) obtain y zs where "ys = y # zs" "f x = Inr y" "mapE f xs = Inr zs"
    by (auto simp: succ_simps)
  moreover have "list_all P zs"
    by (rule Cons.IH [OF \<open>mapE f xs = Inr zs\<close>]) (use Cons.prems(2) in auto)
  moreover have "P y" by (rule Cons.prems(2) [of x]) (simp_all add: \<open>f x = Inr y\<close>)
  ultimately show ?case by simp
qed simp

lemma freeze_json_frozen: "freeze_json v = Inr w \<Longrightarrow> frozen w"
proof (induction v arbitrary: w rule: freeze_json.induct)
  case (7 vs)
  then show ?case by (auto simp: succ_simps elim!: mapE_Inr_all)
next
  case (8 vs)
  then show ?case by (auto simp: succ_simps elim!: mapE_Inr_all)
next
  case (9 kvs)
  then show ?case by (auto simp: succ_simps elim!: mapE_Inr_all)
next
  case (10 kvs)
  then show ?case by (auto simp: succ_simps elim!: mapE_Inr_all)
qed auto

lemma freeze_thaw: "frozen v \<Longrightarrow> freeze_json (thaw_json v) = Inr v"
proof (induction v rule: frozen.induct)
  case (5 vs)
  then have "mapE freeze_json (map thaw_json vs) = Inr vs"
    by (induction vs) simp_all
  then show ?case by simp
next
  case (6 kvs)
  then have "mapE (\<lambda>kv. bindE (freeze_json (snd kv)) (\<lambda>w. Inr (fst kv, w)))
      (map (\<lambda>kv. (fst kv, thaw_json (snd kv))) kvs) = Inr kvs"
    by (induction kvs) simp_all
  then show ?case by simp
qed simp_all

lemma thaw_plain: "frozen v \<Longrightarrow> plain (thaw_json v)"
  by (induction v rule: frozen.induct) (auto simp: list_all_iff)

subsection \<open>Event\<close>

record event =
  ev_version :: int
  ev_seq :: int
  ev_id :: string
  ev_timestamp :: string
  ev_session_id :: string
  ev_type :: string
  ev_payload :: mapping

definition canonical_uuid :: "pyval \<Rightarrow> py_error + string" where
  "canonical_uuid value =
     bindE (need (as_str value) (DomainError ''must be a UUID string'')) (\<lambda>s.
     raise_if (\<not> is_uuid s) (DomainError ''must be a canonical UUID'') (Inr s))"

definition validate_timestamp :: "(string \<Rightarrow> bool) \<Rightarrow> pyval \<Rightarrow> py_error + string" where
  "validate_timestamp iso_utc value =
     bindE (need (as_str value) (DomainError ''timestamp must be an ISO UTC string'')) (\<lambda>s.
     raise_if (\<not> iso_utc s) (DomainError ''timestamp must be an ISO UTC string'') (Inr s))"

definition mk_event ::
  "(string \<Rightarrow> bool) \<Rightarrow> pyval \<Rightarrow> pyval \<Rightarrow> pyval \<Rightarrow> pyval \<Rightarrow> pyval \<Rightarrow> pyval \<Rightarrow> pyval \<Rightarrow> py_error + event" where
  "mk_event iso_utc version seq event_id timestamp session_id type payload =
     raise_if (version \<noteq> PInt 1) (DomainError ''unsupported event version'') (
     bindE (need (as_int seq) (DomainError ''seq must be a positive integer'')) (\<lambda>n.
     raise_if (n < 1) (DomainError ''seq must be a positive integer'') (
     bindE (canonical_uuid event_id) (\<lambda>eid.
     bindE (validate_timestamp iso_utc timestamp) (\<lambda>ts.
     bindE (canonical_uuid session_id) (\<lambda>sid.
     bindE (need (as_str type) (DomainError ''type must be a non-empty string'')) (\<lambda>ty.
     raise_if (ty = []) (DomainError ''type must be a non-empty string'') (
     bindE (need (as_map payload) (DomainError ''payload must be an object'')) (\<lambda>_.
     bindE (freeze_json payload) (\<lambda>fz.
     bindE (need (as_map fz) (DomainError ''payload must be an object'')) (\<lambda>kvs.
     Inr \<lparr>ev_version = 1, ev_seq = n, ev_id = eid, ev_timestamp = ts, ev_session_id = sid,
          ev_type = ty, ev_payload = kvs\<rparr>)))))))))))"

definition event_fields :: "string set" where
  "event_fields = {''version'', ''seq'', ''event_id'', ''timestamp'', ''session_id'', ''type'', ''payload''}"

definition event_from_dict :: "(string \<Rightarrow> bool) \<Rightarrow> pyval \<Rightarrow> py_error + event" where
  "event_from_dict iso_utc document =
     bindE (need (as_dict document) (DomainError ''event must be a JSON object'')) (\<lambda>d.
     raise_if (fields_of d \<noteq> event_fields) (DomainError ''event fields mismatch'') (
     mk_event iso_utc (get d ''version'') (get d ''seq'') (get d ''event_id'') (get d ''timestamp'')
       (get d ''session_id'') (get d ''type'') (get d ''payload'')))"

definition event_to_dict :: "event \<Rightarrow> py_error + pyval" where
  "event_to_dict e =
     (let document = PDict
        [(''version'', PInt (ev_version e)), (''seq'', PInt (ev_seq e)),
         (''event_id'', PStr (ev_id e)), (''timestamp'', PStr (ev_timestamp e)),
         (''session_id'', PStr (ev_session_id e)), (''type'', PStr (ev_type e)),
         (''payload'', thaw_json (PProxy (ev_payload e)))]
      in bindE (reraise (\<lambda>_. DomainError ''event is not safely JSON serializable'') (dumps document))
           (\<lambda>_. Inr document))"

definition event_ok :: "(string \<Rightarrow> bool) \<Rightarrow> event \<Rightarrow> bool" where
  "event_ok iso_utc e \<longleftrightarrow> ev_version e = 1 \<and> 1 \<le> ev_seq e \<and> is_uuid (ev_id e) \<and>
     iso_utc (ev_timestamp e) \<and> is_uuid (ev_session_id e) \<and> ev_type e \<noteq> [] \<and>
     frozen (PProxy (ev_payload e))"

lemma canonical_uuid_Inr [simp]: "canonical_uuid v = Inr s \<longleftrightarrow> v = PStr s \<and> is_uuid s"
  by (auto simp: canonical_uuid_def succ_simps)

lemma freeze_map_shape: "freeze_json v = Inr w \<Longrightarrow> as_map w = Some kvs \<Longrightarrow> w = PProxy kvs"
  using freeze_json_frozen by (cases w) fastforce+

lemma mk_event_ok: "mk_event iso_utc v n i ts sid ty p = Inr e \<Longrightarrow> event_ok iso_utc e"
  by (auto simp: mk_event_def validate_timestamp_def event_ok_def succ_simps
      simp del: frozen.simps) (metis freeze_map_shape freeze_json_frozen)

text \<open>
  C24. Every event that can be constructed serialises, and reading the document back gives
  the same event: no fact is altered by being written to a rollout and loaded again.
\<close>

theorem event_roundtrip:
  assumes "event_ok iso_utc e"
  shows "\<exists>document. event_to_dict e = Inr document \<and> event_from_dict iso_utc document = Inr e"
proof -
  let ?payload = "PProxy (ev_payload e)"
  have frozen: "frozen ?payload" using assms by (simp add: event_ok_def)
  define doc where "doc = PDict
        [(''version'', PInt (ev_version e)), (''seq'', PInt (ev_seq e)),
         (''event_id'', PStr (ev_id e)), (''timestamp'', PStr (ev_timestamp e)),
         (''session_id'', PStr (ev_session_id e)), (''type'', PStr (ev_type e)),
         (''payload'', thaw_json ?payload)]"
  have "plain doc" using thaw_plain [OF frozen] by (simp add: doc_def)
  then obtain s where "dumps doc = Inr s" using dumps_total_iff by blast
  then have "event_to_dict e = Inr doc"
    unfolding event_to_dict_def doc_def Let_def by simp
  moreover have "event_from_dict iso_utc doc = Inr e"
    using assms freeze_thaw [OF frozen]
    by (auto simp: doc_def event_from_dict_def event_ok_def mk_event_def validate_timestamp_def
        get_def get_or_def fields_of_def event_fields_def canonical_uuid_def
        simp del: freeze_json.simps)
  ultimately show ?thesis by blast
qed

definition example_event :: "int \<Rightarrow> string \<Rightarrow> mapping \<Rightarrow> event" where
  "example_event n ty p = \<lparr>ev_version = 1, ev_seq = n, ev_id = uuid_a, ev_timestamp = ''t'',
     ev_session_id = uuid_b, ev_type = ty, ev_payload = p\<rparr>"

theorem event_roundtrip_witness:
  "event_ok (\<lambda>s. s = ''t'') (example_event 3 ''undo'' [(''n'', PTuple [PInt 1])]) \<and>
   (\<exists>document. event_to_dict (example_event 3 ''undo'' [(''n'', PTuple [PInt 1])]) = Inr document \<and>
      event_from_dict (\<lambda>s. s = ''t'') document = Inr (example_event 3 ''undo'' [(''n'', PTuple [PInt 1])]))"
proof -
  have ok: "event_ok (\<lambda>s. s = ''t'') (example_event 3 ''undo'' [(''n'', PTuple [PInt 1])])"
    by (simp add: event_ok_def example_event_def)
  then show ?thesis using event_roundtrip [OF ok] by simp
qed

subsection \<open>Tool calls\<close>

record tool_call =
  tc_call_key :: string
  tc_provider_call_id :: string
  tc_turn_id :: string
  tc_name :: string
  tc_arguments :: string
  tc_status :: tool_status
  tc_approved :: "bool option"
  tc_approval_scope :: "string option"
  tc_result :: "string option"
  tc_exit_code :: "int option"
  tc_truncated :: bool
  tc_result_metadata :: pyval
  tc_recovery_blocked :: bool
  tc_reconciliation_note :: "string option"
  tc_requested_seq :: "int option"
  tc_started_seq :: "int option"
  tc_finished_seq :: "int option"
  tc_origin :: string
  tc_parent_call_key :: "string option"
  tc_code_run_id :: "string option"
  tc_ordinal :: "int option"

text \<open>The constructor's defaults, for the fields every call is created with.\<close>

definition new_tool_call ::
  "string \<Rightarrow> string \<Rightarrow> string \<Rightarrow> string \<Rightarrow> string \<Rightarrow> int \<Rightarrow> tool_call" where
  "new_tool_call key provider_id turn_id name arguments seq =
     \<lparr>tc_call_key = key, tc_provider_call_id = provider_id, tc_turn_id = turn_id, tc_name = name,
      tc_arguments = arguments, tc_status = Requested, tc_approved = None,
      tc_approval_scope = None, tc_result = None, tc_exit_code = None, tc_truncated = False,
      tc_result_metadata = PDict [], tc_recovery_blocked = False, tc_reconciliation_note = None,
      tc_requested_seq = Some seq, tc_started_seq = None, tc_finished_seq = None,
      tc_origin = ''model'', tc_parent_call_key = None, tc_code_run_id = None, tc_ordinal = None\<rparr>"

definition opt_nonempty :: "string option \<Rightarrow> bool" where
  "opt_nonempty x \<longleftrightarrow> (case x of None \<Rightarrow> False | Some s \<Rightarrow> s \<noteq> [])"

text \<open>
  \<open>ToolCall.__post_init__\<close>, which runs for a new call and again for every
  \<open>dataclasses.replace\<close>; it also freezes the result metadata.
\<close>

definition tool_call_post_init :: "tool_call \<Rightarrow> py_error + tool_call" where
  "tool_call_post_init c =
     raise_if (tc_call_key c = []) (DomainError ''call_key must be a non-empty string'') (
     raise_if (tc_provider_call_id c = []) (DomainError ''provider_call_id must be a non-empty string'') (
     raise_if (\<not> is_uuid (tc_turn_id c)) (DomainError ''turn_id must be a canonical UUID'') (
     raise_if (tc_name c = []) (DomainError ''tool name must be a non-empty string'') (
     raise_if (as_map (tc_result_metadata c) = None) (DomainError ''result_metadata must be an object'') (
     bindE (freeze_json (tc_result_metadata c)) (\<lambda>metadata.
     raise_if (tc_origin c \<notin> {''model'', ''code''}) (DomainError ''tool origin must be model or code'') (
     raise_if (tc_origin c = ''code'' \<and>
               \<not> (opt_nonempty (tc_parent_call_key c) \<and> opt_nonempty (tc_code_run_id c)))
       (DomainError ''code tool calls require parent and run identity'') (
     raise_if (tc_origin c = ''code'' \<and> (case tc_ordinal c of None \<Rightarrow> True | Some n \<Rightarrow> n < 1))
       (DomainError ''code tool calls require a positive ordinal'') (
     Inr (c\<lparr>tc_result_metadata := metadata\<rparr>))))))))))"

definition is_terminal :: "tool_call \<Rightarrow> bool" where
  "is_terminal c = tool_terminal (tc_status c)"

subsection \<open>Snapshots and mutation plans\<close>

record file_snapshot =
  fs_turn_id :: string
  fs_path :: string
  fs_existed_before :: bool
  fs_before_bytes :: string
  fs_before_mode :: "int option"
  fs_after_hash :: "string option"
  fs_source_call_key :: "string option"
  fs_after_mode :: "int option"
  fs_after_version :: "file_version option"
  fs_created_directories :: "string list"

text \<open>A field that is null or a value the given test accepts; any other value raises.\<close>

definition opt_field :: "(pyval \<Rightarrow> 'a option) \<Rightarrow> ('a \<Rightarrow> bool) \<Rightarrow> py_error \<Rightarrow> pyval \<Rightarrow> py_error + 'a option" where
  "opt_field conv ok e v =
     (if v = PNone then Inr None
      else bindE (need (conv v) e) (\<lambda>x. raise_if (\<not> ok x) e (Inr (Some x))))"

definition mk_file_snapshot ::
  "string \<Rightarrow> string \<Rightarrow> bool \<Rightarrow> string \<Rightarrow> pyval \<Rightarrow> pyval \<Rightarrow> pyval \<Rightarrow> pyval \<Rightarrow>
   file_version option \<Rightarrow> string list \<Rightarrow> py_error + file_snapshot" where
  "mk_file_snapshot turn_id path existed_before before_bytes before_mode after_hash
       source_call_key after_mode after_version created_directories =
     raise_if (\<not> is_uuid turn_id) (DomainError ''turn_id must be a canonical UUID'') (
     raise_if (path = []) (DomainError ''snapshot path must be a non-empty string'') (
     bindE (need (b64_decode before_bytes) (DomainError ''before_bytes must be valid base64'')) (\<lambda>decoded.
     raise_if (existed_before \<and> before_mode = PNone)
       (DomainError ''before_mode is required for an existing file'') (
     raise_if (\<not> existed_before \<and> before_mode \<noteq> PNone)
       (DomainError ''before_mode must be null for a new file'') (
     raise_if (\<not> existed_before \<and> decoded \<noteq> [])
       (DomainError ''a new file must have an empty baseline'') (
     bindE (opt_field as_int permission_bits
       (DomainError ''before_mode must be permission bits or null'') before_mode) (\<lambda>b_mode.
     bindE (opt_field as_str (\<lambda>s. s \<noteq> [])
       (DomainError ''after_hash must be a non-empty string or null'') after_hash) (\<lambda>a_hash.
     bindE (opt_field as_str (\<lambda>s. s \<noteq> [])
       (DomainError ''source_call_key must be a non-empty string or null'') source_call_key) (\<lambda>source.
     bindE (opt_field as_int permission_bits
       (DomainError ''after_mode must be permission bits or null'') after_mode) (\<lambda>a_mode.
     raise_if (a_hash = None \<and> a_mode \<noteq> None) (DomainError ''after_mode requires after_hash'') (
     raise_if (case after_version of None \<Rightarrow> False | Some v \<Rightarrow> \<not> fv_exists v)
       (DomainError ''after_version must describe an existing file'') (
     raise_if (case after_version of None \<Rightarrow> False | Some v \<Rightarrow> a_hash \<noteq> fv_sha256 v)
       (DomainError ''after_version sha256 must match after_hash'') (
     raise_if (case after_version of None \<Rightarrow> False | Some v \<Rightarrow> a_mode \<noteq> fv_mode v)
       (DomainError ''after_version mode must match after_mode'') (
     raise_if ([] \<in> set created_directories)
       (DomainError ''created_directories must be non-empty strings'') (
     raise_if (created_directories \<noteq> [] \<and> a_hash = None)
       (DomainError ''created_directories requires a successful write'') (
     raise_if (created_directories \<noteq> [] \<and> existed_before)
       (DomainError ''created_directories requires a new file'') (
     Inr \<lparr>fs_turn_id = turn_id, fs_path = path, fs_existed_before = existed_before,
          fs_before_bytes = before_bytes, fs_before_mode = b_mode, fs_after_hash = a_hash,
          fs_source_call_key = source, fs_after_mode = a_mode, fs_after_version = after_version,
          fs_created_directories = created_directories\<rparr>)))))))))))))))))"

text \<open>\<open>replace(snapshot, after_hash=..., ...)\<close>: the constructor on the remaining fields.\<close>

definition snapshot_after ::
  "file_snapshot \<Rightarrow> pyval \<Rightarrow> pyval \<Rightarrow> file_version option \<Rightarrow> string list \<Rightarrow> py_error + file_snapshot" where
  "snapshot_after s after_hash after_mode after_version created =
     mk_file_snapshot (fs_turn_id s) (fs_path s) (fs_existed_before s) (fs_before_bytes s)
       (opt_int (fs_before_mode s)) after_hash (opt_str (fs_source_call_key s)) after_mode
       after_version created"

record mutation_plan =
  mp_turn_id :: string
  mp_call_key :: string
  mp_path :: string
  mp_expected_version :: file_version
  mp_proposed_hash :: string
  mp_diff :: string

definition mk_mutation_plan ::
  "string \<Rightarrow> string \<Rightarrow> string \<Rightarrow> file_version \<Rightarrow> string \<Rightarrow> pyval \<Rightarrow> py_error + mutation_plan" where
  "mk_mutation_plan turn_id call_key path expected proposed_hash diff =
     raise_if (\<not> is_uuid turn_id) (DomainError ''turn_id must be a canonical UUID'') (
     raise_if (call_key = []) (DomainError ''mutation plan call_key must be a non-empty string'') (
     raise_if (path = []) (DomainError ''mutation plan path must be a non-empty string'') (
     raise_if (proposed_hash = [])
       (DomainError ''mutation plan proposed_hash must be a non-empty string'') (
     bindE (need (as_str diff) (DomainError ''mutation plan diff must be a string'')) (\<lambda>d.
     Inr \<lparr>mp_turn_id = turn_id, mp_call_key = call_key, mp_path = path,
          mp_expected_version = expected, mp_proposed_hash = proposed_hash, mp_diff = d\<rparr>)))))"

subsection \<open>The session state\<close>

record session_state =
  st_session_id :: "string option"
  st_cwd :: "string option"
  st_model :: "string option"
  st_context_window :: "int option"
  st_created_at :: "string option"
  st_last_seq :: int
  st_last_event_timestamp :: "string option"
  st_active_turn_id :: "string option"
  st_turns :: "turn_status dict"
  st_turn_inputs :: "string dict"
  st_tool_calls :: "tool_call dict"
  st_file_snapshots :: "((string \<times> string) \<times> file_snapshot) list"
  st_file_mutation_plans :: "mutation_plan dict"
  st_code_runs :: "code_run dict"
  st_code_nodes :: "code_node dict"
  st_undo_results :: "event dict"
  st_latest_checkpoint :: "event option"
  st_pending_recovery_intent :: "event option"
  st_assistant_events :: "event list"
  st_events :: "event list"
  st_recovery_blocked :: bool
  st_last_usage :: "(int \<times> int \<times> int) option"
  st_plan_mode_active :: bool
  st_session_approval_always :: bool

definition empty_state :: session_state where \<comment> \<open>\<open>SessionState()\<close>\<close>
  "empty_state = \<lparr>st_session_id = None, st_cwd = None, st_model = None, st_context_window = None,
     st_created_at = None, st_last_seq = 0, st_last_event_timestamp = None,
     st_active_turn_id = None, st_turns = [], st_turn_inputs = [], st_tool_calls = [],
     st_file_snapshots = [], st_file_mutation_plans = [], st_code_runs = [], st_code_nodes = [],
     st_undo_results = [], st_latest_checkpoint = None, st_pending_recovery_intent = None,
     st_assistant_events = [], st_events = [], st_recovery_blocked = False, st_last_usage = None,
     st_plan_mode_active = False, st_session_approval_always = False\<rparr>"

end
