(* ===== verification/Reducer.thy ===== *)
theory Reducer
  imports DomainTypes
begin

section \<open>SessionReducer: one handler per event type (domain.py)\<close>

text \<open>
  \<open>SessionReducer.apply\<close> mutates the state in place, so a handler that raises leaves
  behind whatever it has already written. A handler of the model therefore returns either
  the new state or the exception together with the state at the point of the raise:
  \<open>(py_error \<times> session_state) + session_state\<close>. \<open>at_state s m\<close> runs a pure check \<open>m\<close> at
  the state \<open>s\<close>.
\<close>

type_synonym outcome = "(py_error \<times> session_state) + session_state"

definition at_state :: "session_state \<Rightarrow> py_error + 'a \<Rightarrow> (py_error \<times> session_state) + 'a" where
  "at_state s m = reraise (\<lambda>e. (e, s)) m"

lemma at_state_simps [simp]: "at_state s (Inl e) = Inl (e, s)" "at_state s (Inr x) = Inr x"
  by (simp_all add: at_state_def)

lemma at_state_Inr_iff [succ_simps]: "at_state s m = Inr x \<longleftrightarrow> m = Inr x"
  by (simp add: at_state_def succ_simps)

lemma at_state_Inl_iff [fail_simps]: "at_state s m = Inl x \<longleftrightarrow> m = Inl (fst x) \<and> snd x = s"
  by (cases m; cases x) auto

subsection \<open>Reading payloads\<close>

definition payload_string :: "mapping \<Rightarrow> string \<Rightarrow> bool \<Rightarrow> py_error + string" where
  "payload_string payload key allow_empty =
     bindE (need (as_str (get payload key)) (DomainError (key @ '' must be a string''))) (\<lambda>v.
     raise_if (\<not> allow_empty \<and> v = []) (DomainError (key @ '' must be a non-empty string'')) (Inr v))"

definition payload_uuid :: "mapping \<Rightarrow> string \<Rightarrow> py_error + string" where
  "payload_uuid payload key =
     bindE (payload_string payload key False) (\<lambda>v. canonical_uuid (PStr v))"

definition parse_tool_status :: "pyval \<Rightarrow> py_error + tool_status" where
  "parse_tool_status value =
     bindE (need (as_str value) (DomainError ''tool status must be a string'')) (\<lambda>v.
     need (tool_status_of (if v = ''success'' then ''succeeded''
                           else if v = ''timeout'' then ''timed_out'' else v))
       (DomainError ''unknown tool status''))"

definition parse_turn_status :: "pyval \<Rightarrow> py_error + turn_status" where
  "parse_turn_status value =
     bindE (need (as_str value) (DomainError ''turn status must be a string'')) (\<lambda>v.
     bindE (need (turn_status_of v) (DomainError ''unknown turn status'')) (\<lambda>status.
     raise_if (\<not> turn_terminal status) (DomainError ''turn_finished cannot use status'') (Inr status)))"

definition string_array :: "py_error \<Rightarrow> pyval \<Rightarrow> py_error + string list" where
    \<comment> \<open>an array of strings, or the error\<close>
  "string_array e v = bindE (need (as_seq v) e) (\<lambda>vs. mapE (\<lambda>x. need (as_str x) e) vs)"

definition normalized_created_directories :: "pyval \<Rightarrow> py_error + string list" where
  "normalized_created_directories value =
     (if value = PNone then Inr []
      else bindE (string_array
             (DomainError ''created_directories must be an array of non-empty strings'') value) (\<lambda>ds.
           raise_if ([] \<in> set ds)
             (DomainError ''created_directories must be an array of non-empty strings'') (Inr ds)))"

definition token_count :: "mapping \<Rightarrow> string \<Rightarrow> py_error + int" where
  "token_count d key =
     bindE (need (as_int (get d key)) (DomainError ''usage must be a non-negative integer'')) (\<lambda>n.
     raise_if (n < 0) (DomainError ''usage must be a non-negative integer'') (Inr n))"

definition parse_usage_payload :: "pyval \<Rightarrow> py_error + (int \<times> int \<times> int) option" where
  "parse_usage_payload value =
     (if value = PNone then Inr None
      else bindE (need (as_map value) (DomainError ''usage must be an object or null'')) (\<lambda>d.
        raise_if (fields_of d \<noteq> {''prompt_tokens'', ''completion_tokens'', ''total_tokens''})
          (DomainError ''usage must have exactly prompt_tokens, completion_tokens, total_tokens'') (
        bindE (token_count d ''prompt_tokens'') (\<lambda>a.
        bindE (token_count d ''completion_tokens'') (\<lambda>b.
        bindE (token_count d ''total_tokens'') (\<lambda>c.
        Inr (Some (a, b, c))))))))"

subsection \<open>reduce_undo_status\<close>

definition undo_success :: "string set" where
  "undo_success = {''restored'', ''deleted'', ''already_restored'', ''already_deleted''}"

definition undo_preflight_abort :: "string set" where
  "undo_preflight_abort = {''conflict'', ''ineligible'', ''not_modified''}"

definition reduce_undo_status :: "string list \<Rightarrow> string" where
  "reduce_undo_status statuses =
     (let observed = set statuses in
      if observed \<subseteq> undo_success then ''succeeded''
      else if observed \<subseteq> undo_preflight_abort \<and> observed \<inter> {''conflict'', ''ineligible''} \<noteq> {}
      then ''conflict''
      else ''partial'')"

subsection \<open>Shared guards\<close>

definition require_active_turn :: "session_state \<Rightarrow> py_error + string" where
  "require_active_turn s = need (st_active_turn_id s) (DomainError ''event requires an active turn'')"

definition reject_pending_recovery_action :: "session_state \<Rightarrow> py_error + unit" where
  "reject_pending_recovery_action s =
     raise_if (st_pending_recovery_intent s \<noteq> None)
       (DomainError ''cannot act while a recovery intent is pending'') (Inr ())"

definition call_for_active_turn :: "session_state \<Rightarrow> mapping \<Rightarrow> py_error + tool_call" where
  "call_for_active_turn s payload =
     bindE (require_active_turn s) (\<lambda>active_turn_id.
     bindE (if get payload ''call_key'' \<noteq> PNone then
         bindE (need (as_str (get payload ''call_key'')) (DomainError ''call_key must be a non-empty string'')) (\<lambda>key.
         raise_if (key = []) (DomainError ''call_key must be a non-empty string'') (
         bindE (need (map_of (st_tool_calls s) key) (DomainError ''unknown tool call key'')) (\<lambda>call.
         raise_if (get payload ''call_id'' \<noteq> PNone \<and>
                   get payload ''call_id'' \<noteq> PStr (tc_provider_call_id call))
           (DomainError ''call_key and call_id identify different calls'') (Inr call))))
       else
         bindE (payload_string payload ''call_id'' False) (\<lambda>provider_call_id.
         case filter (\<lambda>c. tc_turn_id c = active_turn_id \<and> tc_provider_call_id c = provider_call_id)
                (vals (st_tool_calls s)) of
           [] \<Rightarrow> Inl (DomainError ''unknown tool call'')
         | [call] \<Rightarrow> Inr call
         | _ \<Rightarrow> Inl (DomainError ''ambiguous tool call id; call_key is required''))) (\<lambda>call.
     raise_if (tc_turn_id call \<noteq> active_turn_id)
       (DomainError ''tool call does not belong to the active turn'') (Inr call)))"

definition set_call :: "tool_call \<Rightarrow> session_state \<Rightarrow> session_state" where
    \<comment> \<open>\<open>state.tool_calls[call.call_key] = call\<close>\<close>
  "set_call c s = s\<lparr>st_tool_calls := dict_set (tc_call_key c) c (st_tool_calls s)\<rparr>"

definition set_node :: "string \<Rightarrow> code_node \<Rightarrow> session_state \<Rightarrow> session_state" where
  "set_node key n s = s\<lparr>st_code_nodes := dict_set key n (st_code_nodes s)\<rparr>"

definition node_of_call :: "session_state \<Rightarrow> tool_call \<Rightarrow> py_error + code_node" where
    \<comment> \<open>\<open>state.code_nodes[call.call_key]\<close>\<close>
  "node_of_call s c = need (map_of (st_code_nodes s) (tc_call_key c)) (KeyError (tc_call_key c))"

definition outcome_unknown_call :: "tool_call \<Rightarrow> bool" where
  "outcome_unknown_call c = (tc_status c = OutcomeUnknown)"

definition refresh_recovery_block :: "session_state \<Rightarrow> session_state" where
  "refresh_recovery_block s =
     (let unknown = list_ex outcome_unknown_call (vals (st_tool_calls s)) in
      s\<lparr>st_recovery_blocked := unknown,
        st_turns := (case st_active_turn_id s of None \<Rightarrow> st_turns s
          | Some t \<Rightarrow> dict_set t (if unknown then TRecoveryBlocked else TActive) (st_turns s))\<rparr>)"

subsection \<open>Session and turn events\<close>

definition apply_session_created :: "session_state \<Rightarrow> event \<Rightarrow> outcome" where
  "apply_session_created s ev =
     raise_if (st_session_id s \<noteq> None) (DomainError ''session has already been created'', s) (
     bindE (at_state s (payload_string (ev_payload ev) ''cwd'' False)) (\<lambda>cwd.
     bindE (at_state s (payload_string (ev_payload ev) ''model'' False)) (\<lambda>model.
     bindE (at_state s (need (as_int (get (ev_payload ev) ''context_window''))
       (DomainError ''context_window must be a positive integer''))) (\<lambda>w.
     raise_if (w \<le> 0) (DomainError ''context_window must be a positive integer'', s) (
     Inr (s\<lparr>st_session_id := Some (ev_session_id ev), st_cwd := Some cwd, st_model := Some model,
            st_context_window := Some w, st_created_at := Some (ev_timestamp ev)\<rparr>))))))"

definition apply_turn_started :: "session_state \<Rightarrow> event \<Rightarrow> outcome" where
  "apply_turn_started s ev =
     raise_if (st_active_turn_id s \<noteq> None)
       (DomainError ''cannot start a turn while another turn is active'', s) (
     bindE (at_state s (payload_uuid (ev_payload ev) ''turn_id'')) (\<lambda>turn_id.
     raise_if (has_key (st_turns s) turn_id) (DomainError ''turn_id has already been used'', s) (
     bindE (at_state s (need (as_str (get_or (ev_payload ev) ''user_input''
         (get_or (ev_payload ev) ''input'' (PStr []))))
       (DomainError ''user_input must be a string''))) (\<lambda>user_input.
     Inr (s\<lparr>st_active_turn_id := Some turn_id,
            st_turns := dict_set turn_id TActive (st_turns s),
            st_turn_inputs := dict_set turn_id user_input (st_turn_inputs s)\<rparr>)))))"

definition intent_action :: "event \<Rightarrow> pyval" where
  "intent_action intent = get (ev_payload intent) ''action''"

definition apply_turn_finished :: "session_state \<Rightarrow> event \<Rightarrow> outcome" where
  "apply_turn_finished s ev =
     bindE (at_state s (require_active_turn s)) (\<lambda>turn_id.
     raise_if (st_recovery_blocked s)
       (DomainError ''cannot finish a recovery-blocked turn before reconciliation'', s) (
     bindE (at_state s (payload_uuid (ev_payload ev) ''turn_id'')) (\<lambda>event_turn_id.
     raise_if (event_turn_id \<noteq> turn_id) (DomainError ''turn_finished belongs to another turn'', s) (
     bindE (at_state s (parse_turn_status (get (ev_payload ev) ''status''))) (\<lambda>status.
     raise_if (case st_pending_recovery_intent s of None \<Rightarrow> False
         | Some intent \<Rightarrow> status \<noteq> (if intent_action intent = PStr ''recover_interrupted''
             then TInterrupted else TAbandoned))
       (DomainError ''turn status does not match the pending recovery intent'', s) (
     raise_if (\<exists>c \<in> set (vals (st_tool_calls s)). tc_turn_id c = turn_id \<and> \<not> is_terminal c)
       (DomainError ''cannot finish a turn with unfinished tool calls'', s) (
     Inr (s\<lparr>st_turns := dict_set turn_id status (st_turns s), st_active_turn_id := None,
            st_recovery_blocked := False, st_pending_recovery_intent := None\<rparr>))))))))"

subsection \<open>Assistant responses\<close>

definition parse_call_document :: "event \<Rightarrow> string \<Rightarrow> string list \<Rightarrow> pyval \<Rightarrow> py_error + tool_call" where
  "parse_call_document ev turn_id seen document =
     bindE (need (as_map document) (DomainError ''each tool call must be an object'')) (\<lambda>doc.
     bindE (need (as_str (get_or doc ''id'' (get doc ''call_id'')))
       (DomainError ''tool call id must be a non-empty string'')) (\<lambda>call_id.
     raise_if (call_id = []) (DomainError ''tool call id must be a non-empty string'') (
     raise_if (call_id \<in> set seen) (DomainError ''duplicate tool call id'') (
     bindE (if has_key doc ''function'' then
         raise_if (get_or doc ''type'' (PStr ''function'') \<noteq> PStr ''function'')
           (DomainError ''only function tool calls are supported'') (
         bindE (need (as_map (get doc ''function''))
           (DomainError ''tool call function must be an object'')) (\<lambda>function.
         Inr (get function ''name'', get function ''arguments'')))
       else Inr (get doc ''name'', get doc ''arguments'')) (\<lambda>(raw_name, raw_arguments).
     bindE (need (as_str raw_name) (DomainError ''tool call name must be a non-empty string'')) (\<lambda>name.
     raise_if (name = []) (DomainError ''tool call name must be a non-empty string'') (
     bindE (case as_str raw_arguments of Some a \<Rightarrow> Inr a
         | None \<Rightarrow> reraise (\<lambda>_. DomainError ''tool arguments must be JSON-compatible'') (dumps raw_arguments)) (\<lambda>arguments.
     tool_call_post_init
       (new_tool_call (call_key_of (ev_seq ev) call_id) call_id turn_id name arguments (ev_seq ev))))))))))"

fun parse_call_documents :: "event \<Rightarrow> string \<Rightarrow> string list \<Rightarrow> pyval list \<Rightarrow> py_error + tool_call list" where
  "parse_call_documents ev turn_id seen [] = Inr []"
| "parse_call_documents ev turn_id seen (d # ds) =
     bindE (parse_call_document ev turn_id seen d) (\<lambda>c.
     bindE (parse_call_documents ev turn_id (tc_provider_call_id c # seen) ds) (\<lambda>cs.
     Inr (c # cs)))"

text \<open>The loop that stores the calls raises in the middle if a key is already taken.\<close>

fun store_calls :: "session_state \<Rightarrow> tool_call list \<Rightarrow> outcome" where
  "store_calls s [] = Inr s"
| "store_calls s (c # cs) =
     raise_if (has_key (st_tool_calls s) (tc_call_key c))
       (DomainError ''duplicate internal tool call key'', s) (
     store_calls (set_call c s) cs)"

definition unresolved_call :: "tool_call \<Rightarrow> bool" where
  "unresolved_call c \<longleftrightarrow> tc_status c \<in> {Requested, Started}"

definition apply_assistant_accepted :: "session_state \<Rightarrow> event \<Rightarrow> outcome" where
  "apply_assistant_accepted s ev =
     bindE (at_state s (require_active_turn s)) (\<lambda>turn_id.
     bindE (at_state s (reject_pending_recovery_action s)) (\<lambda>_.
     raise_if (st_recovery_blocked s)
       (DomainError ''cannot accept an assistant response while recovery is blocked'', s) (
     raise_if (\<exists>c \<in> set (vals (st_tool_calls s)). tc_turn_id c = turn_id \<and> unresolved_call c)
       (DomainError ''cannot accept an assistant response with unresolved tool calls'', s) (
     raise_if (get (ev_payload ev) ''turn_id'' \<noteq> PNone \<and> get (ev_payload ev) ''turn_id'' \<noteq> PStr turn_id)
       (DomainError ''assistant event belongs to another turn'', s) (
     bindE (at_state s (need (as_seq (get_or (ev_payload ev) ''tool_calls'' (PList [])))
       (DomainError ''tool_calls must be an array''))) (\<lambda>docs.
     bindE (at_state s (parse_call_documents ev turn_id [] docs)) (\<lambda>pending_calls.
     raise_if (get (ev_payload ev) ''content'' \<noteq> PNone \<and> as_str (get (ev_payload ev) ''content'') = None)
       (DomainError ''assistant content must be a string or null'', s) (
     raise_if (has_key (ev_payload ev) ''reasoning_content'' \<and>
               as_str (get (ev_payload ev) ''reasoning_content'') = None)
       (DomainError ''assistant reasoning_content must be a string'', s) (
     bindE (at_state s (parse_usage_payload (get (ev_payload ev) ''usage''))) (\<lambda>usage.
     bindE (store_calls s pending_calls) (\<lambda>s'.
     Inr (s'\<lparr>st_assistant_events := st_assistant_events s' @ [ev],
             st_last_usage := (case usage of None \<Rightarrow> st_last_usage s' | Some u \<Rightarrow> Some u)\<rparr>))))))))))))"

subsection \<open>Approvals and starts\<close>

text \<open>The decision, under any of its three spellings.\<close>

definition approval_decision :: "mapping \<Rightarrow> py_error + bool" where
  "approval_decision payload =
     (let decision = get_or payload ''approved'' (get payload ''allow'') in
      bindE (if decision = PNone \<and> has_key payload ''decision'' then
          (let raw_decision = get payload ''decision'' in
           raise_if (\<not> hashable raw_decision) (TypeError ''unhashable type'') (
           raise_if (raw_decision \<notin> {PStr ''allow'', PStr ''deny''})
             (DomainError ''decision must be allow or deny'') (
           Inr (PBool (raw_decision = PStr ''allow'')))))
        else Inr decision) (\<lambda>decision.
      need (as_bool decision) (DomainError ''approved must be a boolean'')))"

definition approval_scope :: "mapping \<Rightarrow> bool \<Rightarrow> py_error + string option" where
  "approval_scope payload decision =
     bindE (opt_field as_str (\<lambda>x. x \<noteq> []) (DomainError ''scope must be a non-empty string or null'')
       (get payload ''scope'')) (\<lambda>scope.
     raise_if (scope \<notin> {None, Some ''once'', Some ''session''})
       (DomainError ''scope must be once, session, or null'') (
     raise_if (scope = Some ''session'' \<and> \<not> decision)
       (DomainError ''session approval scope requires approval'') (Inr scope)))"

definition apply_approval_decided :: "session_state \<Rightarrow> event \<Rightarrow> outcome" where
  "apply_approval_decided s ev =
     bindE (at_state s (reject_pending_recovery_action s)) (\<lambda>_.
     bindE (at_state s (call_for_active_turn s (ev_payload ev))) (\<lambda>call.
     raise_if (is_terminal call \<or> tc_status call = Started)
       (DomainError ''approval decision is too late for this call'', s) (
     raise_if (tc_approved call \<noteq> None) (DomainError ''approval has already been decided'', s) (
     bindE (at_state s (approval_decision (ev_payload ev))) (\<lambda>decision.
     bindE (at_state s (approval_scope (ev_payload ev) decision)) (\<lambda>scope.
     bindE (at_state s (tool_call_post_init
       (call\<lparr>tc_approved := Some decision, tc_approval_scope := scope\<rparr>))) (\<lambda>call'.
     Inr (let s' = set_call call' s in
       if scope = Some ''session'' then s'\<lparr>st_session_approval_always := True\<rparr> else s'))))))))"

definition apply_session_approval_reset :: "session_state \<Rightarrow> event \<Rightarrow> outcome" where
  "apply_session_approval_reset s ev =
     bindE (at_state s (reject_pending_recovery_action s)) (\<lambda>_.
     raise_if (ev_payload ev \<noteq> []) (DomainError ''session_approval_reset payload must be empty'', s) (
     Inr (s\<lparr>st_session_approval_always := False\<rparr>)))"

definition apply_tool_started :: "session_state \<Rightarrow> event \<Rightarrow> outcome" where
  "apply_tool_started s ev =
     bindE (at_state s (reject_pending_recovery_action s)) (\<lambda>_.
     bindE (at_state s (call_for_active_turn s (ev_payload ev))) (\<lambda>call.
     raise_if (tc_status call \<noteq> Requested) (DomainError ''only a requested tool call can start'', s) (
     raise_if (tc_approved call = Some False) (DomainError ''a denied tool call cannot start'', s) (
     bindE (at_state s (tool_call_post_init
       (call\<lparr>tc_status := Started, tc_started_seq := Some (ev_seq ev)\<rparr>))) (\<lambda>call'.
     let s' = set_call call' s in
     if tc_origin call = ''code'' then
       bindE (at_state s' (node_of_call s' call)) (\<lambda>node.
       Inr (set_node (tc_call_key call)
         (node\<lparr>cn_status := NStarted, cn_started_seq := Some (ev_seq ev)\<rparr>) s'))
     else Inr s')))))"

subsection \<open>Tool results\<close>

text \<open>The scalar fields of a result.\<close>

record result_fields =
  rf_status :: tool_status
  rf_result :: "string option"
  rf_exit_code :: "int option"
  rf_truncated :: bool
  rf_recovery_blocked :: bool

definition read_result_fields :: "session_state \<Rightarrow> tool_call \<Rightarrow> mapping \<Rightarrow> py_error + result_fields" where
  "read_result_fields s call payload =
     bindE (parse_tool_status (get payload ''status'')) (\<lambda>status.
     raise_if (case st_pending_recovery_intent s of None \<Rightarrow> False
         | Some intent \<Rightarrow> intent_action intent \<noteq> PStr ''recover_interrupted'' \<or> status \<noteq> NotExecuted)
       (DomainError ''tool result does not match the pending recovery intent'') (
     raise_if (\<not> tool_terminal status) (DomainError ''tool_finished requires a terminal status'') (
     raise_if (status \<notin> finish_transitions (tc_status call))
       (DomainError ''tool call cannot finish with this status'') (
     bindE (opt_field as_str (\<lambda>_. True) (DomainError ''tool result must be a string or null'')
       (get payload ''result'')) (\<lambda>result.
     bindE (opt_field as_int (\<lambda>_. True) (DomainError ''exit_code must be an integer or null'')
       (get payload ''exit_code'')) (\<lambda>exit_code.
     bindE (need (as_bool (get_or payload ''truncated'' (PBool False)))
       (DomainError ''truncated must be a boolean'')) (\<lambda>truncated.
     bindE (need (as_bool (get_or payload ''recovery_blocked'' (PBool False)))
       (DomainError ''recovery_blocked must be a boolean'')) (\<lambda>blocked.
     raise_if (blocked \<noteq> (status = OutcomeUnknown))
       (DomainError ''recovery_blocked must be true exactly for outcome_unknown'') (
     Inr \<lparr>rf_status = status, rf_result = result, rf_exit_code = exit_code,
          rf_truncated = truncated, rf_recovery_blocked = blocked\<rparr>)))))))))"

text \<open>
  \<open>FileVersion.from_dict\<close> inside \<open>try\<close>: its \<open>ValueError\<close> becomes a \<open>DomainError\<close>.
\<close>

definition read_version :: "string \<Rightarrow> pyval \<Rightarrow> py_error + file_version" where
  "read_version name raw =
     reraise (\<lambda>_. DomainError (''invalid '' @ name)) (file_version_from_dict raw)"

definition read_after_version ::
  "pyval \<Rightarrow> string \<Rightarrow> int option \<Rightarrow> py_error + file_version option" where
  "read_after_version raw after_hash after_mode =
     (if raw = PNone then Inr None
      else bindE (read_version ''after_version'' raw) (\<lambda>v.
        raise_if (\<not> fv_exists v) (DomainError ''after_version must describe an existing file'') (
        raise_if (fv_sha256 v \<noteq> Some after_hash)
          (DomainError ''after_version sha256 must match after_hash'') (
        raise_if (fv_mode v \<noteq> after_mode)
          (DomainError ''after_version mode must match after_mode'') (Inr (Some v))))))"

definition has_file_metadata :: "mapping \<Rightarrow> bool" where
  "has_file_metadata payload \<longleftrightarrow>
     (\<exists>k \<in> {''path'', ''after_hash'', ''after_mode'', ''created_directories'', ''after_version''}.
        get payload k \<noteq> PNone)"

text \<open>The snapshot that a successful managed write updates, with its dictionary key.\<close>

definition finished_snapshot ::
  "session_state \<Rightarrow> tool_call \<Rightarrow> mapping \<Rightarrow> tool_status \<Rightarrow>
   py_error + ((string \<times> string) \<times> file_snapshot) option" where
  "finished_snapshot s call payload status =
     (if \<not> has_file_metadata payload then Inr None
      else
        raise_if (status \<noteq> Succeeded) (DomainError ''after_hash is only valid for a successful tool'') (
        raise_if (\<not> managed_write (tc_name call))
          (DomainError ''file result metadata requires a managed write call'') (
        bindE (need (as_str (get payload ''path'')) (DomainError ''path must accompany after_hash'')) (\<lambda>path.
        raise_if (path = []) (DomainError ''path must accompany after_hash'') (
        bindE (need (as_str (get payload ''after_hash'')) (DomainError ''after_hash must accompany path'')) (\<lambda>after_hash.
        raise_if (after_hash = []) (DomainError ''after_hash must accompany path'') (
        bindE (opt_field as_int permission_bits
          (DomainError ''after_mode must be permission bits or null'') (get payload ''after_mode'')) (\<lambda>after_mode.
        bindE (normalized_created_directories (get payload ''created_directories'')) (\<lambda>directories.
        bindE (read_after_version (get payload ''after_version'') after_hash after_mode) (\<lambda>after_version.
        bindE (need (map_of (st_file_snapshots s) (tc_turn_id call, path))
          (DomainError ''successful write has no file baseline'')) (\<lambda>snapshot.
        raise_if (case map_of (st_file_mutation_plans s) (tc_call_key call) of
            Some plan \<Rightarrow> mp_turn_id plan \<noteq> tc_turn_id call \<or> mp_path plan \<noteq> path
          | None \<Rightarrow> fs_after_hash snapshot = None \<and>
              fs_source_call_key snapshot \<noteq> Some (tc_call_key call))
          (DomainError ''successful write does not match its plan or source call'') (
        raise_if (case map_of (st_file_mutation_plans s) (tc_call_key call) of
            Some plan \<Rightarrow> mp_proposed_hash plan \<noteq> after_hash | None \<Rightarrow> False)
          (DomainError ''successful write hash does not match mutation plan'') (
        bindE (snapshot_after snapshot (PStr after_hash) (opt_int after_mode) after_version
          (uniq (fs_created_directories snapshot @ directories))) (\<lambda>snapshot'.
        Inr (Some ((tc_turn_id call, path), snapshot'))))))))))))))))"

definition set_snapshot ::
  "((string \<times> string) \<times> file_snapshot) option \<Rightarrow> session_state \<Rightarrow> session_state" where
  "set_snapshot upd s = (case upd of None \<Rightarrow> s
     | Some (key, snapshot) \<Rightarrow> s\<lparr>st_file_snapshots := dict_set key snapshot (st_file_snapshots s)\<rparr>)"

definition finish_node :: "session_state \<Rightarrow> tool_call \<Rightarrow> event \<Rightarrow> result_fields \<Rightarrow> outcome" where
  "finish_node s call ev f =
     (if tc_origin call = ''code'' then
        bindE (at_state s (node_of_call s call)) (\<lambda>node.
        bindE (at_state s (node_status_of_tool (rf_status f))) (\<lambda>node_status.
        bindE (at_state s (string_array (DomainError ''blocked_by must be an array of strings'')
          (get_or (ev_payload ev) ''blocked_by'' (PTuple [])))) (\<lambda>blocked_by.
        bindE (at_state s (string_array (DomainError ''root_failures must be an array of strings'')
          (get_or (ev_payload ev) ''root_failures'' (PTuple [])))) (\<lambda>root_failures.
        Inr (set_node (tc_call_key call)
          (node\<lparr>cn_status := node_status, cn_result := rf_result f, cn_blocked_by := blocked_by,
             cn_root_failures := root_failures, cn_finished_seq := Some (ev_seq ev)\<rparr>) s)))))
      else Inr s)"

definition apply_tool_finished :: "session_state \<Rightarrow> event \<Rightarrow> outcome" where
  "apply_tool_finished s ev =
     bindE (at_state s (call_for_active_turn s (ev_payload ev))) (\<lambda>call.
     raise_if (is_terminal call) (DomainError ''tool call already has a terminal result'', s) (
     bindE (at_state s (read_result_fields s call (ev_payload ev))) (\<lambda>f.
     bindE (at_state s (finished_snapshot s call (ev_payload ev) (rf_status f))) (\<lambda>snapshot_update.
     bindE (at_state s (tool_call_post_init
       (call\<lparr>tc_status := rf_status f, tc_result := rf_result f, tc_exit_code := rf_exit_code f,
          tc_truncated := rf_truncated f,
          tc_result_metadata := get_or (ev_payload ev) ''result_metadata'' (PDict []),
          tc_recovery_blocked := rf_recovery_blocked f,
          tc_finished_seq := Some (ev_seq ev)\<rparr>))) (\<lambda>call'.
     bindE (finish_node (set_snapshot snapshot_update (set_call call' s)) call ev f) (\<lambda>s'.
     Inr (refresh_recovery_block s')))))))"

subsection \<open>Code Mode runs\<close>

definition apply_code_run_started :: "session_state \<Rightarrow> event \<Rightarrow> outcome" where
  "apply_code_run_started s ev =
     bindE (at_state s (require_active_turn s)) (\<lambda>turn_id.
     bindE (at_state s (payload_uuid (ev_payload ev) ''run_id'')) (\<lambda>run_id.
     raise_if (has_key (st_code_runs s) run_id) (DomainError ''code run already exists'', s) (
     bindE (at_state s (payload_uuid (ev_payload ev) ''turn_id'')) (\<lambda>event_turn_id.
     raise_if (event_turn_id \<noteq> turn_id) (DomainError ''code run belongs to another turn'', s) (
     bindE (at_state s (payload_string (ev_payload ev) ''parent_call_key'' False)) (\<lambda>parent_call_key.
     bindE (at_state s (need (map_of (st_tool_calls s) parent_call_key)
       (DomainError ''code run parent must be an active run_code call''))) (\<lambda>parent.
     raise_if (tc_turn_id parent \<noteq> turn_id \<or> tc_name parent \<noteq> ''run_code'')
       (DomainError ''code run parent must be an active run_code call'', s) (
     raise_if (tc_status parent \<noteq> Started) (DomainError ''code run parent must be started'', s) (
     bindE (at_state s (payload_string (ev_payload ev) ''description'' False)) (\<lambda>description.
     bindE (at_state s (payload_string (ev_payload ev) ''source_hash'' False)) (\<lambda>source_hash.
     Inr (s\<lparr>st_code_runs := dict_set run_id
        \<lparr>cr_run_id = run_id, cr_turn_id = turn_id, cr_parent_call_key = parent_call_key,
         cr_description = description, cr_source_hash = source_hash, cr_status = RunActive,
         cr_node_ids = [], cr_result = None\<rparr> (st_code_runs s)\<rparr>))))))))))))"

text \<open>A node of a run as the handlers index it: \<open>state.code_nodes[node]\<close>.\<close>

definition run_nodes :: "session_state \<Rightarrow> code_run \<Rightarrow> py_error + code_node list" where
  "run_nodes s run =
     mapE (\<lambda>i. need (map_of (st_code_nodes s) i) (KeyError i)) (cr_node_ids run)"

definition active_run :: "session_state \<Rightarrow> string \<Rightarrow> py_error \<Rightarrow> py_error + code_run" where
  "active_run s run_id e =
     bindE (need (map_of (st_code_runs s) run_id) e) (\<lambda>run.
     raise_if (cr_status run \<noteq> RunActive) e (Inr run))"

definition apply_code_node_planned :: "session_state \<Rightarrow> event \<Rightarrow> outcome" where
  "apply_code_node_planned s ev =
     bindE (at_state s (require_active_turn s)) (\<lambda>turn_id.
     bindE (at_state s (payload_uuid (ev_payload ev) ''run_id'')) (\<lambda>run_id.
     bindE (at_state s (active_run s run_id (DomainError ''code node requires an active code run''))) (\<lambda>run.
     bindE (at_state s (payload_string (ev_payload ev) ''node_id'' False)) (\<lambda>node_id.
     raise_if (has_key (st_code_nodes s) node_id \<or> has_key (st_tool_calls s) node_id)
       (DomainError ''code node id has already been used'', s) (
     bindE (at_state s (need (as_int (get (ev_payload ev) ''ordinal''))
       (DomainError ''code node ordinal must be a positive integer''))) (\<lambda>ordinal.
     raise_if (ordinal < 1) (DomainError ''code node ordinal must be a positive integer'', s) (
     bindE (at_state s (run_nodes s run)) (\<lambda>nodes.
     raise_if (\<exists>n \<in> set nodes. cn_ordinal n = ordinal)
       (DomainError ''code node ordinal has already been used'', s) (
     bindE (at_state s (string_array (DomainError ''code node dependencies must be strings'')
       (get_or (ev_payload ev) ''dependencies'' (PTuple [])))) (\<lambda>dependencies.
     raise_if (\<not> distinct dependencies) (DomainError ''code node dependencies must be unique'', s) (
     raise_if (node_id \<in> set dependencies) (DomainError ''code node cannot depend on itself'', s) (
     raise_if (\<exists>d \<in> set dependencies. case map_of (st_code_nodes s) d of None \<Rightarrow> True
         | Some n \<Rightarrow> cn_run_id n \<noteq> run_id)
       (DomainError ''code node dependency is unknown or foreign'', s) (
     bindE (at_state s (payload_string (ev_payload ev) ''name'' False)) (\<lambda>name.
     bindE (at_state s (payload_string (ev_payload ev) ''arguments'' True)) (\<lambda>arguments.
     let node = \<lparr>cn_node_id = node_id, cn_run_id = run_id,
           cn_parent_call_key = cr_parent_call_key run, cn_turn_id = turn_id, cn_ordinal = ordinal,
           cn_name = name, cn_arguments = arguments, cn_dependencies = dependencies,
           cn_status = NPlanned, cn_result = None, cn_blocked_by = [], cn_root_failures = [],
           cn_requested_seq = Some (ev_seq ev), cn_started_seq = None, cn_finished_seq = None\<rparr>;
         s1 = set_node node_id node s;
         s2 = s1\<lparr>st_code_runs := dict_set run_id
                (run\<lparr>cr_node_ids := cr_node_ids run @ [node_id]\<rparr>) (st_code_runs s1)\<rparr>
     in bindE (at_state s2 (tool_call_post_init
          ((new_tool_call node_id node_id turn_id name arguments (ev_seq ev))
             \<lparr>tc_origin := ''code'', tc_parent_call_key := Some (cr_parent_call_key run),
              tc_code_run_id := Some run_id, tc_ordinal := Some ordinal\<rparr>))) (\<lambda>call.
        Inr (set_call call s2)))))))))))))))))"

definition apply_code_run_finished :: "session_state \<Rightarrow> event \<Rightarrow> outcome" where
  "apply_code_run_finished s ev =
     bindE (at_state s (payload_uuid (ev_payload ev) ''run_id'')) (\<lambda>run_id.
     bindE (at_state s (active_run s run_id (DomainError ''code run is not active''))) (\<lambda>run.
     bindE (at_state s (run_nodes s run)) (\<lambda>nodes.
     raise_if (\<exists>n \<in> set nodes. \<not> node_is_terminal (cn_status n))
       (DomainError ''code run cannot finish with unfinished nodes'', s) (
     bindE (at_state s (payload_string (ev_payload ev) ''status'' False)) (\<lambda>raw_status.
     bindE (at_state s (need (code_run_status_of raw_status)
       (DomainError ''invalid code run status''))) (\<lambda>status.
     raise_if (status = RunActive) (DomainError ''code run finish requires a terminal status'', s) (
     bindE (at_state s (need (as_str (get (ev_payload ev) ''result''))
       (DomainError ''code run result must be a string''))) (\<lambda>result.
     raise_if (as_map (get (ev_payload ev) ''summary'') = None)
       (DomainError ''code run summary must be an object'', s) (
     Inr (s\<lparr>st_code_runs := dict_set run_id
        (run\<lparr>cr_status := status, cr_result := Some result\<rparr>) (st_code_runs s)\<rparr>))))))))))"

subsection \<open>Recovery\<close>

definition turn_calls :: "session_state \<Rightarrow> string \<Rightarrow> tool_call list" where
  "turn_calls s turn_id = filter (\<lambda>c. tc_turn_id c = turn_id) (vals (st_tool_calls s))"

definition apply_turn_recovery_intent :: "session_state \<Rightarrow> event \<Rightarrow> outcome" where
  "apply_turn_recovery_intent s ev =
     raise_if (fields_of (ev_payload ev) \<noteq> {''turn_id'', ''action'', ''reason''})
       (DomainError ''turn_recovery_intent payload fields mismatch'', s) (
     bindE (at_state s (require_active_turn s)) (\<lambda>turn_id.
     bindE (at_state s (payload_uuid (ev_payload ev) ''turn_id'')) (\<lambda>event_turn_id.
     raise_if (event_turn_id \<noteq> turn_id)
       (DomainError ''turn_recovery_intent belongs to another turn'', s) (
     bindE (at_state s (payload_string (ev_payload ev) ''action'' False)) (\<lambda>action.
     raise_if (action \<notin> {''recover_interrupted'', ''abandon''})
       (DomainError ''unknown recovery intent action'', s) (
     raise_if (as_str (get (ev_payload ev) ''reason'') = None)
       (DomainError ''recovery intent reason must be a string'', s) (
     raise_if (st_pending_recovery_intent s \<noteq> None)
       (DomainError ''a recovery intent is already pending'', s) (
     let calls = turn_calls s turn_id; statuses = map tc_status calls in
     if action = ''recover_interrupted'' then
       raise_if (Requested \<notin> set statuses)
         (DomainError ''recover_interrupted requires a requested tool call'', s) (
       raise_if (Started \<in> set statuses \<or> OutcomeUnknown \<in> set statuses)
         (DomainError ''recover_interrupted cannot cover an uncertain tool call'', s) (
       Inr (s\<lparr>st_pending_recovery_intent := Some ev\<rparr>)))
     else
       raise_if (OutcomeUnknown \<notin> set statuses)
         (DomainError ''abandon requires an unknown tool outcome'', s) (
       Inr (s\<lparr>st_pending_recovery_intent := Some ev\<rparr>))))))))))"

definition reconciliation_status :: "string \<Rightarrow> tool_status option" where
  "reconciliation_status outcome =
     map_of [(''succeeded'', UserConfirmedSuccess), (''failed'', UserConfirmedFailure),
       (''abandoned'', Abandoned), (''user_confirmed_success'', UserConfirmedSuccess),
       (''user_confirmed_failure'', UserConfirmedFailure)] outcome"

definition reconciled_snapshot ::
  "session_state \<Rightarrow> tool_call \<Rightarrow> mapping \<Rightarrow> bool \<Rightarrow>
   py_error + ((string \<times> string) \<times> file_snapshot) option" where
  "reconciled_snapshot s call payload succeeded =
     (let plan_opt = map_of (st_file_mutation_plans s) (tc_call_key call);
          raw = get payload ''after_version'' in
      raise_if (succeeded \<and> plan_opt \<noteq> None \<and> raw = PNone)
        (DomainError ''successful file reconciliation requires an observed file version'') (
      if raw = PNone then Inr None
      else
        raise_if (\<not> succeeded) (DomainError ''reconciled file version requires a successful outcome'') (
        bindE (need plan_opt (DomainError ''reconciled file version requires a mutation plan'')) (\<lambda>plan.
        bindE (payload_string payload ''path'' False) (\<lambda>path.
        bindE (payload_string payload ''after_hash'' False) (\<lambda>after_hash.
        bindE (read_version ''after_version'' raw) (\<lambda>v.
        raise_if (path \<noteq> mp_path plan \<or> after_hash \<noteq> mp_proposed_hash plan \<or> \<not> fv_exists v \<or>
            fv_sha256 v \<noteq> Some after_hash \<or> \<not> py_eq (opt_int (fv_mode v)) (get payload ''after_mode''))
          (DomainError ''reconciled file version does not match mutation plan'') (
        bindE (need (map_of (st_file_snapshots s) (tc_turn_id call, path))
          (DomainError ''reconciled write has no file baseline'')) (\<lambda>snapshot.
        bindE (snapshot_after snapshot (PStr after_hash) (get payload ''after_mode'') (Some v)
          (fs_created_directories snapshot)) (\<lambda>snapshot'.
        Inr (Some ((tc_turn_id call, path), snapshot'))))))))))))"

definition apply_tool_reconciled :: "session_state \<Rightarrow> event \<Rightarrow> outcome" where
  "apply_tool_reconciled s ev =
     bindE (at_state s (call_for_active_turn s (ev_payload ev))) (\<lambda>call.
     raise_if (tc_status call \<noteq> OutcomeUnknown)
       (DomainError ''only an unknown tool outcome can be reconciled'', s) (
     let raw_outcome = get (ev_payload ev) ''outcome'' in
     raise_if (case st_pending_recovery_intent s of None \<Rightarrow> False
         | Some intent \<Rightarrow> intent_action intent \<noteq> PStr ''abandon'' \<or> raw_outcome \<noteq> PStr ''abandoned'')
       (DomainError ''tool reconciliation does not match the pending recovery intent'', s) (
     raise_if (\<not> hashable raw_outcome) (TypeError ''unhashable type'', s) (
     bindE (at_state s (need (Option.bind (as_str raw_outcome) reconciliation_status)
       (DomainError ''reconciliation outcome must be succeeded, failed, or abandoned''))) (\<lambda>status.
     bindE (at_state s (need (as_str (get_or (ev_payload ev) ''note'' (PStr [])))
       (DomainError ''reconciliation note must be a string''))) (\<lambda>note.
     bindE (at_state s (reconciled_snapshot s call (ev_payload ev) (status = UserConfirmedSuccess))) (\<lambda>snapshot_update.
     bindE (at_state s (tool_call_post_init
       (call\<lparr>tc_status := status, tc_recovery_blocked := False, tc_reconciliation_note := Some note,
          tc_finished_seq := Some (ev_seq ev)\<rparr>))) (\<lambda>call'.
     let s' = set_snapshot snapshot_update (set_call call' s) in
     bindE (if tc_origin call = ''code'' then
         bindE (at_state s' (node_of_call s' call)) (\<lambda>node.
         bindE (at_state s' (node_status_of_tool status)) (\<lambda>node_status.
         Inr (set_node (tc_call_key call)
           (node\<lparr>cn_status := node_status,
              cn_result := (if note \<noteq> [] then Some note else cn_result node),
              cn_finished_seq := Some (ev_seq ev)\<rparr>) s')))
       else Inr s') (\<lambda>t.
     Inr (refresh_recovery_block t))))))))))"

subsection \<open>Checkpoints, snapshots and plans\<close>

definition unsettled_call :: "tool_call \<Rightarrow> bool" where
  "unsettled_call c \<longleftrightarrow> tc_status c \<in> {Requested, Started, OutcomeUnknown}"

definition spans_boundary :: "int \<Rightarrow> tool_call \<Rightarrow> bool" where
  "spans_boundary through_seq c = (case (tc_requested_seq c, tc_finished_seq c) of
     (Some r, Some f) \<Rightarrow> r \<le> through_seq \<and> through_seq < f | _ \<Rightarrow> False)"

definition is_system_message :: "pyval \<Rightarrow> bool" where
  "is_system_message m = (case as_map m of None \<Rightarrow> False | Some d \<Rightarrow> get d ''role'' = PStr ''system'')"

definition apply_compaction_checkpoint :: "session_state \<Rightarrow> event \<Rightarrow> outcome" where
  "apply_compaction_checkpoint s ev =
     raise_if (list_ex unsettled_call (vals (st_tool_calls s)))
       (DomainError ''compaction requires a completed sampling boundary'', s) (
     bindE (at_state s (need (as_int (get (ev_payload ev) ''through_seq''))
       (DomainError ''through_seq must reference an earlier event''))) (\<lambda>through_seq.
     raise_if (\<not> (0 \<le> through_seq \<and> through_seq < ev_seq ev))
       (DomainError ''through_seq must reference an earlier event'', s) (
     raise_if (list_ex (spans_boundary through_seq) (vals (st_tool_calls s)))
       (DomainError ''through_seq must reference a completed sampling boundary'', s) (
     bindE (at_state s (need (as_str (get (ev_payload ev) ''summary''))
       (DomainError ''checkpoint summary must be a non-empty string''))) (\<lambda>summary.
     raise_if (blank summary) (DomainError ''checkpoint summary must be a non-empty string'', s) (
     bindE (at_state s (need (as_seq (get (ev_payload ev) ''replacement_conversation''))
       (DomainError ''replacement_conversation must be an array''))) (\<lambda>replacement.
     bindE (at_state s (reraise (\<lambda>_. DomainError ''invalid checkpoint replacement_conversation'')
       (validate_conversation (get (ev_payload ev) ''replacement_conversation'')))) (\<lambda>_.
     raise_if (list_ex is_system_message replacement)
       (DomainError ''checkpoint replacement_conversation must not contain system messages'', s) (
     Inr (s\<lparr>st_latest_checkpoint := Some ev\<rparr>))))))))))"

text \<open>Outcomes after which the snapshot's source call is known to have written nothing.\<close>

definition known_no_effect :: "tool_status \<Rightarrow> bool" where
  "known_no_effect st \<longleftrightarrow>
     st \<in> {Failed, Conflict, Interrupted, Cancelled, Denied, InvalidArguments, NotExecuted}"

definition apply_file_snapshot :: "session_state \<Rightarrow> event \<Rightarrow> outcome" where
  "apply_file_snapshot s ev =
     bindE (at_state s (reject_pending_recovery_action s)) (\<lambda>_.
     bindE (at_state s (require_active_turn s)) (\<lambda>active_turn_id.
     bindE (at_state s (payload_uuid (ev_payload ev) ''turn_id'')) (\<lambda>turn_id.
     raise_if (turn_id \<noteq> active_turn_id) (DomainError ''file snapshot belongs to another turn'', s) (
     bindE (at_state s (payload_string (ev_payload ev) ''path'' False)) (\<lambda>path.
     bindE (at_state s (need (as_bool (get (ev_payload ev) ''existed_before''))
       (DomainError ''existed_before must be a boolean''))) (\<lambda>existed_before.
     bindE (at_state s (need (as_str (get_or (ev_payload ev) ''before_bytes'' (PStr [])))
       (DomainError ''before_bytes must be a string''))) (\<lambda>before_bytes.
     raise_if (get (ev_payload ev) ''before_encoding'' \<noteq> PStr ''base64'')
       (DomainError ''before_encoding must be base64'', s) (
     bindE (at_state s (mk_file_snapshot turn_id path existed_before before_bytes
       (get (ev_payload ev) ''before_mode'') (get (ev_payload ev) ''after_hash'')
       (get (ev_payload ev) ''call_key'') (get (ev_payload ev) ''after_mode'') None [])) (\<lambda>snapshot.
     bindE (at_state s (payload_string (ev_payload ev) ''call_key'' False)) (\<lambda>call_key.
     bindE (at_state s (need (map_of (st_tool_calls s) call_key)
       (DomainError ''unknown file snapshot call_key''))) (\<lambda>source_call.
     raise_if (tc_turn_id source_call \<noteq> active_turn_id)
       (DomainError ''file snapshot call_key is not in the active turn'', s) (
     raise_if (tc_status source_call \<noteq> Requested)
       (DomainError ''file snapshot call_key is not an active requested call'', s) (
     raise_if (\<not> managed_write (tc_name source_call))
       (DomainError ''file snapshot call_key must identify a managed write'', s) (
     let key = (turn_id, path);
         stored = s\<lparr>st_file_snapshots := dict_set key snapshot (st_file_snapshots s)\<rparr> in
     case map_of (st_file_snapshots s) key of
       None \<Rightarrow> Inr stored
     | Some existing \<Rightarrow>
         (case (fs_after_hash existing, fs_source_call_key existing) of
            (None, Some source) \<Rightarrow>
              (case map_of (st_tool_calls s) source of
                 Some c \<Rightarrow> Inr (if known_no_effect (tc_status c) then stored else s)
               | None \<Rightarrow> Inr s)
          | _ \<Rightarrow> Inr s)))))))))))))))"

definition apply_file_mutation_planned :: "session_state \<Rightarrow> event \<Rightarrow> outcome" where
  "apply_file_mutation_planned s ev =
     bindE (at_state s (reject_pending_recovery_action s)) (\<lambda>_.
     bindE (at_state s (require_active_turn s)) (\<lambda>active_turn_id.
     bindE (at_state s (payload_uuid (ev_payload ev) ''turn_id'')) (\<lambda>turn_id.
     raise_if (turn_id \<noteq> active_turn_id) (DomainError ''file mutation plan belongs to another turn'', s) (
     bindE (at_state s (payload_string (ev_payload ev) ''call_key'' False)) (\<lambda>call_key.
     bindE (at_state s (need (map_of (st_tool_calls s) call_key)
       (DomainError ''unknown mutation plan call_key''))) (\<lambda>call.
     raise_if (tc_turn_id call \<noteq> turn_id \<or> tc_status call \<noteq> Requested)
       (DomainError ''mutation plan call_key is not an active requested call'', s) (
     raise_if (\<not> managed_write (tc_name call))
       (DomainError ''mutation plan call_key must identify a managed write'', s) (
     raise_if (tc_approved call \<noteq> Some True)
       (DomainError ''file mutation plan requires an approved call'', s) (
     bindE (at_state s (read_version ''expected_version'' (get (ev_payload ev) ''expected_version''))) (\<lambda>expected.
     bindE (at_state s (payload_string (ev_payload ev) ''path'' False)) (\<lambda>path.
     bindE (at_state s (payload_string (ev_payload ev) ''proposed_hash'' False)) (\<lambda>proposed_hash.
     bindE (at_state s (mk_mutation_plan turn_id call_key path expected proposed_hash
       (get (ev_payload ev) ''diff''))) (\<lambda>plan.
     raise_if (has_key (st_file_mutation_plans s) call_key)
       (DomainError ''file mutation plan already exists for call_key'', s) (
     Inr (s\<lparr>st_file_mutation_plans :=
        dict_set call_key plan (st_file_mutation_plans s)\<rparr>)))))))))))))))"

subsection \<open>The remaining events\<close>

definition apply_sampling_failed :: "session_state \<Rightarrow> event \<Rightarrow> outcome" where
  "apply_sampling_failed s ev =
     bindE (at_state s (reject_pending_recovery_action s)) (\<lambda>_.
     bindE (at_state s (require_active_turn s)) (\<lambda>_.
     Inr s))"

definition undo_file_statuses :: "string set" where
  "undo_file_statuses = {''restored'', ''deleted'', ''already_restored'', ''already_deleted'',
     ''conflict'', ''ineligible'', ''not_modified'', ''failed''}"

definition undo_file_status :: "pyval \<Rightarrow> py_error + string" where
    \<comment> \<open>the checks on one entry of \<open>files\<close>\<close>
  "undo_file_status item =
     bindE (need (as_map item)
       (DomainError ''each undo file must have exactly path, status, and detail'')) (\<lambda>d.
     raise_if (fields_of d \<noteq> {''path'', ''status'', ''detail''})
       (DomainError ''each undo file must have exactly path, status, and detail'') (
     bindE (need (as_str (get d ''path'')) (DomainError ''undo file path must be a string'')) (\<lambda>_.
     bindE (need (as_str (get d ''status'')) (DomainError ''undo file status must be a string'')) (\<lambda>status.
     bindE (need (as_str (get d ''detail'')) (DomainError ''undo file detail must be a string'')) (\<lambda>_.
     raise_if (status \<notin> undo_file_statuses) (DomainError ''unknown undo file status'') (
     Inr status))))))"

definition apply_undo_finished :: "session_state \<Rightarrow> event \<Rightarrow> outcome" where
  "apply_undo_finished s ev =
     bindE (at_state s (payload_uuid (ev_payload ev) ''turn_id'')) (\<lambda>turn_id.
     raise_if (\<not> has_key (st_turns s) turn_id) (DomainError ''undo references an unknown turn'', s) (
     raise_if (case map_of (st_undo_results s) turn_id of None \<Rightarrow> False
         | Some previous \<Rightarrow> get (ev_payload previous) ''status'' = PStr ''succeeded'')
       (DomainError ''turn has already been undone'', s) (
     let raw_status = get (ev_payload ev) ''status'' in
     raise_if (\<not> hashable raw_status) (TypeError ''unhashable type'', s) (
     raise_if (raw_status \<notin> {PStr ''succeeded'', PStr ''conflict'', PStr ''partial''})
       (DomainError ''undo status must be succeeded, conflict, or partial'', s) (
     bindE (at_state s (need (as_seq (get (ev_payload ev) ''files''))
       (DomainError ''undo files must be an array''))) (\<lambda>files.
     bindE (at_state s (mapE undo_file_status files)) (\<lambda>observed.
     raise_if (raw_status \<noteq> PStr (reduce_undo_status observed))
       (DomainError ''undo status does not match file results'', s) (
     Inr (s\<lparr>st_undo_results := dict_set turn_id ev (st_undo_results s)\<rparr>)))))))))"

definition apply_plan_mode_set :: "session_state \<Rightarrow> event \<Rightarrow> outcome" where
  "apply_plan_mode_set s ev =
     bindE (at_state s (reject_pending_recovery_action s)) (\<lambda>_.
     raise_if (fields_of (ev_payload ev) \<noteq> {''active''})
       (DomainError ''plan_mode_set payload must contain only active'', s) (
     bindE (at_state s (need (as_bool (get (ev_payload ev) ''active''))
       (DomainError ''plan_mode_set active must be a boolean''))) (\<lambda>active.
     Inr (s\<lparr>st_plan_mode_active := active\<rparr>))))"

subsection \<open>apply, replay and reduce_event\<close>

text \<open>\<open>getattr(cls, f"_apply_{event.type}", None)\<close>.\<close>

definition handlers :: "(session_state \<Rightarrow> event \<Rightarrow> outcome) dict" where
  "handlers =
     [(''session_created'', apply_session_created),
      (''turn_started'', apply_turn_started),
      (''assistant_accepted'', apply_assistant_accepted),
      (''approval_decided'', apply_approval_decided),
      (''session_approval_reset'', apply_session_approval_reset),
      (''tool_started'', apply_tool_started),
      (''tool_finished'', apply_tool_finished),
      (''code_run_started'', apply_code_run_started),
      (''code_node_planned'', apply_code_node_planned),
      (''code_run_finished'', apply_code_run_finished),
      (''turn_recovery_intent'', apply_turn_recovery_intent),
      (''tool_reconciled'', apply_tool_reconciled),
      (''turn_finished'', apply_turn_finished),
      (''compaction_checkpoint'', apply_compaction_checkpoint),
      (''file_snapshot'', apply_file_snapshot),
      (''file_mutation_planned'', apply_file_mutation_planned),
      (''sampling_failed'', apply_sampling_failed),
      (''undo_finished'', apply_undo_finished),
      (''plan_mode_set'', apply_plan_mode_set)]"

definition record_event :: "event \<Rightarrow> session_state \<Rightarrow> session_state" where
  "record_event ev s = s\<lparr>st_last_seq := ev_seq ev, st_last_event_timestamp := Some (ev_timestamp ev),
     st_events := st_events s @ [ev]\<rparr>"

definition apply_event :: "session_state \<Rightarrow> event \<Rightarrow> outcome" where
  "apply_event s ev =
     raise_if (ev_seq ev \<noteq> st_last_seq s + 1) (DomainError ''invalid event sequence'', s) (
     raise_if (st_session_id s \<noteq> None \<and> st_session_id s \<noteq> Some (ev_session_id ev))
       (DomainError ''event belongs to another session'', s) (
     raise_if (st_session_id s = None \<and> ev_type ev \<noteq> ''session_created'')
       (DomainError ''session_created must be the first event'', s) (
     bindE (at_state s (need (map_of handlers (ev_type ev)) (DomainError ''unknown event type''))) (\<lambda>handler.
     bindE (handler s ev) (\<lambda>s'.
     Inr (record_event ev s'))))))"

text \<open>\<open>replay\<close> lets the first exception through; its state is dropped.\<close>

definition replay_from :: "session_state \<Rightarrow> event list \<Rightarrow> outcome" where
  "replay_from s events = foldE apply_event s events"

definition replay :: "event list \<Rightarrow> py_error + session_state" where
  "replay events = reraise fst (replay_from empty_state events)"

text \<open>\<open>reduce_event\<close> applies the event to a copy, so only the exception escapes.\<close>

definition reduce_event :: "session_state \<Rightarrow> event \<Rightarrow> py_error + session_state" where
  "reduce_event s ev = reraise fst (apply_event s ev)"

subsection \<open>plan_recovery_events\<close>

text \<open>The result fact for one call left open by a crash, if it needs one.\<close>

definition recovery_payload :: "tool_call \<Rightarrow> (tool_status \<times> mapping) option" where
  "recovery_payload c = (case tc_status c of
     Started \<Rightarrow> Some (OutcomeUnknown,
       [(''call_key'', PStr (tc_call_key c)), (''call_id'', PStr (tc_provider_call_id c)),
        (''status'', PStr (tool_status_value OutcomeUnknown)),
        (''result'', PStr ''execution began but no terminal result was recorded''),
        (''recovery_blocked'', PBool True)])
   | Requested \<Rightarrow> Some (NotExecuted,
       [(''call_key'', PStr (tc_call_key c)), (''call_id'', PStr (tc_provider_call_id c)),
        (''status'', PStr (tool_status_value NotExecuted)),
        (''result'', PStr ''tool call was not started before recovery''),
        (''recovery_blocked'', PBool False)])
   | _ \<Rightarrow> None)"

fun plan_calls ::
  "(string \<Rightarrow> string \<Rightarrow> string) \<Rightarrow> string \<Rightarrow> string \<Rightarrow> int \<Rightarrow> tool_call list \<Rightarrow> event list" where
  "plan_calls uuid5 session_id ts next_seq [] = []"
| "plan_calls uuid5 session_id ts next_seq (c # cs) = (case recovery_payload c of
     None \<Rightarrow> plan_calls uuid5 session_id ts next_seq cs
   | Some (status, payload) \<Rightarrow>
       \<lparr>ev_version = 1, ev_seq = next_seq,
        ev_id = uuid5 session_id (''recovery:tool_finished:'' @ show_int next_seq @ '':'' @
          tc_call_key c @ '':'' @ tool_status_value status),
        ev_timestamp = ts, ev_session_id = session_id, ev_type = ''tool_finished'',
        ev_payload = payload\<rparr> # plan_calls uuid5 session_id ts (next_seq + 1) cs)"

definition plan_recovery_events ::
  "(string \<Rightarrow> string \<Rightarrow> string) \<Rightarrow> session_state \<Rightarrow> py_error + event list" where
  "plan_recovery_events uuid5 s =
     bindE (need (st_session_id s)
       (DomainError ''cannot plan recovery before session creation'')) (\<lambda>session_id.
     bindE (need (st_last_event_timestamp s)
       (DomainError ''session state has no replay boundary'')) (\<lambda>ts.
     Inr (plan_calls uuid5 session_id ts (st_last_seq s + 1) (vals (st_tool_calls s)))))"

end
