(* ===== verification/ReducerInv.thy ===== *)
theory ReducerInv
  imports Reducer
begin

section \<open>What every session state satisfies\<close>

text \<open>
  The well-formedness invariant of a session state, in five parts (calls, turns, code
  nodes, files, log), and the lemmas that every handler of \<open>SessionReducer\<close> preserves
  it. The properties of the reducer are read off the invariant in \<open>ReducerProps\<close>.
\<close>

subsection \<open>Tool calls\<close>

text \<open>What \<open>ToolCall.__post_init__\<close> enforces, apart from the metadata it freezes.\<close>

definition fields_wf :: "tool_call \<Rightarrow> bool" where
  "fields_wf c \<longleftrightarrow> tc_call_key c \<noteq> [] \<and> tc_provider_call_id c \<noteq> [] \<and> is_uuid (tc_turn_id c) \<and>
     tc_name c \<noteq> [] \<and> tc_origin c \<in> {''model'', ''code''} \<and>
     (tc_origin c = ''code'' \<longrightarrow> opt_nonempty (tc_parent_call_key c) \<and>
        opt_nonempty (tc_code_run_id c) \<and> (\<exists>n \<ge> 1. tc_ordinal c = Some n)) \<and>
     as_map (tc_result_metadata c) \<noteq> None \<and> frozen (tc_result_metadata c)"

lemma post_init_InrD:
  assumes "tool_call_post_init c = Inr c'"
  shows "fields_wf c' \<and> (\<exists>m. c' = c\<lparr>tc_result_metadata := m\<rparr>)"
proof -
  from assms obtain m where m: "freeze_json (tc_result_metadata c) = Inr m"
    "c' = c\<lparr>tc_result_metadata := m\<rparr>" "as_map (tc_result_metadata c) \<noteq> None"
    by (auto simp: tool_call_post_init_def succ_simps)
  from m(1,3) have "as_map m \<noteq> None"
    by (cases "tc_result_metadata c") (auto simp: succ_simps)
  with assms m freeze_json_frozen [OF m(1)] show ?thesis
    by (auto simp: tool_call_post_init_def succ_simps fields_wf_def not_less split: option.splits)
qed

lemma post_init_total:
  assumes "fields_wf c0" "c = c0\<lparr>tc_status := a, tc_result := b, tc_exit_code := d,
     tc_truncated := e, tc_result_metadata := m, tc_recovery_blocked := f, tc_finished_seq := g\<rparr>"
    "as_map m \<noteq> None" "freeze_json m = Inr w"
  shows "tool_call_post_init c = Inr (c\<lparr>tc_result_metadata := w\<rparr>)"
  using assms by (auto simp: tool_call_post_init_def fields_wf_def)

text \<open>
  The history of a call: the sequence numbers of its request, start and finish are ordered
  and at most \<open>n\<close>, they agree with its status, a call that never started can only have
  finished without running, and a denied call never started.
\<close>

definition user_resolved :: "tool_status set" where
  "user_resolved = {UserConfirmedSuccess, UserConfirmedFailure, Abandoned}"

definition span :: "int \<Rightarrow> tool_call \<Rightarrow> bool" where
  "span n c \<longleftrightarrow>
     (\<exists>r. tc_requested_seq c = Some r \<and> 1 \<le> r \<and> r \<le> n \<and>
        (\<forall>a. tc_started_seq c = Some a \<longrightarrow> r < a \<and> a \<le> n) \<and>
        (\<forall>f. tc_finished_seq c = Some f \<longrightarrow> r < f \<and> f \<le> n \<and>
           (\<forall>a. tc_started_seq c = Some a \<longrightarrow> a < f)))"

definition stage :: "tool_call \<Rightarrow> bool" where
  "stage c \<longleftrightarrow>
     (tc_finished_seq c = None \<longleftrightarrow> tc_status c \<in> {Requested, Started}) \<and>
     (tc_started_seq c = None \<longrightarrow> tc_status c \<in> insert Requested (finish_transitions Requested)) \<and>
     (tc_started_seq c \<noteq> None \<longrightarrow> tc_approved c \<noteq> Some False \<and>
        tc_status c \<in> insert Started (finish_transitions Started) \<union> user_resolved) \<and>
     (tc_recovery_blocked c \<longleftrightarrow> tc_status c = OutcomeUnknown)"

lemma span_mono: "span m c \<Longrightarrow> m \<le> n \<Longrightarrow> span n c"
  unfolding span_def by (elim exE conjE, rule exI) (auto intro: order_trans)

definition calls_wf :: "int \<Rightarrow> session_state \<Rightarrow> bool" where
  "calls_wf n s \<longleftrightarrow> dict_ok (st_tool_calls s) \<and>
     (\<forall>k c. map_of (st_tool_calls s) k = Some c \<longrightarrow>
        tc_call_key c = k \<and> fields_wf c \<and> span n c \<and> stage c \<and> has_key (st_turns s) (tc_turn_id c))"

subsection \<open>Turns\<close>

definition open_or_unknown :: "tool_call \<Rightarrow> bool" where
  "open_or_unknown c \<longleftrightarrow> \<not> is_terminal c \<or> outcome_unknown_call c"

text \<open>
  At most one turn is active, under the status its recovery block gives it; every other
  turn is finished, and its calls are all settled.
\<close>

definition turns_wf :: "session_state \<Rightarrow> bool" where
  "turns_wf s \<longleftrightarrow> dict_ok (st_turns s) \<and>
     (case st_active_turn_id s of
        None \<Rightarrow> \<not> st_recovery_blocked s \<and> st_pending_recovery_intent s = None
      | Some t \<Rightarrow> map_of (st_turns s) t = Some (if st_recovery_blocked s then TRecoveryBlocked else TActive)) \<and>
     (\<forall>t st. map_of (st_turns s) t = Some st \<longrightarrow> st_active_turn_id s \<noteq> Some t \<longrightarrow> turn_terminal st) \<and>
     (\<forall>k c. map_of (st_tool_calls s) k = Some c \<longrightarrow> open_or_unknown c \<longrightarrow>
        st_active_turn_id s = Some (tc_turn_id c)) \<and>
     (st_recovery_blocked s \<longleftrightarrow>
        (\<exists>k c. map_of (st_tool_calls s) k = Some c \<and> outcome_unknown_call c))"

subsection \<open>Code nodes and runs\<close>

definition node_status_for :: "tool_status \<Rightarrow> code_node_status" where
  "node_status_for st = (if st = Requested then NPlanned
     else case node_status_of_tool st of Inl _ \<Rightarrow> NPlanned | Inr n \<Rightarrow> n)"

text \<open>Every node is the call of the same key, seen from the run; the graph only points back.\<close>

definition node_wf :: "session_state \<Rightarrow> string \<Rightarrow> code_node \<Rightarrow> bool" where
  "node_wf s k x \<longleftrightarrow> cn_node_id x = k \<and>
     (\<exists>c. map_of (st_tool_calls s) k = Some c \<and> tc_origin c = ''code'' \<and>
        cn_status x = node_status_for (tc_status c) \<and> tc_code_run_id c = Some (cn_run_id x)) \<and>
     (\<exists>r. map_of (st_code_runs s) (cn_run_id x) = Some r \<and> k \<in> set (cr_node_ids r))"

definition run_wf :: "session_state \<Rightarrow> string \<Rightarrow> code_run \<Rightarrow> bool" where
  "run_wf s i r \<longleftrightarrow> cr_run_id r = i \<and> distinct (cr_node_ids r) \<and>
     (\<forall>k \<in> set (cr_node_ids r). \<exists>x. map_of (st_code_nodes s) k = Some x \<and> cn_run_id x = i \<and>
        (cr_status r \<noteq> RunActive \<longrightarrow> node_is_terminal (cn_status x)))"

definition nodes_wf :: "session_state \<Rightarrow> bool" where
  "nodes_wf s \<longleftrightarrow> dict_ok (st_code_nodes s) \<and> dict_ok (st_code_runs s) \<and>
     (\<forall>k c. map_of (st_tool_calls s) k = Some c \<longrightarrow> tc_origin c = ''code'' \<longrightarrow>
        has_key (st_code_nodes s) k) \<and>
     (\<forall>k x. map_of (st_code_nodes s) k = Some x \<longrightarrow> node_wf s k x) \<and>
     (\<forall>i r. map_of (st_code_runs s) i = Some r \<longrightarrow> run_wf s i r)"

subsection \<open>Snapshots and mutation plans\<close>

definition files_wf :: "session_state \<Rightarrow> bool" where
  "files_wf s \<longleftrightarrow>
     (\<forall>k sn. map_of (st_file_snapshots s) k = Some sn \<longrightarrow> k = (fs_turn_id sn, fs_path sn)) \<and>
     (\<forall>k p. map_of (st_file_mutation_plans s) k = Some p \<longrightarrow> mp_call_key p = k \<and>
        (\<exists>c. map_of (st_tool_calls s) k = Some c \<and> tc_turn_id c = mp_turn_id p \<and>
           managed_write (tc_name c) \<and> tc_approved c = Some True))"

subsection \<open>The log\<close>

definition log_wf :: "session_state \<Rightarrow> bool" where
  "log_wf s \<longleftrightarrow>
     st_last_seq s = int (length (st_events s)) \<and>
     (\<forall>i < length (st_events s). ev_seq (st_events s ! i) = int (i + 1) \<and>
        Some (ev_session_id (st_events s ! i)) = st_session_id s) \<and>
     st_last_event_timestamp s =
       (if st_events s = [] then None else Some (ev_timestamp (last (st_events s)))) \<and>
     (st_events s \<noteq> [] \<longrightarrow> ev_type (hd (st_events s)) = ''session_created'') \<and>
     (st_session_id s = None \<longleftrightarrow> st_events s = []) \<and>
     st_assistant_events s = filter (\<lambda>e. ev_type e = ''assistant_accepted'') (st_events s)"

definition wf_state :: "session_state \<Rightarrow> bool" where
  "wf_state s \<longleftrightarrow> calls_wf (st_last_seq s) s \<and> turns_wf s \<and> nodes_wf s \<and> files_wf s \<and> log_wf s"


subsection \<open>Frames\<close>

lemma set_call_simps [simp]:
  "st_tool_calls (set_call c s) = dict_set (tc_call_key c) c (st_tool_calls s)"
  "st_turns (set_call c s) = st_turns s" "st_active_turn_id (set_call c s) = st_active_turn_id s"
  "st_recovery_blocked (set_call c s) = st_recovery_blocked s"
  "st_pending_recovery_intent (set_call c s) = st_pending_recovery_intent s"
  "st_code_nodes (set_call c s) = st_code_nodes s" "st_code_runs (set_call c s) = st_code_runs s"
  "st_file_snapshots (set_call c s) = st_file_snapshots s"
  "st_file_mutation_plans (set_call c s) = st_file_mutation_plans s"
  "st_last_seq (set_call c s) = st_last_seq s" "st_events (set_call c s) = st_events s"
  "st_session_id (set_call c s) = st_session_id s"
  "st_last_event_timestamp (set_call c s) = st_last_event_timestamp s"
  "st_assistant_events (set_call c s) = st_assistant_events s"
  by (simp_all add: set_call_def)

lemma set_node_simps [simp]:
  "st_code_nodes (set_node k x s) = dict_set k x (st_code_nodes s)"
  "st_tool_calls (set_node k x s) = st_tool_calls s"
  "st_turns (set_node k x s) = st_turns s" "st_active_turn_id (set_node k x s) = st_active_turn_id s"
  "st_recovery_blocked (set_node k x s) = st_recovery_blocked s"
  "st_pending_recovery_intent (set_node k x s) = st_pending_recovery_intent s"
  "st_code_runs (set_node k x s) = st_code_runs s"
  "st_file_snapshots (set_node k x s) = st_file_snapshots s"
  "st_file_mutation_plans (set_node k x s) = st_file_mutation_plans s"
  "st_last_seq (set_node k x s) = st_last_seq s" "st_events (set_node k x s) = st_events s"
  "st_session_id (set_node k x s) = st_session_id s"
  "st_last_event_timestamp (set_node k x s) = st_last_event_timestamp s"
  "st_assistant_events (set_node k x s) = st_assistant_events s"
  by (simp_all add: set_node_def)

lemma set_snapshot_simps [simp]:
  "st_tool_calls (set_snapshot u s) = st_tool_calls s"
  "st_turns (set_snapshot u s) = st_turns s" "st_active_turn_id (set_snapshot u s) = st_active_turn_id s"
  "st_recovery_blocked (set_snapshot u s) = st_recovery_blocked s"
  "st_pending_recovery_intent (set_snapshot u s) = st_pending_recovery_intent s"
  "st_code_nodes (set_snapshot u s) = st_code_nodes s" "st_code_runs (set_snapshot u s) = st_code_runs s"
  "st_file_mutation_plans (set_snapshot u s) = st_file_mutation_plans s"
  "st_last_seq (set_snapshot u s) = st_last_seq s" "st_events (set_snapshot u s) = st_events s"
  "st_session_id (set_snapshot u s) = st_session_id s"
  "st_last_event_timestamp (set_snapshot u s) = st_last_event_timestamp s"
  "st_assistant_events (set_snapshot u s) = st_assistant_events s"
  by (simp_all add: set_snapshot_def split: option.split)

lemma refresh_simps [simp]:
  "st_tool_calls (refresh_recovery_block s) = st_tool_calls s"
  "st_active_turn_id (refresh_recovery_block s) = st_active_turn_id s"
  "st_recovery_blocked (refresh_recovery_block s) = list_ex outcome_unknown_call (vals (st_tool_calls s))"
  "st_turns (refresh_recovery_block s) = (case st_active_turn_id s of None \<Rightarrow> st_turns s
     | Some t \<Rightarrow> dict_set t (if list_ex outcome_unknown_call (vals (st_tool_calls s))
         then TRecoveryBlocked else TActive) (st_turns s))"
  "st_pending_recovery_intent (refresh_recovery_block s) = st_pending_recovery_intent s"
  "st_code_nodes (refresh_recovery_block s) = st_code_nodes s"
  "st_code_runs (refresh_recovery_block s) = st_code_runs s"
  "st_file_snapshots (refresh_recovery_block s) = st_file_snapshots s"
  "st_file_mutation_plans (refresh_recovery_block s) = st_file_mutation_plans s"
  "st_last_seq (refresh_recovery_block s) = st_last_seq s"
  "st_events (refresh_recovery_block s) = st_events s"
  "st_session_id (refresh_recovery_block s) = st_session_id s"
  "st_last_event_timestamp (refresh_recovery_block s) = st_last_event_timestamp s"
  "st_assistant_events (refresh_recovery_block s) = st_assistant_events s"
  by (simp_all add: refresh_recovery_block_def Let_def split: option.split)

lemma calls_wf_cong:
  assumes "calls_wf n s" "n \<le> m" "st_tool_calls s' = st_tool_calls s"
    "\<And>t. has_key (st_turns s) t \<Longrightarrow> has_key (st_turns s') t"
  shows "calls_wf m s'"
  using assms unfolding calls_wf_def by (metis span_mono)

lemma calls_wf_set:
  assumes "calls_wf n s" "n \<le> m" "fields_wf c" "span m c" "stage c"
    "has_key (st_turns s) (tc_turn_id c)"
  shows "calls_wf m (set_call c s)"
  using assms span_mono [OF _ assms(2)] unfolding calls_wf_def by simp

lemma turns_wf_cong:
  assumes "turns_wf s" "st_tool_calls s' = st_tool_calls s" "st_turns s' = st_turns s"
    "st_active_turn_id s' = st_active_turn_id s" "st_recovery_blocked s' = st_recovery_blocked s"
    "st_pending_recovery_intent s' = st_pending_recovery_intent s"
  shows "turns_wf s'"
  using assms(1) unfolding turns_wf_def assms(2-) .

lemma turns_wf_blocked:
  "turns_wf s \<Longrightarrow> st_recovery_blocked s \<longleftrightarrow>
     (\<exists>k c. map_of (st_tool_calls s) k = Some c \<and> outcome_unknown_call c)"
  unfolding turns_wf_def by blast

lemma nodes_wf_cong:
  assumes "nodes_wf s" "st_tool_calls s' = st_tool_calls s" "st_code_nodes s' = st_code_nodes s"
    "st_code_runs s' = st_code_runs s"
  shows "nodes_wf s'"
  using assms(1) unfolding nodes_wf_def node_wf_def run_wf_def assms(2-) .

lemma files_wf_cong:
  assumes "files_wf s" "st_tool_calls s' = st_tool_calls s"
    "st_file_snapshots s' = st_file_snapshots s"
    "st_file_mutation_plans s' = st_file_mutation_plans s"
  shows "files_wf s'"
  using assms(1) unfolding files_wf_def assms(2-) .

definition core_wf :: "int \<Rightarrow> session_state \<Rightarrow> bool" where
  "core_wf n s \<longleftrightarrow> calls_wf n s \<and> turns_wf s \<and> nodes_wf s \<and> files_wf s"

lemma core_wf_cong:
  assumes "core_wf n s" "n \<le> m" "st_tool_calls s' = st_tool_calls s" "st_turns s' = st_turns s"
    "st_active_turn_id s' = st_active_turn_id s" "st_recovery_blocked s' = st_recovery_blocked s"
    "st_pending_recovery_intent s' = st_pending_recovery_intent s"
    "st_code_nodes s' = st_code_nodes s" "st_code_runs s' = st_code_runs s"
    "st_file_snapshots s' = st_file_snapshots s"
    "st_file_mutation_plans s' = st_file_mutation_plans s"
  shows "core_wf m s'"
  using assms calls_wf_cong [of n s m s'] turns_wf_cong [of s s'] nodes_wf_cong [of s s']
    files_wf_cong [of s s'] by (simp add: core_wf_def)

subsection \<open>Editing one call\<close>

text \<open>
  What the handlers that update an existing call have in common: its identity stays, an
  approval given stays, a code call's node follows its status.
\<close>

definition same_call :: "tool_call \<Rightarrow> tool_call \<Rightarrow> bool" where
  "same_call c c' \<longleftrightarrow> tc_call_key c' = tc_call_key c \<and> tc_provider_call_id c' = tc_provider_call_id c \<and>
     tc_turn_id c' = tc_turn_id c \<and> tc_name c' = tc_name c \<and> tc_arguments c' = tc_arguments c \<and>
     tc_origin c' = tc_origin c \<and> tc_parent_call_key c' = tc_parent_call_key c \<and>
     tc_code_run_id c' = tc_code_run_id c \<and> tc_ordinal c' = tc_ordinal c \<and>
     tc_requested_seq c' = tc_requested_seq c \<and>
     (tc_approved c \<noteq> None \<longrightarrow> tc_approved c' = tc_approved c)"

lemma nodes_wf_edit:
  assumes wf: "nodes_wf s" and c: "map_of (st_tool_calls s) (tc_call_key c) = Some c"
    and same: "same_call c c'"
    and origin: "tc_origin c \<noteq> ''code'' \<Longrightarrow> st_code_nodes s' = st_code_nodes s"
    and code: "tc_origin c = ''code'' \<Longrightarrow> \<exists>x x'. map_of (st_code_nodes s) (tc_call_key c) = Some x \<and>
        st_code_nodes s' = dict_set (tc_call_key c) x' (st_code_nodes s) \<and>
        cn_node_id x' = cn_node_id x \<and>
        cn_run_id x' = cn_run_id x \<and> cn_status x' = node_status_for (tc_status c') \<and>
        (node_is_terminal (cn_status x) \<longrightarrow> node_is_terminal (cn_status x'))"
    and calls: "st_tool_calls s' = dict_set (tc_call_key c) c' (st_tool_calls s)"
    and runs: "st_code_runs s' = st_code_runs s"
  shows "nodes_wf s'"
proof -
  let ?k = "tc_call_key c"
  have none: "map_of (st_code_nodes s) ?k = None" if "tc_origin c \<noteq> ''code''"
    using wf c that unfolding nodes_wf_def node_wf_def by (metis not_None_eq option.inject)
  have same': "tc_origin c' = tc_origin c" "tc_code_run_id c' = tc_code_run_id c"
    using same by (simp_all add: same_call_def)
  have other: "map_of (st_code_nodes s') k = map_of (st_code_nodes s) k" if "k \<noteq> ?k" for k
    using origin code that by (cases "tc_origin c = ''code''") auto
  have at: "\<exists>x x'. tc_origin c = ''code'' \<and> map_of (st_code_nodes s) ?k = Some x \<and>
        map_of (st_code_nodes s') ?k = Some x' \<and> cn_node_id x' = cn_node_id x \<and>
        cn_run_id x' = cn_run_id x \<and> cn_status x' = node_status_for (tc_status c') \<and>
        (node_is_terminal (cn_status x) \<longrightarrow> node_is_terminal (cn_status x'))"
    if "map_of (st_code_nodes s') ?k \<noteq> None \<or> map_of (st_code_nodes s) ?k \<noteq> None"
    using none origin code that by (cases "tc_origin c = ''code''") auto
  have "node_wf s' k x" if x: "map_of (st_code_nodes s') k = Some x" for k x
  proof (cases "k = ?k")
    case True
    with x at obtain x0 where "tc_origin c = ''code''" "map_of (st_code_nodes s) k = Some x0"
      "cn_node_id x = cn_node_id x0" "cn_run_id x = cn_run_id x0"
      "cn_status x = node_status_for (tc_status c')" by auto
    moreover from this wf have "node_wf s k x0" by (simp add: nodes_wf_def)
    ultimately show ?thesis using True c calls runs same' by (simp add: node_wf_def)
  next
    case False
    with x other wf have "node_wf s k x" by (simp add: nodes_wf_def)
    with False show ?thesis using calls runs by (simp add: node_wf_def)
  qed
  moreover have "run_wf s' i r" if "map_of (st_code_runs s') i = Some r" for i r
  proof -
    from that runs wf have r: "run_wf s i r" by (simp add: nodes_wf_def)
    have "\<exists>x. map_of (st_code_nodes s') k = Some x \<and> cn_run_id x = i \<and>
        (cr_status r \<noteq> RunActive \<longrightarrow> node_is_terminal (cn_status x))" if k: "k \<in> set (cr_node_ids r)" for k
    proof (cases "k = ?k")
      case True
      from r k obtain x where "map_of (st_code_nodes s) k = Some x" "cn_run_id x = i"
        "cr_status r \<noteq> RunActive \<longrightarrow> node_is_terminal (cn_status x)" by (auto simp: run_wf_def)
      then show ?thesis using at True by fastforce
    next
      case False
      with r k other show ?thesis by (simp add: run_wf_def)
    qed
    with r show ?thesis by (simp add: run_wf_def)
  qed
  moreover have "has_key (st_code_nodes s') k"
    if "map_of (st_tool_calls s') k = Some d" "tc_origin d = ''code''" for k d
  proof (cases "k = ?k")
    case True
    with that calls same' have "tc_origin c = ''code''" by simp
    with code True show ?thesis by (auto simp: has_key_def)
  next
    case False
    with that calls wf have "has_key (st_code_nodes s) k" by (simp add: nodes_wf_def)
    with other False show ?thesis by (simp add: has_key_def)
  qed
  moreover have "dict_ok (st_code_nodes s')"
    using wf origin code by (cases "tc_origin c = ''code''") (auto simp: nodes_wf_def)
  ultimately show ?thesis using wf runs by (simp add: nodes_wf_def)
qed

lemma files_wf_edit:
  assumes "files_wf s" "map_of (st_tool_calls s) (tc_call_key c) = Some c" "same_call c c'"
    "st_tool_calls s' = dict_set (tc_call_key c) c' (st_tool_calls s)"
    "st_file_mutation_plans s' = st_file_mutation_plans s"
    "\<And>k sn. map_of (st_file_snapshots s') k = Some sn \<Longrightarrow> k = (fs_turn_id sn, fs_path sn)"
  shows "files_wf s'"
  unfolding files_wf_def assms(4,5)
proof (intro conjI allI impI)
  fix k p
  assume p: "map_of (st_file_mutation_plans s) k = Some p"
  with assms(1) obtain d where d: "mp_call_key p = k" "map_of (st_tool_calls s) k = Some d"
    "tc_turn_id d = mp_turn_id p" "managed_write (tc_name d)" "tc_approved d = Some True"
    unfolding files_wf_def by blast
  show "mp_call_key p = k" by (rule d)
  show "\<exists>c2. map_of (dict_set (tc_call_key c) c' (st_tool_calls s)) k = Some c2 \<and>
      tc_turn_id c2 = mp_turn_id p \<and> managed_write (tc_name c2) \<and> tc_approved c2 = Some True"
    using d assms(2,3) by (cases "k = tc_call_key c") (auto simp: same_call_def)
qed (use assms(6) in auto)

text \<open>Replacing one call of the active turn keeps the turn part once the block is refreshed.\<close>

lemma turns_wf_refresh:
  assumes wf: "turns_wf s" and ok: "dict_ok (st_tool_calls s)"
    and c: "st_active_turn_id s = Some t" "tc_turn_id c' = t"
    and s1: "st_tool_calls s1 = dict_set k c' (st_tool_calls s)" "st_turns s1 = st_turns s"
      "st_active_turn_id s1 = st_active_turn_id s"
  shows "turns_wf (refresh_recovery_block s1)"
proof -
  have ok1: "dict_ok (st_tool_calls s1)" using ok s1 by simp
  have ex: "list_ex outcome_unknown_call (vals (st_tool_calls s1)) \<longleftrightarrow>
      (\<exists>k c. map_of (st_tool_calls s1) k = Some c \<and> outcome_unknown_call c)"
    unfolding list_ex_iff Bex_def vals_iff [OF ok1] by blast
  show ?thesis
    unfolding turns_wf_def refresh_simps ex
    apply (intro conjI)
    subgoal using wf c s1 by (simp add: turns_wf_def)
    subgoal using c s1 by simp
    subgoal using wf c s1 by (simp add: turns_wf_def)
    subgoal using wf c s1 by (simp add: turns_wf_def)
    subgoal ..
    done
qed


text \<open>A change of status that neither enters nor leaves \<open>outcome_unknown\<close>.\<close>

lemma turns_wf_same_block:
  assumes wf: "turns_wf s" and act: "st_active_turn_id s = Some (tc_turn_id c)"
    and at: "map_of (st_tool_calls s) (tc_call_key c) = Some c"
    and c': "tc_turn_id c' = tc_turn_id c" "outcome_unknown_call c' = outcome_unknown_call c"
    and s': "st_tool_calls s' = dict_set (tc_call_key c) c' (st_tool_calls s)" "st_turns s' = st_turns s"
      "st_active_turn_id s' = st_active_turn_id s" "st_recovery_blocked s' = st_recovery_blocked s"
      "st_pending_recovery_intent s' = st_pending_recovery_intent s"
  shows "turns_wf s'"
proof -
  have block: "(\<exists>k d. map_of (st_tool_calls s') k = Some d \<and> outcome_unknown_call d) \<longleftrightarrow>
     (\<exists>k d. map_of (st_tool_calls s) k = Some d \<and> outcome_unknown_call d)"
  proof
    assume "\<exists>k d. map_of (st_tool_calls s') k = Some d \<and> outcome_unknown_call d"
    then obtain k d where kd: "map_of (st_tool_calls s') k = Some d" "outcome_unknown_call d" by blast
    show "\<exists>k d. map_of (st_tool_calls s) k = Some d \<and> outcome_unknown_call d"
      using kd at c' s'(1) by (cases "k = tc_call_key c") auto
  next
    assume "\<exists>k d. map_of (st_tool_calls s) k = Some d \<and> outcome_unknown_call d"
    then obtain k d where kd: "map_of (st_tool_calls s) k = Some d" "outcome_unknown_call d" by blast
    show "\<exists>k d. map_of (st_tool_calls s') k = Some d \<and> outcome_unknown_call d"
      by (rule exI [of _ k]) (use kd at c' s'(1) in auto)
  qed
  show ?thesis
    unfolding turns_wf_def
    apply (intro conjI)
    subgoal using wf s' by (simp add: turns_wf_def)
    subgoal using wf unfolding turns_wf_def s' by blast
    subgoal using wf s' by (simp add: turns_wf_def)
    subgoal using wf s' c' act by (auto simp: turns_wf_def)
    subgoal using turns_wf_blocked [OF wf] block s'(4) by blast
    done
qed

subsection \<open>The handlers that leave calls, turns and files alone\<close>

lemma keeps_session_created:
  "core_wf n s \<Longrightarrow> apply_session_created s ev = Inr s' \<Longrightarrow> core_wf (n + 1) s'"
  by (erule core_wf_cong) (auto simp: apply_session_created_def succ_simps)

lemma keeps_session_approval_reset:
  "core_wf n s \<Longrightarrow> apply_session_approval_reset s ev = Inr s' \<Longrightarrow> core_wf (n + 1) s'"
  by (erule core_wf_cong) (auto simp: apply_session_approval_reset_def succ_simps)

lemma keeps_compaction_checkpoint:
  "core_wf n s \<Longrightarrow> apply_compaction_checkpoint s ev = Inr s' \<Longrightarrow> core_wf (n + 1) s'"
  by (erule core_wf_cong) (auto simp: apply_compaction_checkpoint_def succ_simps)

lemma keeps_sampling_failed:
  "core_wf n s \<Longrightarrow> apply_sampling_failed s ev = Inr s' \<Longrightarrow> core_wf (n + 1) s'"
  by (erule core_wf_cong) (auto simp: apply_sampling_failed_def succ_simps)

lemma keeps_undo_finished:
  "core_wf n s \<Longrightarrow> apply_undo_finished s ev = Inr s' \<Longrightarrow> core_wf (n + 1) s'"
  by (erule core_wf_cong) (clarsimp simp: apply_undo_finished_def Let_def succ_simps simp del: insert_iff)+

lemma keeps_plan_mode_set:
  "core_wf n s \<Longrightarrow> apply_plan_mode_set s ev = Inr s' \<Longrightarrow> core_wf (n + 1) s'"
  by (erule core_wf_cong) (clarsimp simp: apply_plan_mode_set_def succ_simps simp del: insert_iff)+

subsection \<open>The handlers of turns\<close>

lemma keeps_turn_started:
  assumes wf: "core_wf n s" and ok: "apply_turn_started s ev = Inr s'"
  shows "core_wf (n + 1) s'"
proof -
  from ok obtain t u where t: "st_active_turn_id s = None" "map_of (st_turns s) t = None"
    and s': "s' = s\<lparr>st_active_turn_id := Some t, st_turns := dict_set t TActive (st_turns s),
              st_turn_inputs := u\<rparr>"
    by (auto simp: apply_turn_started_def succ_simps has_key_def)
  have c: "calls_wf (n + 1) s'"
    by (rule calls_wf_cong [of n s]) (use wf s' in \<open>auto simp: core_wf_def has_key_def\<close>)
  have "turns_wf s'" unfolding turns_wf_def
    apply (intro conjI)
    subgoal using wf s' by (simp add: core_wf_def turns_wf_def)
    subgoal using wf s' t by (simp add: core_wf_def turns_wf_def)
    subgoal using wf s' t by (simp add: core_wf_def turns_wf_def)
    subgoal using wf s' t by (simp add: core_wf_def turns_wf_def)
    subgoal using turns_wf_blocked [of s] wf s' by (simp add: core_wf_def)
    done
  moreover have "nodes_wf s'" by (rule nodes_wf_cong [of s]) (use wf s' in \<open>auto simp: core_wf_def\<close>)
  moreover have "files_wf s'" by (rule files_wf_cong [of s]) (use wf s' in \<open>auto simp: core_wf_def\<close>)
  ultimately show ?thesis using c by (simp add: core_wf_def)
qed

lemma parse_turn_status_terminal: "parse_turn_status v = Inr st \<Longrightarrow> turn_terminal st"
  by (auto simp: parse_turn_status_def succ_simps)

lemma keeps_turn_finished:
  assumes wf: "core_wf n s" and ok: "apply_turn_finished s ev = Inr s'"
  shows "core_wf (n + 1) s'"
proof -
  from ok obtain t st where t: "st_active_turn_id s = Some t" "\<not> st_recovery_blocked s" "turn_terminal st"
      "\<forall>c \<in> set (vals (st_tool_calls s)). tc_turn_id c = t \<longrightarrow> is_terminal c"
    and s': "s' = s\<lparr>st_turns := dict_set t st (st_turns s), st_active_turn_id := None,
            st_recovery_blocked := False, st_pending_recovery_intent := None\<rparr>"
    using parse_turn_status_terminal
    by (auto simp: apply_turn_finished_def succ_simps require_active_turn_def)
  have dict: "dict_ok (st_tool_calls s)" using wf by (simp add: core_wf_def calls_wf_def)
  have settled: "\<not> open_or_unknown c" if c: "map_of (st_tool_calls s) k = Some c" for k c
  proof
    assume o: "open_or_unknown c"
    with wf c t have "tc_turn_id c = t" by (auto simp: core_wf_def turns_wf_def)
    moreover have "c \<in> set (vals (st_tool_calls s))" using c vals_iff [OF dict] by blast
    ultimately have "is_terminal c" using t by blast
    with o have "outcome_unknown_call c" by (simp add: open_or_unknown_def)
    with c wf t show False by (auto simp: core_wf_def turns_wf_def)
  qed
  have "turns_wf s'" unfolding turns_wf_def
    apply (intro conjI)
    subgoal using wf s' by (simp add: core_wf_def turns_wf_def)
    subgoal using s' by simp
    subgoal using wf s' t by (simp add: core_wf_def turns_wf_def)
    subgoal using settled s' by simp
    subgoal using settled s' by (auto simp: open_or_unknown_def)
    done
  moreover have "calls_wf (n + 1) s'"
    by (rule calls_wf_cong [of n s]) (use wf s' in \<open>auto simp: core_wf_def has_key_def\<close>)
  moreover have "nodes_wf s'" by (rule nodes_wf_cong [of s]) (use wf s' in \<open>auto simp: core_wf_def\<close>)
  moreover have "files_wf s'" by (rule files_wf_cong [of s]) (use wf s' in \<open>auto simp: core_wf_def\<close>)
  ultimately show ?thesis by (simp add: core_wf_def)
qed

lemma keeps_turn_recovery_intent:
  assumes wf: "core_wf n s" and ok: "apply_turn_recovery_intent s ev = Inr s'"
  shows "core_wf (n + 1) s'"
proof -
  from ok obtain t where t: "st_active_turn_id s = Some t"
    and s': "s' = s\<lparr>st_pending_recovery_intent := Some ev\<rparr>"
    by (auto simp: apply_turn_recovery_intent_def succ_simps require_active_turn_def Let_def
        split: if_splits)
  have "turns_wf s'" using wf t unfolding s' core_wf_def turns_wf_def by simp
  moreover have "calls_wf (n + 1) s'"
    by (rule calls_wf_cong [of n s]) (use wf s' in \<open>auto simp: core_wf_def\<close>)
  moreover have "nodes_wf s'" by (rule nodes_wf_cong [of s]) (use wf s' in \<open>auto simp: core_wf_def\<close>)
  moreover have "files_wf s'" by (rule files_wf_cong [of s]) (use wf s' in \<open>auto simp: core_wf_def\<close>)
  ultimately show ?thesis by (simp add: core_wf_def)
qed

subsection \<open>New calls\<close>

text \<open>A freshly requested call.\<close>

definition fresh_call :: "int \<Rightarrow> tool_call \<Rightarrow> bool" where
  "fresh_call n c \<longleftrightarrow> fields_wf c \<and> tc_status c = Requested \<and> tc_approved c = None \<and>
     tc_requested_seq c = Some n \<and> tc_started_seq c = None \<and> tc_finished_seq c = None \<and>
     \<not> tc_recovery_blocked c"

lemma fresh_call_history: "fresh_call n c \<Longrightarrow> 1 \<le> n \<Longrightarrow> span n c \<and> stage c"
  by (auto simp: fresh_call_def span_def stage_def)

lemma ex_call_new:
  assumes "map_of d k = None" "\<not> P c"
  shows "(\<exists>j x. map_of (dict_set k c d) j = Some x \<and> P x) \<longleftrightarrow> (\<exists>j x. map_of d j = Some x \<and> P x)"
proof
  assume "\<exists>j x. map_of (dict_set k c d) j = Some x \<and> P x"
  then obtain j x where j: "map_of (dict_set k c d) j = Some x" "P x" by blast
  with assms have "j \<noteq> k" by auto
  with j show "\<exists>j x. map_of d j = Some x \<and> P x" by auto
next
  assume "\<exists>j x. map_of d j = Some x \<and> P x"
  then obtain j x where j: "map_of d j = Some x" "P x" by blast
  with assms have "j \<noteq> k" by auto
  with j have "map_of (dict_set k c d) j = Some x \<and> P x" by simp
  then show "\<exists>j x. map_of (dict_set k c d) j = Some x \<and> P x" by blast
qed

lemma new_call_parts:
  assumes wf: "calls_wf m s" "turns_wf s" "files_wf s"
    and new: "map_of (st_tool_calls s) (tc_call_key c) = None"
    and c: "fresh_call (n + 1) c" "0 \<le> n" "m \<le> n + 1"
    and t: "st_active_turn_id s = Some (tc_turn_id c)"
  shows "calls_wf (n + 1) (set_call c s) \<and> turns_wf (set_call c s) \<and> files_wf (set_call c s)"
proof -
  have turn: "has_key (st_turns s) (tc_turn_id c)"
    using wf t by (simp add: turns_wf_def has_key_def)
  have calls: "calls_wf (n + 1) (set_call c s)"
    by (rule calls_wf_set [of m]) (use wf c fresh_call_history turn in \<open>auto simp: fresh_call_def\<close>)
  have plain: "\<not> outcome_unknown_call c"
    using c by (simp_all add: fresh_call_def outcome_unknown_call_def)
  have old: "map_of (st_tool_calls s) k = Some d \<Longrightarrow> k \<noteq> tc_call_key c" for k d using new by auto
  have blocked: "st_recovery_blocked s \<longleftrightarrow>
      (\<exists>k d. map_of (st_tool_calls (set_call c s)) k = Some d \<and> outcome_unknown_call d)"
    using turns_wf_blocked [OF wf(2)] ex_call_new [where P = outcome_unknown_call, OF new plain] by simp
  have turns: "turns_wf (set_call c s)"
    unfolding turns_wf_def
    apply (intro conjI)
    subgoal using wf by (simp add: turns_wf_def)
    subgoal using wf(2) unfolding turns_wf_def set_call_simps by blast
    subgoal using wf by (simp add: turns_wf_def)
    subgoal using wf t by (simp add: turns_wf_def)
    subgoal using blocked by simp
    done
  have files: "files_wf (set_call c s)"
    unfolding files_wf_def
  proof (intro conjI allI impI)
    fix k p assume p: "map_of (st_file_mutation_plans (set_call c s)) k = Some p"
    with wf have "mp_call_key p = k \<and> (\<exists>d. map_of (st_tool_calls s) k = Some d \<and>
        tc_turn_id d = mp_turn_id p \<and> managed_write (tc_name d) \<and> tc_approved d = Some True)"
      by (simp add: files_wf_def)
    with old show "mp_call_key p = k" "\<exists>d. map_of (st_tool_calls (set_call c s)) k = Some d \<and>
        tc_turn_id d = mp_turn_id p \<and> managed_write (tc_name d) \<and> tc_approved d = Some True"
      by fastforce+
  qed (use wf in \<open>simp add: files_wf_def split_paired_all split: prod.splits\<close>)
  show ?thesis using calls turns files by simp
qed

lemma core_wf_new_call_upto:
  assumes wf: "core_wf m s" and new: "map_of (st_tool_calls s) (tc_call_key c) = None"
    and c: "fresh_call (n + 1) c" "tc_origin c = ''model''" "0 \<le> n" "m \<le> n + 1"
    and t: "st_active_turn_id s = Some (tc_turn_id c)"
  shows "core_wf (n + 1) (set_call c s)"
proof -
  have old: "map_of (st_tool_calls s) k = Some d \<Longrightarrow> k \<noteq> tc_call_key c" for k d using new by auto
  have "nodes_wf (set_call c s)"
    unfolding nodes_wf_def
  proof (intro conjI allI impI)
    fix k x assume "map_of (st_code_nodes (set_call c s)) k = Some x"
    with wf have "node_wf s k x" by (simp add: core_wf_def nodes_wf_def)
    then show "node_wf (set_call c s) k x" using old by (auto simp: node_wf_def)
  next
    fix i r assume "map_of (st_code_runs (set_call c s)) i = Some r"
    with wf have "run_wf s i r" by (simp add: core_wf_def nodes_wf_def)
    then show "run_wf (set_call c s) i r" by (simp add: run_wf_def)
  qed (use wf c in \<open>auto simp: core_wf_def nodes_wf_def split: if_splits\<close>)
  with new_call_parts [of m s c n] assms show ?thesis by (simp add: core_wf_def)
qed

lemma parse_call_document_fresh:
  assumes "parse_call_document ev t seen d = Inr c"
  shows "fresh_call (ev_seq ev) c \<and> tc_origin c = ''model'' \<and> tc_turn_id c = t \<and>
    tc_call_key c = call_key_of (ev_seq ev) (tc_provider_call_id c)"
proof -
  from assms obtain call_id name arguments where
    "tool_call_post_init (new_tool_call (call_key_of (ev_seq ev) call_id) call_id t name arguments (ev_seq ev)) = Inr c"
    by (auto simp: parse_call_document_def succ_simps)
  from post_init_InrD [OF this] show ?thesis by (auto simp: new_tool_call_def fresh_call_def)
qed

lemma parse_call_documents_fresh:
  "parse_call_documents ev t seen ds = Inr cs \<Longrightarrow>
   \<forall>c \<in> set cs. fresh_call (ev_seq ev) c \<and> tc_origin c = ''model'' \<and> tc_turn_id c = t \<and>
     tc_call_key c = call_key_of (ev_seq ev) (tc_provider_call_id c)"
  by (induction ds arbitrary: seen cs) (auto simp: succ_simps dest: parse_call_document_fresh)

lemma core_wf_store_calls:
  assumes "core_wf n s" "store_calls s cs = Inr s'" "0 \<le> n"
    "\<forall>c \<in> set cs. fresh_call (n + 1) c \<and> tc_origin c = ''model'' \<and>
       st_active_turn_id s = Some (tc_turn_id c)"
  shows "core_wf (n + 1) s' \<and> st_active_turn_id s' = st_active_turn_id s"
proof -
  have "core_wf (n + 1) s' \<and> st_active_turn_id s' = st_active_turn_id s" if
    "core_wf m s" "m = n \<or> m = n + 1" "store_calls s cs = Inr s'"
    "\<forall>c \<in> set cs. fresh_call (n + 1) c \<and> tc_origin c = ''model'' \<and>
       st_active_turn_id s = Some (tc_turn_id c)" for m
    using that
  proof (induction cs arbitrary: s m)
    case Nil
    then show ?case using core_wf_cong [of m s "n + 1" s] by auto
  next
    case (Cons c cs)
    from Cons.prems(3) have s1: "map_of (st_tool_calls s) (tc_call_key c) = None"
      "store_calls (set_call c s) cs = Inr s'" by (auto simp: succ_simps has_key_def)
    have "core_wf (n + 1) (set_call c s)"
      using Cons.prems(1,2,4) s1(1) assms(3) by (intro core_wf_new_call_upto [of m]) auto
    from Cons.IH [OF this _ s1(2)] Cons.prems(4) show ?case by simp
  qed
  with assms show ?thesis by blast
qed

lemma keeps_assistant_accepted:
  assumes wf: "core_wf n s" and seq: "ev_seq ev = n + 1" "0 \<le> n"
    and ok: "apply_assistant_accepted s ev = Inr s'"
  shows "core_wf (n + 1) s'"
proof -
  from ok obtain t ds cs s1 x where t: "st_active_turn_id s = Some t"
    and cs: "parse_call_documents ev t [] ds = Inr cs" "store_calls s cs = Inr s1"
    and s': "s' = s1\<lparr>st_assistant_events := st_assistant_events s1 @ [ev], st_last_usage := x\<rparr>"
    by (auto simp: apply_assistant_accepted_def succ_simps require_active_turn_def)
  have "core_wf (n + 1) s1"
    using core_wf_store_calls [OF wf cs(2) seq(2)] parse_call_documents_fresh [OF cs(1)] t seq by auto
  then show ?thesis by (rule core_wf_cong) (simp_all add: s')
qed


subsection \<open>Code runs\<close>

lemma keeps_code_run_started:
  assumes wf: "core_wf n s" and ok: "apply_code_run_started s ev = Inr s'"
  shows "core_wf (n + 1) s'"
proof -
  from ok obtain t i p d h where i: "map_of (st_code_runs s) i = None"
    and eq: "s' = s\<lparr>st_code_runs := dict_set i
        \<lparr>cr_run_id = i, cr_turn_id = t, cr_parent_call_key = p, cr_description = d,
         cr_source_hash = h, cr_status = RunActive, cr_node_ids = [], cr_result = None\<rparr>
        (st_code_runs s)\<rparr>"
    by (auto simp: apply_code_run_started_def succ_simps has_key_def)
  obtain r where r: "map_of (st_code_runs s) i = None" "cr_run_id r = i" "cr_node_ids r = []"
    and s': "s' = s\<lparr>st_code_runs := dict_set i r (st_code_runs s)\<rparr>"
    by (rule that [OF i _ _ eq]) simp_all
  have "nodes_wf s'" unfolding nodes_wf_def
  proof (intro conjI allI impI)
    fix k x assume "map_of (st_code_nodes s') k = Some x"
    with wf s' have "node_wf s k x" by (simp add: core_wf_def nodes_wf_def)
    then show "node_wf s' k x" using r s' by (auto simp: node_wf_def)
  next
    fix j q assume q: "map_of (st_code_runs s') j = Some q"
    show "run_wf s' j q"
    proof (cases "j = i")
      case True with q r s' show ?thesis by (simp add: run_wf_def)
    next
      case False
      with q s' wf have "run_wf s j q" by (simp add: core_wf_def nodes_wf_def)
      then show ?thesis using s' by (simp add: run_wf_def)
    qed
  qed (use wf s' in \<open>auto simp: core_wf_def nodes_wf_def\<close>)
  moreover have "turns_wf s'" by (rule turns_wf_cong [of s]) (use wf s' in \<open>auto simp: core_wf_def\<close>)
  moreover have "files_wf s'" by (rule files_wf_cong [of s]) (use wf s' in \<open>auto simp: core_wf_def\<close>)
  moreover have "calls_wf (n + 1) s'"
    by (rule calls_wf_cong [of n s]) (use wf s' in \<open>auto simp: core_wf_def\<close>)
  ultimately show ?thesis by (simp add: core_wf_def)
qed

lemma run_nodes_Inr: "run_nodes s r = Inr xs \<Longrightarrow>
    list_all2 (\<lambda>i x. map_of (st_code_nodes s) i = Some x) (cr_node_ids r) xs"
  by (simp add: run_nodes_def mapE_Inr_iff succ_simps)

lemma keeps_code_run_finished:
  assumes wf: "core_wf n s" and ok: "apply_code_run_finished s ev = Inr s'"
  shows "core_wf (n + 1) s'"
proof -
  have "\<exists>i r xs r'. s' = s\<lparr>st_code_runs := dict_set i r' (st_code_runs s)\<rparr> \<and>
      map_of (st_code_runs s) i = Some r \<and> run_nodes s r = Inr xs \<and>
      (\<forall>x \<in> set xs. node_is_terminal (cn_status x)) \<and>
      cr_run_id r' = cr_run_id r \<and> cr_node_ids r' = cr_node_ids r"
    using ok by (clarsimp simp: apply_code_run_finished_def active_run_def succ_simps)
      (intro exI conjI, rule refl, assumption, assumption, auto)
  then obtain i r xs r' where r: "map_of (st_code_runs s) i = Some r" "run_nodes s r = Inr xs"
      "\<forall>x \<in> set xs. node_is_terminal (cn_status x)"
      "cr_run_id r' = cr_run_id r" "cr_node_ids r' = cr_node_ids r"
    and s': "s' = s\<lparr>st_code_runs := dict_set i r' (st_code_runs s)\<rparr>" by blast
  have settled: "node_is_terminal (cn_status x)" if "k \<in> set (cr_node_ids r)" "map_of (st_code_nodes s) k = Some x" for k x
    using run_nodes_Inr [OF r(2)] r(3) that by (auto simp: list_all2_conv_all_nth in_set_conv_nth)
  have "nodes_wf s'" unfolding nodes_wf_def
  proof (intro conjI allI impI)
    fix k x assume "map_of (st_code_nodes s') k = Some x"
    with wf s' have "node_wf s k x" by (simp add: core_wf_def nodes_wf_def)
    then show "node_wf s' k x" using r s' by (auto simp: node_wf_def)
  next
    fix j q assume q: "map_of (st_code_runs s') j = Some q"
    show "run_wf s' j q"
    proof (cases "j = i")
      case True
      from wf r have "run_wf s i r" by (simp add: core_wf_def nodes_wf_def)
      with True q r s' settled show ?thesis by (fastforce simp: run_wf_def)
    next
      case False
      with q s' wf have "run_wf s j q" by (simp add: core_wf_def nodes_wf_def)
      then show ?thesis using s' by (simp add: run_wf_def)
    qed
  qed (use wf s' in \<open>auto simp: core_wf_def nodes_wf_def\<close>)
  moreover have "turns_wf s'" by (rule turns_wf_cong [of s]) (use wf s' in \<open>auto simp: core_wf_def\<close>)
  moreover have "files_wf s'" by (rule files_wf_cong [of s]) (use wf s' in \<open>auto simp: core_wf_def\<close>)
  moreover have "calls_wf (n + 1) s'"
    by (rule calls_wf_cong [of n s]) (use wf s' in \<open>auto simp: core_wf_def\<close>)
  ultimately show ?thesis by (simp add: core_wf_def)
qed

lemma keeps_code_node_planned:
  assumes wf: "core_wf n s" and seq: "ev_seq ev = n + 1" "0 \<le> n"
    and ok: "apply_code_node_planned s ev = Inr s'"
  shows "core_wf (n + 1) s'"
proof -
  from ok obtain t i r k a ds nm ar c where t: "st_active_turn_id s = Some t"
    and r: "map_of (st_code_runs s) i = Some r" "cr_status r = RunActive"
    and k: "map_of (st_code_nodes s) k = None" "map_of (st_tool_calls s) k = None"
    and c0: "tool_call_post_init ((new_tool_call k k t nm ar (ev_seq ev))
             \<lparr>tc_origin := ''code'', tc_parent_call_key := Some (cr_parent_call_key r),
              tc_code_run_id := Some i, tc_ordinal := Some a\<rparr>) = Inr c"
    and eq: "s' = set_call c ((set_node k \<lparr>cn_node_id = k, cn_run_id = i,
           cn_parent_call_key = cr_parent_call_key r, cn_turn_id = t, cn_ordinal = a,
           cn_name = nm, cn_arguments = ar, cn_dependencies = ds,
           cn_status = NPlanned, cn_result = None, cn_blocked_by = [], cn_root_failures = [],
           cn_requested_seq = Some (ev_seq ev), cn_started_seq = None, cn_finished_seq = None\<rparr> s)
        \<lparr>st_code_runs := dict_set i (r\<lparr>cr_node_ids := cr_node_ids r @ [k]\<rparr>) (st_code_runs s)\<rparr>)"
    by (auto simp: apply_code_node_planned_def active_run_def succ_simps has_key_def Let_def
        require_active_turn_def)
  have c: "tc_call_key c = k" "tc_turn_id c = t" "tc_origin c = ''code''" "tc_code_run_id c = Some i"
      "fresh_call (ev_seq ev) c"
    using post_init_InrD [OF c0] by (auto simp: new_tool_call_def fresh_call_def)
  obtain x where x: "cn_node_id x = k" "cn_run_id x = i" "cn_status x = NPlanned"
    and s'0: "s' = set_call c ((set_node k x s)\<lparr>st_code_runs :=
        dict_set i (r\<lparr>cr_node_ids := cr_node_ids r @ [k]\<rparr>) (st_code_runs s)\<rparr>)"
    by (rule that [OF _ _ _ eq]) simp_all
  define s2 where s2: "s2 = (set_node k x s)\<lparr>st_code_runs :=
        dict_set i (r\<lparr>cr_node_ids := cr_node_ids r @ [k]\<rparr>) (st_code_runs s)\<rparr>"
  have s': "s' = set_call c s2" using s'0 s2 by simp
  have "calls_wf n s2" by (rule calls_wf_cong [of n s]) (use wf s2 in \<open>auto simp: core_wf_def\<close>)
  moreover have "turns_wf s2" by (rule turns_wf_cong [of s]) (use wf s2 in \<open>auto simp: core_wf_def\<close>)
  moreover have "files_wf s2" by (rule files_wf_cong [of s]) (use wf s2 in \<open>auto simp: core_wf_def\<close>)
  ultimately have parts: "calls_wf (n + 1) s' \<and> turns_wf s' \<and> files_wf s'"
    unfolding s' by (rule new_call_parts) (use k c seq s2 t in auto)
  have maps: "st_tool_calls s' = dict_set k c (st_tool_calls s)"
    "st_code_nodes s' = dict_set k x (st_code_nodes s)"
    "st_code_runs s' = dict_set i (r\<lparr>cr_node_ids := cr_node_ids r @ [k]\<rparr>) (st_code_runs s)"
    using s' s2 c by simp_all
  have rwf: "run_wf s i r" using wf r by (simp add: core_wf_def nodes_wf_def)
  with k have fresh: "k \<notin> set (cr_node_ids r)" by (auto simp: run_wf_def)
  have "nodes_wf s'" unfolding nodes_wf_def
  proof (intro conjI allI impI)
    fix j y assume y: "map_of (st_code_nodes s') j = Some y"
    show "node_wf s' j y"
    proof (cases "j = k")
      case True
      with y maps x c r show ?thesis by (simp add: node_wf_def fresh_call_def node_status_for_def)
    next
      case False
      with y maps wf have "node_wf s j y" by (simp add: core_wf_def nodes_wf_def)
      with False show ?thesis using maps r by (auto simp: node_wf_def)
    qed
  next
    fix j q assume q: "map_of (st_code_runs s') j = Some q"
    show "run_wf s' j q"
    proof (cases "j = i")
      case True
      with q maps rwf r x fresh k show ?thesis by (auto simp: run_wf_def)
    next
      case False
      with q maps wf have "run_wf s j q" by (simp add: core_wf_def nodes_wf_def)
      then show ?thesis using maps k by (fastforce simp: run_wf_def)
    qed
  qed (use wf maps in \<open>auto simp: core_wf_def nodes_wf_def has_key_def\<close>)
  with parts show ?thesis by (simp add: core_wf_def)
qed


subsection \<open>The handlers of one call\<close>

lemma the_only_call [succ_simps]:
  "(case xs of [] \<Rightarrow> Inl a | [x] \<Rightarrow> Inr x | x # y # zs \<Rightarrow> Inl b) = Inr c \<longleftrightarrow> xs = [c]"
  by (auto split: list.splits)

lemma call_for_active_turnD:
  assumes ok: "call_for_active_turn s p = Inr c" and wf: "calls_wf n s"
  shows "st_active_turn_id s = Some (tc_turn_id c) \<and> map_of (st_tool_calls s) (tc_call_key c) = Some c"
proof -
  have dict: "dict_ok (st_tool_calls s)" using wf by (simp add: calls_wf_def)
  have key: "map_of (st_tool_calls s) (tc_call_key d) = Some d" if "map_of (st_tool_calls s) k = Some d" for k d
    using wf that by (auto simp: calls_wf_def)
  have stored: "map_of (st_tool_calls s) (tc_call_key d) = Some d" if "d \<in> set (vals (st_tool_calls s))" for d
    using that key vals_iff [OF dict] by blast
  from ok obtain t where "st_active_turn_id s = Some t" "tc_turn_id c = t"
    by (auto simp: call_for_active_turn_def require_active_turn_def succ_simps)
  moreover from ok have "(\<exists>k. map_of (st_tool_calls s) k = Some c) \<or> c \<in> set (vals (st_tool_calls s))"
    by (auto simp: call_for_active_turn_def succ_simps split: if_splits dest: filter_eq_ConsD)
  ultimately show ?thesis using key stored by blast
qed

lemma keeps_approval_decided:
  assumes wf: "core_wf n s" and ok: "apply_approval_decided s ev = Inr s'"
  shows "core_wf (n + 1) s'"
proof -
  from ok obtain c d sc c' where c: "call_for_active_turn s (ev_payload ev) = Inr c" "tc_approved c = None"
      "\<not> is_terminal c" "tc_status c \<noteq> Started"
    and c': "tool_call_post_init (c\<lparr>tc_approved := Some d, tc_approval_scope := sc\<rparr>) = Inr c'"
    and s': "s' = (if sc = Some ''session'' then (set_call c' s)\<lparr>st_session_approval_always := True\<rparr>
               else set_call c' s)"
    by (auto simp: apply_approval_decided_def succ_simps Let_def)
  have calls: "calls_wf n s" using wf by (simp add: core_wf_def)
  have act: "st_active_turn_id s = Some (tc_turn_id c)"
    and at: "map_of (st_tool_calls s) (tc_call_key c) = Some c"
    using call_for_active_turnD [OF c(1) calls] by simp_all
  have st: "tc_status c = Requested" using c by (simp add: is_terminal_def tool_terminal_def)
  from calls at have old: "span n c" "stage c" "has_key (st_turns s) (tc_turn_id c)"
    by (auto simp: calls_wf_def)
  from post_init_InrD [OF c'] have f: "fields_wf c'" "same_call c c'" "tc_status c' = Requested"
      "tc_call_key c' = tc_call_key c" "tc_turn_id c' = tc_turn_id c"
      "tc_requested_seq c' = tc_requested_seq c" "tc_started_seq c' = tc_started_seq c"
      "tc_finished_seq c' = tc_finished_seq c" "tc_recovery_blocked c' = tc_recovery_blocked c"
    using c st by (auto simp: same_call_def)
  have "calls_wf (n + 1) (set_call c' s)"
    by (rule calls_wf_set [OF calls]) (use f old st span_mono [of n c "n + 1"] in \<open>auto simp: span_def stage_def user_resolved_def\<close>)
  then have k1: "calls_wf (n + 1) s'" by (rule calls_wf_cong) (auto simp: s')
  have maps: "st_tool_calls s' = dict_set (tc_call_key c) c' (st_tool_calls s)"
      "st_code_nodes s' = st_code_nodes s" "st_code_runs s' = st_code_runs s"
      "st_file_mutation_plans s' = st_file_mutation_plans s" "st_file_snapshots s' = st_file_snapshots s"
      "st_turns s' = st_turns s" "st_active_turn_id s' = st_active_turn_id s"
      "st_recovery_blocked s' = st_recovery_blocked s"
      "st_pending_recovery_intent s' = st_pending_recovery_intent s"
    using f by (simp_all add: s')
  have "nodes_wf s'"
    unfolding nodes_wf_def
  proof (intro conjI allI impI)
    fix k x assume "map_of (st_code_nodes s') k = Some x"
    with wf maps have "node_wf s k x" by (simp add: core_wf_def nodes_wf_def)
    then show "node_wf s' k x" using maps at f st by (auto simp: node_wf_def same_call_def)
  next
    fix i r assume "map_of (st_code_runs s') i = Some r"
    with wf maps have "run_wf s i r" by (simp add: core_wf_def nodes_wf_def)
    then show "run_wf s' i r" using maps by (simp add: run_wf_def)
  next
    fix k d assume "map_of (st_tool_calls s') k = Some d" "tc_origin d = ''code''"
    with maps f at have "\<exists>e. map_of (st_tool_calls s) k = Some e \<and> tc_origin e = ''code''"
      by (auto simp: same_call_def split: if_splits)
    with wf maps show "has_key (st_code_nodes s') k" by (auto simp: core_wf_def nodes_wf_def)
  qed (use wf maps in \<open>auto simp: core_wf_def nodes_wf_def\<close>)
  moreover have "files_wf s'"
    by (rule files_wf_edit [where c' = c', OF _ at]) (use wf maps f in \<open>auto simp: core_wf_def files_wf_def split_paired_all\<close>)
  moreover have "turns_wf s'"
    by (rule turns_wf_same_block [OF _ act at, where c' = c'])
       (use wf maps f st in \<open>auto simp: core_wf_def outcome_unknown_call_def\<close>)
  ultimately show ?thesis using k1 by (simp add: core_wf_def)
qed


lemma node_status_for_node: "node_status_of_tool st = Inr x \<Longrightarrow> st \<noteq> Requested \<Longrightarrow> node_status_for st = x"
  by (simp add: node_status_for_def)

lemma node_status_total:
  "st \<noteq> Requested \<Longrightarrow> \<exists>x. node_status_of_tool st = Inr x"
  by (cases st) (simp_all add: node_status_of_tool_def code_node_status_of_def all_node_statuses_def)

lemma node_status_for_terminal: "node_is_terminal (node_status_for st) \<longleftrightarrow> tool_terminal st"
  by (cases st) (simp_all add: node_status_for_def node_status_of_tool_def code_node_status_of_def
    all_node_statuses_def tool_terminal_def)

lemma keeps_tool_started:
  assumes wf: "core_wf n s" and seq: "ev_seq ev = n + 1" and ok: "apply_tool_started s ev = Inr s'"
  shows "core_wf (n + 1) s'"
proof -
  from ok obtain c c' where c: "call_for_active_turn s (ev_payload ev) = Inr c" "tc_status c = Requested"
      "tc_approved c \<noteq> Some False"
    and c': "tool_call_post_init (c\<lparr>tc_status := Started, tc_started_seq := Some (ev_seq ev)\<rparr>) = Inr c'"
    and s': "(if tc_origin c = ''code'' then
       bindE (at_state (set_call c' s) (node_of_call (set_call c' s) c)) (\<lambda>node.
       Inr (set_node (tc_call_key c)
         (node\<lparr>cn_status := NStarted, cn_started_seq := Some (ev_seq ev)\<rparr>) (set_call c' s)))
     else Inr (set_call c' s)) = Inr s'"
    by (auto simp: apply_tool_started_def succ_simps Let_def)
  have calls: "calls_wf n s" using wf by (simp add: core_wf_def)
  have act: "st_active_turn_id s = Some (tc_turn_id c)"
    and at: "map_of (st_tool_calls s) (tc_call_key c) = Some c"
    using call_for_active_turnD [OF c(1) calls] by simp_all
  from calls at have old: "span n c" "stage c" "has_key (st_turns s) (tc_turn_id c)"
    by (auto simp: calls_wf_def)
  from post_init_InrD [OF c'] have f: "fields_wf c'" "same_call c c'" "tc_status c' = Started"
      "tc_call_key c' = tc_call_key c" "tc_turn_id c' = tc_turn_id c" "tc_approved c' = tc_approved c"
      "tc_requested_seq c' = tc_requested_seq c" "tc_started_seq c' = Some (n + 1)"
      "tc_finished_seq c' = tc_finished_seq c" "tc_recovery_blocked c' = tc_recovery_blocked c"
    using c seq by (auto simp: same_call_def)
  have "calls_wf (n + 1) (set_call c' s)"
    by (rule calls_wf_set [OF calls]) (use f c old in \<open>auto simp: span_def stage_def user_resolved_def\<close>)
  then have k1: "calls_wf (n + 1) s'"
    by (rule calls_wf_cong) (use s' in \<open>auto simp: succ_simps split: if_splits\<close>)
  have maps: "st_tool_calls s' = dict_set (tc_call_key c) c' (st_tool_calls s)"
      "st_code_runs s' = st_code_runs s"
      "st_file_mutation_plans s' = st_file_mutation_plans s" "st_file_snapshots s' = st_file_snapshots s"
      "st_turns s' = st_turns s" "st_active_turn_id s' = st_active_turn_id s"
      "st_recovery_blocked s' = st_recovery_blocked s"
      "st_pending_recovery_intent s' = st_pending_recovery_intent s"
    using s' f by (auto simp: succ_simps split: if_splits)
  have ns: "node_status_for (tc_status c') = NStarted"
    by (simp add: f node_status_for_def node_status_of_tool_def code_node_status_of_def all_node_statuses_def)
  have "nodes_wf s'"
  proof (rule nodes_wf_edit [OF _ at f(2) _ _ maps(1,2)])
    show "nodes_wf s" using wf by (simp add: core_wf_def)
    show "st_code_nodes s' = st_code_nodes s" if "tc_origin c \<noteq> ''code''"
      using s' that by (auto simp: succ_simps)
    assume code: "tc_origin c = ''code''"
    with s' obtain x where x: "map_of (st_code_nodes s) (tc_call_key c) = Some x"
      "st_code_nodes s' = dict_set (tc_call_key c)
         (x\<lparr>cn_status := NStarted, cn_started_seq := Some (ev_seq ev)\<rparr>) (st_code_nodes s)"
      by (auto simp: succ_simps node_of_call_def)
    from wf x(1) have "node_wf s (tc_call_key c) x" by (simp add: core_wf_def nodes_wf_def)
    then have "cn_status x = NPlanned" using at c by (simp add: node_wf_def node_status_for_def)
    with x ns show "\<exists>x x'. map_of (st_code_nodes s) (tc_call_key c) = Some x \<and>
        st_code_nodes s' = dict_set (tc_call_key c) x' (st_code_nodes s) \<and>
        cn_node_id x' = cn_node_id x \<and>
        cn_run_id x' = cn_run_id x \<and> cn_status x' = node_status_for (tc_status c') \<and>
        (node_is_terminal (cn_status x) \<longrightarrow> node_is_terminal (cn_status x'))"
      by - (intro exI conjI, assumption, assumption, simp_all)
  qed
  moreover have "files_wf s'"
    by (rule files_wf_edit [where c' = c', OF _ at]) (use wf maps f in \<open>auto simp: core_wf_def files_wf_def split_paired_all\<close>)
  moreover have "turns_wf s'"
    by (rule turns_wf_same_block [OF _ act at, where c' = c'])
       (use wf maps f c in \<open>auto simp: core_wf_def outcome_unknown_call_def\<close>)
  ultimately show ?thesis using k1 by (simp add: core_wf_def)
qed

text \<open>Finishing and reconciling share their last steps: a result, a node, a refreshed block.\<close>

lemma core_wf_close:
  assumes wf: "core_wf n s" and act: "st_active_turn_id s = Some (tc_turn_id c)"
    and at: "map_of (st_tool_calls s) (tc_call_key c) = Some c"
    and f: "fields_wf c'" "same_call c c'" "span (n + 1) c'" "stage c'" "tool_terminal (tc_status c')"
    and upd: "\<And>k sn. upd = Some (k, sn) \<Longrightarrow> k = (fs_turn_id sn, fs_path sn)"
    and s1: "s1 = set_snapshot upd (set_call c' s)"
    and s2: "if tc_origin c = ''code'' then
        \<exists>x x'. map_of (st_code_nodes s) (tc_call_key c) = Some x \<and> s2 = set_node (tc_call_key c) x' s1 \<and>
          cn_node_id x' = cn_node_id x \<and> cn_run_id x' = cn_run_id x \<and>
          cn_status x' = node_status_for (tc_status c')
      else s2 = s1"
  shows "core_wf (n + 1) (refresh_recovery_block s2)"
proof -
  have calls: "calls_wf n s" using wf by (simp add: core_wf_def)
  have key: "tc_call_key c' = tc_call_key c" "tc_turn_id c' = tc_turn_id c"
    using f(2) by (simp_all add: same_call_def)
  have turn: "has_key (st_turns s) (tc_turn_id c)" using calls at by (auto simp: calls_wf_def)
  have maps: "st_tool_calls s2 = dict_set (tc_call_key c) c' (st_tool_calls s)"
      "st_code_runs s2 = st_code_runs s" "st_file_mutation_plans s2 = st_file_mutation_plans s"
      "st_file_snapshots s2 = st_file_snapshots s1"
      "st_turns s2 = st_turns s" "st_active_turn_id s2 = st_active_turn_id s"
    using s2 s1 key by (auto split: if_splits)
  have "calls_wf (n + 1) (set_call c' s)"
    by (rule calls_wf_set [OF calls]) (use f key turn in auto)
  then have k1: "calls_wf (n + 1) (refresh_recovery_block s2)"
    by (rule calls_wf_cong) (use maps key act in \<open>auto simp: has_key_def\<close>)
  have "nodes_wf (refresh_recovery_block s2)"
  proof (rule nodes_wf_edit [OF _ at f(2)])
    show "nodes_wf s" using wf by (simp add: core_wf_def)
    show "st_code_nodes (refresh_recovery_block s2) = st_code_nodes s" if "tc_origin c \<noteq> ''code''"
      using s2 s1 that by simp
    assume code: "tc_origin c = ''code''"
    with s2 obtain x x' where x: "map_of (st_code_nodes s) (tc_call_key c) = Some x"
      "s2 = set_node (tc_call_key c) x' s1" "cn_node_id x' = cn_node_id x" "cn_run_id x' = cn_run_id x"
      "cn_status x' = node_status_for (tc_status c')" by auto
    then have "st_code_nodes (refresh_recovery_block s2) = dict_set (tc_call_key c) x' (st_code_nodes s)"
      using s1 by simp
    with x f(5) show "\<exists>x x'. map_of (st_code_nodes s) (tc_call_key c) = Some x \<and>
        st_code_nodes (refresh_recovery_block s2) = dict_set (tc_call_key c) x' (st_code_nodes s) \<and>
        cn_node_id x' = cn_node_id x \<and>
        cn_run_id x' = cn_run_id x \<and> cn_status x' = node_status_for (tc_status c') \<and>
        (node_is_terminal (cn_status x) \<longrightarrow> node_is_terminal (cn_status x'))"
      by - (intro exI conjI, assumption, assumption, simp_all add: node_status_for_terminal)
  qed (use maps in simp_all)
  moreover have "files_wf (refresh_recovery_block s2)"
  proof (rule files_wf_edit [where c' = c', OF _ at f(2)])
    fix k sn
    assume "map_of (st_file_snapshots (refresh_recovery_block s2)) k = Some sn"
    with maps s1 have "map_of (st_file_snapshots s) k = Some sn \<or> upd = Some (k, sn)"
      by (auto simp: set_snapshot_def split: option.splits if_splits)
    then show "k = (fs_turn_id sn, fs_path sn)"
      using wf upd unfolding core_wf_def files_wf_def by blast
  qed (use wf maps in \<open>simp_all add: core_wf_def\<close>)
  moreover have "turns_wf (refresh_recovery_block s2)"
    by (rule turns_wf_refresh [where c' = c', OF _ _ act]) (use wf maps key calls in \<open>auto simp: core_wf_def calls_wf_def\<close>)
  ultimately show ?thesis using k1 by (simp add: core_wf_def)
qed


lemma snapshot_after_key:
  "snapshot_after sn a m v ds = Inr sn' \<Longrightarrow>
   fs_turn_id sn' = fs_turn_id sn \<and> fs_path sn' = fs_path sn \<and>
   fs_existed_before sn' = fs_existed_before sn \<and> fs_before_bytes sn' = fs_before_bytes sn \<and>
   fs_before_mode sn' = fs_before_mode sn \<and> fs_source_call_key sn' = fs_source_call_key sn \<and>
   (a \<noteq> PNone \<longrightarrow> fs_after_hash sn' \<noteq> None)"
  by (auto simp: snapshot_after_def mk_file_snapshot_def opt_field_def succ_simps opt_int_def opt_str_def
      split: if_splits option.splits) (metis+)

lemma finished_snapshot_key:
  assumes "finished_snapshot s c p st = Inr (Some (k, sn))" "files_wf s"
  shows "k = (fs_turn_id sn, fs_path sn)"
proof -
  from assms(1) obtain path sn0 a m v ds where k: "k = (tc_turn_id c, path)"
    "map_of (st_file_snapshots s) k = Some sn0" "snapshot_after sn0 a m v ds = Inr sn"
    by (auto simp: finished_snapshot_def succ_simps split: if_splits)
  then show ?thesis using assms(2) snapshot_after_key [OF k(3)] by (auto simp: files_wf_def)
qed

lemma keeps_tool_finished:
  assumes wf: "core_wf n s" and seq: "ev_seq ev = n + 1" and ok: "apply_tool_finished s ev = Inr s'"
  shows "core_wf (n + 1) s'"
proof -
  from ok obtain c f u c' s2 where c: "call_for_active_turn s (ev_payload ev) = Inr c" "\<not> is_terminal c"
    and f: "read_result_fields s c (ev_payload ev) = Inr f"
    and u: "finished_snapshot s c (ev_payload ev) (rf_status f) = Inr u"
    and c': "tool_call_post_init
       (c\<lparr>tc_status := rf_status f, tc_result := rf_result f, tc_exit_code := rf_exit_code f,
          tc_truncated := rf_truncated f,
          tc_result_metadata := get_or (ev_payload ev) ''result_metadata'' (PDict []),
          tc_recovery_blocked := rf_recovery_blocked f,
          tc_finished_seq := Some (ev_seq ev)\<rparr>) = Inr c'"
    and s2: "finish_node (set_snapshot u (set_call c' s)) c ev f = Inr s2"
    and s': "s' = refresh_recovery_block s2"
    by (auto simp: apply_tool_finished_def succ_simps)
  have calls: "calls_wf n s" using wf by (simp add: core_wf_def)
  have act: "st_active_turn_id s = Some (tc_turn_id c)"
    and at: "map_of (st_tool_calls s) (tc_call_key c) = Some c"
    using call_for_active_turnD [OF c(1) calls] by simp_all
  from calls at have old: "span n c" "stage c" by (auto simp: calls_wf_def)
  from f have r: "tool_terminal (rf_status f)" "rf_status f \<in> finish_transitions (tc_status c)"
      "rf_recovery_blocked f \<longleftrightarrow> rf_status f = OutcomeUnknown"
    by (auto simp: read_result_fields_def succ_simps)
  have open_status: "tc_status c = Requested \<or> tc_status c = Started"
    using c by (simp add: is_terminal_def tool_terminal_def)
  from post_init_InrD [OF c'] have g: "fields_wf c'" "same_call c c'" "tc_status c' = rf_status f"
      "tc_approved c' = tc_approved c" "tc_requested_seq c' = tc_requested_seq c"
      "tc_started_seq c' = tc_started_seq c" "tc_finished_seq c' = Some (n + 1)"
      "tc_recovery_blocked c' = rf_recovery_blocked f"
    using seq by (auto simp: same_call_def)
  have span': "span (n + 1) c'" using old(1) g by (auto simp: span_def)
  have stage': "stage c'"
  proof (cases "tc_status c = Requested")
    case True
    then have "tc_started_seq c = None" using old(2) by (auto simp: stage_def user_resolved_def)
    then show ?thesis using g r True
      by (simp add: stage_def tool_terminal_def del: finish_transitions.simps)
  next
    case False
    with open_status have st: "tc_status c = Started" by simp
    then have "tc_started_seq c \<noteq> None" "tc_approved c \<noteq> Some False"
      using old(2) by (auto simp: stage_def)
    then show ?thesis using g r st
      by (auto simp add: stage_def tool_terminal_def simp del: finish_transitions.simps)
  qed
  show ?thesis unfolding s'
  proof (rule core_wf_close [OF wf act at g(1,2) span' stage' _ _ refl])
    show "tool_terminal (tc_status c')" using r g by simp
    show "k = (fs_turn_id sn, fs_path sn)" if "u = Some (k, sn)" for k sn
      using finished_snapshot_key u that wf by (auto simp: core_wf_def)
    show "if tc_origin c = ''code'' then
        \<exists>x x'. map_of (st_code_nodes s) (tc_call_key c) = Some x \<and>
          s2 = set_node (tc_call_key c) x' (set_snapshot u (set_call c' s)) \<and>
          cn_node_id x' = cn_node_id x \<and> cn_run_id x' = cn_run_id x \<and>
          cn_status x' = node_status_for (tc_status c')
      else s2 = set_snapshot u (set_call c' s)"
    proof (cases "tc_origin c = ''code''")
      case True
      with s2 obtain x ns b rs where x: "map_of (st_code_nodes s) (tc_call_key c) = Some x"
        "node_status_of_tool (rf_status f) = Inr ns"
        "s2 = set_node (tc_call_key c) (x\<lparr>cn_status := ns, cn_result := rf_result f,
           cn_blocked_by := b, cn_root_failures := rs, cn_finished_seq := Some (ev_seq ev)\<rparr>)
           (set_snapshot u (set_call c' s))"
        by (auto simp: finish_node_def node_of_call_def succ_simps)
      have "node_status_for (tc_status c') = ns"
        using node_status_for_node x(2) r(1) g(3) by (auto simp: tool_terminal_def)
      with True x show ?thesis by auto
    next
      case False with s2 show ?thesis by (simp add: finish_node_def)
    qed
  qed
qed

lemma reconciled_snapshot_key:
  assumes "reconciled_snapshot s c p b = Inr (Some (k, sn))" "files_wf s"
  shows "k = (fs_turn_id sn, fs_path sn)"
proof -
  from assms(1) obtain path sn0 a m v ds where k: "k = (tc_turn_id c, path)"
    "map_of (st_file_snapshots s) k = Some sn0" "snapshot_after sn0 a m v ds = Inr sn"
    by (auto simp: reconciled_snapshot_def Let_def succ_simps split: if_splits)
  then show ?thesis using assms(2) snapshot_after_key [OF k(3)] by (auto simp: files_wf_def)
qed

lemma reconciliation_status_resolved: "reconciliation_status x = Some st \<Longrightarrow> st \<in> user_resolved"
  by (auto simp: reconciliation_status_def user_resolved_def split: if_splits)

lemma keeps_tool_reconciled:
  assumes wf: "core_wf n s" and seq: "ev_seq ev = n + 1" and ok: "apply_tool_reconciled s ev = Inr s'"
  shows "core_wf (n + 1) s'"
proof -
  from ok obtain c st note' u c' s2 oc where c: "call_for_active_turn s (ev_payload ev) = Inr c"
      "tc_status c = OutcomeUnknown"
    and st: "reconciliation_status oc = Some st"
    and u: "reconciled_snapshot s c (ev_payload ev) (st = UserConfirmedSuccess) = Inr u"
    and c': "tool_call_post_init
       (c\<lparr>tc_status := st, tc_recovery_blocked := False, tc_reconciliation_note := Some note',
          tc_finished_seq := Some (ev_seq ev)\<rparr>) = Inr c'"
    and s2: "(if tc_origin c = ''code'' then
         bindE (at_state (set_snapshot u (set_call c' s)) (node_of_call (set_snapshot u (set_call c' s)) c)) (\<lambda>node.
         bindE (at_state (set_snapshot u (set_call c' s)) (node_status_of_tool st)) (\<lambda>node_status.
         Inr (set_node (tc_call_key c)
           (node\<lparr>cn_status := node_status,
              cn_result := (if note' \<noteq> [] then Some note' else cn_result node),
              cn_finished_seq := Some (ev_seq ev)\<rparr>) (set_snapshot u (set_call c' s)))))
       else Inr (set_snapshot u (set_call c' s))) = Inr s2"
    and s': "s' = refresh_recovery_block s2"
    unfolding apply_tool_reconciled_def Let_def succ_simps by (auto simp: bind_eq_Some_conv)
  have calls: "calls_wf n s" using wf by (simp add: core_wf_def)
  have act: "st_active_turn_id s = Some (tc_turn_id c)"
    and at: "map_of (st_tool_calls s) (tc_call_key c) = Some c"
    using call_for_active_turnD [OF c(1) calls] by simp_all
  from calls at have old: "span n c" "stage c" by (auto simp: calls_wf_def)
  note r = reconciliation_status_resolved [OF st]
  from post_init_InrD [OF c'] have g: "fields_wf c'" "same_call c c'" "tc_status c' = st"
      "tc_approved c' = tc_approved c" "tc_requested_seq c' = tc_requested_seq c"
      "tc_started_seq c' = tc_started_seq c" "tc_finished_seq c' = Some (n + 1)"
      "\<not> tc_recovery_blocked c'"
    using seq by (auto simp: same_call_def)
  have span': "span (n + 1) c'" using old(1) g by (auto simp: span_def)
  have stage': "stage c'" using old(2) g r c by (auto simp: stage_def user_resolved_def)
  show ?thesis unfolding s'
  proof (rule core_wf_close [OF wf act at g(1,2) span' stage' _ _ refl])
    show "tool_terminal (tc_status c')" using r g by (auto simp: user_resolved_def tool_terminal_def)
    show "k = (fs_turn_id sn, fs_path sn)" if "u = Some (k, sn)" for k sn
      using reconciled_snapshot_key u that wf by (auto simp: core_wf_def)
    show "if tc_origin c = ''code'' then
        \<exists>x x'. map_of (st_code_nodes s) (tc_call_key c) = Some x \<and>
          s2 = set_node (tc_call_key c) x' (set_snapshot u (set_call c' s)) \<and>
          cn_node_id x' = cn_node_id x \<and> cn_run_id x' = cn_run_id x \<and>
          cn_status x' = node_status_for (tc_status c')
      else s2 = set_snapshot u (set_call c' s)"
    proof (cases "tc_origin c = ''code''")
      case True
      with s2 obtain x ns where x: "map_of (st_code_nodes s) (tc_call_key c) = Some x"
        "node_status_of_tool st = Inr ns"
        "s2 = set_node (tc_call_key c) (x\<lparr>cn_status := ns,
              cn_result := (if note' \<noteq> [] then Some note' else cn_result x),
              cn_finished_seq := Some (ev_seq ev)\<rparr>)
           (set_snapshot u (set_call c' s))"
        by (auto simp: node_of_call_def succ_simps simp del: not_Cons_self split del: if_split)
      have "node_status_for (tc_status c') = ns"
        using node_status_for_node x(2) r g(3) by (auto simp: user_resolved_def)
      with True x show ?thesis by auto
    next
      case False with s2 show ?thesis by simp
    qed
  qed
qed


subsection \<open>Snapshots and plans\<close>

lemma mk_file_snapshot_key:
  "mk_file_snapshot t p a b c d e f g h = Inr sn \<Longrightarrow> fs_turn_id sn = t \<and> fs_path sn = p"
  by (auto simp: mk_file_snapshot_def succ_simps)

text \<open>A snapshot event leaves the dictionary alone or stores one new baseline.\<close>

definition may_store_baseline :: "session_state \<Rightarrow> string \<times> string \<Rightarrow> bool" where
  "may_store_baseline s k = (case map_of (st_file_snapshots s) k of
     None \<Rightarrow> True
   | Some old \<Rightarrow> fs_after_hash old = None \<and> (\<exists>src c. fs_source_call_key old = Some src \<and>
       map_of (st_tool_calls s) src = Some c \<and> known_no_effect (tc_status c)))"

lemma file_snapshot_effect:
  assumes "apply_file_snapshot s ev = Inr s'"
  shows "s' = s \<or> (\<exists>k sn. k = (fs_turn_id sn, fs_path sn) \<and> may_store_baseline s k \<and>
      st_active_turn_id s = Some (fst k) \<and>
      s' = s\<lparr>st_file_snapshots := dict_set k sn (st_file_snapshots s)\<rparr>)"
proof -
  from assms obtain t p a b c d e f sn where t: "st_active_turn_id s = Some t"
    and sn: "mk_file_snapshot t p a b c d e f None [] = Inr sn"
    and eq: "(case map_of (st_file_snapshots s) (t, p) of
       None \<Rightarrow> Inr (s\<lparr>st_file_snapshots := dict_set (t, p) sn (st_file_snapshots s)\<rparr>)
     | Some existing \<Rightarrow>
         (case (fs_after_hash existing, fs_source_call_key existing) of
            (None, Some source) \<Rightarrow>
              (case map_of (st_tool_calls s) source of
                 Some c \<Rightarrow> Inr (if known_no_effect (tc_status c)
                   then s\<lparr>st_file_snapshots := dict_set (t, p) sn (st_file_snapshots s)\<rparr> else s)
               | None \<Rightarrow> Inr s)
          | _ \<Rightarrow> Inr s)) = (Inr s' :: outcome)"
    unfolding apply_file_snapshot_def Let_def succ_simps require_active_turn_def by blast
  from mk_file_snapshot_key [OF sn] have key: "(t, p) = (fs_turn_id sn, fs_path sn)" by simp
  have "s' = s \<or> (may_store_baseline s (t, p) \<and>
      s' = s\<lparr>st_file_snapshots := dict_set (t, p) sn (st_file_snapshots s)\<rparr>)"
    using eq unfolding may_store_baseline_def by (auto split: option.splits if_splits)
  then show ?thesis using key t by auto
qed

lemma keeps_file_snapshot:
  assumes wf: "core_wf n s" and ok: "apply_file_snapshot s ev = Inr s'"
  shows "core_wf (n + 1) s'"
proof -
  from file_snapshot_effect [OF ok] consider "s' = s"
    | k sn where "k = (fs_turn_id sn, fs_path sn)"
        "s' = s\<lparr>st_file_snapshots := dict_set k sn (st_file_snapshots s)\<rparr>" by blast
  then show ?thesis
  proof cases
    case 1 with wf show ?thesis by (auto intro: core_wf_cong)
  next
    case 2
    have "files_wf s'" using wf 2 unfolding core_wf_def files_wf_def by (simp split: if_splits)
    moreover have "calls_wf (n + 1) s'" by (rule calls_wf_cong [of n s]) (use wf 2 in \<open>auto simp: core_wf_def\<close>)
    moreover have "turns_wf s'" by (rule turns_wf_cong [of s]) (use wf 2 in \<open>auto simp: core_wf_def\<close>)
    moreover have "nodes_wf s'" by (rule nodes_wf_cong [of s]) (use wf 2 in \<open>auto simp: core_wf_def\<close>)
    ultimately show ?thesis by (simp add: core_wf_def)
  qed
qed

lemma mk_mutation_plan_key:
  "mk_mutation_plan t k p v h d = Inr pl \<Longrightarrow> mp_turn_id pl = t \<and> mp_call_key pl = k"
  by (auto simp: mk_mutation_plan_def succ_simps)

lemma keeps_file_mutation_planned:
  assumes wf: "core_wf n s" and ok: "apply_file_mutation_planned s ev = Inr s'"
  shows "core_wf (n + 1) s'"
proof -
  from ok obtain t k c p v h d pl where c: "map_of (st_tool_calls s) k = Some c" "tc_turn_id c = t"
      "managed_write (tc_name c)" "tc_approved c = Some True"
    and pl: "mk_mutation_plan t k p v h d = Inr pl"
    and s': "s' = s\<lparr>st_file_mutation_plans := dict_set k pl (st_file_mutation_plans s)\<rparr>"
    unfolding apply_file_mutation_planned_def succ_simps by blast
  note key = mk_mutation_plan_key [OF pl]
  have "files_wf s'" using wf s' key c unfolding core_wf_def files_wf_def by simp
  moreover have "calls_wf (n + 1) s'" by (rule calls_wf_cong [of n s]) (use wf s' in \<open>auto simp: core_wf_def\<close>)
  moreover have "turns_wf s'" by (rule turns_wf_cong [of s]) (use wf s' in \<open>auto simp: core_wf_def\<close>)
  moreover have "nodes_wf s'" by (rule nodes_wf_cong [of s]) (use wf s' in \<open>auto simp: core_wf_def\<close>)
  ultimately show ?thesis by (simp add: core_wf_def)
qed

end
