(* ===== verification/ReducerRun.thy ===== *)
theory ReducerRun
  imports ReducerInv
begin

section \<open>Runs of the reducer\<close>

text \<open>
  Every accepted event extends the log by itself and keeps the invariant of
  \<open>ReducerInv\<close>; the reducer is thereby an interpretation of \<open>event_machine\<close>.
\<close>

subsection \<open>What a handler leaves of the log\<close>

definition log_frame :: "session_state \<Rightarrow> session_state \<Rightarrow> bool" where
  "log_frame s s' \<longleftrightarrow> st_last_seq s' = st_last_seq s \<and> st_events s' = st_events s \<and>
     st_last_event_timestamp s' = st_last_event_timestamp s"

definition session_frame :: "session_state \<Rightarrow> session_state \<Rightarrow> bool" where
  "session_frame s s' \<longleftrightarrow> log_frame s s' \<and> st_session_id s' = st_session_id s \<and>
     st_assistant_events s' = st_assistant_events s"

lemmas frame_defs = session_frame_def log_frame_def

lemma frame_session_created: "apply_session_created s ev = Inr s' \<Longrightarrow> log_frame s s' \<and>
    st_session_id s = None \<and> st_session_id s' = Some (ev_session_id ev) \<and>
    st_assistant_events s' = st_assistant_events s"
  by (auto simp: apply_session_created_def succ_simps frame_defs)

lemma frame_turn_started: "apply_turn_started s ev = Inr s' \<Longrightarrow> session_frame s s'"
  by (auto simp: apply_turn_started_def succ_simps frame_defs)

lemma frame_turn_finished: "apply_turn_finished s ev = Inr s' \<Longrightarrow> session_frame s s'"
  by (auto simp: apply_turn_finished_def succ_simps frame_defs)

lemma store_calls_frame: "store_calls s cs = Inr s' \<Longrightarrow> session_frame s s'"
  by (induction cs arbitrary: s) (force simp: succ_simps frame_defs)+

lemma frame_assistant_accepted: "apply_assistant_accepted s ev = Inr s' \<Longrightarrow> log_frame s s' \<and>
    st_session_id s' = st_session_id s \<and> st_assistant_events s' = st_assistant_events s @ [ev]"
  by (auto simp: apply_assistant_accepted_def succ_simps frame_defs dest!: store_calls_frame)

lemma frame_approval_decided: "apply_approval_decided s ev = Inr s' \<Longrightarrow> session_frame s s'"
  by (auto simp: apply_approval_decided_def succ_simps frame_defs Let_def)

lemma frame_session_approval_reset: "apply_session_approval_reset s ev = Inr s' \<Longrightarrow> session_frame s s'"
  by (auto simp: apply_session_approval_reset_def succ_simps frame_defs)

lemma frame_tool_started: "apply_tool_started s ev = Inr s' \<Longrightarrow> session_frame s s'"
  by (auto simp: apply_tool_started_def succ_simps frame_defs Let_def split: if_splits)

lemma finish_node_frame: "finish_node s c ev f = Inr s' \<Longrightarrow> session_frame s s'"
  by (auto simp: finish_node_def succ_simps frame_defs split: if_splits)

lemma frame_tool_finished: "apply_tool_finished s ev = Inr s' \<Longrightarrow> session_frame s s'"
  by (auto simp: apply_tool_finished_def succ_simps frame_defs dest!: finish_node_frame)

lemma frame_code_run_started: "apply_code_run_started s ev = Inr s' \<Longrightarrow> session_frame s s'"
  by (auto simp: apply_code_run_started_def succ_simps frame_defs)

lemma frame_code_node_planned: "apply_code_node_planned s ev = Inr s' \<Longrightarrow> session_frame s s'"
  by (auto simp: apply_code_node_planned_def succ_simps frame_defs Let_def)

lemma frame_code_run_finished: "apply_code_run_finished s ev = Inr s' \<Longrightarrow> session_frame s s'"
  by (auto simp: apply_code_run_finished_def succ_simps frame_defs)

lemma frame_turn_recovery_intent: "apply_turn_recovery_intent s ev = Inr s' \<Longrightarrow> session_frame s s'"
  unfolding apply_turn_recovery_intent_def Let_def succ_simps
  by (elim exE conjE) (simp add: succ_simps frame_defs split: if_splits del: insert_iff, safe, simp_all)

lemma frame_tool_reconciled: "apply_tool_reconciled s ev = Inr s' \<Longrightarrow> session_frame s s'"
  unfolding apply_tool_reconciled_def Let_def succ_simps
  by (elim exE conjE) (auto simp: succ_simps frame_defs split: if_splits)

lemma frame_compaction_checkpoint: "apply_compaction_checkpoint s ev = Inr s' \<Longrightarrow> session_frame s s'"
  by (auto simp: apply_compaction_checkpoint_def succ_simps frame_defs)

lemma frame_file_snapshot: "apply_file_snapshot s ev = Inr s' \<Longrightarrow> session_frame s s'"
  by (drule file_snapshot_effect) (auto simp: frame_defs)

lemma frame_file_mutation_planned: "apply_file_mutation_planned s ev = Inr s' \<Longrightarrow> session_frame s s'"
  unfolding apply_file_mutation_planned_def succ_simps by (elim exE conjE) (auto simp: frame_defs)

lemma frame_sampling_failed: "apply_sampling_failed s ev = Inr s' \<Longrightarrow> session_frame s s'"
  by (auto simp: apply_sampling_failed_def succ_simps frame_defs)

lemma frame_undo_finished: "apply_undo_finished s ev = Inr s' \<Longrightarrow> session_frame s s'"
  unfolding apply_undo_finished_def Let_def succ_simps
  by (elim exE conjE, drule sum.inject(2) [THEN iffD1], hypsubst, simp (no_asm) add: frame_defs)

lemma frame_plan_mode_set: "apply_plan_mode_set s ev = Inr s' \<Longrightarrow> session_frame s s'"
  unfolding apply_plan_mode_set_def succ_simps
  by (elim exE conjE, drule sum.inject(2) [THEN iffD1], hypsubst, simp (no_asm) add: frame_defs)

subsection \<open>Every accepted event keeps the invariant\<close>

lemma handlersD:
  assumes "map_of handlers ty = Some h"
  shows "(ty, h) \<in> set handlers"
  using assms by (rule map_of_SomeD)

lemmas keeps_all = keeps_session_created keeps_turn_started keeps_assistant_accepted
  keeps_approval_decided keeps_session_approval_reset keeps_tool_started keeps_tool_finished
  keeps_code_run_started keeps_code_node_planned keeps_code_run_finished keeps_turn_recovery_intent
  keeps_tool_reconciled keeps_turn_finished keeps_compaction_checkpoint keeps_file_snapshot
  keeps_file_mutation_planned keeps_sampling_failed keeps_undo_finished keeps_plan_mode_set

lemmas frame_all = frame_turn_started
  frame_approval_decided frame_session_approval_reset frame_tool_started frame_tool_finished
  frame_code_run_started frame_code_node_planned frame_code_run_finished frame_turn_recovery_intent
  frame_tool_reconciled frame_turn_finished frame_compaction_checkpoint frame_file_snapshot
  frame_file_mutation_planned frame_sampling_failed frame_undo_finished frame_plan_mode_set

lemma handler_keeps:
  assumes "map_of handlers ty = Some h" "core_wf n s" "h s ev = Inr s'" "ev_seq ev = n + 1" "0 \<le> n"
  shows "core_wf (n + 1) s'"
proof -
  from handlersD [OF assms(1)] have "h \<in> snd ` set handlers" by force
  with assms(2-) show ?thesis unfolding handlers_def list.set image_insert snd_conv image_empty
    by (elim insertE emptyE) (simp_all add: keeps_all)
qed

lemma handler_frame:
  assumes "map_of handlers ty = Some h" "h s ev = Inr s'"
  shows "log_frame s s' \<and>
    st_session_id s' = (if ty = ''session_created'' then Some (ev_session_id ev) else st_session_id s) \<and>
    (ty = ''session_created'' \<longrightarrow> st_session_id s = None) \<and>
    st_assistant_events s' =
      st_assistant_events s @ (if ty = ''assistant_accepted'' then [ev] else [])"
proof -
  have "(ty = ''session_created'' \<and> h = apply_session_created) \<or>
      (ty = ''assistant_accepted'' \<and> h = apply_assistant_accepted) \<or>
      (ty \<noteq> ''session_created'' \<and> ty \<noteq> ''assistant_accepted'' \<and> session_frame s s')"
    using handlersD [OF assms(1)] assms(2) unfolding handlers_def list.set
    by (elim insertE emptyE) (simp_all add: frame_all)
  then show ?thesis
  proof (elim disjE conjE)
    assume "ty = ''session_created''" "h = apply_session_created"
    with frame_session_created assms(2) show ?thesis by auto
  next
    assume "ty = ''assistant_accepted''" "h = apply_assistant_accepted"
    with frame_assistant_accepted assms(2) show ?thesis by auto
  qed (simp add: session_frame_def)
qed


lemma record_event_simps [simp]:
  "st_last_seq (record_event ev s) = ev_seq ev" "st_events (record_event ev s) = st_events s @ [ev]"
  "st_last_event_timestamp (record_event ev s) = Some (ev_timestamp ev)"
  "st_session_id (record_event ev s) = st_session_id s"
  "st_assistant_events (record_event ev s) = st_assistant_events s"
  "st_tool_calls (record_event ev s) = st_tool_calls s" "st_turns (record_event ev s) = st_turns s"
  "st_active_turn_id (record_event ev s) = st_active_turn_id s"
  "st_recovery_blocked (record_event ev s) = st_recovery_blocked s"
  "st_pending_recovery_intent (record_event ev s) = st_pending_recovery_intent s"
  "st_code_nodes (record_event ev s) = st_code_nodes s" "st_code_runs (record_event ev s) = st_code_runs s"
  "st_file_snapshots (record_event ev s) = st_file_snapshots s"
  "st_file_mutation_plans (record_event ev s) = st_file_mutation_plans s"
  "st_undo_results (record_event ev s) = st_undo_results s"
  by (simp_all add: record_event_def)

lemma apply_eventD:
  assumes "apply_event s ev = Inr s'"
  obtains h s1 where "map_of handlers (ev_type ev) = Some h" "h s ev = Inr s1"
    "s' = record_event ev s1" "ev_seq ev = st_last_seq s + 1"
    "st_session_id s = None \<or> st_session_id s = Some (ev_session_id ev)"
    "st_session_id s = None \<longrightarrow> ev_type ev = ''session_created''"
  using assms by (auto simp: apply_event_def succ_simps)

lemma core_wf_record: "core_wf n s \<Longrightarrow> core_wf n (record_event ev s)"
  by (erule core_wf_cong) simp_all

lemma log_wf_step:
  assumes wf: "log_wf s" and ok: "apply_event s ev = Inr s'"
  shows "log_wf s'"
proof -
  from ok obtain h s1 where h: "map_of handlers (ev_type ev) = Some h" "h s ev = Inr s1"
    and s': "s' = record_event ev s1" and seq: "ev_seq ev = st_last_seq s + 1"
    and sid: "st_session_id s = None \<or> st_session_id s = Some (ev_session_id ev)"
      "st_session_id s = None \<longrightarrow> ev_type ev = ''session_created''" by (rule apply_eventD)
  note fr = handler_frame [OF h, unfolded log_frame_def]
  have new: "st_session_id s' = Some (ev_session_id ev)"
    using fr sid s' by auto
  have evs: "st_events s' = st_events s @ [ev]" using fr s' by simp
  have olds: "st_events s \<noteq> [] \<Longrightarrow> st_session_id s = Some (ev_session_id ev)"
    using wf sid unfolding log_wf_def by auto
  have each: "ev_seq (st_events s' ! i) = int (i + 1) \<and>
        Some (ev_session_id (st_events s' ! i)) = st_session_id s'" if i: "i < length (st_events s')" for i
  proof (cases "i < length (st_events s)")
    case True
    with wf have "ev_seq (st_events s ! i) = int (i + 1)"
      "Some (ev_session_id (st_events s ! i)) = st_session_id s" unfolding log_wf_def by blast+
    moreover from True have "st_events s \<noteq> []" by auto
    ultimately show ?thesis using True olds new by (simp add: evs nth_append)
  next
    case False
    with i have "i = length (st_events s)" by (simp add: evs)
    then show ?thesis using seq wf new by (simp add: evs log_wf_def)
  qed
  show ?thesis
    unfolding log_wf_def
    apply (intro conjI)
    subgoal using wf seq s' evs by (simp add: log_wf_def)
    subgoal using each by blast
    subgoal using evs s' by simp
    subgoal using wf sid evs by (cases "st_events s") (auto simp: log_wf_def)
    subgoal using new evs by simp
    subgoal using wf evs s' fr by (simp add: log_wf_def)
    done
qed

lemma apply_event_keeps:
  assumes "wf_state s" "apply_event s ev = Inr s'"
  shows "wf_state s'"
proof -
  from assms(2) obtain h s1 where h: "map_of handlers (ev_type ev) = Some h" "h s ev = Inr s1"
    and s': "s' = record_event ev s1" and seq: "ev_seq ev = st_last_seq s + 1" by (rule apply_eventD)
  from assms(1) have "core_wf (st_last_seq s) s" "0 \<le> st_last_seq s"
    by (auto simp: wf_state_def core_wf_def log_wf_def)
  from handler_keeps [OF h(1) this(1) h(2) seq this(2)] have "core_wf (st_last_seq s + 1) s'"
    unfolding s' by (rule core_wf_record)
  moreover have "log_wf s'" using log_wf_step assms by (auto simp: wf_state_def)
  ultimately show ?thesis using s' seq by (simp add: wf_state_def core_wf_def)
qed

lemma wf_empty_state [simp]: "wf_state empty_state"
  by (simp add: wf_state_def empty_state_def calls_wf_def turns_wf_def nodes_wf_def files_wf_def log_wf_def)

interpretation reducer: event_machine apply_event wf_state
  by unfold_locales (rule apply_event_keeps)

lemma replay_wf: "replay es = Inr s \<Longrightarrow> wf_state s"
  by (auto simp: replay_def replay_from_def succ_simps dest: reducer.run_keeps)

lemma events_grow: "replay_from s es = Inr s' \<Longrightarrow> st_events s' = st_events s @ es"
  unfolding replay_from_def
proof (induction es arbitrary: s)
  case (Cons e es)
  then obtain s1 where s1: "apply_event s e = Inr s1" "foldE apply_event s1 es = Inr s'"
    by (auto simp: succ_simps)
  from s1(1) obtain h s2 where "map_of handlers (ev_type e) = Some h" "h s e = Inr s2"
    "s1 = record_event e s2" by (rule apply_eventD)
  with handler_frame have "st_events s1 = st_events s @ [e]" by (fastforce simp: log_frame_def)
  with Cons.IH [OF s1(2)] show ?case by simp
qed simp

lemma replay_events: "replay es = Inr s \<Longrightarrow> st_events s = es"
  using events_grow [of empty_state es s] by (auto simp: replay_def succ_simps empty_state_def)

end
