(* ===== verification/ReducerSteps.thy ===== *)
theory ReducerSteps
  imports ReducerRun
begin

section \<open>How calls and baselines evolve\<close>

text \<open>
  What one accepted event may do to the calls and to the file baselines already recorded,
  as a relation between the states before and after it. The relation is reflexive and
  transitive, so it also relates the ends of a run.
\<close>

definition call_evolves :: "tool_call \<Rightarrow> tool_call \<Rightarrow> bool" where
  "call_evolves c c' \<longleftrightarrow> same_call c c' \<and>
     (is_terminal c \<and> \<not> outcome_unknown_call c \<longrightarrow> c' = c) \<and>
     (outcome_unknown_call c \<longrightarrow> c' = c \<or> tc_status c' \<in> user_resolved) \<and>
     (tc_status c = Started \<longrightarrow>
        tc_status c' \<in> insert Started (finish_transitions Started) \<union> user_resolved) \<and>
     (tc_started_seq c \<noteq> None \<longrightarrow> tc_started_seq c' = tc_started_seq c)"

definition same_baseline :: "file_snapshot \<Rightarrow> file_snapshot \<Rightarrow> bool" where
  "same_baseline a b \<longleftrightarrow> fs_existed_before b = fs_existed_before a \<and>
     fs_before_bytes b = fs_before_bytes a \<and> fs_before_mode b = fs_before_mode a"

definition evolves :: "session_state \<Rightarrow> session_state \<Rightarrow> bool" where
  "evolves s s' \<longleftrightarrow>
     (\<forall>k c. map_of (st_tool_calls s) k = Some c \<longrightarrow>
        (\<exists>c'. map_of (st_tool_calls s') k = Some c' \<and> call_evolves c c')) \<and>
     (\<forall>k sn. map_of (st_file_snapshots s) k = Some sn \<longrightarrow> fs_after_hash sn \<noteq> None \<longrightarrow>
        (\<exists>sn'. map_of (st_file_snapshots s') k = Some sn' \<and> fs_after_hash sn' \<noteq> None \<and>
           same_baseline sn sn'))"

lemma call_evolves_refl [simp]: "call_evolves c c"
  by (auto simp: call_evolves_def same_call_def outcome_unknown_call_def is_terminal_def tool_terminal_def)

lemma user_resolved_settled: "tc_status c \<in> user_resolved \<Longrightarrow> is_terminal c \<and> \<not> outcome_unknown_call c"
  by (auto simp: user_resolved_def is_terminal_def tool_terminal_def outcome_unknown_call_def)

lemma same_call_trans: "same_call a b \<Longrightarrow> same_call b c \<Longrightarrow> same_call a c"
  by (auto simp: same_call_def)

lemma finish_started_settled:
  "st \<in> finish_transitions Started \<union> user_resolved \<Longrightarrow> tool_terminal st"
  by (auto simp: user_resolved_def tool_terminal_def)

lemma call_evolves_trans:
  assumes ab: "call_evolves a b" and bc: "call_evolves b c"
  shows "call_evolves a c"
proof -
  have settled: "c = b" if "is_terminal b" "\<not> outcome_unknown_call b"
    using bc that by (simp add: call_evolves_def)
  have one: "is_terminal a \<and> \<not> outcome_unknown_call a \<longrightarrow> c = a"
    using ab settled unfolding call_evolves_def by blast
  have two: "outcome_unknown_call a \<longrightarrow> c = a \<or> tc_status c \<in> user_resolved"
  proof
    assume a: "outcome_unknown_call a"
    with ab consider "b = a" | "tc_status b \<in> user_resolved" unfolding call_evolves_def by blast
    then show "c = a \<or> tc_status c \<in> user_resolved"
    proof cases
      case 1 with bc a show ?thesis unfolding call_evolves_def by blast
    next
      case 2 with settled user_resolved_settled show ?thesis by blast
    qed
  qed
  have three: "tc_status a = Started \<longrightarrow>
      tc_status c \<in> insert Started (finish_transitions Started) \<union> user_resolved"
  proof
    assume "tc_status a = Started"
    with ab have b: "tc_status b \<in> insert Started (finish_transitions Started) \<union> user_resolved"
      unfolding call_evolves_def by blast
    show "tc_status c \<in> insert Started (finish_transitions Started) \<union> user_resolved"
    proof (cases "outcome_unknown_call b \<or> tc_status b = Started")
      case True
      then show ?thesis
      proof
        assume "outcome_unknown_call b"
        with bc have "c = b \<or> tc_status c \<in> user_resolved" unfolding call_evolves_def by blast
        with b show ?thesis by blast
      next
        assume "tc_status b = Started"
        with bc show ?thesis unfolding call_evolves_def by blast
      qed
    next
      case False
      with b have "is_terminal b" using finish_started_settled unfolding is_terminal_def by blast
      with False settled b show ?thesis by simp
    qed
  qed
  show ?thesis
    unfolding call_evolves_def
    using one two three ab bc same_call_trans [of a b c] unfolding call_evolves_def by auto
qed

lemma evolves_refl [simp]: "evolves s s"
  by (auto simp: evolves_def same_baseline_def)

lemma evolves_trans: "evolves a b \<Longrightarrow> evolves b c \<Longrightarrow> evolves a c"
  unfolding evolves_def
proof (intro conjI allI impI, goal_cases)
  case (1 k x)
  then obtain y where y: "map_of (st_tool_calls b) k = Some y" "call_evolves x y" by blast
  with 1 obtain z where z: "map_of (st_tool_calls c) k = Some z" "call_evolves y z" by blast
  from call_evolves_trans [OF y(2) z(2)] z(1) show ?case by blast
next
  case (2 k x)
  then obtain y where y: "map_of (st_file_snapshots b) k = Some y" "fs_after_hash y \<noteq> None"
    "same_baseline x y" by blast
  with 2 obtain z where z: "map_of (st_file_snapshots c) k = Some z" "fs_after_hash z \<noteq> None"
    "same_baseline y z" by blast
  from y(3) z(3) have "same_baseline x z" by (simp add: same_baseline_def)
  with z show ?case by blast
qed

subsection \<open>Handlers that touch neither\<close>

definition untouched :: "session_state \<Rightarrow> session_state \<Rightarrow> bool" where
  "untouched s s' \<longleftrightarrow> st_tool_calls s' = st_tool_calls s \<and> st_file_snapshots s' = st_file_snapshots s"

lemma untouched_evolves: "untouched s s' \<Longrightarrow> evolves s s'"
  by (auto simp: evolves_def untouched_def same_baseline_def)

lemma untouched_session_created: "apply_session_created s ev = Inr s' \<Longrightarrow> untouched s s'"
  by (auto simp: apply_session_created_def succ_simps untouched_def)

lemma untouched_turn_started: "apply_turn_started s ev = Inr s' \<Longrightarrow> untouched s s'"
  by (auto simp: apply_turn_started_def succ_simps untouched_def)

lemma untouched_turn_finished: "apply_turn_finished s ev = Inr s' \<Longrightarrow> untouched s s'"
  by (auto simp: apply_turn_finished_def succ_simps untouched_def)

lemma untouched_session_approval_reset: "apply_session_approval_reset s ev = Inr s' \<Longrightarrow> untouched s s'"
  by (auto simp: apply_session_approval_reset_def succ_simps untouched_def)

lemma untouched_code_run_started: "apply_code_run_started s ev = Inr s' \<Longrightarrow> untouched s s'"
  by (auto simp: apply_code_run_started_def succ_simps untouched_def)

lemma untouched_code_run_finished: "apply_code_run_finished s ev = Inr s' \<Longrightarrow> untouched s s'"
  by (auto simp: apply_code_run_finished_def succ_simps untouched_def)

lemma untouched_turn_recovery_intent: "apply_turn_recovery_intent s ev = Inr s' \<Longrightarrow> untouched s s'"
  unfolding apply_turn_recovery_intent_def Let_def succ_simps
  by (elim exE conjE) (simp add: succ_simps untouched_def split: if_splits del: insert_iff, safe, simp_all)

lemma untouched_compaction_checkpoint: "apply_compaction_checkpoint s ev = Inr s' \<Longrightarrow> untouched s s'"
  by (auto simp: apply_compaction_checkpoint_def succ_simps untouched_def)

lemma untouched_file_mutation_planned: "apply_file_mutation_planned s ev = Inr s' \<Longrightarrow> untouched s s'"
  unfolding apply_file_mutation_planned_def succ_simps by (elim exE conjE) (auto simp: untouched_def)

lemma untouched_sampling_failed: "apply_sampling_failed s ev = Inr s' \<Longrightarrow> untouched s s'"
  by (auto simp: apply_sampling_failed_def succ_simps untouched_def)

lemma untouched_undo_finished: "apply_undo_finished s ev = Inr s' \<Longrightarrow> untouched s s'"
  unfolding apply_undo_finished_def Let_def succ_simps
  by (elim exE conjE, drule sum.inject(2) [THEN iffD1], hypsubst, simp (no_asm) add: untouched_def)

lemma untouched_plan_mode_set: "apply_plan_mode_set s ev = Inr s' \<Longrightarrow> untouched s s'"
  unfolding apply_plan_mode_set_def succ_simps
  by (elim exE conjE, drule sum.inject(2) [THEN iffD1], hypsubst, simp (no_asm) add: untouched_def)

lemmas untouched_all = untouched_session_created untouched_turn_started untouched_turn_finished
  untouched_session_approval_reset untouched_code_run_started untouched_code_run_finished
  untouched_turn_recovery_intent untouched_compaction_checkpoint untouched_file_mutation_planned
  untouched_sampling_failed untouched_undo_finished untouched_plan_mode_set

subsection \<open>Handlers that add or edit calls\<close>

lemma evolves_new_call:
  assumes "map_of (st_tool_calls s) k = None" "st_tool_calls s' = dict_set k c (st_tool_calls s)"
    "st_file_snapshots s' = st_file_snapshots s"
  shows "evolves s s'"
  using assms unfolding evolves_def same_baseline_def by (simp add: fun_upd_def)

lemma evolves_store_calls: "store_calls s cs = Inr s' \<Longrightarrow> evolves s s'"
proof (induction cs arbitrary: s)
  case (Cons c cs)
  then have s1: "map_of (st_tool_calls s) (tc_call_key c) = None"
    "store_calls (set_call c s) cs = Inr s'" by (auto simp: succ_simps has_key_def)
  have "evolves s (set_call c s)" by (rule evolves_new_call [OF s1(1)]) simp_all
  then show ?case using Cons.IH [OF s1(2)] by (rule evolves_trans)
qed simp

lemma evolves_assistant_accepted: "apply_assistant_accepted s ev = Inr s' \<Longrightarrow> evolves s s'"
  by (auto simp: apply_assistant_accepted_def succ_simps dest!: evolves_store_calls)
     (simp_all add: evolves_def)

lemma evolves_code_node_planned: "apply_code_node_planned s ev = Inr s' \<Longrightarrow> evolves s s'"
  by (auto simp: apply_code_node_planned_def succ_simps Let_def has_key_def new_tool_call_def
      intro!: evolves_new_call dest!: post_init_InrD)

lemma evolves_edit:
  assumes "map_of (st_tool_calls s) k = Some c" "call_evolves c c'"
    "st_tool_calls s' = dict_set k c' (st_tool_calls s)"
    "\<And>j sn. map_of (st_file_snapshots s) j = Some sn \<Longrightarrow> fs_after_hash sn \<noteq> None \<Longrightarrow>
       \<exists>sn'. map_of (st_file_snapshots s') j = Some sn' \<and> fs_after_hash sn' \<noteq> None \<and> same_baseline sn sn'"
  shows "evolves s s'"
  using assms unfolding evolves_def by (auto simp: fun_upd_def)

lemma same_baseline_refl [simp]: "same_baseline x x"
  by (simp add: same_baseline_def)


lemma evolves_approval_decided:
  assumes calls: "calls_wf n s" and ok: "apply_approval_decided s ev = Inr s'"
  shows "evolves s s'"
proof -
  from ok obtain c d sc c' where c: "call_for_active_turn s (ev_payload ev) = Inr c" "tc_approved c = None"
      "\<not> is_terminal c" "tc_status c \<noteq> Started"
    and c': "tool_call_post_init (c\<lparr>tc_approved := Some d, tc_approval_scope := sc\<rparr>) = Inr c'"
    and s': "s' = (if sc = Some ''session'' then (set_call c' s)\<lparr>st_session_approval_always := True\<rparr>
               else set_call c' s)"
    by (auto simp: apply_approval_decided_def succ_simps Let_def)
  from post_init_InrD [OF c'] have f: "same_call c c'" "tc_status c' = tc_status c"
    "tc_started_seq c' = tc_started_seq c" "tc_call_key c' = tc_call_key c"
    using c by (auto simp: same_call_def)
  then have "call_evolves c c'" using c
    by (auto simp: call_evolves_def is_terminal_def outcome_unknown_call_def tool_terminal_def)
  then show ?thesis
    using call_for_active_turnD [OF c(1) calls] f s' by (intro evolves_edit) auto
qed

lemma evolves_tool_started:
  assumes calls: "calls_wf n s" and ok: "apply_tool_started s ev = Inr s'"
  shows "evolves s s'"
proof -
  from ok obtain c c' where c: "call_for_active_turn s (ev_payload ev) = Inr c" "tc_status c = Requested"
    and c': "tool_call_post_init (c\<lparr>tc_status := Started, tc_started_seq := Some (ev_seq ev)\<rparr>) = Inr c'"
    and s': "st_tool_calls s' = dict_set (tc_call_key c') c' (st_tool_calls s)"
      "st_file_snapshots s' = st_file_snapshots s"
    by (auto simp: apply_tool_started_def succ_simps Let_def split: if_splits)
  note at = call_for_active_turnD [OF c(1) calls]
  with calls have stage: "stage c" by (auto simp: calls_wf_def)
  from post_init_InrD [OF c'] have f: "same_call c c'" "tc_call_key c' = tc_call_key c"
    by (auto simp: same_call_def)
  have "tc_started_seq c = None" using stage c by (auto simp: stage_def user_resolved_def)
  then have "call_evolves c c'" using c f
    by (auto simp: call_evolves_def is_terminal_def outcome_unknown_call_def tool_terminal_def)
  then show ?thesis using at f s' by (intro evolves_edit [of s "tc_call_key c" c c']) auto
qed

lemma set_snapshot_baseline:
  assumes "upd = Some (k, sn) \<Longrightarrow> \<exists>sn0. map_of (st_file_snapshots s) k = Some sn0 \<and>
      fs_after_hash sn \<noteq> None \<and> same_baseline sn0 sn"
    "map_of (st_file_snapshots s) j = Some old" "fs_after_hash old \<noteq> None"
    "upd = None \<or> upd = Some (k, sn)"
  shows "\<exists>new. map_of (st_file_snapshots (set_snapshot upd s)) j = Some new \<and>
      fs_after_hash new \<noteq> None \<and> same_baseline old new"
  using assms by (cases "j = k") (auto simp: set_snapshot_def)

lemma finished_snapshot_baseline:
  assumes "finished_snapshot s c p st = Inr (Some (k, sn))"
  shows "\<exists>sn0. map_of (st_file_snapshots s) k = Some sn0 \<and> fs_after_hash sn \<noteq> None \<and> same_baseline sn0 sn"
proof -
  from assms obtain sn0 a m v ds where "map_of (st_file_snapshots s) k = Some sn0"
    "snapshot_after sn0 (PStr a) m v ds = Inr sn"
    by (auto simp: finished_snapshot_def succ_simps split: if_splits)
  then show ?thesis using snapshot_after_key by (auto simp: same_baseline_def)
qed

lemma reconciled_snapshot_baseline:
  assumes "reconciled_snapshot s c p b = Inr (Some (k, sn))"
  shows "\<exists>sn0. map_of (st_file_snapshots s) k = Some sn0 \<and> fs_after_hash sn \<noteq> None \<and> same_baseline sn0 sn"
proof -
  from assms obtain sn0 a m v ds where "map_of (st_file_snapshots s) k = Some sn0"
    "snapshot_after sn0 (PStr a) m v ds = Inr sn"
    by (auto simp: reconciled_snapshot_def Let_def succ_simps split: if_splits)
  then show ?thesis using snapshot_after_key by (auto simp: same_baseline_def)
qed

lemma evolves_close:
  assumes at: "map_of (st_tool_calls s) (tc_call_key c) = Some c" and c': "call_evolves c c'"
    and u: "\<And>k sn. u = Some (k, sn) \<Longrightarrow> \<exists>sn0. map_of (st_file_snapshots s) k = Some sn0 \<and>
      fs_after_hash sn \<noteq> None \<and> same_baseline sn0 sn"
    and s': "st_tool_calls s' = st_tool_calls (set_call c' s)"
      "st_file_snapshots s' = st_file_snapshots (set_snapshot u (set_call c' s))"
  shows "evolves s s'"
proof (rule evolves_edit [OF at c'])
  show "st_tool_calls s' = dict_set (tc_call_key c) c' (st_tool_calls s)"
    using s' c' by (simp add: call_evolves_def same_call_def)
  fix j old
  assume j: "map_of (st_file_snapshots s) j = Some old" "fs_after_hash old \<noteq> None"
  obtain k sn where "u = None \<or> u = Some (k, sn)" by (cases u) auto
  then show "\<exists>new. map_of (st_file_snapshots s') j = Some new \<and> fs_after_hash new \<noteq> None \<and>
      same_baseline old new"
    unfolding s'(2)
    by (intro set_snapshot_baseline [where k = k and sn = sn]) (use u j in simp_all)
qed

lemma finish_node_calls:
  "finish_node s c ev f = Inr s' \<Longrightarrow> st_tool_calls s' = st_tool_calls s \<and>
     st_file_snapshots s' = st_file_snapshots s"
  by (auto simp: finish_node_def succ_simps split: if_splits)

lemma evolves_tool_finished:
  assumes calls: "calls_wf n s" and ok: "apply_tool_finished s ev = Inr s'"
  shows "evolves s s'"
proof -
  from ok obtain c f u c' s2 where c: "call_for_active_turn s (ev_payload ev) = Inr c" "\<not> is_terminal c"
    and f: "read_result_fields s c (ev_payload ev) = Inr f"
    and u: "finished_snapshot s c (ev_payload ev) (rf_status f) = Inr u"
    and c': "tool_call_post_init
       (c\<lparr>tc_status := rf_status f, tc_result := rf_result f, tc_exit_code := rf_exit_code f,
          tc_truncated := rf_truncated f,
          tc_result_metadata := get_or (ev_payload ev) ''result_metadata'' (PDict []),
          tc_recovery_blocked := rf_recovery_blocked f,
          tc_finished_seq := Some (ev_seq ev)\<rparr>) = Inr c'"
    and s2: "finish_node (set_snapshot u (set_call c' s)) c ev f = Inr s2"
    and s': "s' = refresh_recovery_block s2"
    by (auto simp: apply_tool_finished_def succ_simps)
  note at = call_for_active_turnD [OF c(1) calls]
  from f have r: "rf_status f \<in> finish_transitions (tc_status c)"
    by (auto simp: read_result_fields_def succ_simps)
  from post_init_InrD [OF c'] have g: "same_call c c'" "tc_status c' = rf_status f"
      "tc_started_seq c' = tc_started_seq c"
    by (auto simp: same_call_def)
  have "\<not> outcome_unknown_call c" using c by (auto simp: is_terminal_def tool_terminal_def outcome_unknown_call_def)
  with c g r have "call_evolves c c'" unfolding call_evolves_def by auto
  then show ?thesis
    using at finish_node_calls [OF s2] finished_snapshot_baseline u s'
    by (intro evolves_close [where c = c and c' = c' and u = u]) auto
qed

lemma evolves_tool_reconciled:
  assumes calls: "calls_wf n s" and ok: "apply_tool_reconciled s ev = Inr s'"
  shows "evolves s s'"
proof -
  from ok obtain c st note' u c' oc where c: "call_for_active_turn s (ev_payload ev) = Inr c"
      "tc_status c = OutcomeUnknown"
    and st: "reconciliation_status oc = Some st"
    and u: "reconciled_snapshot s c (ev_payload ev) (st = UserConfirmedSuccess) = Inr u"
    and c': "tool_call_post_init
       (c\<lparr>tc_status := st, tc_recovery_blocked := False, tc_reconciliation_note := Some note',
          tc_finished_seq := Some (ev_seq ev)\<rparr>) = Inr c'"
    and s': "st_tool_calls s' = st_tool_calls (set_call c' s)"
      "st_file_snapshots s' = st_file_snapshots (set_snapshot u (set_call c' s))"
    unfolding apply_tool_reconciled_def Let_def succ_simps
    by (elim exE conjE) (auto simp: bind_eq_Some_conv succ_simps split: if_splits)
  note at = call_for_active_turnD [OF c(1) calls]
  from post_init_InrD [OF c'] have g: "same_call c c'" "tc_status c' = st" "tc_started_seq c' = tc_started_seq c"
    by (auto simp: same_call_def)
  have "call_evolves c c'" unfolding call_evolves_def
    using g c reconciliation_status_resolved [OF st] by (auto simp: outcome_unknown_call_def)
  then show ?thesis
    using at reconciled_snapshot_baseline u s'
    by (intro evolves_close [where c = c and c' = c' and u = u]) auto
qed

lemma evolves_file_snapshot:
  assumes "apply_file_snapshot s ev = Inr s'"
  shows "evolves s s'"
proof -
  from file_snapshot_effect [OF assms] consider "s' = s"
    | k sn where "may_store_baseline s k"
        "s' = s\<lparr>st_file_snapshots := dict_set k sn (st_file_snapshots s)\<rparr>" by blast
  then show ?thesis
  proof cases
    case 2
    then show ?thesis by (auto simp: evolves_def may_store_baseline_def split: option.splits)
  qed simp
qed

lemma apply_event_evolves:
  assumes wf: "wf_state s" and ok: "apply_event s ev = Inr s'"
  shows "evolves s s'"
proof -
  from ok obtain h s1 where h: "map_of handlers (ev_type ev) = Some h" "h s ev = Inr s1"
    and s': "s' = record_event ev s1" by (rule apply_eventD)
  from handlersD [OF h(1)] have "h \<in> snd ` set handlers" by force
  moreover have calls: "calls_wf (st_last_seq s) s" using wf by (simp add: wf_state_def)
  ultimately have "evolves s s1 \<or> untouched s s1"
    using h(2) unfolding handlers_def list.set image_insert snd_conv image_empty
    by (elim insertE emptyE) (simp_all add: untouched_all evolves_file_snapshot
        evolves_tool_reconciled [OF calls] evolves_tool_finished [OF calls] evolves_tool_started [OF calls]
        evolves_approval_decided [OF calls] evolves_assistant_accepted evolves_code_node_planned)
  then have "evolves s s1" using untouched_evolves by blast
  then show ?thesis using s' by (simp add: evolves_def)
qed

lemma run_evolves: "replay_from s es = Inr s' \<Longrightarrow> wf_state s \<Longrightarrow> evolves s s'"
  unfolding replay_from_def
  by (erule reducer.run_relation) (auto intro: evolves_trans apply_event_evolves)

end
