(* ===== verification/ReducerErrors.thy ===== *)
theory ReducerErrors
  imports ReducerRun
begin

section \<open>How the reducer fails\<close>

text \<open>
  An event that is rejected raises a \<open>DomainError\<close>. The dictionary lookups of the
  handlers (\<open>state.code_nodes[...]\<close>) and the conversion \<open>CodeNodeStatus(status.value)\<close>
  could raise other exceptions, but not from a well-formed state; what remains is the
  \<open>TypeError\<close> of testing an unhashable payload value for membership in a set.
\<close>

definition raises_only :: "('e \<Rightarrow> bool) \<Rightarrow> 'e + 'a \<Rightarrow> bool" where
  "raises_only P m \<longleftrightarrow> (\<forall>e. m = Inl e \<longrightarrow> P e)"

named_theorems raise_rules \<open>which errors a computation raises\<close>

lemma raises_only_Inr [raise_rules]: "raises_only P (Inr x)"
  by (simp add: raises_only_def)

lemma raises_only_Inl [raise_rules]: "P e \<Longrightarrow> raises_only P (Inl e)"
  by (simp add: raises_only_def)

lemma raises_only_bindE [raise_rules]:
  "raises_only P m \<Longrightarrow> (\<And>x. m = Inr x \<Longrightarrow> raises_only P (f x)) \<Longrightarrow> raises_only P (bindE m f)"
  by (auto simp: raises_only_def fail_simps)

lemma raises_only_raise_if [raise_rules]:
  "P e \<Longrightarrow> (\<not> c \<Longrightarrow> raises_only P k) \<Longrightarrow> raises_only P (raise_if c e k)"
  by (auto simp: raises_only_def fail_simps)

lemma raises_only_need [raise_rules]: "(x = None \<Longrightarrow> P e) \<Longrightarrow> raises_only P (need x e)"
  by (auto simp: raises_only_def fail_simps)

lemma raises_only_reraise [raise_rules]: "(\<And>e. P (h e)) \<Longrightarrow> raises_only P (reraise h m)"
  by (auto simp: raises_only_def fail_simps)

lemma raises_only_if [raise_rules]:
  "(c \<Longrightarrow> raises_only P m) \<Longrightarrow> (\<not> c \<Longrightarrow> raises_only P m') \<Longrightarrow> raises_only P (if c then m else m')"
  by simp

lemma raises_only_option [raise_rules]:
  "(x = None \<Longrightarrow> raises_only P a) \<Longrightarrow> (\<And>y. x = Some y \<Longrightarrow> raises_only P (b y)) \<Longrightarrow>
   raises_only P (case x of None \<Rightarrow> a | Some y \<Rightarrow> b y)"
  by (cases x) simp_all

lemma raises_only_prod [raise_rules]:
  "(\<And>x y. p = (x, y) \<Longrightarrow> raises_only P (f x y)) \<Longrightarrow> raises_only P (case p of (x, y) \<Rightarrow> f x y)"
  by (cases p) simp

lemma raises_only_Let [raise_rules]: "(\<And>v. v = d \<Longrightarrow> raises_only P (g v)) \<Longrightarrow> raises_only P (Let d g)"
  by (simp add: Let_def)

lemma raises_only_mapE [raise_rules]:
  "(\<And>x. x \<in> set xs \<Longrightarrow> raises_only P (f x)) \<Longrightarrow> raises_only P (mapE f xs)"
  by (induction xs) (auto intro!: raise_rules)

lemma raises_only_only_call [raise_rules]:
  "P a \<Longrightarrow> P b \<Longrightarrow> raises_only P (case xs of [] \<Rightarrow> Inl a | [x] \<Rightarrow> Inr x | x # y # zs \<Rightarrow> Inl b)"
  by (auto simp: raises_only_def split: list.splits)

lemma raises_only_at_state [raise_rules]:
  "raises_only P m \<Longrightarrow> raises_only (\<lambda>e. P (fst e)) (at_state s m)"
  by (auto simp: raises_only_def fail_simps)

fun domain_error :: "py_error \<Rightarrow> bool" where
  "domain_error (DomainError _) = True"
| "domain_error _ = False"

abbreviation raises_domain :: "py_error + 'a \<Rightarrow> bool" where
  "raises_domain \<equiv> raises_only domain_error"

subsection \<open>The checks the handlers share\<close>

lemma raises_freeze_json [raise_rules]: "raises_domain (freeze_json v)"
  by (induction v rule: freeze_json.induct) (auto intro!: raise_rules)

lemma raises_payload_string [raise_rules]: "raises_domain (payload_string p k b)"
  unfolding payload_string_def by (intro raise_rules; simp)

lemma raises_canonical_uuid [raise_rules]: "raises_domain (canonical_uuid v)"
  unfolding canonical_uuid_def by (intro raise_rules; simp)

lemma raises_payload_uuid [raise_rules]: "raises_domain (payload_uuid p k)"
  unfolding payload_uuid_def by (intro raise_rules; simp)

lemma raises_require_active_turn [raise_rules]: "raises_domain (require_active_turn s)"
  unfolding require_active_turn_def by (intro raise_rules; simp)

lemma raises_reject_pending [raise_rules]: "raises_domain (reject_pending_recovery_action s)"
  unfolding reject_pending_recovery_action_def by (intro raise_rules; simp)

lemma raises_call_for_active_turn [raise_rules]: "raises_domain (call_for_active_turn s p)"
  unfolding call_for_active_turn_def by (intro raise_rules; simp)

lemma raises_string_array [raise_rules]: "P e \<Longrightarrow> raises_only P (string_array e v)"
  unfolding string_array_def by (intro raise_rules; simp)

lemma raises_opt_field [raise_rules]: "P e \<Longrightarrow> raises_only P (opt_field conv ok e v)"
  unfolding opt_field_def by (intro raise_rules; simp)

lemma raises_post_init [raise_rules]: "raises_domain (tool_call_post_init c)"
  unfolding tool_call_post_init_def by (intro raise_rules; simp)

lemma raises_mk_file_snapshot [raise_rules]: "raises_domain (mk_file_snapshot a b c d e f g h i j)"
  unfolding mk_file_snapshot_def by (intro raise_rules; simp)

lemma raises_snapshot_after [raise_rules]: "raises_domain (snapshot_after s a m v d)"
  unfolding snapshot_after_def by (intro raise_rules)

lemma raises_mk_mutation_plan [raise_rules]: "raises_domain (mk_mutation_plan a b c d e f)"
  unfolding mk_mutation_plan_def by (intro raise_rules; simp)

lemma raises_parse_usage [raise_rules]: "raises_domain (parse_usage_payload v)"
  unfolding parse_usage_payload_def token_count_def by (intro raise_rules; simp)

lemma raises_parse_turn_status [raise_rules]: "raises_domain (parse_turn_status v)"
  unfolding parse_turn_status_def by (intro raise_rules; simp)

lemma raises_parse_tool_status [raise_rules]: "raises_domain (parse_tool_status v)"
  unfolding parse_tool_status_def by (intro raise_rules; simp)

lemma raises_created_directories [raise_rules]: "raises_domain (normalized_created_directories v)"
  unfolding normalized_created_directories_def by (intro raise_rules; simp)

lemma raises_parse_call_document [raise_rules]: "raises_domain (parse_call_document ev t seen d)"
  unfolding parse_call_document_def by (intro raise_rules; simp)

lemma raises_parse_call_documents [raise_rules]: "raises_domain (parse_call_documents ev t seen ds)"
  by (induction ds arbitrary: seen) (auto intro!: raise_rules)

lemma raises_read_version [raise_rules]: "raises_domain (read_version n v)"
  unfolding read_version_def by (intro raise_rules; simp)

lemma raises_read_after_version [raise_rules]: "raises_domain (read_after_version a b c)"
  unfolding read_after_version_def by (intro raise_rules; simp)

lemma raises_read_result_fields [raise_rules]: "raises_domain (read_result_fields s c p)"
  unfolding read_result_fields_def by (intro raise_rules; simp)

lemma raises_finished_snapshot [raise_rules]: "raises_domain (finished_snapshot s c p st)"
  unfolding finished_snapshot_def by (intro raise_rules; simp)

lemma raises_reconciled_snapshot [raise_rules]: "raises_domain (reconciled_snapshot s c p b)"
  unfolding reconciled_snapshot_def by (intro raise_rules; simp)

lemma raises_approval_scope [raise_rules]: "raises_domain (approval_scope p b)"
  unfolding approval_scope_def by (intro raise_rules; simp)

lemma raises_undo_file_status [raise_rules]: "raises_domain (undo_file_status v)"
  unfolding undo_file_status_def by (intro raise_rules; simp)

lemma raises_active_run [raise_rules]: "P e \<Longrightarrow> raises_only P (active_run s i e)"
  unfolding active_run_def by (intro raise_rules; simp)

lemma raises_node_status [raise_rules]:
  "st \<noteq> Requested \<Longrightarrow> raises_domain (node_status_of_tool st)"
  using node_status_total [of st] by (auto simp: raises_only_def)

lemma raises_node_of_call: "has_key (st_code_nodes s) (tc_call_key c) \<Longrightarrow> raises_domain (node_of_call s c)"
  by (auto simp: node_of_call_def raises_only_def has_key_def)

lemma raises_run_nodes:
  assumes "nodes_wf s" "map_of (st_code_runs s) i = Some r"
  shows "raises_domain (run_nodes s r)"
proof -
  have "run_wf s i r" using assms by (simp add: nodes_wf_def)
  then show ?thesis unfolding run_nodes_def by (intro raise_rules) (auto simp: run_wf_def)
qed

lemma raises_store_calls [raise_rules]: "raises_only (\<lambda>e. domain_error (fst e)) (store_calls s cs)"
  by (induction cs arbitrary: s) (auto intro!: raise_rules)


subsection \<open>The handlers\<close>

abbreviation fails_domain :: "outcome \<Rightarrow> bool" where
  "fails_domain \<equiv> raises_only (\<lambda>e. domain_error (fst e))"

lemma fails_session_created: "fails_domain (apply_session_created s ev)"
  unfolding apply_session_created_def by (intro raise_rules; simp)

lemma fails_turn_started: "fails_domain (apply_turn_started s ev)"
  unfolding apply_turn_started_def by (intro raise_rules; simp)

lemma fails_turn_finished: "fails_domain (apply_turn_finished s ev)"
  unfolding apply_turn_finished_def by (intro raise_rules; simp)

lemma fails_assistant_accepted: "fails_domain (apply_assistant_accepted s ev)"
  unfolding apply_assistant_accepted_def by (intro raise_rules; simp)

lemma fails_session_approval_reset: "fails_domain (apply_session_approval_reset s ev)"
  unfolding apply_session_approval_reset_def by (intro raise_rules; simp)

lemma fails_code_run_started: "fails_domain (apply_code_run_started s ev)"
  unfolding apply_code_run_started_def by (intro raise_rules; simp)

lemma fails_turn_recovery_intent: "fails_domain (apply_turn_recovery_intent s ev)"
  unfolding apply_turn_recovery_intent_def Let_def by (intro raise_rules; simp)

lemma fails_compaction_checkpoint: "fails_domain (apply_compaction_checkpoint s ev)"
  unfolding apply_compaction_checkpoint_def by (intro raise_rules; simp)

lemma fails_file_mutation_planned: "fails_domain (apply_file_mutation_planned s ev)"
  unfolding apply_file_mutation_planned_def by (intro raise_rules; simp)

lemma fails_file_snapshot: "fails_domain (apply_file_snapshot s ev)"
  unfolding apply_file_snapshot_def Let_def
  by (intro raise_rules; simp split: option.split add: raise_rules)

lemma fails_sampling_failed: "fails_domain (apply_sampling_failed s ev)"
  unfolding apply_sampling_failed_def by (intro raise_rules; simp)

lemma fails_plan_mode_set: "fails_domain (apply_plan_mode_set s ev)"
  unfolding apply_plan_mode_set_def by (intro raise_rules; simp)

lemma fails_code_run_finished:
  assumes "nodes_wf s" shows "fails_domain (apply_code_run_finished s ev)"
  unfolding apply_code_run_finished_def
  by (intro raise_rules; auto simp: active_run_def succ_simps intro: raises_run_nodes [OF assms])

lemma fails_code_node_planned:
  assumes "nodes_wf s" shows "fails_domain (apply_code_node_planned s ev)"
  unfolding apply_code_node_planned_def Let_def
  by (intro raise_rules; auto simp: active_run_def succ_simps intro: raises_run_nodes [OF assms])

lemma code_call_has_node:
  assumes "core_wf n s" "call_for_active_turn s p = Inr c" "tc_origin c = ''code''"
  shows "has_key (st_code_nodes s) (tc_call_key c)"
  using call_for_active_turnD [OF assms(2)] assms(1,3) by (auto simp: core_wf_def nodes_wf_def)

lemma has_node_cong: "has_key (st_code_nodes s) k \<Longrightarrow> has_key (st_code_nodes (set_call c s)) k"
  "has_key (st_code_nodes s) k \<Longrightarrow> has_key (st_code_nodes (set_snapshot u s)) k"
  by simp_all

lemma fails_tool_started:
  assumes "core_wf n s" shows "fails_domain (apply_tool_started s ev)"
  unfolding apply_tool_started_def Let_def
  by (intro raise_rules; simp add: succ_simps)
     (intro raises_node_of_call has_node_cong code_call_has_node [OF assms], assumption+)

lemma fails_finish_node:
  assumes "has_key (st_code_nodes s) (tc_call_key c) \<or> tc_origin c \<noteq> ''code''" "tool_terminal (rf_status f)"
  shows "fails_domain (finish_node s c ev f)"
  unfolding finish_node_def
  by (intro raise_rules raises_node_of_call) (use assms in \<open>auto simp: tool_terminal_def\<close>)

lemma fails_tool_finished:
  assumes "core_wf n s" shows "fails_domain (apply_tool_finished s ev)"
  unfolding apply_tool_finished_def
  by (intro raise_rules fails_finish_node)
     (auto simp: succ_simps read_result_fields_def dest: code_call_has_node [OF assms])

subsection \<open>The handlers that test membership of an unhashable value\<close>

fun domain_or_type_error :: "py_error \<Rightarrow> bool" where
  "domain_or_type_error (DomainError _) = True"
| "domain_or_type_error (TypeError _) = True"
| "domain_or_type_error _ = False"

lemma domain_error_weaken: "domain_error e \<Longrightarrow> domain_or_type_error e"
  by (cases e) simp_all

lemma raises_weaken: "raises_only domain_error m \<Longrightarrow> raises_only domain_or_type_error m"
  by (auto simp: raises_only_def domain_error_weaken)

lemma fails_weaken: "raises_only (\<lambda>e. domain_error (fst e)) m \<Longrightarrow>
    raises_only (\<lambda>e. domain_or_type_error (fst e)) m"
  by (auto simp: raises_only_def domain_error_weaken)

lemma fails_approval_decided: "raises_only (\<lambda>e. domain_or_type_error (fst e)) (apply_approval_decided s ev)"
  unfolding apply_approval_decided_def approval_decision_def Let_def
  by (intro raises_only_bindE raises_only_raise_if raises_only_at_state raises_only_if raises_only_Inr
      raises_only_need raises_weaken [OF raises_reject_pending] raises_weaken [OF raises_call_for_active_turn]
      raises_weaken [OF raises_approval_scope] raises_weaken [OF raises_post_init]; simp)

lemma fails_undo_finished: "raises_only (\<lambda>e. domain_or_type_error (fst e)) (apply_undo_finished s ev)"
  unfolding apply_undo_finished_def Let_def
  by (intro raises_only_bindE raises_only_raise_if raises_only_at_state raises_only_Inr
      raises_only_need raises_weaken [OF raises_payload_uuid] raises_only_mapE
      raises_weaken [OF raises_undo_file_status]; simp)

lemma fails_tool_reconciled:
  assumes "core_wf n s"
  shows "raises_only (\<lambda>e. domain_or_type_error (fst e)) (apply_tool_reconciled s ev)"
  unfolding apply_tool_reconciled_def Let_def
  by (intro raises_only_bindE raises_only_raise_if raises_only_at_state raises_only_Inr raises_only_if
      raises_only_need raises_weaken [OF raises_call_for_active_turn]
      raises_weaken [OF raises_reconciled_snapshot] raises_weaken [OF raises_post_init]
      raises_weaken [OF raises_node_of_call] raises_weaken [OF raises_node_status])
     (auto simp: succ_simps bind_eq_Some_conv user_resolved_def
       dest: reconciliation_status_resolved code_call_has_node [OF assms])


definition may_type_error :: "string \<Rightarrow> bool" where
  "may_type_error ty \<longleftrightarrow> ty \<in> {''approval_decided'', ''tool_reconciled'', ''undo_finished''}"

lemma handler_errors:
  assumes "map_of handlers ty = Some h" "core_wf n s"
  shows "raises_only (\<lambda>e. domain_error (fst e) \<or> may_type_error ty \<and> domain_or_type_error (fst e)) (h s ev)"
proof -
  have nodes: "nodes_wf s" using assms(2) by (simp add: core_wf_def)
  have D: "fails_domain m \<Longrightarrow>
      raises_only (\<lambda>e. domain_error (fst e) \<or> may_type_error ty \<and> domain_or_type_error (fst e)) m" for m
    by (auto simp: raises_only_def)
  have T: "may_type_error ty \<Longrightarrow> raises_only (\<lambda>e. domain_or_type_error (fst e)) m \<Longrightarrow>
      raises_only (\<lambda>e. domain_error (fst e) \<or> may_type_error ty \<and> domain_or_type_error (fst e)) m" for m
    by (auto simp: raises_only_def)
  have "fails_domain (h s ev) \<or>
      may_type_error ty \<and> raises_only (\<lambda>e. domain_or_type_error (fst e)) (h s ev)"
    using handlersD [OF assms(1)] unfolding handlers_def list.set
    by (elim insertE emptyE)
       (simp_all add: fails_session_created fails_turn_started fails_turn_finished fails_assistant_accepted
         fails_session_approval_reset fails_code_run_started fails_turn_recovery_intent
         fails_compaction_checkpoint fails_file_mutation_planned fails_file_snapshot fails_sampling_failed
         fails_plan_mode_set fails_code_run_finished [OF nodes] fails_code_node_planned [OF nodes]
         fails_tool_started [OF assms(2)] fails_tool_finished [OF assms(2)] may_type_error_def
         fails_approval_decided fails_undo_finished fails_tool_reconciled [OF assms(2)])
  with D T show ?thesis by blast
qed

lemma apply_event_errors:
  assumes wf: "wf_state s"
  shows "raises_only (\<lambda>x. domain_error (fst x) \<or> may_type_error (ev_type e) \<and> domain_or_type_error (fst x))
    (apply_event s e)"
proof -
  have core: "core_wf (st_last_seq s) s" using wf by (simp add: wf_state_def core_wf_def)
  show ?thesis unfolding apply_event_def
    by (intro raises_only_bindE raises_only_raise_if raises_only_Inr handler_errors [OF _ core])
       (auto simp: raises_only_def fail_simps succ_simps)
qed

end
