(* ===== verification/ReducerProps.thy ===== *)
theory ReducerProps
  imports ReducerSteps ReducerErrors
begin

section \<open>What every replayed session satisfies\<close>

text \<open>
  The properties of \<open>SessionReducer\<close> and of \<open>plan_recovery_events\<close>, read off the
  invariant (\<open>ReducerInv\<close>), the run lemmas of the \<open>event_machine\<close> interpretation
  (\<open>ReducerRun\<close>) and the evolution of calls and baselines (\<open>ReducerSteps\<close>). The
  witnesses run a small session: a turn whose one tool call is denied.
\<close>

subsection \<open>A small session\<close>

definition ev_of :: "int \<Rightarrow> string \<Rightarrow> mapping \<Rightarrow> event" where
  "ev_of n ty p = example_event n ty p"

definition demo_created :: event where
  "demo_created = ev_of 1 ''session_created''
     [(''cwd'', PStr ''/''), (''model'', PStr ''m''), (''context_window'', PInt 10)]"

definition demo_turn :: event where
  "demo_turn = ev_of 2 ''turn_started'' [(''turn_id'', PStr uuid_c), (''user_input'', PStr ''hi'')]"

definition demo_call :: event where
  "demo_call = ev_of 3 ''assistant_accepted''
     [(''tool_calls'', PTuple [PProxy [(''id'', PStr ''a''), (''name'', PStr ''write_file''),
        (''arguments'', PStr ''{}'')]])]"

definition demo_denied :: event where
  "demo_denied = ev_of 4 ''approval_decided''
     [(''call_key'', PStr ''3:a''), (''approved'', PBool False)]"

definition demo_start :: event where
  "demo_start = ev_of 4 ''tool_started'' [(''call_key'', PStr ''3:a'')]"

definition demo_open :: "event list" where
  "demo_open = [demo_created, demo_turn, demo_call]"

definition demo_state :: "event list \<Rightarrow> session_state" where
  "demo_state es = (case replay es of Inr s \<Rightarrow> s | Inl _ \<Rightarrow> empty_state)"

lemmas demo_defs = demo_created_def demo_turn_def demo_call_def demo_denied_def demo_start_def
  demo_open_def ev_of_def example_event_def

lemma demo_denied_run:
  obtains s c where "replay (demo_open @ [demo_denied]) = Inr s" "map_of (st_tool_calls s) ''3:a'' = Some c"
    "tc_approved c = Some False" "tc_turn_id c = uuid_c" "tc_status c = Requested"
    "\<not> st_recovery_blocked s" "st_last_seq s = 4"
proof -
  have "case replay (demo_open @ [demo_denied]) of Inl _ \<Rightarrow> False
    | Inr s \<Rightarrow> (case map_of (st_tool_calls s) ''3:a'' of None \<Rightarrow> False
        | Some c \<Rightarrow> tc_approved c = Some False \<and> tc_turn_id c = uuid_c \<and> tc_status c = Requested \<and>
            \<not> st_recovery_blocked s \<and> st_last_seq s = 4)"
    by code_simp
  then show ?thesis using that by (auto split: sum.splits option.splits)
qed

lemma vals_callD: "calls_wf n s \<Longrightarrow> c \<in> set (vals (st_tool_calls s)) \<Longrightarrow> map_of (st_tool_calls s) (tc_call_key c) = Some c"
  by (auto simp: calls_wf_def vals_iff)

lemma callD: "wf_state s \<Longrightarrow> map_of (st_tool_calls s) k = Some c \<Longrightarrow>
    tc_call_key c = k \<and> fields_wf c \<and> span (st_last_seq s) c \<and> stage c \<and> has_key (st_turns s) (tc_turn_id c)"
  by (simp add: wf_state_def calls_wf_def)

subsection \<open>Turns\<close>

text \<open>
  C13. In every replayed session the turns that are not finished are exactly the active one,
  so there is at most one; a tool call that is still open, or whose outcome is unknown,
  belongs to it; and a recovery intent is pending only while a turn is active.
\<close>

theorem one_open_turn:
  assumes "replay es = Inr s"
  shows "(\<forall>t st. map_of (st_turns s) t = Some st \<longrightarrow> (\<not> turn_terminal st \<longleftrightarrow> st_active_turn_id s = Some t)) \<and>
    (\<forall>c \<in> set (vals (st_tool_calls s)). tc_status c \<in> {Requested, Started, OutcomeUnknown} \<longrightarrow>
       st_active_turn_id s = Some (tc_turn_id c)) \<and>
    (st_pending_recovery_intent s \<noteq> None \<longrightarrow> st_active_turn_id s \<noteq> None)"
proof -
  have wf: "turns_wf s" "calls_wf (st_last_seq s) s"
    using replay_wf [OF assms] by (simp_all add: wf_state_def)
  have "\<not> turn_terminal st \<longleftrightarrow> st_active_turn_id s = Some t" if "map_of (st_turns s) t = Some st" for t st
    using wf(1) that unfolding turns_wf_def by (auto simp: turn_terminal_def split: if_splits)
  moreover have "st_active_turn_id s = Some (tc_turn_id c)"
    if "c \<in> set (vals (st_tool_calls s))" "tc_status c \<in> {Requested, Started, OutcomeUnknown}" for c
  proof -
    have "open_or_unknown c" using that(2)
      by (auto simp: open_or_unknown_def is_terminal_def tool_terminal_def outcome_unknown_call_def)
    with wf(1) vals_callD [OF wf(2) that(1)] show ?thesis unfolding turns_wf_def by blast
  qed
  moreover have "st_active_turn_id s \<noteq> None" if "st_pending_recovery_intent s \<noteq> None"
    using wf(1) that by (cases "st_active_turn_id s") (auto simp: turns_wf_def)
  ultimately show ?thesis by blast
qed

theorem one_open_turn_witness:
  "\<exists>s c. replay (demo_open @ [demo_denied]) = Inr s \<and> map_of (st_tool_calls s) ''3:a'' = Some c \<and>
     tc_status c = Requested \<and> st_active_turn_id s = Some uuid_c \<and> \<not> turn_terminal (the (map_of (st_turns s) uuid_c))"
proof -
  obtain s c where s: "replay (demo_open @ [demo_denied]) = Inr s" "map_of (st_tool_calls s) ''3:a'' = Some c"
    "tc_turn_id c = uuid_c" "tc_status c = Requested" by (rule demo_denied_run)
  note wf = replay_wf [OF s(1)]
  have "c \<in> set (vals (st_tool_calls s))" using s(2) wf by (auto simp: wf_state_def calls_wf_def vals_iff)
  with one_open_turn [OF s(1)] s have act: "st_active_turn_id s = Some uuid_c" by auto
  obtain st where "map_of (st_turns s) uuid_c = Some st" using callD [OF wf s(2)] s(3) by (auto simp: has_key_def)
  with one_open_turn [OF s(1)] act s show ?thesis by (intro exI [of _ s] exI [of _ c]) auto
qed

text \<open>
  C22. The recovery block of a replayed session is up exactly when the outcome of some tool
  call is unknown, and then the active turn is marked \<open>recovery_blocked\<close>, and
  \<open>active\<close> otherwise.
\<close>

theorem recovery_block_exact:
  assumes "replay es = Inr s"
  shows "(st_recovery_blocked s \<longleftrightarrow> (\<exists>c \<in> set (vals (st_tool_calls s)). tc_status c = OutcomeUnknown)) \<and>
    (\<forall>t. st_active_turn_id s = Some t \<longrightarrow>
       map_of (st_turns s) t = Some (if st_recovery_blocked s then TRecoveryBlocked else TActive)) \<and>
    (\<forall>c \<in> set (vals (st_tool_calls s)). tc_recovery_blocked c \<longleftrightarrow> tc_status c = OutcomeUnknown)"
proof -
  have wf: "turns_wf s" "calls_wf (st_last_seq s) s" "dict_ok (st_tool_calls s)"
    using replay_wf [OF assms] by (simp_all add: wf_state_def calls_wf_def)
  have "st_recovery_blocked s \<longleftrightarrow> (\<exists>c \<in> set (vals (st_tool_calls s)). tc_status c = OutcomeUnknown)"
    unfolding Bex_def vals_iff [OF wf(3)] turns_wf_blocked [OF wf(1)] outcome_unknown_call_def by blast
  moreover have "map_of (st_turns s) t = Some (if st_recovery_blocked s then TRecoveryBlocked else TActive)"
    if "st_active_turn_id s = Some t" for t using wf(1) that unfolding turns_wf_def by simp
  moreover have "tc_recovery_blocked c \<longleftrightarrow> tc_status c = OutcomeUnknown"
    if "c \<in> set (vals (st_tool_calls s))" for c
    using callD [OF replay_wf [OF assms] vals_callD [OF wf(2) that]] by (simp add: stage_def)
  ultimately show ?thesis by blast
qed

theorem recovery_block_exact_witness:
  "\<exists>s. replay (demo_open @ [demo_denied]) = Inr s \<and> \<not> st_recovery_blocked s \<and>
     \<not> (\<exists>c \<in> set (vals (st_tool_calls s)). tc_status c = OutcomeUnknown)"
proof -
  obtain s where "replay (demo_open @ [demo_denied]) = Inr s" "\<not> st_recovery_blocked s"
    by (rule demo_denied_run)
  with recovery_block_exact [OF this(1)] show ?thesis by blast
qed

subsection \<open>Tool calls\<close>

text \<open>
  C23. The history of every tool call of a replayed session is ordered: it was requested by
  an earlier event of the session, started after that and finished last; it carries a
  finishing event exactly when its status is terminal.
\<close>

theorem call_history_ordered:
  assumes "replay es = Inr s" "map_of (st_tool_calls s) k = Some c"
  shows "tc_call_key c = k \<and>
    (\<exists>r. tc_requested_seq c = Some r \<and> 1 \<le> r \<and> r \<le> st_last_seq s \<and>
       (\<forall>a. tc_started_seq c = Some a \<longrightarrow> r < a \<and> a \<le> st_last_seq s) \<and>
       (\<forall>f. tc_finished_seq c = Some f \<longrightarrow> r < f \<and> f \<le> st_last_seq s \<and>
          (\<forall>a. tc_started_seq c = Some a \<longrightarrow> a < f))) \<and>
    (tc_finished_seq c \<noteq> None \<longleftrightarrow> is_terminal c) \<and>
    (tc_status c = Requested \<longrightarrow> tc_started_seq c = None) \<and>
    (tc_status c = Started \<longrightarrow> tc_started_seq c \<noteq> None)"
proof -
  have c: "tc_call_key c = k" "span (st_last_seq s) c" "stage c"
    using callD [OF replay_wf [OF assms(1)] assms(2)] by auto
  have "tc_finished_seq c \<noteq> None \<longleftrightarrow> is_terminal c" "tc_status c = Requested \<longrightarrow> tc_started_seq c = None"
    "tc_status c = Started \<longrightarrow> tc_started_seq c \<noteq> None"
    using c(3) by (auto simp: stage_def is_terminal_def tool_terminal_def user_resolved_def)
  with c(1) c(2) [unfolded span_def] show ?thesis by (intro conjI)
qed

theorem call_history_ordered_witness:
  "\<exists>s c r. replay (demo_open @ [demo_denied]) = Inr s \<and> map_of (st_tool_calls s) ''3:a'' = Some c \<and>
     tc_requested_seq c = Some r \<and> 1 \<le> r \<and> r \<le> st_last_seq s \<and> tc_started_seq c = None"
proof -
  obtain s c where s: "replay (demo_open @ [demo_denied]) = Inr s" "map_of (st_tool_calls s) ''3:a'' = Some c"
    "tc_status c = Requested" by (rule demo_denied_run)
  from call_history_ordered [OF s(1,2)] s show ?thesis by blast
qed

text \<open>
  C17. A denied tool call never runs: as long as a session is replayed, a call whose
  approval was refused has no start, and its status is \<open>requested\<close> or one of those a
  call may finish with without having started.
\<close>

theorem denied_call_never_runs:
  assumes "replay es = Inr s" "map_of (st_tool_calls s) k = Some c" "tc_approved c = Some False"
  shows "tc_started_seq c = None \<and>
    tc_status c \<in> {Requested, Denied, InvalidArguments, UnknownTool, NotExecuted, BatchLimitExceeded,
      Cancelled, Failed, UpstreamFailed}"
  using callD [OF replay_wf [OF assms(1)] assms(2)] assms(3) by (auto simp: stage_def)

theorem denied_call_never_runs_witness:
  "\<exists>s c. replay (demo_open @ [demo_denied]) = Inr s \<and> map_of (st_tool_calls s) ''3:a'' = Some c \<and>
     tc_approved c = Some False \<and> tc_started_seq c = None"
proof -
  obtain s c where s: "replay (demo_open @ [demo_denied]) = Inr s" "map_of (st_tool_calls s) ''3:a'' = Some c"
    "tc_approved c = Some False" by (rule demo_denied_run)
  from denied_call_never_runs [OF this] s show ?thesis by blast
qed


text \<open>
  C16. The outcome of a tool call is final: whatever events are replayed after it, a call
  that has a known terminal status is kept unchanged, field by field, and a call whose
  outcome is unknown can only become one the user has resolved.
\<close>

theorem settled_call_final:
  assumes "replay es = Inr s" "replay (es @ fs) = Inr s'" "map_of (st_tool_calls s) k = Some c"
  shows "\<exists>c'. map_of (st_tool_calls s') k = Some c' \<and>
    (is_terminal c \<and> tc_status c \<noteq> OutcomeUnknown \<longrightarrow> c' = c) \<and>
    (tc_status c = OutcomeUnknown \<longrightarrow>
       c' = c \<or> tc_status c' \<in> {UserConfirmedSuccess, UserConfirmedFailure, Abandoned}) \<and>
    tc_name c' = tc_name c \<and> tc_arguments c' = tc_arguments c \<and> tc_turn_id c' = tc_turn_id c \<and>
    (tc_approved c \<noteq> None \<longrightarrow> tc_approved c' = tc_approved c)"
proof -
  have "replay_from s fs = Inr s'"
    using assms(1,2) by (auto simp: replay_def replay_from_def foldE_append succ_simps)
  from run_evolves [OF this replay_wf [OF assms(1)]] assms(3)
  obtain c' where "map_of (st_tool_calls s') k = Some c'" "call_evolves c c'"
    unfolding evolves_def by blast
  then show ?thesis
    by (intro exI [of _ c'])
       (simp add: call_evolves_def same_call_def outcome_unknown_call_def user_resolved_def)
qed

theorem settled_call_final_witness:
  "\<exists>s c s' c'. replay (demo_open @ [demo_denied]) = Inr s \<and> map_of (st_tool_calls s) ''3:a'' = Some c \<and>
     replay ((demo_open @ [demo_denied]) @ []) = Inr s' \<and> map_of (st_tool_calls s') ''3:a'' = Some c' \<and>
     tc_approved c' = Some False"
proof -
  obtain s c where s: "replay (demo_open @ [demo_denied]) = Inr s" "map_of (st_tool_calls s) ''3:a'' = Some c"
    "tc_approved c = Some False" by (rule demo_denied_run)
  have s': "replay ((demo_open @ [demo_denied]) @ []) = Inr s" using s(1) by (simp only: append_Nil2)
  from settled_call_final [OF s(1) s' s(2)] s s' show ?thesis by auto
qed

subsection \<open>The log\<close>

text \<open>
  C3. A session state is its log: replaying events that are accepted keeps exactly those
  events, numbered from 1 without gaps, all of one session whose first event is
  \<open>session_created\<close>, and the assistant responses are those of the log, in order.
\<close>

theorem log_is_the_session:
  assumes "replay es = Inr s"
  shows "st_events s = es \<and> st_last_seq s = int (length es) \<and>
    map ev_seq es = map int [1..<length es + 1] \<and>
    (\<forall>e \<in> set es. st_session_id s = Some (ev_session_id e)) \<and>
    (es \<noteq> [] \<longrightarrow> ev_type (hd es) = ''session_created'') \<and>
    st_assistant_events s = filter (\<lambda>e. ev_type e = ''assistant_accepted'') es"
proof -
  have ev: "st_events s = es" by (rule replay_events [OF assms])
  have log: "log_wf s" using replay_wf [OF assms] by (simp add: wf_state_def)
  have "map ev_seq es = map int [1..<length es + 1]"
    by (rule nth_equalityI) (use log ev in \<open>auto simp: log_wf_def simp del: upt_Suc\<close>)
  moreover have "st_session_id s = Some (ev_session_id e)" if e: "e \<in> set es" for e
  proof -
    from e ev obtain i where "i < length (st_events s)" "e = st_events s ! i"
      by (auto simp: in_set_conv_nth)
    with log show ?thesis unfolding log_wf_def by auto
  qed
  ultimately show ?thesis using log ev unfolding log_wf_def by blast
qed

theorem log_is_the_session_witness:
  "\<exists>s. replay (demo_open @ [demo_denied]) = Inr s \<and> st_events s = demo_open @ [demo_denied] \<and>
     st_assistant_events s = [demo_call]"
proof -
  obtain s where s: "replay (demo_open @ [demo_denied]) = Inr s" by (rule demo_denied_run)
  from log_is_the_session [OF s] s show ?thesis by (simp add: demo_defs)
qed

text \<open>
  Applying each event as it is recorded and replaying the whole log from scratch are
  the same: the state after one more event is \<open>reduce_event\<close> of the state before it,
  and fails exactly when \<open>reduce_event\<close> fails.
\<close>

lemma replay_is_incremental:
  "replay (es @ [e]) = bindE (replay es) (\<lambda>s. reduce_event s e)"
  by (cases "foldE apply_event empty_state es"; cases "apply_event (projr (foldE apply_event empty_state es)) e")
     (auto simp: replay_def replay_from_def reduce_event_def foldE_append)


subsection \<open>Code Mode\<close>

text \<open>
  C19. The code nodes of a replayed session are its code tool calls, seen from their run:
  every code call has a node of the same key, a node's status is always its call's (with
  \<open>requested\<close> read as \<open>planned\<close>), the node is listed by the run that the call names,
  and all the nodes of a run that is no longer active are terminal.
\<close>

theorem code_nodes_mirror_calls:
  assumes "replay es = Inr s"
  shows "(\<forall>k c. map_of (st_tool_calls s) k = Some c \<longrightarrow> tc_origin c = ''code'' \<longrightarrow>
        has_key (st_code_nodes s) k) \<and>
    (\<forall>k x. map_of (st_code_nodes s) k = Some x \<longrightarrow>
        (\<exists>c r. map_of (st_tool_calls s) k = Some c \<and> tc_origin c = ''code'' \<and>
           (tc_status c = Requested \<longrightarrow> cn_status x = NPlanned) \<and>
           (tc_status c \<noteq> Requested \<longrightarrow> code_node_status_value (cn_status x) = tool_status_value (tc_status c)) \<and>
           tc_code_run_id c = Some (cn_run_id x) \<and>
           map_of (st_code_runs s) (cn_run_id x) = Some r \<and> k \<in> set (cr_node_ids r) \<and>
           (cr_status r \<noteq> RunActive \<longrightarrow> node_is_terminal (cn_status x) \<and> is_terminal c)))"
proof (intro conjI allI impI)
  have wf: "nodes_wf s" using replay_wf [OF assms] by (simp add: wf_state_def)
  show "has_key (st_code_nodes s) k"
    if "map_of (st_tool_calls s) k = Some c" "tc_origin c = ''code''" for k c
    using wf that by (simp add: nodes_wf_def)
  fix k x assume x: "map_of (st_code_nodes s) k = Some x"
  with wf have "node_wf s k x" by (simp add: nodes_wf_def)
  then obtain c r where c: "map_of (st_tool_calls s) k = Some c" "tc_origin c = ''code''"
      "cn_status x = node_status_for (tc_status c)" "tc_code_run_id c = Some (cn_run_id x)"
    and r: "map_of (st_code_runs s) (cn_run_id x) = Some r" "k \<in> set (cr_node_ids r)"
    unfolding node_wf_def by blast
  from r wf have "run_wf s (cn_run_id x) r" by (simp add: nodes_wf_def)
  with r x have fin: "cr_status r \<noteq> RunActive \<longrightarrow> node_is_terminal (cn_status x)"
    by (auto simp: run_wf_def)
  have st: "(tc_status c = Requested \<longrightarrow> cn_status x = NPlanned) \<and>
      (tc_status c \<noteq> Requested \<longrightarrow> code_node_status_value (cn_status x) = tool_status_value (tc_status c))"
    unfolding c(3) by (cases "tc_status c") (simp_all add: node_status_for_def node_status_of_tool_def
        code_node_status_of_def all_node_statuses_def)
  have "cr_status r \<noteq> RunActive \<longrightarrow> is_terminal c"
    using fin unfolding c(3) node_status_for_terminal is_terminal_def .
  with c r fin st show "\<exists>c r. map_of (st_tool_calls s) k = Some c \<and> tc_origin c = ''code'' \<and>
           (tc_status c = Requested \<longrightarrow> cn_status x = NPlanned) \<and>
           (tc_status c \<noteq> Requested \<longrightarrow> code_node_status_value (cn_status x) = tool_status_value (tc_status c)) \<and>
           tc_code_run_id c = Some (cn_run_id x) \<and>
           map_of (st_code_runs s) (cn_run_id x) = Some r \<and> k \<in> set (cr_node_ids r) \<and>
           (cr_status r \<noteq> RunActive \<longrightarrow> node_is_terminal (cn_status x) \<and> is_terminal c)" by blast
qed

definition demo_code :: "event list" where
  "demo_code = [demo_created, demo_turn,
     ev_of 3 ''assistant_accepted''
       [(''tool_calls'', PTuple [PProxy [(''id'', PStr ''a''), (''name'', PStr ''run_code''),
          (''arguments'', PStr ''{}'')]])],
     ev_of 4 ''tool_started'' [(''call_key'', PStr ''3:a'')],
     ev_of 5 ''code_run_started'' [(''run_id'', PStr uuid_a), (''turn_id'', PStr uuid_c),
       (''parent_call_key'', PStr ''3:a''), (''description'', PStr ''d''), (''source_hash'', PStr ''h'')],
     ev_of 6 ''code_node_planned'' [(''run_id'', PStr uuid_a), (''node_id'', PStr ''n1''),
       (''ordinal'', PInt 1), (''name'', PStr ''read_file''), (''arguments'', PStr ''{}'')],
     ev_of 7 ''tool_started'' [(''call_key'', PStr ''n1'')]]"

lemma demo_code_run:
  obtains s x c where "replay demo_code = Inr s" "map_of (st_code_nodes s) ''n1'' = Some x"
    "cn_status x = NStarted" "map_of (st_tool_calls s) ''n1'' = Some c" "tc_status c = Started"
    "st_pending_recovery_intent s = None"
proof -
  have "case replay demo_code of Inl _ \<Rightarrow> False | Inr s \<Rightarrow>
      (case map_of (st_code_nodes s) ''n1'' of None \<Rightarrow> False | Some x \<Rightarrow> cn_status x = NStarted) \<and>
      (case map_of (st_tool_calls s) ''n1'' of None \<Rightarrow> False | Some c \<Rightarrow> tc_status c = Started) \<and>
      Option.is_none (st_pending_recovery_intent s)"
    by code_simp
  then show ?thesis using that by (auto simp: Option.is_none_def split: sum.splits option.splits)
qed

theorem code_nodes_mirror_calls_witness:
  "\<exists>s x c. replay demo_code = Inr s \<and> map_of (st_code_nodes s) ''n1'' = Some x \<and>
     map_of (st_tool_calls s) ''n1'' = Some c \<and> tc_origin c = ''code'' \<and> cn_status x = NStarted"
proof -
  obtain s x where s: "replay demo_code = Inr s" "map_of (st_code_nodes s) ''n1'' = Some x"
    "cn_status x = NStarted" by (rule demo_code_run)
  from code_nodes_mirror_calls [OF s(1)] s show ?thesis by blast
qed

subsection \<open>Files\<close>

text \<open>
  C21. Every file mutation plan of a replayed session was made for an approved managed
  write: it is stored under the key of a tool call of the same turn that may write files
  and whose approval was granted, and the approval is never withdrawn.
\<close>

theorem mutation_plans_are_approved:
  assumes "replay es = Inr s" "map_of (st_file_mutation_plans s) k = Some p"
  shows "mp_call_key p = k \<and> (\<exists>c. map_of (st_tool_calls s) k = Some c \<and> tc_turn_id c = mp_turn_id p \<and>
    tc_name c \<in> {''write_file'', ''edit_file''} \<and> tc_approved c = Some True)"
  using replay_wf [OF assms(1)] assms(2) by (fastforce simp: wf_state_def files_wf_def managed_write_def)

definition absent_doc :: pyval where
  "absent_doc = PProxy [(''exists'', PBool False), (''sha256'', PNone), (''mode'', PNone), (''size'', PNone),
     (''device'', PNone), (''inode'', PNone), (''mtime_ns'', PNone), (''ctime_ns'', PNone)]"

definition demo_plan :: "event list" where
  "demo_plan = demo_open @
     [ev_of 4 ''approval_decided'' [(''call_key'', PStr ''3:a''), (''approved'', PBool True)],
      ev_of 5 ''file_mutation_planned'' [(''turn_id'', PStr uuid_c), (''call_key'', PStr ''3:a''),
        (''expected_version'', absent_doc), (''path'', PStr ''f''), (''proposed_hash'', PStr ''h''),
        (''diff'', PStr [])]]"

lemma demo_plan_run:
  obtains s p where "replay demo_plan = Inr s" "map_of (st_file_mutation_plans s) ''3:a'' = Some p"
proof -
  have "case replay demo_plan of Inl _ \<Rightarrow> False | Inr s \<Rightarrow> has_key (st_file_mutation_plans s) ''3:a''"
    by code_simp
  then show ?thesis using that by (auto simp: has_key_def split: sum.splits)
qed

theorem mutation_plans_are_approved_witness:
  "\<exists>s p. replay demo_plan = Inr s \<and> map_of (st_file_mutation_plans s) ''3:a'' = Some p \<and>
     mp_call_key p = ''3:a''"
proof -
  obtain s p where s: "replay demo_plan = Inr s" "map_of (st_file_mutation_plans s) ''3:a'' = Some p"
    by (rule demo_plan_run)
  from mutation_plans_are_approved [OF s] s show ?thesis by blast
qed

text \<open>
  C14. The baseline of a file that a turn has successfully written is never lost: whatever
  is replayed afterwards, the snapshot stays, with the same original existence, bytes and
  mode, so an undo always restores what was there before the turn.
\<close>

theorem written_baseline_kept:
  assumes "replay es = Inr s" "replay (es @ fs) = Inr s'"
    "map_of (st_file_snapshots s) k = Some sn" "fs_after_hash sn \<noteq> None"
  shows "\<exists>sn'. map_of (st_file_snapshots s') k = Some sn' \<and> fs_after_hash sn' \<noteq> None \<and>
    fs_existed_before sn' = fs_existed_before sn \<and> fs_before_bytes sn' = fs_before_bytes sn \<and>
    fs_before_mode sn' = fs_before_mode sn"
proof -
  have "replay_from s fs = Inr s'"
    using assms(1,2) by (auto simp: replay_def replay_from_def foldE_append succ_simps)
  from run_evolves [OF this replay_wf [OF assms(1)]] assms(3,4) show ?thesis
    unfolding evolves_def same_baseline_def by blast
qed

definition demo_write :: "event list" where
  "demo_write = demo_open @
     [ev_of 4 ''approval_decided'' [(''call_key'', PStr ''3:a''), (''approved'', PBool True)],
      ev_of 5 ''file_snapshot'' [(''turn_id'', PStr uuid_c), (''path'', PStr ''f''),
        (''existed_before'', PBool False), (''before_bytes'', PStr []), (''before_encoding'', PStr ''base64''),
        (''call_key'', PStr ''3:a'')],
      ev_of 6 ''tool_started'' [(''call_key'', PStr ''3:a'')],
      ev_of 7 ''tool_finished'' [(''call_key'', PStr ''3:a''), (''status'', PStr ''success''),
        (''path'', PStr ''f''), (''after_hash'', PStr ''h''), (''after_mode'', PInt 420)]]"

lemma demo_write_run:
  obtains s sn where "replay demo_write = Inr s" "map_of (st_file_snapshots s) (uuid_c, ''f'') = Some sn"
    "fs_after_hash sn = Some ''h''" "\<not> fs_existed_before sn"
proof -
  have "case replay demo_write of Inl _ \<Rightarrow> False | Inr s \<Rightarrow>
      (case map_of (st_file_snapshots s) (uuid_c, ''f'') of None \<Rightarrow> False
       | Some sn \<Rightarrow> fs_after_hash sn = Some ''h'' \<and> \<not> fs_existed_before sn)"
    by code_simp
  then show ?thesis using that by (auto split: sum.splits option.splits)
qed

theorem written_baseline_kept_witness:
  "\<exists>s sn. replay demo_write = Inr s \<and> map_of (st_file_snapshots s) (uuid_c, ''f'') = Some sn \<and>
     fs_after_hash sn \<noteq> None \<and> \<not> fs_existed_before sn"
proof -
  obtain s sn where s: "replay demo_write = Inr s" "map_of (st_file_snapshots s) (uuid_c, ''f'') = Some sn"
    "fs_after_hash sn = Some ''h''" "\<not> fs_existed_before sn" by (rule demo_write_run)
  have s': "replay (demo_write @ []) = Inr s" using s(1) by (simp only: append_Nil2)
  from written_baseline_kept [OF s(1) s' s(2)] s show ?thesis by auto
qed


subsection \<open>Rejected events\<close>

text \<open>
  C20. An event that a replayed session rejects raises a \<open>DomainError\<close>: no internal
  lookup or status conversion of a handler ever fails. The only other exception is a
  \<open>TypeError\<close>, and only \<open>approval_decided\<close>, \<open>tool_reconciled\<close> and
  \<open>undo_finished\<close> can raise it.
\<close>

theorem rejection_is_domain_error:
  assumes "replay es = Inr s" "reduce_event s e = Inl x"
  shows "\<exists>m. x = DomainError m \<or>
    x = TypeError m \<and> ev_type e \<in> {''approval_decided'', ''tool_reconciled'', ''undo_finished''}"
proof -
  from assms(2) obtain s' where "apply_event s e = Inl (x, s')"
    by (auto simp: reduce_event_def fail_simps)
  with apply_event_errors [OF replay_wf [OF assms(1)], of e]
  have "domain_error x \<or> may_type_error (ev_type e) \<and> domain_or_type_error x"
    by (auto simp: raises_only_def)
  then show ?thesis by (cases x) (auto simp: may_type_error_def)
qed

theorem rejection_is_domain_error_witness:
  "\<exists>s x. replay (demo_open @ [demo_denied]) = Inr s \<and> reduce_event s demo_turn = Inl x \<and>
     (\<exists>m. x = DomainError m)"
proof -
  obtain s where s: "replay (demo_open @ [demo_denied]) = Inr s" "st_last_seq s = 4" by (rule demo_denied_run)
  then have "\<exists>x. reduce_event s demo_turn = Inl x" by (simp add: reduce_event_def apply_event_def demo_defs)
  then obtain x where x: "reduce_event s demo_turn = Inl x" by blast
  from rejection_is_domain_error [OF s(1) x] have "\<exists>m. x = DomainError m" by (auto simp: demo_defs)
  with s x show ?thesis by blast
qed

end
