(* ===== verification/Recovery.thy ===== *)
theory Recovery
  imports ReducerProps
begin

section \<open>Recovery after a crash (domain.py, plan_recovery_events)\<close>

text \<open>
  The facts planned for the calls a crash left open are always accepted by the reducer,
  one after the other, and leave no open call.
\<close>

definition recovered_status :: "tool_status \<Rightarrow> tool_status" where
  "recovered_status st = (case st of Started \<Rightarrow> OutcomeUnknown | Requested \<Rightarrow> NotExecuted | _ \<Rightarrow> st)"

definition no_started_call :: "session_state \<Rightarrow> bool" where
  "no_started_call s \<longleftrightarrow> (\<forall>k c. map_of (st_tool_calls s) k = Some c \<longrightarrow> tc_status c \<noteq> Started)"

text \<open>No intent is pending, or one to close calls that never started.\<close>

definition recoverable :: "session_state \<Rightarrow> bool" where
  "recoverable s \<longleftrightarrow> (case st_pending_recovery_intent s of None \<Rightarrow> True
     | Some intent \<Rightarrow> intent_action intent = PStr ''recover_interrupted'' \<and> no_started_call s)"

definition recovery_event :: "string \<Rightarrow> string \<Rightarrow> string \<Rightarrow> int \<Rightarrow> mapping \<Rightarrow> event" where
  "recovery_event i sid ts n payload = \<lparr>ev_version = 1, ev_seq = n, ev_id = i, ev_timestamp = ts,
     ev_session_id = sid, ev_type = ''tool_finished'', ev_payload = payload\<rparr>"

lemma status_value_not_alias:
  "tool_status_value st \<noteq> ''success'' \<and> tool_status_value st \<noteq> ''timeout''"
  by (cases st) simp_all

lemma recovery_step:
  assumes wf: "wf_state s" and c: "map_of (st_tool_calls s) (tc_call_key c) = Some c"
    and p: "recovery_payload c = Some (st, payload)" and r: "recoverable s"
    and sid: "st_session_id s = Some sid"
  shows "\<exists>s' c'. apply_event s (recovery_event i sid ts (st_last_seq s + 1) payload) = Inr s' \<and>
    map_of (st_tool_calls s') = (map_of (st_tool_calls s))(tc_call_key c \<mapsto> c') \<and>
    tc_status c' = recovered_status (tc_status c) \<and> recoverable s' \<and>
    st_session_id s' = st_session_id s \<and> st_last_seq s' = st_last_seq s + 1"
proof -
  define ev where "ev = recovery_event i sid ts (st_last_seq s + 1) payload"
  have ev: "ev_payload ev = payload" "ev_seq ev = st_last_seq s + 1" "ev_type ev = ''tool_finished''"
    "ev_session_id ev = sid" by (simp_all add: ev_def recovery_event_def)
  have status: "tc_status c = Started \<and> st = OutcomeUnknown \<or> tc_status c = Requested \<and> st = NotExecuted"
    using p by (auto simp: recovery_payload_def split: tool_status.splits)
  obtain note_text where payload: "payload =
      [(''call_key'', PStr (tc_call_key c)), (''call_id'', PStr (tc_provider_call_id c)),
       (''status'', PStr (tool_status_value st)), (''result'', PStr note_text),
       (''recovery_blocked'', PBool (st = OutcomeUnknown))]"
    using p by (auto simp: recovery_payload_def split: tool_status.splits)
  have calls: "fields_wf c" "stage c"
    using wf c by (auto simp: wf_state_def calls_wf_def)
  have act: "st_active_turn_id s = Some (tc_turn_id c)"
    using wf c status by (auto simp: wf_state_def turns_wf_def open_or_unknown_def is_terminal_def tool_terminal_def)
  have found: "call_for_active_turn s payload = Inr c"
    using act c calls by (simp add: call_for_active_turn_def require_active_turn_def payload get_def
        get_or_def fields_wf_def)
  have intent: "case st_pending_recovery_intent s of None \<Rightarrow> True
      | Some it \<Rightarrow> intent_action it = PStr ''recover_interrupted'' \<and> st = NotExecuted"
    using r status c by (auto simp: recoverable_def no_started_call_def split: option.splits)
  define f where "f = \<lparr>rf_status = st, rf_result = Some note_text, rf_exit_code = None, rf_truncated = False,
      rf_recovery_blocked = (st = OutcomeUnknown)\<rparr>"
  have parsed: "parse_tool_status (PStr (tool_status_value st)) = Inr st"
    using status_value_not_alias [of st] by (simp add: parse_tool_status_def)
  have rf: "read_result_fields s c payload = Inr f"
    using status intent parsed
    by (auto simp: read_result_fields_def payload get_def get_or_def opt_field_def tool_terminal_def f_def
        split: option.splits)
  have snap: "finished_snapshot s c payload st = Inr None"
    by (simp add: finished_snapshot_def has_file_metadata_def payload get_def get_or_def)
  obtain c' where post: "tool_call_post_init
       (c\<lparr>tc_status := st, tc_result := Some note_text, tc_exit_code := None, tc_truncated := False,
          tc_result_metadata := PDict [], tc_recovery_blocked := (st = OutcomeUnknown),
          tc_finished_seq := Some (st_last_seq s + 1)\<rparr>) = Inr c'"
    by (rule that, rule post_init_total [OF calls(1) refl]) simp_all
  from post_init_InrD [OF post] have c': "tc_status c' = st" "tc_call_key c' = tc_call_key c" by auto
  have core: "core_wf (st_last_seq s) s" using wf by (simp add: wf_state_def core_wf_def)
  have "\<exists>s1. finish_node (set_call c' s) c ev f = Inr s1"
  proof (cases "tc_origin c = ''code''")
    case True
    then have "has_key (st_code_nodes s) (tc_call_key c)"
      using core c unfolding core_wf_def nodes_wf_def by blast
    then obtain x where x: "map_of (st_code_nodes s) (tc_call_key c) = Some x"
      by (auto simp: has_key_def)
    obtain ns where "node_status_of_tool st = Inr ns" using node_status_total [of st] status by auto
    with True x show ?thesis
      by (simp add: finish_node_def node_of_call_def f_def ev payload get_or_def string_array_def)
  next
    case False
    then show ?thesis by (simp add: finish_node_def)
  qed
  then obtain s1 where fin_node: "finish_node (set_call c' s) c ev f = Inr s1" by blast
  then have "st_pending_recovery_intent s1 = st_pending_recovery_intent s"
    by (auto simp: finish_node_def succ_simps split: if_splits)
  with fin_node have s1: "finish_node (set_call c' s) c ev f = Inr s1" "session_frame (set_call c' s) s1"
    "st_tool_calls s1 = st_tool_calls (set_call c' s)" "st_pending_recovery_intent s1 = st_pending_recovery_intent s"
    using finish_node_frame finish_node_calls by blast+
  have "is_terminal c = False" using status by (auto simp: is_terminal_def tool_terminal_def)
  then have fin: "apply_tool_finished s ev = Inr (refresh_recovery_block s1)"
    using found rf snap post s1(1)
    by (simp add: apply_tool_finished_def ev f_def payload get_or_def set_snapshot_def)
  then have step: "apply_event s ev = Inr (record_event ev (refresh_recovery_block s1))"
    by (simp add: apply_event_def ev sid handlers_def)
  have maps: "map_of (st_tool_calls (record_event ev (refresh_recovery_block s1))) =
      (map_of (st_tool_calls s))(tc_call_key c \<mapsto> c')"
    using s1(3) c' by simp
  have "recoverable (record_event ev (refresh_recovery_block s1))"
    using r s1(4) c' status maps
    by (auto simp: recoverable_def no_started_call_def split: option.splits if_splits)
  moreover have "tc_status c' = recovered_status (tc_status c)"
    using c' status by (auto simp: recovered_status_def)
  moreover have "st_session_id s1 = st_session_id s" using s1(2) by (simp add: session_frame_def)
  ultimately show ?thesis
    unfolding ev_def [symmetric] using step maps ev
    by (intro exI [of _ "record_event ev (refresh_recovery_block s1)"] exI [of _ c']) simp
qed

lemma plan_calls_run:
  assumes "wf_state s" "recoverable s" "st_session_id s = Some sid"
    "\<forall>c \<in> set cs. map_of (st_tool_calls s) (tc_call_key c) = Some c" "distinct (map tc_call_key cs)"
  shows "\<exists>s'. replay_from s (plan_calls uuid5 sid ts (st_last_seq s + 1) cs) = Inr s' \<and>
    (\<forall>c \<in> set cs. \<exists>c'. map_of (st_tool_calls s') (tc_call_key c) = Some c' \<and>
       tc_status c' = recovered_status (tc_status c)) \<and>
    (\<forall>k. k \<notin> tc_call_key ` set cs \<longrightarrow> map_of (st_tool_calls s') k = map_of (st_tool_calls s) k)"
  using assms
proof (induction cs arbitrary: s)
  case Nil then show ?case by (simp add: replay_from_def)
next
  case (Cons c cs)
  show ?case
  proof (cases "recovery_payload c")
    case None
    then have "recovered_status (tc_status c) = tc_status c"
      by (auto simp: recovery_payload_def recovered_status_def split: tool_status.splits)
    moreover obtain s' where s': "replay_from s (plan_calls uuid5 sid ts (st_last_seq s + 1) cs) = Inr s'"
      "\<forall>c \<in> set cs. \<exists>c'. map_of (st_tool_calls s') (tc_call_key c) = Some c' \<and>
         tc_status c' = recovered_status (tc_status c)"
      "\<forall>k. k \<notin> tc_call_key ` set cs \<longrightarrow> map_of (st_tool_calls s') k = map_of (st_tool_calls s) k"
      using Cons.IH [OF Cons.prems(1-3)] Cons.prems(4,5) by fastforce
    ultimately show ?thesis using None Cons.prems(4,5) by (intro exI [of _ s']) auto
  next
    case (Some q)
    obtain st payload where q: "recovery_payload c = Some (st, payload)" using Some by (cases q) auto
    define i where "i = uuid5 sid (''recovery:tool_finished:'' @ show_int (st_last_seq s + 1) @ '':'' @
          tc_call_key c @ '':'' @ tool_status_value st)"
    have key: "map_of (st_tool_calls s) (tc_call_key c) = Some c" using Cons.prems(4) by simp
    from recovery_step [OF Cons.prems(1) key q Cons.prems(2,3), of i ts]
    obtain s1 c1 where s1: "apply_event s (recovery_event i sid ts (st_last_seq s + 1) payload) = Inr s1"
      "map_of (st_tool_calls s1) = (map_of (st_tool_calls s))(tc_call_key c \<mapsto> c1)"
      "tc_status c1 = recovered_status (tc_status c)" "recoverable s1"
      "st_session_id s1 = st_session_id s" "st_last_seq s1 = st_last_seq s + 1" by blast
    have wf1: "wf_state s1" by (rule apply_event_keeps [OF Cons.prems(1) s1(1)])
    have rest: "\<forall>d \<in> set cs. map_of (st_tool_calls s1) (tc_call_key d) = Some d"
    proof
      fix d assume d: "d \<in> set cs"
      have "tc_call_key c \<notin> tc_call_key ` set cs" using Cons.prems(5) by simp
      with d have "tc_call_key d \<noteq> tc_call_key c" by (metis imageI)
      with d Cons.prems(4) s1(2) show "map_of (st_tool_calls s1) (tc_call_key d) = Some d" by simp
    qed
    have sid1: "st_session_id s1 = Some sid" and dist: "distinct (map tc_call_key cs)"
      using Cons.prems(3,5) s1(5) by simp_all
    obtain s' where s': "replay_from s1 (plan_calls uuid5 sid ts (st_last_seq s1 + 1) cs) = Inr s'"
      "\<forall>c \<in> set cs. \<exists>c'. map_of (st_tool_calls s') (tc_call_key c) = Some c' \<and>
         tc_status c' = recovered_status (tc_status c)"
      "\<forall>k. k \<notin> tc_call_key ` set cs \<longrightarrow> map_of (st_tool_calls s') k = map_of (st_tool_calls s1) k"
      using Cons.IH [OF wf1 s1(4) sid1 rest dist] by blast
    have "plan_calls uuid5 sid ts (st_last_seq s + 1) (c # cs) =
        recovery_event i sid ts (st_last_seq s + 1) payload # plan_calls uuid5 sid ts (st_last_seq s1 + 1) cs"
      by (simp add: q recovery_event_def i_def s1(6))
    then have "replay_from s (plan_calls uuid5 sid ts (st_last_seq s + 1) (c # cs)) = Inr s'"
      using s'(1) s1(1) by (simp add: replay_from_def)
    moreover have new: "tc_call_key c \<notin> tc_call_key ` set cs" using Cons.prems(5) by simp
    have "\<exists>c'. map_of (st_tool_calls s') (tc_call_key c) = Some c' \<and>
        tc_status c' = recovered_status (tc_status c)" using s'(3) new s1(2,3) by simp
    moreover have "\<forall>k. k \<notin> tc_call_key ` set (c # cs) \<longrightarrow>
        map_of (st_tool_calls s') k = map_of (st_tool_calls s) k" using s'(3) s1(2) by simp
    ultimately show ?thesis using s'(2) by (intro exI [of _ s']) simp
  qed
qed


text \<open>
  C8. Recovery always succeeds: for any replayed session in which no intent is pending (or
  only one to close calls that never started), the planned facts exist, they extend the log
  to one that replays, every call that was running has an unknown outcome, every call that
  was only requested is not executed, every other call is unchanged, and no call is open.
\<close>

theorem recovery_always_replays:
  assumes "replay es = Inr s" "es \<noteq> []"
    "case st_pending_recovery_intent s of None \<Rightarrow> True
     | Some intent \<Rightarrow> intent_action intent = PStr ''recover_interrupted'' \<and>
         (\<forall>c \<in> set (vals (st_tool_calls s)). tc_status c \<noteq> Started)"
  shows "\<exists>planned s'. plan_recovery_events uuid5 s = Inr planned \<and> replay (es @ planned) = Inr s' \<and>
    (\<forall>c \<in> set (vals (st_tool_calls s')). is_terminal c) \<and>
    (\<forall>k c. map_of (st_tool_calls s) k = Some c \<longrightarrow>
       (\<exists>c'. map_of (st_tool_calls s') k = Some c' \<and>
          (tc_status c = Started \<longrightarrow> tc_status c' = OutcomeUnknown) \<and>
          (tc_status c = Requested \<longrightarrow> tc_status c' = NotExecuted) \<and>
          (is_terminal c \<longrightarrow> tc_status c' = tc_status c)))"
proof -
  note wf = replay_wf [OF assms(1)]
  then have dict: "dict_ok (st_tool_calls s)" by (simp add: wf_state_def calls_wf_def)
  from wf have log: "log_wf s" by (simp add: wf_state_def)
  have "st_events s \<noteq> []" using assms(2) replay_events [OF assms(1)] by simp
  then obtain sid ts where sid: "st_session_id s = Some sid" and ts: "st_last_event_timestamp s = Some ts"
    using log by (cases "st_session_id s") (auto simp: log_wf_def)
  let ?cs = "vals (st_tool_calls s)"
  have key: "map_of (st_tool_calls s) (tc_call_key c) = Some c" if "c \<in> set ?cs" for c
    using that wf vals_iff [OF dict] by (auto simp: wf_state_def calls_wf_def)
  have distinct: "distinct (map tc_call_key ?cs)"
  proof -
    have "map tc_call_key ?cs = map fst (st_tool_calls s)"
      unfolding vals_def using wf dict
      by (auto simp: wf_state_def calls_wf_def dict_ok_def map_of_eq_Some_iff)
    with dict show ?thesis by (simp add: dict_ok_def)
  qed
  have rec: "recoverable s"
    using assms(3) vals_iff [OF dict] by (auto simp: recoverable_def no_started_call_def split: option.splits)
  obtain s' where s': "replay_from s (plan_calls uuid5 sid ts (st_last_seq s + 1) ?cs) = Inr s'"
    "\<forall>c \<in> set ?cs. \<exists>c'. map_of (st_tool_calls s') (tc_call_key c) = Some c' \<and>
       tc_status c' = recovered_status (tc_status c)"
    "\<forall>k. k \<notin> tc_call_key ` set ?cs \<longrightarrow> map_of (st_tool_calls s') k = map_of (st_tool_calls s) k"
    using plan_calls_run [OF wf rec sid _ distinct] key by blast
  have run: "replay (es @ plan_calls uuid5 sid ts (st_last_seq s + 1) ?cs) = Inr s'"
    using assms(1) s'(1) by (auto simp: replay_def replay_from_def foldE_append succ_simps)
  have all: "\<exists>c'. map_of (st_tool_calls s') k = Some c' \<and> tc_status c' = recovered_status (tc_status c)"
    if k: "map_of (st_tool_calls s) k = Some c" for k c
  proof -
    have "c \<in> set ?cs" "tc_call_key c = k"
      using k wf vals_iff [OF dict] by (auto simp: wf_state_def calls_wf_def)
    with s'(2) show ?thesis by blast
  qed
  have none: "map_of (st_tool_calls s') k = None" if "map_of (st_tool_calls s) k = None" for k
  proof -
    have "k \<notin> tc_call_key ` set ?cs"
    proof
      assume "k \<in> tc_call_key ` set ?cs"
      then obtain c where "c \<in> set ?cs" "k = tc_call_key c" by blast
      with key that show False by simp
    qed
    with s'(3) that show ?thesis by simp
  qed
  have closed: "is_terminal c" if "c \<in> set (vals (st_tool_calls s'))" for c
  proof -
    have "dict_ok (st_tool_calls s')" using replay_wf [OF run] by (simp add: wf_state_def calls_wf_def)
    from that obtain k where k: "map_of (st_tool_calls s') k = Some c"
      unfolding vals_iff [OF \<open>dict_ok (st_tool_calls s')\<close>] by blast
    with none obtain c0 where c0: "map_of (st_tool_calls s) k = Some c0"
      by (cases "map_of (st_tool_calls s) k") simp_all
    from all [OF c0] k have "tc_status c = recovered_status (tc_status c0)" by simp
    then show ?thesis
      by (simp add: is_terminal_def tool_terminal_def recovered_status_def split: tool_status.splits)
  qed
  have "plan_recovery_events uuid5 s = Inr (plan_calls uuid5 sid ts (st_last_seq s + 1) ?cs)"
    by (simp add: plan_recovery_events_def sid ts)
  moreover have "\<exists>c'. map_of (st_tool_calls s') k = Some c' \<and>
      (tc_status c = Started \<longrightarrow> tc_status c' = OutcomeUnknown) \<and>
      (tc_status c = Requested \<longrightarrow> tc_status c' = NotExecuted) \<and>
      (is_terminal c \<longrightarrow> tc_status c' = tc_status c)"
    if k: "map_of (st_tool_calls s) k = Some c" for k c
  proof -
    obtain c' where "map_of (st_tool_calls s') k = Some c'" "tc_status c' = recovered_status (tc_status c)"
      using all [OF k] by blast
    then show ?thesis
      by (cases "tc_status c") (simp_all add: recovered_status_def is_terminal_def tool_terminal_def)
  qed
  ultimately show ?thesis using run closed by blast
qed


theorem recovery_always_replays_witness:
  "\<exists>s planned s'. replay demo_code = Inr s \<and> plan_recovery_events (\<lambda>n d. uuid_a) s = Inr planned \<and>
     replay (demo_code @ planned) = Inr s' \<and>
     (\<exists>c. map_of (st_tool_calls s') ''n1'' = Some c \<and> tc_status c = OutcomeUnknown)"
proof -
  obtain s c where s: "replay demo_code = Inr s" "map_of (st_tool_calls s) ''n1'' = Some c"
    "tc_status c = Started" "st_pending_recovery_intent s = None" by (rule demo_code_run)
  have "demo_code \<noteq> []" by (simp add: demo_code_def)
  moreover have "case st_pending_recovery_intent s of None \<Rightarrow> True
     | Some intent \<Rightarrow> intent_action intent = PStr ''recover_interrupted'' \<and>
         (\<forall>c \<in> set (vals (st_tool_calls s)). tc_status c \<noteq> Started)" by (simp add: s(4))
  ultimately show ?thesis
    using recovery_always_replays [OF s(1), of "\<lambda>n d. uuid_a"] s(1-3) by blast
qed

end
