(* ===== verification/Sse.thy ===== *)
theory Sse
  imports PyJson
begin

section \<open>Incremental decoding of Server-Sent Events (sse.py, SSEDecoder)\<close>

text \<open>
  \<open>SSEDecoder\<close> turns byte chunks of any size into the payloads of \<open>data\<close> events. It
  holds back an unfinished UTF-8 character, an unfinished line and a carriage return that
  may be half of a line end. Text is modelled by its UTF-8 bytes, so the incremental
  decoder only validates: it passes on the complete characters and keeps the rest.
\<close>

subsection \<open>The incremental UTF-8 decoder\<close>

text \<open>The ranges the bytes after a given first byte must lie in; no range list: not a first byte.\<close>

definition cont_ranges :: "nat \<Rightarrow> (nat \<times> nat) list option" where
  "cont_ranges b =
     (if b < 128 then Some []
      else if 194 \<le> b \<and> b \<le> 223 then Some [(128, 191)]
      else if b = 224 then Some [(160, 191), (128, 191)]
      else if b = 237 then Some [(128, 159), (128, 191)]
      else if 225 \<le> b \<and> b \<le> 239 then Some [(128, 191), (128, 191)]
      else if b = 240 then Some [(144, 191), (128, 191), (128, 191)]
      else if 241 \<le> b \<and> b \<le> 243 then Some [(128, 191), (128, 191), (128, 191)]
      else if b = 244 then Some [(128, 143), (128, 191), (128, 191)]
      else None)"

datatype conts = Complete string string | Incomplete | Invalid

fun match_conts :: "(nat \<times> nat) list \<Rightarrow> string \<Rightarrow> conts" where
  "match_conts [] s = Complete [] s"
| "match_conts (r # rs) [] = Incomplete"
| "match_conts ((lo, hi) # rs) (c # s) =
     (if lo \<le> of_char c \<and> of_char c \<le> hi then
        (case match_conts rs s of Complete a b \<Rightarrow> Complete (c # a) b | x \<Rightarrow> x)
      else Invalid)"

lemma match_conts_split: "match_conts rs s = Complete a b \<Longrightarrow> s = a @ b \<and> length a = length rs"
  by (induction rs s arbitrary: a rule: match_conts.induct) (auto split: if_splits conts.splits)

text \<open>The complete characters of the input and the unfinished one after them.\<close>

function (sequential) utf8_split :: "string \<Rightarrow> (string \<times> string) option" where
  "utf8_split [] = Some ([], [])"
| "utf8_split (c # s) = (case cont_ranges (of_char c) of
     None \<Rightarrow> None
   | Some rs \<Rightarrow> (case match_conts rs s of
       Invalid \<Rightarrow> None
     | Incomplete \<Rightarrow> Some ([], c # s)
     | Complete a rest \<Rightarrow> (case utf8_split rest of
         None \<Rightarrow> None
       | Some (t, r) \<Rightarrow> Some (c # a @ t, r))))"
  by pat_completeness auto
termination
  by (relation "measure length") (auto dest: match_conts_split)

lemma utf8_split_append: "utf8_split s = Some (t, r) \<Longrightarrow> s = t @ r"
  by (induction s arbitrary: t r rule: utf8_split.induct)
     (auto split: option.splits conts.splits prod.splits dest: match_conts_split)

lemma match_conts_more: "match_conts rs s = Complete a b \<Longrightarrow> match_conts rs (s @ u) = Complete a (b @ u)"
  by (induction rs s arbitrary: a rule: match_conts.induct) (auto split: if_splits conts.splits)

lemma match_conts_bad: "match_conts rs s = Invalid \<Longrightarrow> match_conts rs (s @ u) = Invalid"
  by (induction rs s rule: match_conts.induct) (auto split: if_splits conts.splits)

lemma utf8_split_more:
  "utf8_split (s @ u) = (case utf8_split s of None \<Rightarrow> None
     | Some (t, r) \<Rightarrow> (case utf8_split (r @ u) of None \<Rightarrow> None | Some (t', r') \<Rightarrow> Some (t @ t', r')))"
proof (induction s rule: utf8_split.induct)
  case 1 then show ?case by (auto split: option.splits)
next
  case (2 c s)
  show ?case
  proof (cases "cont_ranges (of_char c)")
    case None then show ?thesis by simp
  next
    case (Some rs)
    show ?thesis
    proof (cases "match_conts rs s")
      case (Complete a rest)
      then show ?thesis using Some 2 [OF Some Complete] match_conts_more [OF Complete, of u]
        by (auto split: option.splits prod.splits)
    next
      case Incomplete then show ?thesis using Some by (auto split: option.splits)
    next
      case Invalid then show ?thesis using Some match_conts_bad [OF Invalid, of u] by simp
    qed
  qed
qed

subsection \<open>Lines\<close>

definition cr :: char where "cr = CHR 0x0D"
definition lf :: char where "lf = CHR 0x0A"

definition is_newline :: "char \<Rightarrow> bool" where
  "is_newline c \<longleftrightarrow> c = cr \<or> c = lf"

record sse_decoder =
  sd_pending :: string \<comment> \<open>the incremental decoder's buffer\<close>
  sd_text :: string
  sd_data_lines :: "string list"
  sd_closed :: bool

definition sse_init :: sse_decoder where
  "sse_init = \<lparr>sd_pending = [], sd_text = [], sd_data_lines = [], sd_closed = False\<rparr>"

text \<open>One line, and the data lines with the events collected so far.\<close>

definition consume_line :: "string \<Rightarrow> string list \<times> string list \<Rightarrow> string list \<times> string list" where
  "consume_line line st = (case st of (data_lines, events) \<Rightarrow>
     if line = [] then
       (if data_lines \<noteq> [] then ([], events @ [join [lf] data_lines]) else st)
     else if hd line = CHR '':'' then st
     else if line = ''data'' then (data_lines @ [[]], events)
     else if take 5 line = ''data:'' then
       (let v = drop 5 line; v = (if take 1 v = '' '' then drop 1 v else v) in (data_lines @ [v], events))
     else st)"

text \<open>
  The loop of \<open>_consume_lines\<close>: the lines it hands on and the text it leaves. A carriage
  return that ends the text waits for the next chunk, unless this is the last.
\<close>

function (sequential) take_lines :: "bool \<Rightarrow> string \<Rightarrow> string list \<times> string" where
  "take_lines final tx = (case dropWhile (\<lambda>c. \<not> is_newline c) tx of
     [] \<Rightarrow> if final \<and> tx \<noteq> [] then ([tx], []) else ([], tx)
   | marker # rest \<Rightarrow>
       let line = takeWhile (\<lambda>c. \<not> is_newline c) tx in
       if marker = cr \<and> rest = [] \<and> \<not> final then ([], tx)
       else
         (case take_lines final (if marker = cr \<and> rest \<noteq> [] \<and> hd rest = lf then drop 1 rest else rest) of
            (ls, t) \<Rightarrow> (line # ls, t)))"
  by pat_completeness auto
termination
proof (relation "measure (\<lambda>(f, t). length t)", simp)
  fix final :: bool and tx rest :: string and marker l
  assume "dropWhile (\<lambda>c. \<not> is_newline c) tx = marker # rest"
  then have "length rest < length tx"
    using length_dropWhile_le [of "\<lambda>c. \<not> is_newline c" tx] by simp
  then show "((final, if marker = cr \<and> rest \<noteq> [] \<and> hd rest = lf then drop 1 rest else rest), final, tx)
      \<in> measure (\<lambda>(f, t). length t)" by auto
qed

declare take_lines.simps [simp del]

definition consume_lines :: "bool \<Rightarrow> sse_decoder \<Rightarrow> string list \<times> sse_decoder" where
  "consume_lines final d = (case take_lines final (sd_text d) of (ls, t) \<Rightarrow>
     (case fold consume_line ls (sd_data_lines d, []) of (data_lines, events) \<Rightarrow>
       (events, d\<lparr>sd_text := t, sd_data_lines := data_lines\<rparr>)))"

definition sse_feed :: "sse_decoder \<Rightarrow> string \<Rightarrow> py_error + (string list \<times> sse_decoder)" where
  "sse_feed d chunk =
     raise_if (sd_closed d) (RuntimeError ''SSE decoder is closed'') (
     bindE (need (utf8_split (sd_pending d @ chunk)) (ProtocolError ''SSE stream is not valid UTF-8'')) (\<lambda>(t, r).
     Inr (consume_lines False (d\<lparr>sd_pending := r, sd_text := sd_text d @ t\<rparr>))))"

definition sse_close :: "sse_decoder \<Rightarrow> py_error + (string list \<times> sse_decoder)" where
  "sse_close d =
     (if sd_closed d then Inr ([], d)
      else raise_if (sd_pending d \<noteq> []) (ProtocolError ''SSE stream ended inside a UTF-8 character'') (
        Inr (consume_lines True (d\<lparr>sd_closed := True\<rparr>))))"

text \<open>Feeding the chunks one after the other and closing: all the events of a stream.\<close>

fun sse_feed_all :: "sse_decoder \<Rightarrow> string list \<Rightarrow> py_error + (string list \<times> sse_decoder)" where
  "sse_feed_all d [] = Inr ([], d)"
| "sse_feed_all d (c # cs) =
     bindE (sse_feed d c) (\<lambda>(es, d').
     bindE (sse_feed_all d' cs) (\<lambda>(fs, e). Inr (es @ fs, e)))"

definition sse_run :: "string list \<Rightarrow> py_error + string list" where
  "sse_run chunks =
     bindE (sse_feed_all sse_init chunks) (\<lambda>(es, d).
     bindE (sse_close d) (\<lambda>(fs, _). Inr (es @ fs)))"

subsection \<open>The whole stream at once\<close>

text \<open>
  The reference: the stream must be UTF-8 text; it is cut into lines at \<open>CR LF\<close>, \<open>CR\<close>
  or \<open>LF\<close>; the lines are folded into events.
\<close>

definition sse_reference :: "string \<Rightarrow> py_error + string list" where
  "sse_reference bytes = (case utf8_split bytes of
     None \<Rightarrow> Inl (ProtocolError ''SSE stream is not valid UTF-8'')
   | Some (t, r) \<Rightarrow>
       if r \<noteq> [] then Inl (ProtocolError ''SSE stream ended inside a UTF-8 character'')
       else Inr (snd (fold consume_line (fst (take_lines True t)) ([], []))))"

lemma take_lines_more:
  assumes "take_lines False a = (ls, r)"
  shows "take_lines f (a @ b) = (case take_lines f (r @ b) of (ls', r') \<Rightarrow> (ls @ ls', r'))"
  using assms
proof (induction "False" a arbitrary: ls r rule: take_lines.induct)
  case (1 tx)
  show ?case
  proof (cases "dropWhile (\<lambda>c. \<not> is_newline c) tx")
    case Nil
    with 1(2) have "ls = []" "r = tx" by (simp_all add: take_lines.simps [of False])
    then show ?thesis by simp
  next
    case (Cons m rest)
    show ?thesis
    proof (cases "m = cr \<and> rest = []")
      case True
      with 1(2) Cons have "ls = []" "r = tx" by (simp_all add: take_lines.simps [of False])
      then show ?thesis by simp
    next
      case False
      define rest' where "rest' = (if m = cr \<and> rest \<noteq> [] \<and> hd rest = lf then drop 1 rest else rest)"
      define line where "line = takeWhile (\<lambda>c. \<not> is_newline c) tx"
      obtain ls1 r1 where l1: "take_lines False rest' = (ls1, r1)" by fastforce
      with 1(2) Cons False have ls: "ls = line # ls1" "r = r1"
        by (simp_all add: take_lines.simps [of False tx] rest'_def line_def)
      have IH: "take_lines f (rest' @ b) = (case take_lines f (r1 @ b) of (ls', r') \<Rightarrow> (ls1 @ ls', r'))"
        using 1(1) [OF Cons line_def _ l1 [unfolded rest'_def], folded rest'_def] False by simp
      have dw: "dropWhile (\<lambda>c. \<not> is_newline c) (tx @ b) = m # rest @ b"
        "takeWhile (\<lambda>c. \<not> is_newline c) (tx @ b) = line"
      proof -
        have "\<exists>x \<in> set tx. is_newline x"
          using Cons by (metis dropWhile_eq_Nil_conv list.distinct(1))
        then show "dropWhile (\<lambda>c. \<not> is_newline c) (tx @ b) = m # rest @ b"
          "takeWhile (\<lambda>c. \<not> is_newline c) (tx @ b) = line"
          using Cons line_def by (auto simp: dropWhile_append takeWhile_append)
      qed
      have nx: "(if m = cr \<and> rest @ b \<noteq> [] \<and> hd (rest @ b) = lf then drop 1 (rest @ b) else rest @ b) = rest' @ b"
        using False by (cases rest) (auto simp: rest'_def)
      have "take_lines f (tx @ b) = (case take_lines f (rest' @ b) of (xs, t) \<Rightarrow> (line # xs, t))"
        using False nx by (subst take_lines.simps) (auto simp: dw)
      then show ?thesis using IH ls by (auto split: prod.splits)
    qed
  qed
qed


lemma utf8_split_rest: "utf8_split s = Some (t, r) \<Longrightarrow> utf8_split r = Some ([], r)"
proof (induction s arbitrary: t r rule: utf8_split.induct)
  case (2 c s)
  then show ?case by (auto split: option.splits conts.splits prod.splits)
qed simp

lemma consume_line_events:
  "consume_line l (dl, es) = (case consume_line l (dl, []) of (dl', fs) \<Rightarrow> (dl', es @ fs))"
  by (simp add: consume_line_def Let_def)

lemma fold_consume_events:
  "fold consume_line ls (dl, es) = (case fold consume_line ls (dl, []) of (dl', fs) \<Rightarrow> (dl', es @ fs))"
proof (induction ls arbitrary: dl es)
  case (Cons l ls)
  obtain dl1 fs1 where c: "consume_line l (dl, []) = (dl1, fs1)" by fastforce
  have a: "fold consume_line (l # ls) (dl, es) = fold consume_line ls (dl1, es @ fs1)"
    using consume_line_events [of l dl es] c by simp
  have b: "fold consume_line (l # ls) (dl, []) = fold consume_line ls (dl1, fs1)" using c by simp
  show ?case unfolding a b Cons.IH [of dl1 "es @ fs1"] Cons.IH [of dl1 fs1] by (simp split: prod.split)
qed simp

definition sse_rest :: "sse_decoder \<Rightarrow> string \<Rightarrow> py_error + string list" where
  "sse_rest d bytes = (case utf8_split (sd_pending d @ bytes) of
     None \<Rightarrow> Inl (ProtocolError ''SSE stream is not valid UTF-8'')
   | Some (t, r) \<Rightarrow>
       if r \<noteq> [] then Inl (ProtocolError ''SSE stream ended inside a UTF-8 character'')
       else Inr (snd (fold consume_line (fst (take_lines True (sd_text d @ t))) (sd_data_lines d, []))))"

definition decoder_open :: "sse_decoder \<Rightarrow> bool" where
  "decoder_open d \<longleftrightarrow> \<not> sd_closed d \<and> utf8_split (sd_pending d) = Some ([], sd_pending d)"

lemma sse_feed_rest:
  assumes d: "decoder_open d" and f: "sse_feed d c = Inr (es, d')"
  shows "decoder_open d' \<and> sse_rest d (c @ bytes) = bindE (sse_rest d' bytes) (\<lambda>fs. Inr (es @ fs))"
proof -
  from f d obtain t r where tr: "utf8_split (sd_pending d @ c) = Some (t, r)"
    and es: "consume_lines False (d\<lparr>sd_pending := r, sd_text := sd_text d @ t\<rparr>) = (es, d')"
    by (auto simp: sse_feed_def succ_simps)
  obtain ls x where ls: "take_lines False (sd_text d @ t) = (ls, x)" by fastforce
  obtain dl where dl: "fold consume_line ls (sd_data_lines d, []) = (dl, es)"
    and d': "d' = d\<lparr>sd_pending := r, sd_text := x, sd_data_lines := dl\<rparr>"
    using es ls by (auto simp: consume_lines_def split: prod.splits)
  have "decoder_open d'" using d d' utf8_split_rest [OF tr] by (simp add: decoder_open_def)
  moreover have "sse_rest d (c @ bytes) = bindE (sse_rest d' bytes) (\<lambda>fs. Inr (es @ fs))"
  proof (cases "utf8_split (r @ bytes)")
    case None
    then show ?thesis using utf8_split_more [of "sd_pending d @ c" bytes] tr
      by (simp add: sse_rest_def d')
  next
    case (Some q)
    obtain t2 r2 where q: "utf8_split (r @ bytes) = Some (t2, r2)" using Some by (cases q) auto
    have all: "utf8_split (sd_pending d @ c @ bytes) = Some (t @ t2, r2)"
      using utf8_split_more [of "sd_pending d @ c" bytes] tr q by simp
    obtain ls2 where ls2: "fst (take_lines True (x @ t2)) = ls2" by blast
    have lines: "fst (take_lines True (sd_text d @ t @ t2)) = ls @ ls2"
      using take_lines_more [OF ls, of True t2] ls2 by (simp split: prod.splits)
    have "snd (fold consume_line (ls @ ls2) (sd_data_lines d, [])) =
        es @ snd (fold consume_line ls2 (dl, []))"
      using fold_consume_events [of ls2 dl es] dl by (simp split: prod.splits)
    then show ?thesis using all q lines ls2 by (simp add: sse_rest_def d')
  qed
  ultimately show ?thesis by blast
qed

lemma sse_run_from:
  "decoder_open d \<Longrightarrow>
   bindE (sse_feed_all d cs) (\<lambda>(es, d'). bindE (sse_close d') (\<lambda>(fs, _). Inr (es @ fs))) =
   sse_rest d (concat cs)"
proof (induction cs arbitrary: d)
  case Nil
  then show ?case
    by (auto simp: sse_rest_def sse_close_def decoder_open_def consume_lines_def raise_if_def
        split: prod.splits)
next
  case (Cons c cs)
  show ?case
  proof (cases "sse_feed d c")
    case (Inl e)
    then show ?thesis using Cons.prems utf8_split_more [of "sd_pending d @ c" "concat cs"]
      by (auto simp: sse_feed_def sse_rest_def decoder_open_def fail_simps need_def split: option.splits)
  next
    case (Inr q)
    obtain es d' where q: "sse_feed d c = Inr (es, d')" using Inr by (cases q) auto
    note step = sse_feed_rest [OF Cons.prems q, of "concat cs"]
    have IH: "bindE (sse_feed_all d' cs) (\<lambda>(es, d'). bindE (sse_close d') (\<lambda>(fs, _). Inr (es @ fs))) =
        sse_rest d' (concat cs)" using step by (intro Cons.IH) simp
    show ?thesis
      using q step IH [symmetric]
      by (simp add: bindE_assoc split_def cong: bindE_cong)
  qed
qed

lemma sse_rest_init: "sse_rest sse_init bytes = sse_reference bytes"
  by (simp add: sse_rest_def sse_reference_def sse_init_def split: option.split)

lemma sse_run_reference: "sse_run chunks = sse_reference (concat chunks)"
  using sse_run_from [of sse_init chunks]
  by (simp add: sse_run_def sse_rest_init) (simp add: decoder_open_def sse_init_def)

text \<open>
  C29. Decoding a stream does not depend on how the network cut it into chunks: feeding the
  chunks and closing gives exactly the events, or the error, of the reference decoder on
  the whole stream, even when a chunk ends inside a character, inside a line, or between
  the two halves of a line end.
\<close>

theorem sse_decoder_chunking: "sse_run chunks = sse_reference (concat chunks)"
  by (rule sse_run_reference)

end
