(* ===== verification/StreamAssembler.thy ===== *)
theory StreamAssembler
  imports Sse
begin

section \<open>Assembling a streamed response (sse.py, StreamAssembler)\<close>

text \<open>
  The assembler collects the deltas of a Chat Completions stream and turns them into one
  response. \<open>json.loads\<close> enters as an argument: \<open>loads payload\<close> is the value it
  returns, or \<open>None\<close> when it raises. The two display callbacks receive exactly the strings
  that are appended to the content and to the reasoning; they do not affect the result.
\<close>

record sampled_tool_call =
  sc_index :: int
  sc_id :: string
  sc_type :: string
  sc_name :: string
  sc_arguments :: string

type_synonym token_usage = "int \<times> int \<times> int"

record stream_response =
  sr_content :: string
  sr_reasoning :: string
  sr_tool_calls :: "sampled_tool_call list"
  sr_finish_reason :: string
  sr_usage :: "token_usage option"

record tool_call_parts =
  tp_id :: "string option"
  tp_type :: "string option"
  tp_name :: "string option"
  tp_arguments :: string
  tp_saw_arguments :: bool

definition empty_parts :: tool_call_parts where
  "empty_parts = \<lparr>tp_id = None, tp_type = None, tp_name = None, tp_arguments = [],
     tp_saw_arguments = False\<rparr>"

definition finish_reasons :: "string set" where
  "finish_reasons = {''stop'', ''tool_calls'', ''length'', ''content_filter'', ''insufficient_system_resource''}"

definition cut_short :: "string \<Rightarrow> bool" where
  "cut_short reason \<longleftrightarrow> reason \<in> {''length'', ''content_filter'', ''insufficient_system_resource''}"

record assembler =
  sa_decoder :: sse_decoder
  sa_content :: "string list"
  sa_reasoning :: "string list"
  sa_tool_calls :: "(int \<times> tool_call_parts) list"
  sa_finish_reason :: "string option"
  sa_usage :: "token_usage option"
  sa_done :: bool
  sa_finished :: bool

definition assembler_init :: assembler where
  "assembler_init = \<lparr>sa_decoder = sse_init, sa_content = [], sa_reasoning = [], sa_tool_calls = [],
     sa_finish_reason = None, sa_usage = None, sa_done = False, sa_finished = False\<rparr>"

subsection \<open>Deltas\<close>

definition merge_metadata :: "string option \<Rightarrow> string \<Rightarrow> py_error + string" where
  "merge_metadata current incoming =
     raise_if (current \<noteq> None \<and> current \<noteq> Some incoming)
       (ProtocolError ''tool call has conflicting metadata'') (Inr incoming)"

text \<open>An optional string field of a delta, merged into the current value.\<close>

definition merge_field :: "mapping \<Rightarrow> string \<Rightarrow> string \<Rightarrow> string option \<Rightarrow> py_error + string option" where
  "merge_field d key msg current =
     (if has_key d key then
        bindE (need (as_str (get d key)) (ProtocolError msg)) (\<lambda>v.
        bindE (merge_metadata current v) (\<lambda>w. Inr (Some w)))
      else Inr current)"

definition stream_usage_field :: "mapping \<Rightarrow> string \<Rightarrow> py_error + int" where
  "stream_usage_field d key =
     bindE (need (as_int (get d key)) (ProtocolError ''stream usage must be a non-negative integer'')) (\<lambda>n.
     raise_if (n < 0) (ProtocolError ''stream usage must be a non-negative integer'') (Inr n))"

definition parse_stream_usage :: "pyval \<Rightarrow> py_error + token_usage" where
  "parse_stream_usage v =
     bindE (need (as_dict v) (ProtocolError ''stream usage must be an object'')) (\<lambda>d.
     bindE (stream_usage_field d ''prompt_tokens'') (\<lambda>p.
     bindE (stream_usage_field d ''completion_tokens'') (\<lambda>c.
     bindE (stream_usage_field d ''total_tokens'') (\<lambda>t. Inr (p, c, t)))))"

definition merge_function :: "mapping \<Rightarrow> tool_call_parts \<Rightarrow> py_error + tool_call_parts" where
  "merge_function d parts =
     (if \<not> has_key d ''function'' then Inr parts
      else
        bindE (need (as_dict (get d ''function'')) (ProtocolError ''tool call function must be an object'')) (\<lambda>f.
        bindE (merge_field f ''name'' ''tool call function name must be a string'' (tp_name parts)) (\<lambda>nm.
        if has_key f ''arguments'' then
          bindE (need (as_str (get f ''arguments'')) (ProtocolError ''tool call arguments must be a string'')) (\<lambda>a.
          Inr (parts\<lparr>tp_name := nm, tp_saw_arguments := True, tp_arguments := tp_arguments parts @ a\<rparr>))
        else Inr (parts\<lparr>tp_name := nm\<rparr>))))"

definition consume_tool_delta :: "assembler \<Rightarrow> pyval \<Rightarrow> py_error + assembler" where
  "consume_tool_delta s v =
     bindE (need (as_dict v) (ProtocolError ''tool call delta must be an object'')) (\<lambda>d.
     bindE (need (as_int (get d ''index'')) (ProtocolError ''tool call index must be a non-negative integer'')) (\<lambda>i.
     raise_if (i < 0) (ProtocolError ''tool call index must be a non-negative integer'') (
     let parts = (case map_of (sa_tool_calls s) i of None \<Rightarrow> empty_parts | Some p \<Rightarrow> p) in
     bindE (merge_field d ''id'' ''tool call id must be a string'' (tp_id parts)) (\<lambda>cid.
     bindE (merge_field d ''type'' ''tool call type must be a string'' (tp_type parts)) (\<lambda>ty.
     bindE (merge_function d (parts\<lparr>tp_id := cid, tp_type := ty\<rparr>)) (\<lambda>parts'.
     Inr (s\<lparr>sa_tool_calls := dict_set i parts' (sa_tool_calls s)\<rparr>)))))))"

definition consume_delta :: "assembler \<Rightarrow> mapping \<Rightarrow> py_error + assembler" where
  "consume_delta s delta =
     bindE (if get delta ''reasoning_content'' \<noteq> PNone then
         bindE (need (as_str (get delta ''reasoning_content''))
           (ProtocolError ''reasoning_content delta must be a string or null'')) (\<lambda>r.
         Inr (s\<lparr>sa_reasoning := sa_reasoning s @ [r]\<rparr>))
       else Inr s) (\<lambda>s1.
     bindE (if get delta ''content'' \<noteq> PNone then
         bindE (need (as_str (get delta ''content''))
           (ProtocolError ''content delta must be a string or null'')) (\<lambda>c.
         Inr (s1\<lparr>sa_content := sa_content s1 @ [c]\<rparr>))
       else Inr s1) (\<lambda>s2.
     if \<not> has_key delta ''tool_calls'' then Inr s2
     else case get delta ''tool_calls'' of
       PList ds \<Rightarrow> foldE consume_tool_delta s2 ds
     | _ \<Rightarrow> Inl (ProtocolError ''tool_calls delta must be a list'')))"

subsection \<open>Payloads\<close>

definition consume_choice :: "assembler \<Rightarrow> pyval \<Rightarrow> py_error + assembler" where
  "consume_choice s v =
     bindE (need (as_dict v) (ProtocolError ''stream choice must be an object'')) (\<lambda>choice.
     raise_if (get choice ''index'' \<noteq> PInt 0) (ProtocolError ''stream choice index must be 0'') (
     raise_if (\<not> has_key choice ''finish_reason'') (ProtocolError ''stream choice is missing finish_reason'') (
     let reason = get choice ''finish_reason'' in
     raise_if (reason \<noteq> PNone \<and> \<not> hashable reason) (TypeError ''unhashable type'') (
     raise_if (reason \<noteq> PNone \<and> (case as_str reason of None \<Rightarrow> True | Some r \<Rightarrow> r \<notin> finish_reasons))
       (ProtocolError ''unsupported finish_reason'') (
     bindE (need (as_dict (get choice ''delta'')) (ProtocolError ''stream choice delta must be an object'')) (\<lambda>delta.
     bindE (consume_delta s delta) (\<lambda>s'.
     Inr (case as_str reason of None \<Rightarrow> s' | Some r \<Rightarrow> s'\<lparr>sa_finish_reason := Some r\<rparr>))))))))"

definition consume_payload :: "(string \<Rightarrow> pyval option) \<Rightarrow> assembler \<Rightarrow> string \<Rightarrow> py_error + assembler" where
  "consume_payload loads s payload =
     (if payload = ''[DONE]'' then
        raise_if (sa_done s) (ProtocolError ''duplicate [DONE] marker'') (Inr (s\<lparr>sa_done := True\<rparr>))
      else
        raise_if (sa_done s) (ProtocolError ''received data after [DONE]'') (
        bindE (need (loads payload) (ProtocolError ''SSE data is not valid JSON'')) (\<lambda>v.
        bindE (need (as_dict v) (ProtocolError ''stream event must be a JSON object'')) (\<lambda>d.
        bindE (if get d ''usage'' \<noteq> PNone then
            bindE (parse_stream_usage (get d ''usage'')) (\<lambda>u. Inr (s\<lparr>sa_usage := Some u\<rparr>))
          else Inr s) (\<lambda>s1.
        case get d ''choices'' of
          PList choices \<Rightarrow>
            (case choices of
               [] \<Rightarrow> raise_if (\<not> (sa_usage s1 \<noteq> None \<or> has_key d ''usage''))
                      (ProtocolError ''stream event choices must contain an item'') (Inr s1)
             | choice # _ \<Rightarrow>
                raise_if (sa_finish_reason s1 \<noteq> None)
                  (ProtocolError ''received data after terminal finish_reason'')
                  (consume_choice s1 choice))
        | _ \<Rightarrow> Inl (ProtocolError ''stream event choices must be an array''))))))"

definition assembler_feed ::
  "(string \<Rightarrow> pyval option) \<Rightarrow> assembler \<Rightarrow> string \<Rightarrow> py_error + assembler" where
  "assembler_feed loads s chunk =
     raise_if (sa_finished s) (RuntimeError ''stream assembler is finished'') (
     bindE (sse_feed (sa_decoder s) chunk) (\<lambda>(payloads, d).
     foldE (consume_payload loads) (s\<lparr>sa_decoder := d\<rparr>) payloads))"

subsection \<open>finish\<close>

definition sampled_call :: "int \<times> tool_call_parts \<Rightarrow> py_error + sampled_tool_call" where
  "sampled_call ip = (case ip of (i, p) \<Rightarrow>
     bindE (need (tp_id p) (ProtocolError ''tool call is missing id'')) (\<lambda>cid.
     raise_if (cid = []) (ProtocolError ''tool call is missing id'') (
     raise_if (tp_type p \<noteq> Some ''function'') (ProtocolError ''tool call type must be function'') (
     bindE (need (tp_name p) (ProtocolError ''tool call is missing function name'')) (\<lambda>nm.
     raise_if (nm = []) (ProtocolError ''tool call is missing function name'') (
     raise_if (\<not> tp_saw_arguments p) (ProtocolError ''tool call is missing function arguments'') (
     Inr \<lparr>sc_index = i, sc_id = cid, sc_type = ''function'', sc_name = nm,
          sc_arguments = tp_arguments p\<rparr>)))))))"

definition build_response :: "assembler \<Rightarrow> py_error + stream_response" where
  "build_response s =
     raise_if (\<not> sa_done s) (StreamInterruptedError ''SSE stream ended before [DONE]'') (
     bindE (need (sa_finish_reason s) (ProtocolError ''stream is missing a terminal finish_reason'')) (\<lambda>reason.
     let content = concat (sa_content s); reasoning = concat (sa_reasoning s) in
     if cut_short reason then
       Inr \<lparr>sr_content = content, sr_reasoning = reasoning, sr_tool_calls = [],
            sr_finish_reason = reason, sr_usage = sa_usage s\<rparr>
     else
       bindE (mapE sampled_call (sort_key fst (sa_tool_calls s))) (\<lambda>calls.
       raise_if (reason \<in> {''stop'', ''tool_calls''} \<and> content = [] \<and> calls = [])
         (ProtocolError ''terminal response is empty'') (
       raise_if (reason = ''tool_calls'' \<and> calls = [])
         (ProtocolError ''tool_calls finish_reason has no tool calls'') (
       Inr \<lparr>sr_content = content, sr_reasoning = reasoning, sr_tool_calls = calls,
            sr_finish_reason = reason, sr_usage = sa_usage s\<rparr>)))))"

definition assembler_finish ::
  "(string \<Rightarrow> pyval option) \<Rightarrow> assembler \<Rightarrow> py_error + stream_response" where
  "assembler_finish loads s =
     raise_if (sa_finished s) (RuntimeError ''stream assembler is finished'') (
     bindE (sse_close (sa_decoder s)) (\<lambda>(payloads, d).
     bindE (foldE (consume_payload loads) (s\<lparr>sa_finished := True, sa_decoder := d\<rparr>) payloads)
       build_response))"

definition assemble :: "(string \<Rightarrow> pyval option) \<Rightarrow> string list \<Rightarrow> py_error + stream_response" where
  "assemble loads chunks =
     bindE (foldE (assembler_feed loads) assembler_init chunks) (assembler_finish loads)"


subsection \<open>The decoder and the flag play no part in the payloads\<close>

definition frame :: "sse_decoder \<Rightarrow> bool \<Rightarrow> assembler \<Rightarrow> assembler" where
  "frame d b s = s\<lparr>sa_decoder := d, sa_finished := b\<rparr>"

lemma frame_simps [simp]:
  "sa_content (frame d b s) = sa_content s" "sa_reasoning (frame d b s) = sa_reasoning s"
  "sa_tool_calls (frame d b s) = sa_tool_calls s" "sa_finish_reason (frame d b s) = sa_finish_reason s"
  "sa_usage (frame d b s) = sa_usage s" "sa_done (frame d b s) = sa_done s"
  "sa_decoder (frame d b s) = d" "sa_finished (frame d b s) = b"
  "frame d b (frame e c s) = frame d b s"
  by (simp_all add: frame_def)

lemma consume_tool_delta_frame:
  "consume_tool_delta s v = Inr t \<Longrightarrow> consume_tool_delta (frame d b s) v = Inr (frame d b t)"
  by (auto simp: consume_tool_delta_def Let_def succ_simps frame_def)

lemma foldE_frame:
  assumes "\<And>s x t. f s x = Inr t \<Longrightarrow> f (frame d b s) x = Inr (frame d b t)"
  shows "foldE f s xs = Inr t \<Longrightarrow> foldE f (frame d b s) xs = Inr (frame d b t)"
proof (induction xs arbitrary: s)
  case (Cons x xs)
  then obtain u where "f s x = Inr u" "foldE f u xs = Inr t" by (auto simp: succ_simps)
  with Cons.IH assms show ?case by simp
qed simp

lemma tool_deltas_frame:
  "foldE consume_tool_delta s xs = Inr t \<Longrightarrow> foldE consume_tool_delta (frame d b s) xs = Inr (frame d b t)"
  by (rule foldE_frame [where f = consume_tool_delta]) (rule consume_tool_delta_frame)

text \<open>A delta, step by step.\<close>

definition delta_texts :: "assembler \<Rightarrow> mapping \<Rightarrow> py_error + assembler" where
  "delta_texts s delta =
     bindE (if get delta ''reasoning_content'' \<noteq> PNone then
         bindE (need (as_str (get delta ''reasoning_content''))
           (ProtocolError ''reasoning_content delta must be a string or null'')) (\<lambda>r.
         Inr (s\<lparr>sa_reasoning := sa_reasoning s @ [r]\<rparr>))
       else Inr s) (\<lambda>s1.
     if get delta ''content'' \<noteq> PNone then
         bindE (need (as_str (get delta ''content''))
           (ProtocolError ''content delta must be a string or null'')) (\<lambda>c.
         Inr (s1\<lparr>sa_content := sa_content s1 @ [c]\<rparr>))
       else Inr s1)"

lemma consume_delta_Inr:
  "consume_delta s delta = Inr t \<longleftrightarrow> (\<exists>s2. delta_texts s delta = Inr s2 \<and>
     (\<not> has_key delta ''tool_calls'' \<and> t = s2 \<or>
      (\<exists>ds. get delta ''tool_calls'' = PList ds \<and> has_key delta ''tool_calls'' \<and>
        foldE consume_tool_delta s2 ds = Inr t)))"
  by (cases "get delta ''tool_calls''")
     (auto simp: consume_delta_def delta_texts_def succ_simps split: if_splits)

lemma delta_texts_frame: "delta_texts s v = Inr t \<Longrightarrow> delta_texts (frame d b s) v = Inr (frame d b t)"
  by (cases "get v ''reasoning_content'' = PNone"; cases "get v ''content'' = PNone")
     (auto simp: delta_texts_def succ_simps frame_def)

lemma consume_delta_frame: "consume_delta s v = Inr t \<Longrightarrow> consume_delta (frame d b s) v = Inr (frame d b t)"
  unfolding consume_delta_Inr using delta_texts_frame tool_deltas_frame by blast

lemma consume_choice_Inr:
  "consume_choice s v = Inr t \<longleftrightarrow> (\<exists>choice delta s1. as_dict v = Some choice \<and>
     get choice ''index'' = PInt 0 \<and> has_key choice ''finish_reason'' \<and>
     as_dict (get choice ''delta'') = Some delta \<and> consume_delta s delta = Inr s1 \<and>
     (get choice ''finish_reason'' = PNone \<and> t = s1 \<or>
      (\<exists>r \<in> finish_reasons. get choice ''finish_reason'' = PStr r \<and> t = s1\<lparr>sa_finish_reason := Some r\<rparr>)))"
  by (cases v; cases "get (the (as_dict v)) ''finish_reason''")
     (auto simp: consume_choice_def Let_def succ_simps)

lemma consume_choice_frame: "consume_choice s v = Inr t \<Longrightarrow> consume_choice (frame d b s) v = Inr (frame d b t)"
proof -
  assume "consume_choice s v = Inr t"
  then obtain choice delta s1 where c: "as_dict v = Some choice" "get choice ''index'' = PInt 0"
    "has_key choice ''finish_reason''" "as_dict (get choice ''delta'') = Some delta"
    "consume_delta s delta = Inr s1"
    "get choice ''finish_reason'' = PNone \<and> t = s1 \<or>
      (\<exists>r \<in> finish_reasons. get choice ''finish_reason'' = PStr r \<and> t = s1\<lparr>sa_finish_reason := Some r\<rparr>)"
    unfolding consume_choice_Inr by blast
  have "consume_delta (frame d b s) delta = Inr (frame d b s1)" by (rule consume_delta_frame [OF c(5)])
  moreover have "get choice ''finish_reason'' = PNone \<and> frame d b t = frame d b s1 \<or>
      (\<exists>r \<in> finish_reasons. get choice ''finish_reason'' = PStr r \<and>
         frame d b t = (frame d b s1)\<lparr>sa_finish_reason := Some r\<rparr>)"
    using c(6) by (auto simp: frame_def)
  ultimately show ?thesis unfolding consume_choice_Inr using c(1-4) by blast
qed

definition payload_usage :: "assembler \<Rightarrow> mapping \<Rightarrow> py_error + assembler" where
  "payload_usage s d =
     (if get d ''usage'' \<noteq> PNone then
        bindE (parse_stream_usage (get d ''usage'')) (\<lambda>u. Inr (s\<lparr>sa_usage := Some u\<rparr>))
      else Inr s)"

lemma consume_payload_Inr:
  "consume_payload loads s p = Inr t \<longleftrightarrow> \<not> sa_done s \<and>
     (p = ''[DONE]'' \<and> t = s\<lparr>sa_done := True\<rparr> \<or>
      p \<noteq> ''[DONE]'' \<and> (\<exists>v d s1 cs. loads p = Some v \<and> as_dict v = Some d \<and> payload_usage s d = Inr s1 \<and>
        get d ''choices'' = PList cs \<and>
        (cs = [] \<and> (sa_usage s1 \<noteq> None \<or> has_key d ''usage'') \<and> t = s1 \<or>
         (\<exists>c cs'. cs = c # cs' \<and> sa_finish_reason s1 = None \<and> consume_choice s1 c = Inr t))))"
proof -
  have case_list: "(case v of PList choices \<Rightarrow>
            (case choices of
               [] \<Rightarrow> raise_if (\<not> (u \<or> h)) e1 (Inr s1)
             | choice # x \<Rightarrow> raise_if w e2 (consume_choice s1 choice))
        | _ \<Rightarrow> Inl e3) = Inr t \<longleftrightarrow> (\<exists>cs. v = PList cs \<and>
        (cs = [] \<and> (u \<or> h) \<and> t = s1 \<or>
         (\<exists>c cs'. cs = c # cs' \<and> \<not> w \<and> consume_choice s1 c = Inr t)))" for v u h e1 s1 w e2 e3
    by (cases v) (auto simp: succ_simps split: list.split)
  show ?thesis
    unfolding consume_payload_def payload_usage_def
    by (auto simp: succ_simps case_list)
qed

lemma payload_usage_frame: "payload_usage s v = Inr t \<Longrightarrow> payload_usage (frame d b s) v = Inr (frame d b t)"
  by (auto simp: payload_usage_def succ_simps frame_def split: if_splits)

lemma consume_payload_frame:
  assumes "consume_payload loads s p = Inr t"
  shows "consume_payload loads (frame d b s) p = Inr (frame d b t)"
proof -
  from assms have nd: "\<not> sa_done s" unfolding consume_payload_Inr by blast
  from assms consider "p = ''[DONE]''" "t = s\<lparr>sa_done := True\<rparr>"
    | v dd s1 cs where "p \<noteq> ''[DONE]''" "loads p = Some v" "as_dict v = Some dd" "payload_usage s dd = Inr s1"
        "get dd ''choices'' = PList cs"
        "cs = [] \<and> (sa_usage s1 \<noteq> None \<or> has_key dd ''usage'') \<and> t = s1 \<or>
         (\<exists>c cs'. cs = c # cs' \<and> sa_finish_reason s1 = None \<and> consume_choice s1 c = Inr t)"
    unfolding consume_payload_Inr by blast
  then show ?thesis
  proof cases
    case 1
    then show ?thesis unfolding consume_payload_Inr using nd by (simp add: frame_def)
  next
    case 2
    have u: "payload_usage (frame d b s) dd = Inr (frame d b s1)" by (rule payload_usage_frame [OF 2(4)])
    have "cs = [] \<and> (sa_usage (frame d b s1) \<noteq> None \<or> has_key dd ''usage'') \<and> frame d b t = frame d b s1 \<or>
         (\<exists>c cs'. cs = c # cs' \<and> sa_finish_reason (frame d b s1) = None \<and>
            consume_choice (frame d b s1) c = Inr (frame d b t))"
      using 2(6) consume_choice_frame by auto
    then show ?thesis unfolding consume_payload_Inr using nd 2(1-3,5) u by auto
  qed
qed

lemma payloads_frame:
  "foldE (consume_payload loads) s ps = Inr t \<Longrightarrow>
   foldE (consume_payload loads) (frame d b s) ps = Inr (frame d b t)"
  by (rule foldE_frame [where f = "consume_payload loads"]) (rule consume_payload_frame)

lemma build_response_frame [simp]: "build_response (frame d b s) = build_response s"
  unfolding build_response_def frame_simps ..


subsection \<open>Payload by payload\<close>

lemma frame_records:
  "s\<lparr>sa_decoder := d, sa_finished := b\<rparr> = frame d b s"
  "s\<lparr>sa_finished := b, sa_decoder := d\<rparr> = frame d b s"
  by (simp_all add: frame_def)

lemma frame_open: "\<not> sa_finished s \<Longrightarrow> s\<lparr>sa_decoder := d\<rparr> = frame d False s"
  by (cases s) (simp add: frame_def)

lemma assembler_feed_Inr:
  "assembler_feed loads s c = Inr t \<longleftrightarrow> \<not> sa_finished s \<and>
     (\<exists>es d. sse_feed (sa_decoder s) c = Inr (es, d) \<and> foldE (consume_payload loads) (frame d False s) es = Inr t)"
  by (cases "sa_finished s") (auto simp: assembler_feed_def succ_simps frame_open)

lemma assembler_finish_Inr:
  "assembler_finish loads s = Inr r \<longleftrightarrow> \<not> sa_finished s \<and>
     (\<exists>es d t. sse_close (sa_decoder s) = Inr (es, d) \<and>
        foldE (consume_payload loads) (frame d True s) es = Inr t \<and> build_response t = Inr r)"
  by (cases "sa_finished s") (auto simp: assembler_finish_def succ_simps frame_records)

lemma consume_payload_decoder:
  assumes "consume_payload loads s p = Inr t"
  shows "sa_decoder t = sa_decoder s \<and> sa_finished t = sa_finished s"
proof -
  have "frame (sa_decoder s) (sa_finished s) s = s" by (simp add: frame_def)
  with consume_payload_frame [OF assms, of "sa_decoder s" "sa_finished s"] assms
  have "t = frame (sa_decoder s) (sa_finished s) t" by simp
  then show ?thesis by (metis frame_simps(7,8))
qed

lemma payloads_decoder:
  "foldE (consume_payload loads) s ps = Inr t \<Longrightarrow> sa_decoder t = sa_decoder s \<and> sa_finished t = sa_finished s"
  by (induction ps arbitrary: s) (auto simp: succ_simps dest: consume_payload_decoder)

lemma frame_self: "frame (sa_decoder s) (sa_finished s) s = s"
  by (simp add: frame_def)

text \<open>What a run of payloads builds does not depend on the frame it starts in.\<close>

lemma builds_frame:
  "(\<exists>t. foldE (consume_payload loads) (frame d b s) ps = Inr t \<and> build_response t = Inr r) \<longleftrightarrow>
   (\<exists>t. foldE (consume_payload loads) s ps = Inr t \<and> build_response t = Inr r)" (is "?L = ?R")
proof
  assume ?L
  then obtain t where a: "foldE (consume_payload loads) (frame d b s) ps = Inr t" "build_response t = Inr r"
    by blast
  from payloads_frame [OF a(1), of "sa_decoder s" "sa_finished s"]
  have "foldE (consume_payload loads) s ps = Inr (frame (sa_decoder s) (sa_finished s) t)"
    by (simp add: frame_self)
  with a(2) show ?R by fastforce
next
  assume ?R
  then show ?L using payloads_frame by fastforce
qed

text \<open>
  A response is what the payloads of the decoded stream build, taken one after the other
  from the initial state.
\<close>

abbreviation rest_payloads :: "sse_decoder \<Rightarrow> string list \<Rightarrow> py_error + string list" where
  "rest_payloads d chunks \<equiv>
     bindE (sse_feed_all d chunks) (\<lambda>(es, d'). bindE (sse_close d') (\<lambda>(fs, _). Inr (es @ fs)))"

lemma rest_payloads_Cons:
  "rest_payloads d (c # cs) = Inr qs \<longleftrightarrow>
     (\<exists>es d' ps. sse_feed d c = Inr (es, d') \<and> rest_payloads d' cs = Inr ps \<and> qs = es @ ps)"
  by (fastforce simp: succ_simps)

lemma feeds_as_payloads:
  assumes "\<not> sa_finished s"
  shows "bindE (foldE (assembler_feed loads) s chunks) (assembler_finish loads) = Inr r \<longleftrightarrow>
    (\<exists>ps. rest_payloads (sa_decoder s) chunks = Inr ps \<and>
       (\<exists>t. foldE (consume_payload loads) s ps = Inr t \<and> build_response t = Inr r))"
  using assms
proof (induction chunks arbitrary: s)
  case Nil
  have "assembler_finish loads s = Inr r \<longleftrightarrow> (\<exists>es d. sse_close (sa_decoder s) = Inr (es, d) \<and>
      (\<exists>t. foldE (consume_payload loads) (frame d True s) es = Inr t \<and> build_response t = Inr r))"
    using Nil unfolding assembler_finish_Inr by blast
  then show ?case unfolding builds_frame by (auto simp: succ_simps)
next
  case (Cons c cs)
  have step: "bindE (foldE (assembler_feed loads) t cs) (assembler_finish loads) = Inr r \<longleftrightarrow>
       (\<exists>ps. rest_payloads d cs = Inr ps \<and>
         (\<exists>u. foldE (consume_payload loads) t ps = Inr u \<and> build_response u = Inr r))"
    if "foldE (consume_payload loads) (frame d False s) es = Inr t" for es d t
    using Cons.IH [of t] payloads_decoder [OF that] by simp
  have "bindE (foldE (assembler_feed loads) s (c # cs)) (assembler_finish loads) = Inr r \<longleftrightarrow>
    (\<exists>t. assembler_feed loads s c = Inr t \<and>
       bindE (foldE (assembler_feed loads) t cs) (assembler_finish loads) = Inr r)"
    by (auto simp: succ_simps)
  also have "\<dots> \<longleftrightarrow> (\<exists>es d t. sse_feed (sa_decoder s) c = Inr (es, d) \<and>
       foldE (consume_payload loads) (frame d False s) es = Inr t \<and>
       (\<exists>ps. rest_payloads d cs = Inr ps \<and>
         (\<exists>u. foldE (consume_payload loads) t ps = Inr u \<and> build_response u = Inr r)))"
    using Cons.prems step unfolding assembler_feed_Inr by meson
  also have "\<dots> \<longleftrightarrow> (\<exists>es d ps. sse_feed (sa_decoder s) c = Inr (es, d) \<and> rest_payloads d cs = Inr ps \<and>
       (\<exists>u. foldE (consume_payload loads) (frame d False s) (es @ ps) = Inr u \<and> build_response u = Inr r))"
    by (simp add: foldE_append succ_simps) blast
  also have "\<dots> \<longleftrightarrow> (\<exists>qs. rest_payloads (sa_decoder s) (c # cs) = Inr qs \<and>
       (\<exists>u. foldE (consume_payload loads) s qs = Inr u \<and> build_response u = Inr r))"
    unfolding builds_frame rest_payloads_Cons by blast
  finally show ?case .
qed

lemma assemble_iff:
  "assemble loads chunks = Inr r \<longleftrightarrow> (\<exists>ps. sse_reference (concat chunks) = Inr ps \<and>
     (\<exists>t. foldE (consume_payload loads) assembler_init ps = Inr t \<and> build_response t = Inr r))"
  using feeds_as_payloads [of assembler_init loads chunks r]
  by (simp add: assemble_def assembler_init_def sse_run_def flip: sse_run_reference)

end
