(* ===== verification/StreamResponse.thy ===== *)
theory StreamResponse
  imports StreamAssembler
begin

section \<open>What a streamed response guarantees\<close>

text \<open>
  The stream assembler as an event machine over the payloads: the invariant of its state,
  the part each delta contributes, and the properties of the response that
  \<open>assembler_finish\<close> builds from it.
\<close>

subsection \<open>The invariant of the assembler\<close>

definition assembler_ok :: "assembler \<Rightarrow> bool" where
  "assembler_ok s \<longleftrightarrow> distinct (map fst (sa_tool_calls s)) \<and> (\<forall>i \<in> fst ` set (sa_tool_calls s). 0 \<le> i) \<and>
     (\<forall>r. sa_finish_reason s = Some r \<longrightarrow> r \<in> finish_reasons) \<and>
     (\<forall>p c t. sa_usage s = Some (p, c, t) \<longrightarrow> 0 \<le> p \<and> 0 \<le> c \<and> 0 \<le> t)"

lemma assembler_init_ok: "assembler_ok assembler_init"
  by (simp add: assembler_ok_def assembler_init_def)

abbreviation parts_at :: "assembler \<Rightarrow> int \<Rightarrow> tool_call_parts" where
  "parts_at s i \<equiv> (case map_of (sa_tool_calls s) i of None \<Rightarrow> empty_parts | Some p \<Rightarrow> p)"

lemma consume_tool_delta_Inr:
  assumes "consume_tool_delta s v = Inr t"
  shows "\<exists>d i cid ty p'. as_dict v = Some d \<and> get d ''index'' = PInt i \<and> 0 \<le> i \<and>
     merge_function d ((parts_at s i)\<lparr>tp_id := cid, tp_type := ty\<rparr>) = Inr p' \<and>
     t = s\<lparr>sa_tool_calls := dict_set i p' (sa_tool_calls s)\<rparr>"
proof -
  obtain d i cid ty p' where "as_dict v = Some d" "get d ''index'' = PInt i" "\<not> i < 0"
     "merge_function d ((parts_at s i)\<lparr>tp_id := cid, tp_type := ty\<rparr>) = Inr p'"
     "t = s\<lparr>sa_tool_calls := dict_set i p' (sa_tool_calls s)\<rparr>"
    using assms by (auto simp: consume_tool_delta_def Let_def succ_simps)
  then show ?thesis by (intro exI conjI) simp_all
qed

lemma consume_tool_delta_ok:
  assumes "consume_tool_delta s v = Inr t" "assembler_ok s"
  shows "assembler_ok t"
proof -
  obtain i p' where "0 \<le> i" "t = s\<lparr>sa_tool_calls := dict_set i p' (sa_tool_calls s)\<rparr>"
    using consume_tool_delta_Inr [OF assms(1)] by blast
  with assms(2) show ?thesis
    by (auto simp: assembler_ok_def distinct_update dom_update simp flip: dom_map_of_conv_image_fst)
qed

interpretation tool_deltas: event_machine consume_tool_delta assembler_ok
  by unfold_locales (rule consume_tool_delta_ok)

text \<open>The string a delta adds to a text field.\<close>

definition delta_text :: "string \<Rightarrow> mapping \<Rightarrow> string" where
  "delta_text key d = (case get d key of PStr x \<Rightarrow> x | _ \<Rightarrow> [])"

lemma optional_text:
  "(if v \<noteq> PNone then bindE (need (as_str v) e) (\<lambda>x. Inr (f x)) else Inr s) = Inr t \<longleftrightarrow>
   v = PNone \<and> t = s \<or> (\<exists>x. v = PStr x \<and> t = f x)"
  by (cases v) auto

lemma delta_texts_Inr:
  assumes "delta_texts s d = Inr t"
  shows "\<exists>c r. t = s\<lparr>sa_content := c, sa_reasoning := r\<rparr> \<and>
     concat c = concat (sa_content s) @ delta_text ''content'' d \<and>
     concat r = concat (sa_reasoning s) @ delta_text ''reasoning_content'' d"
proof -
  obtain u where "get d ''reasoning_content'' = PNone \<and> u = s \<or>
      (\<exists>x. get d ''reasoning_content'' = PStr x \<and> u = s\<lparr>sa_reasoning := sa_reasoning s @ [x]\<rparr>)"
    "get d ''content'' = PNone \<and> t = u \<or>
      (\<exists>x. get d ''content'' = PStr x \<and> t = u\<lparr>sa_content := sa_content u @ [x]\<rparr>)"
    using assms unfolding delta_texts_def bindE_Inr_iff optional_text by blast
  then show ?thesis
    by (intro exI [of _ "sa_content t"] exI [of _ "sa_reasoning t"]) (auto simp: delta_text_def)
qed

lemma delta_texts_ok: "delta_texts s d = Inr t \<Longrightarrow> assembler_ok s \<Longrightarrow> assembler_ok t"
  using delta_texts_Inr [of s d t] by (auto simp: assembler_ok_def)

lemma consume_delta_ok: "consume_delta s d = Inr t \<Longrightarrow> assembler_ok s \<Longrightarrow> assembler_ok t"
  unfolding consume_delta_Inr using delta_texts_ok tool_deltas.run_keeps by blast

lemma consume_choice_ok:
  assumes "consume_choice s v = Inr t" "assembler_ok s"
  shows "assembler_ok t"
proof -
  obtain d s1 where s1: "consume_delta s d = Inr s1"
    and t: "t = s1 \<or> (\<exists>r \<in> finish_reasons. t = s1\<lparr>sa_finish_reason := Some r\<rparr>)"
    using assms(1) unfolding consume_choice_Inr by blast
  have "assembler_ok s1" by (rule consume_delta_ok [OF s1 assms(2)])
  with t show ?thesis by (auto simp: assembler_ok_def)
qed

lemma payload_usage_ok: "payload_usage s d = Inr t \<Longrightarrow> assembler_ok s \<Longrightarrow> assembler_ok t"
  by (auto simp: payload_usage_def parse_stream_usage_def stream_usage_field_def assembler_ok_def succ_simps
      split: if_splits)

lemma consume_payload_cases:
  assumes "consume_payload loads s p = Inr t"
  obtains (marker) "p = ''[DONE]''" "t = s\<lparr>sa_done := True\<rparr>"
    | (usage) d where "p \<noteq> ''[DONE]''" "loads p = Some (PDict d)" "payload_usage s d = Inr t"
        "get d ''choices'' = PList []"
    | (choice) d s1 c cs where "p \<noteq> ''[DONE]''" "loads p = Some (PDict d)" "payload_usage s d = Inr s1"
        "get d ''choices'' = PList (c # cs)" "consume_choice s1 c = Inr t"
proof -
  have dict: "as_dict v = Some d \<longleftrightarrow> v = PDict d" for v d by (cases v) auto
  show ?thesis using assms that unfolding consume_payload_Inr dict by blast
qed

lemma consume_payload_ok:
  assumes "assembler_ok s" "consume_payload loads s p = Inr t"
  shows "assembler_ok t"
  using assms(2)
proof (cases rule: consume_payload_cases)
  case marker
  with assms(1) show ?thesis by (simp add: assembler_ok_def)
next
  case usage
  with assms(1) payload_usage_ok show ?thesis by blast
next
  case choice
  with assms(1) payload_usage_ok consume_choice_ok show ?thesis by blast
qed

interpretation payloads: event_machine "consume_payload loads" assembler_ok for loads
  by unfold_locales (rule consume_payload_ok)

subsection \<open>What the deltas contribute\<close>

text \<open>The fragment of the arguments of call \<open>i\<close> in one tool-call delta, and in a whole delta.\<close>

definition call_fragment :: "int \<Rightarrow> pyval \<Rightarrow> string" where
  "call_fragment i v = (case as_dict v of None \<Rightarrow> [] | Some d \<Rightarrow>
     if get d ''index'' = PInt i then
       (case as_dict (get d ''function'') of None \<Rightarrow> [] | Some f \<Rightarrow> delta_text ''arguments'' f)
     else [])"

definition delta_fragments :: "int \<Rightarrow> mapping \<Rightarrow> string" where
  "delta_fragments i d = (case get d ''tool_calls'' of PList ds \<Rightarrow> concat (map (call_fragment i) ds) | _ \<Rightarrow> [])"

text \<open>The delta a payload carries: that of its first choice, none for \<open>[DONE]\<close> and usage reports.\<close>

definition payload_delta :: "(string \<Rightarrow> pyval option) \<Rightarrow> string \<Rightarrow> mapping" where
  "payload_delta loads p =
     (if p = ''[DONE]'' then [] else
      case loads p of Some (PDict d) \<Rightarrow>
        (case get d ''choices'' of PList (PDict c # _) \<Rightarrow>
           (case as_dict (get c ''delta'') of None \<Rightarrow> [] | Some delta \<Rightarrow> delta)
         | _ \<Rightarrow> [])
      | _ \<Rightarrow> [])"

lemma get_Nil [simp]: "get [] k = PNone"
  by (simp add: get_def get_or_def)

lemma contributes_nothing [simp]: "delta_text k [] = []" "delta_fragments i [] = []"
  by (simp_all add: delta_text_def delta_fragments_def)

lemma get_absent: "\<not> has_key d k \<Longrightarrow> get d k = PNone"
  by (simp add: has_key_def get_def get_or_def)

lemma as_dict_Some_iff [simp]: "as_dict v = Some d \<longleftrightarrow> v = PDict d"
  by (cases v) auto

lemma merge_function_arguments:
  assumes "merge_function d p = Inr p'"
  shows "tp_arguments p' = tp_arguments p @
    (case as_dict (get d ''function'') of None \<Rightarrow> [] | Some f \<Rightarrow> delta_text ''arguments'' f)"
proof (cases "has_key d ''function''")
  case False
  then show ?thesis using assms by (simp add: merge_function_def get_absent)
next
  case True
  then obtain f where f: "get d ''function'' = PDict f"
    using assms by (auto simp: merge_function_def succ_simps)
  show ?thesis
    by (cases "has_key f ''arguments''")
       (use assms True f in \<open>auto simp: merge_function_def succ_simps delta_text_def get_absent\<close>)
qed

abbreviation arguments_at :: "assembler \<Rightarrow> int \<Rightarrow> string" where
  "arguments_at s i \<equiv> tp_arguments (parts_at s i)"

lemma consume_tool_delta_arguments:
  assumes "consume_tool_delta s v = Inr t"
  shows "arguments_at t i = arguments_at s i @ call_fragment i v"
    and "sa_content t = sa_content s" "sa_reasoning t = sa_reasoning s"
  using consume_tool_delta_Inr [OF assms]
  by (auto simp: call_fragment_def dest!: merge_function_arguments)

lemma tool_deltas_arguments:
  "foldE consume_tool_delta s ds = Inr t \<Longrightarrow>
   arguments_at t i = arguments_at s i @ concat (map (call_fragment i) ds) \<and>
   sa_content t = sa_content s \<and> sa_reasoning t = sa_reasoning s"
proof (induction ds arbitrary: s)
  case (Cons v ds)
  then obtain u where u: "consume_tool_delta s v = Inr u" "foldE consume_tool_delta u ds = Inr t"
    by (auto simp: succ_simps)
  show ?case using Cons.IH [OF u(2)] consume_tool_delta_arguments [OF u(1)] by simp
qed simp

text \<open>A step adds what its delta says to each of the three texts.\<close>

definition adds :: "mapping \<Rightarrow> assembler \<Rightarrow> assembler \<Rightarrow> bool" where
  "adds d s t \<longleftrightarrow> concat (sa_content t) = concat (sa_content s) @ delta_text ''content'' d \<and>
     concat (sa_reasoning t) = concat (sa_reasoning s) @ delta_text ''reasoning_content'' d \<and>
     (\<forall>i. arguments_at t i = arguments_at s i @ delta_fragments i d)"

lemma consume_delta_adds:
  assumes "consume_delta s d = Inr t"
  shows "adds d s t"
proof -
  obtain u where u: "delta_texts s d = Inr u"
    and t: "\<not> has_key d ''tool_calls'' \<and> t = u \<or> (\<exists>ds. get d ''tool_calls'' = PList ds \<and>
        foldE consume_tool_delta u ds = Inr t)"
    using assms unfolding consume_delta_Inr by blast
  have "concat (sa_content u) = concat (sa_content s) @ delta_text ''content'' d"
    "concat (sa_reasoning u) = concat (sa_reasoning s) @ delta_text ''reasoning_content'' d"
    "sa_tool_calls u = sa_tool_calls s"
    using delta_texts_Inr [OF u] by auto
  with t show ?thesis
    by (auto simp: adds_def delta_fragments_def get_absent dest: tool_deltas_arguments)
qed

lemma consume_choice_adds:
  assumes "consume_choice s v = Inr t"
  shows "\<exists>c d. v = PDict c \<and> get c ''delta'' = PDict d \<and> adds d s t"
proof -
  obtain c d u where c: "v = PDict c" "get c ''delta'' = PDict d" "consume_delta s d = Inr u"
    and "t = u \<or> (\<exists>r. t = u\<lparr>sa_finish_reason := Some r\<rparr>)"
    using assms unfolding consume_choice_Inr by auto
  with consume_delta_adds [OF c(3)] have "adds d s t" by (auto simp: adds_def)
  with c show ?thesis by blast
qed

lemma payload_usage_same: "payload_usage s d = Inr t \<Longrightarrow> t = s\<lparr>sa_usage := sa_usage t\<rparr>"
  by (auto simp: payload_usage_def succ_simps split: if_splits)

lemma consume_payload_adds:
  assumes "consume_payload loads s p = Inr t"
  shows "adds (payload_delta loads p) s t"
  using assms
proof (cases rule: consume_payload_cases)
  case marker
  then show ?thesis by (simp add: adds_def payload_delta_def)
next
  case (usage d)
  obtain u where "t = s\<lparr>sa_usage := u\<rparr>" using payload_usage_same [OF usage(3)] by blast
  with usage(1,2,4) show ?thesis by (simp add: adds_def payload_delta_def)
next
  case (choice d s1 c cs)
  obtain u where "s1 = s\<lparr>sa_usage := u\<rparr>" using payload_usage_same [OF choice(3)] by blast
  with consume_choice_adds [OF choice(5)] choice(1,2,4) show ?thesis by (auto simp: adds_def payload_delta_def)
qed

lemma payloads_add:
  "foldE (consume_payload loads) s ps = Inr t \<Longrightarrow>
   concat (sa_content t) = concat (sa_content s) @ concat (map (\<lambda>p. delta_text ''content'' (payload_delta loads p)) ps) \<and>
   concat (sa_reasoning t) =
      concat (sa_reasoning s) @ concat (map (\<lambda>p. delta_text ''reasoning_content'' (payload_delta loads p)) ps) \<and>
   arguments_at t i = arguments_at s i @ concat (map (\<lambda>p. delta_fragments i (payload_delta loads p)) ps)"
proof (induction ps arbitrary: s)
  case (Cons p ps)
  then obtain u where u: "consume_payload loads s p = Inr u" "foldE (consume_payload loads) u ps = Inr t"
    by (auto simp: succ_simps)
  have "adds (payload_delta loads p) s u" by (rule consume_payload_adds [OF u(1)])
  with Cons.IH [OF u(2)] show ?case by (simp add: adds_def)
qed simp

subsection \<open>The response\<close>

lemma sampled_call_Inr:
  "sampled_call (i, p) = Inr c \<longleftrightarrow> (\<exists>cid nm. tp_id p = Some cid \<and> cid \<noteq> [] \<and> tp_type p = Some ''function'' \<and>
     tp_name p = Some nm \<and> nm \<noteq> [] \<and> tp_saw_arguments p \<and>
     c = \<lparr>sc_index = i, sc_id = cid, sc_type = ''function'', sc_name = nm, sc_arguments = tp_arguments p\<rparr>)"
  by (auto simp: sampled_call_def succ_simps)

lemma build_response_Inr:
  assumes "build_response s = Inr r"
  obtains reason where "sa_finish_reason s = Some reason" "sr_finish_reason r = reason" "sa_done s"
    "sr_content r = concat (sa_content s)" "sr_reasoning r = concat (sa_reasoning s)" "sr_usage r = sa_usage s"
    "cut_short reason \<Longrightarrow> sr_tool_calls r = []"
    "\<not> cut_short reason \<Longrightarrow> mapE sampled_call (sort_key fst (sa_tool_calls s)) = Inr (sr_tool_calls r)"
    "reason \<in> {''stop'', ''tool_calls''} \<Longrightarrow> sr_content r \<noteq> [] \<or> sr_tool_calls r \<noteq> []"
    "reason = ''tool_calls'' \<Longrightarrow> sr_tool_calls r \<noteq> []"
proof -
  obtain reason where reason: "sa_done s" "sa_finish_reason s = Some reason"
    using assms by (auto simp: build_response_def succ_simps)
  show ?thesis
  proof (cases "cut_short reason")
    case True
    then have "reason \<notin> {''stop'', ''tool_calls''}" by (auto simp: cut_short_def)
    moreover have "r = \<lparr>sr_content = concat (sa_content s), sr_reasoning = concat (sa_reasoning s),
        sr_tool_calls = [], sr_finish_reason = reason, sr_usage = sa_usage s\<rparr>"
      using True reason assms by (simp add: build_response_def Let_def)
    ultimately show ?thesis using reason True by (intro that [of reason]) auto
  next
    case False
    then obtain calls where "mapE sampled_call (sort_key fst (sa_tool_calls s)) = Inr calls"
      using reason assms by (auto simp: build_response_def Let_def succ_simps)
    moreover from this have "\<not> (reason \<in> {''stop'', ''tool_calls''} \<and> concat (sa_content s) = [] \<and> calls = [])"
      "\<not> (reason = ''tool_calls'' \<and> calls = [])"
      "r = \<lparr>sr_content = concat (sa_content s), sr_reasoning = concat (sa_reasoning s),
        sr_tool_calls = calls, sr_finish_reason = reason, sr_usage = sa_usage s\<rparr>"
      using False reason assms by (simp_all add: build_response_def Let_def succ_simps del: insert_iff)
    ultimately show ?thesis using reason False by (intro that [of reason]) auto
  qed
qed

lemma sampled_calls_index:
  assumes "mapE sampled_call ps = Inr cs"
  shows "map sc_index cs = map fst ps"
    and "c \<in> set cs \<Longrightarrow> \<exists>p. (sc_index c, p) \<in> set ps \<and> sampled_call (sc_index c, p) = Inr c"
proof -
  have one: "sc_index c = fst ip" if "sampled_call ip = Inr c" for ip c
    using that by (cases ip) (auto simp: sampled_call_Inr)
  have all2: "list_all2 (\<lambda>ip c. sampled_call ip = Inr c) ps cs" using assms by (simp only: mapE_Inr_iff)
  show "map sc_index cs = map fst ps"
    by (rule nth_equalityI) (use all2 one in \<open>auto simp: list_all2_conv_all_nth\<close>)
  show "\<exists>p. (sc_index c, p) \<in> set ps \<and> sampled_call (sc_index c, p) = Inr c" if c: "c \<in> set cs"
  proof -
    obtain k where k: "k < length cs" "cs ! k = c" using c by (auto simp: in_set_conv_nth)
    then have "ps ! k \<in> set ps" "sampled_call (ps ! k) = Inr c"
      using all2 by (auto simp: list_all2_conv_all_nth)
    moreover have "ps ! k = (sc_index c, snd (ps ! k))" using one [OF calculation(2)] by simp
    ultimately show ?thesis by metis
  qed
qed

lemma assemble_run:
  assumes "assemble loads chunks = Inr r"
  obtains ps s where "sse_reference (concat chunks) = Inr ps"
    "foldE (consume_payload loads) assembler_init ps = Inr s" "build_response s = Inr r" "assembler_ok s"
  using assms payloads.run_keeps [OF _ assembler_init_ok] unfolding assemble_iff by blast

lemma built_calls:
  assumes ok: "assembler_ok s" and r: "build_response s = Inr r"
  shows "sorted_wrt (<) (map sc_index (sr_tool_calls r))"
    and "c \<in> set (sr_tool_calls r) \<Longrightarrow> 0 \<le> sc_index c \<and> sc_id c \<noteq> [] \<and> sc_type c = ''function'' \<and>
      sc_name c \<noteq> [] \<and> sc_arguments c = arguments_at s (sc_index c)"
proof -
  consider "sr_tool_calls r = []" | "mapE sampled_call (sort_key fst (sa_tool_calls s)) = Inr (sr_tool_calls r)"
    using r by (rule build_response_Inr) blast
  then have "sorted_wrt (<) (map sc_index (sr_tool_calls r)) \<and> (c \<in> set (sr_tool_calls r) \<longrightarrow>
      0 \<le> sc_index c \<and> sc_id c \<noteq> [] \<and> sc_type c = ''function'' \<and>
      sc_name c \<noteq> [] \<and> sc_arguments c = arguments_at s (sc_index c))"
  proof cases
    case 1 then show ?thesis by simp
  next
    case 2
    have d: "distinct (map fst (sa_tool_calls s))" using ok by (simp add: assembler_ok_def)
    have "distinct (map fst (sort_key fst (sa_tool_calls s)))"
      using d by (simp add: distinct_map)
    then have "sorted_wrt (<) (map sc_index (sr_tool_calls r))"
      unfolding sampled_calls_index(1) [OF 2] strict_sorted_iff by simp
    moreover have "0 \<le> sc_index c \<and> sc_id c \<noteq> [] \<and> sc_type c = ''function'' \<and>
        sc_name c \<noteq> [] \<and> sc_arguments c = arguments_at s (sc_index c)" if c: "c \<in> set (sr_tool_calls r)"
    proof -
      obtain p where p: "(sc_index c, p) \<in> set (sa_tool_calls s)" "sampled_call (sc_index c, p) = Inr c"
        using sampled_calls_index(2) [OF 2 c] by auto
      then have "map_of (sa_tool_calls s) (sc_index c) = Some p" using d by simp
      moreover have "0 \<le> sc_index c" using p(1) ok by (force simp: assembler_ok_def)
      moreover have "c = \<lparr>sc_index = sc_index c, sc_id = sc_id c, sc_type = ''function'', sc_name = sc_name c,
          sc_arguments = tp_arguments p\<rparr>" "sc_id c \<noteq> []" "sc_name c \<noteq> []"
        using p(2) unfolding sampled_call_Inr by (metis sampled_tool_call.select_convs(2,4))+
      ultimately show ?thesis by (metis option.simps(5) sampled_tool_call.select_convs(3,5))
    qed
    ultimately show ?thesis by blast
  qed
  then show "sorted_wrt (<) (map sc_index (sr_tool_calls r))"
    "c \<in> set (sr_tool_calls r) \<Longrightarrow> 0 \<le> sc_index c \<and> sc_id c \<noteq> [] \<and> sc_type c = ''function'' \<and>
      sc_name c \<noteq> [] \<and> sc_arguments c = arguments_at s (sc_index c)" by blast+
qed

text \<open>A stream with two tool-call fragments, cut in the middle of a line end.\<close>

definition demo_loads :: "string \<Rightarrow> pyval option" where
  "demo_loads = map_of
     [(''A'', PDict [(''choices'', PList [PDict [(''index'', PInt 0), (''finish_reason'', PNone),
         (''delta'', PDict [(''content'', PStr ''Hi''), (''tool_calls'', PList [PDict [(''index'', PInt 3),
            (''id'', PStr ''c1''), (''type'', PStr ''function''),
            (''function'', PDict [(''name'', PStr ''grep''), (''arguments'', PStr ''{'')])]])])]])]),
      (''B'', PDict [(''choices'', PList [PDict [(''index'', PInt 0), (''finish_reason'', PStr ''tool_calls''),
         (''delta'', PDict [(''tool_calls'', PList [PDict [(''index'', PInt 3),
            (''function'', PDict [(''arguments'', PStr ''}'')])]])])]])]),
      (''U'', PDict [(''choices'', PList []), (''usage'', PDict [(''prompt_tokens'', PInt 5),
         (''completion_tokens'', PInt 2), (''total_tokens'', PInt 7)])])]"

definition demo_stream :: "string list" where
  "demo_stream = [''data: A'' @ [cr], [lf] @ [cr, lf] @ ''da'', ''ta: B'' @ [lf, lf],
     ''data: U'' @ [lf, lf] @ ''data: [DONE]'' @ [lf, lf]]"

definition demo_response :: stream_response where
  "demo_response = \<lparr>sr_content = ''Hi'', sr_reasoning = [],
     sr_tool_calls = [\<lparr>sc_index = 3, sc_id = ''c1'', sc_type = ''function'', sc_name = ''grep'', sc_arguments = ''{}''\<rparr>],
     sr_finish_reason = ''tool_calls'', sr_usage = Some (5, 2, 7)\<rparr>"

lemma demo_assembled: "assemble demo_loads demo_stream = Inr demo_response"
  by code_simp

text \<open>
  C30. The response does not depend on how the network cut the stream: chunked input is
  assembled into a response exactly when the whole stream is, and into the same one.
\<close>

theorem assemble_chunking:
  "assemble loads chunks = Inr r \<longleftrightarrow> assemble loads [concat chunks] = Inr r"
  unfolding assemble_iff by simp

text \<open>
  C31. Every assembled response is well formed: its finish reason is a known one, its tool
  calls have strictly increasing non-negative indices, non-empty ids and function names; a
  response that was cut short carries no tool call, a \<open>tool_calls\<close> response carries one, a
  \<open>stop\<close> response is not empty, and reported token counts are non-negative.
\<close>

theorem response_well_formed:
  assumes "assemble loads chunks = Inr r"
  shows "sr_finish_reason r \<in> finish_reasons \<and>
    sorted_wrt (<) (map sc_index (sr_tool_calls r)) \<and>
    (\<forall>c \<in> set (sr_tool_calls r). 0 \<le> sc_index c \<and> sc_id c \<noteq> [] \<and> sc_type c = ''function'' \<and> sc_name c \<noteq> []) \<and>
    (cut_short (sr_finish_reason r) \<longrightarrow> sr_tool_calls r = []) \<and>
    (sr_finish_reason r = ''tool_calls'' \<longrightarrow> sr_tool_calls r \<noteq> []) \<and>
    (sr_finish_reason r = ''stop'' \<longrightarrow> sr_content r \<noteq> [] \<or> sr_tool_calls r \<noteq> []) \<and>
    (\<forall>p c t. sr_usage r = Some (p, c, t) \<longrightarrow> 0 \<le> p \<and> 0 \<le> c \<and> 0 \<le> t)"
proof -
  obtain s where r: "build_response s = Inr r" and ok: "assembler_ok s"
    using assms by (rule assemble_run)
  have shape: "sr_finish_reason r \<in> finish_reasons" "cut_short (sr_finish_reason r) \<longrightarrow> sr_tool_calls r = []"
    "sr_finish_reason r = ''tool_calls'' \<longrightarrow> sr_tool_calls r \<noteq> []"
    "sr_finish_reason r = ''stop'' \<longrightarrow> sr_content r \<noteq> [] \<or> sr_tool_calls r \<noteq> []"
    "sr_usage r = sa_usage s"
    using r by (rule build_response_Inr, use ok in \<open>simp add: assembler_ok_def\<close>)+
  have "\<forall>p c t. sr_usage r = Some (p, c, t) \<longrightarrow> 0 \<le> p \<and> 0 \<le> c \<and> 0 \<le> t"
    using ok shape(5) by (simp add: assembler_ok_def)
  with shape(1-4) built_calls [OF ok r] show ?thesis by (intro conjI) blast+
qed

lemma response_well_formed_witness:
  "sr_tool_calls demo_response \<noteq> [] \<and> \<not> cut_short (sr_finish_reason demo_response)"
  using response_well_formed [OF demo_assembled] by (auto simp: demo_response_def)

text \<open>
  C32. Nothing is lost, duplicated or reordered: the content and the reasoning of the
  response are the concatenation of the text deltas of the decoded payloads, and the
  arguments of every tool call are the concatenation of the argument fragments that carried
  its index.
\<close>

theorem response_is_the_deltas:
  assumes "assemble loads chunks = Inr r"
  shows "\<exists>ps. sse_reference (concat chunks) = Inr ps \<and>
    sr_content r = concat (map (\<lambda>p. delta_text ''content'' (payload_delta loads p)) ps) \<and>
    sr_reasoning r = concat (map (\<lambda>p. delta_text ''reasoning_content'' (payload_delta loads p)) ps) \<and>
    (\<forall>c \<in> set (sr_tool_calls r).
       sc_arguments c = concat (map (\<lambda>p. delta_fragments (sc_index c) (payload_delta loads p)) ps))"
proof -
  obtain ps s where ps: "sse_reference (concat chunks) = Inr ps"
    and run: "foldE (consume_payload loads) assembler_init ps = Inr s"
    and r: "build_response s = Inr r" and ok: "assembler_ok s"
    using assms by (rule assemble_run)
  have "sr_content r = concat (sa_content s)" "sr_reasoning r = concat (sa_reasoning s)"
    using r by (rule build_response_Inr, simp)+
  with ps payloads_add [OF run] built_calls(2) [OF ok r] show ?thesis
    by (intro exI [of _ ps]) (simp add: assembler_init_def empty_parts_def)
qed

lemma response_is_the_deltas_witness:
  "\<exists>ps. sse_reference (concat demo_stream) = Inr ps \<and>
    concat (map (\<lambda>p. delta_fragments 3 (payload_delta demo_loads p)) ps) = ''{}''"
  using response_is_the_deltas [OF demo_assembled] by (auto simp: demo_response_def)

end
