(* ===== verification/Projection.thy ===== *)
theory Projection
  imports PyJson Conversation ReducerProps
begin

section \<open>Projecting session facts into a prompt (projection.py)\<close>

text \<open>
  \<open>PromptProjector.project\<close> turns the events of a session and the live environment into the
  messages of the next request: a system message, the replacement conversation of the latest
  checkpoint, and one message per later user input, assistant reply and tool result. The
  rest of the theory estimates the size of that request. A \<open>datetime.date\<close> in the environment
  is represented by its \<open>isoformat()\<close> text.
\<close>

subsection \<open>The environment\<close>

record projection_environment =
  pe_cwd :: string
  pe_platform :: string
  pe_date :: string
  pe_is_git :: bool

datatype environment_value = Environment projection_environment | EnvironmentFields pyval

definition env_text :: "pyval \<Rightarrow> string \<Rightarrow> py_error + string" where
  "env_text v msg =
     bindE (need (as_str v) (ProjectionError msg)) (\<lambda>s. raise_if (s = []) (ProjectionError msg) (Inr s))"

text \<open>\<open>ProjectionEnvironment.__post_init__\<close>\<close>

definition mk_environment :: "pyval \<Rightarrow> pyval \<Rightarrow> pyval \<Rightarrow> pyval \<Rightarrow> py_error + projection_environment" where
  "mk_environment cwd platform date is_git =
     bindE (env_text cwd ''environment cwd must be a non-empty string'') (\<lambda>c.
     bindE (env_text platform ''environment platform must be a non-empty string'') (\<lambda>p.
     bindE (env_text date ''environment date must be a non-empty string'') (\<lambda>d.
     bindE (need (as_bool is_git) (ProjectionError ''environment is_git must be a boolean'')) (\<lambda>g.
     Inr \<lparr>pe_cwd = c, pe_platform = p, pe_date = d, pe_is_git = g\<rparr>))))"

definition environment_fields :: "string set" where
  "environment_fields = {''cwd'', ''platform'', ''date'', ''is_git''}"

definition environment :: "environment_value \<Rightarrow> py_error + projection_environment" where
  "environment value = (case value of
     Environment e \<Rightarrow> Inr e
   | EnvironmentFields v \<Rightarrow>
       bindE (need (as_map v) (ProjectionError ''environment must be a ProjectionEnvironment or exact field mapping'')) (\<lambda>d.
       raise_if (fields_of d \<noteq> environment_fields) (ProjectionError ''environment fields mismatch'') (
       mk_environment (get d ''cwd'') (get d ''platform'') (get d ''date'') (get d ''is_git''))))"

subsection \<open>The call tracker\<close>

record call_occurrence =
  co_call_key :: string
  co_provider_call_id :: string

record call_tracker =
  ct_by_key :: "call_occurrence dict"
  ct_by_provider_id :: "call_occurrence dict"

definition tracker_init :: call_tracker where
  "tracker_init = \<lparr>ct_by_key = [], ct_by_provider_id = []\<rparr>"

definition add_assistant_call :: "int \<Rightarrow> call_tracker \<Rightarrow> string \<Rightarrow> py_error + call_tracker" where
  "add_assistant_call seq t call_id =
     raise_if (has_key (ct_by_provider_id t) call_id) (ProjectionError ''tool call ID is already unresolved'') (
     let occurrence = \<lparr>co_call_key = call_key_of seq call_id, co_provider_call_id = call_id\<rparr> in
     Inr (t\<lparr>ct_by_key := dict_set (co_call_key occurrence) occurrence (ct_by_key t),
            ct_by_provider_id := dict_set call_id occurrence (ct_by_provider_id t)\<rparr>))"

text \<open>The calls are normalised, so every \<open>id\<close> is there.\<close>

definition add_assistant_calls :: "int \<Rightarrow> call_tracker \<Rightarrow> string list \<Rightarrow> py_error + call_tracker" where
  "add_assistant_calls seq t call_ids = foldE (add_assistant_call seq) t call_ids"

definition tracker_resolve :: "call_tracker \<Rightarrow> mapping \<Rightarrow> py_error + call_occurrence" where
  "tracker_resolve t payload =
     (let call_key = get payload ''call_key''; provider_call_id = get payload ''call_id'' in
      if call_key \<noteq> PNone then
        bindE (env_text call_key ''tool event call_key must be a non-empty string'') (\<lambda>k.
        bindE (need (map_of (ct_by_key t) k) (ProjectionError ''tool event has no active call'')) (\<lambda>occurrence.
        raise_if (provider_call_id \<noteq> PNone \<and> provider_call_id \<noteq> PStr (co_provider_call_id occurrence))
          (ProjectionError ''tool event call_key and call_id identify different calls'') (Inr occurrence)))
      else
        bindE (env_text provider_call_id ''tool event must identify a provider call ID or call_key'') (\<lambda>i.
        need (map_of (ct_by_provider_id t) i) (ProjectionError ''tool event has no active call ID'')))"

definition dict_pop :: "string \<Rightarrow> 'v dict \<Rightarrow> 'v dict" where
  "dict_pop k d = AList.delete k d"

definition tracker_close :: "call_tracker \<Rightarrow> call_occurrence \<Rightarrow> call_tracker" where
  "tracker_close t occurrence =
     t\<lparr>ct_by_key := dict_pop (co_call_key occurrence) (ct_by_key t),
       ct_by_provider_id := dict_pop (co_provider_call_id occurrence) (ct_by_provider_id t)\<rparr>"

subsection \<open>Messages\<close>

fun plain_json :: "pyval \<Rightarrow> pyval" where
  "plain_json (PDict kvs) = PDict (map (\<lambda>kv. (fst kv, plain_json (snd kv))) kvs)"
| "plain_json (PProxy kvs) = PDict (map (\<lambda>kv. (fst kv, plain_json (snd kv))) kvs)"
| "plain_json (PTuple vs) = PList (map plain_json vs)"
| "plain_json (PList vs) = PList (map plain_json vs)"
| "plain_json v = v"

definition plan_mode_policy :: string where
  "plan_mode_policy = ''Plan mode is active. First research the task using read-only tools (read_file, list_dir, grep) and present a concrete plan. Do not modify files or run state-changing commands until the plan is approved: the runtime will refuse write_file, edit_file, and bash while plan mode is active. Call exit_plan_mode with the complete plan to request approval.''"

definition system_preamble :: string where
  "system_preamble = ''You are a coding assistant. You propose tool calls; the local MCA runtime validates and executes them. Do not claim that you executed a tool yourself. Never reveal or persist secrets.'' @ [CHR 0x0A] @ ''Current live environment (supplied for this request, not recovered from the rollout): ''"

definition system_message :: "projection_environment \<Rightarrow> string option \<Rightarrow> bool \<Rightarrow> py_error + pyval" where
  "system_message env checkpoint_summary plan_mode_active =
     bindE (dumps (PDict [(''cwd'', PStr (pe_cwd env)), (''platform'', PStr (pe_platform env)),
              (''date'', PStr (pe_date env)), (''is_git'', PBool (pe_is_git env))])) (\<lambda>live.
     let content = system_preamble @ live;
         content = (if plan_mode_active then content @ [CHR 0x0A] @ plan_mode_policy else content);
         content = (case checkpoint_summary of None \<Rightarrow> content | Some s \<Rightarrow>
           if s = [] then content
           else content @ [CHR 0x0A] @ ''Compacted conversation summary:'' @ [CHR 0x0A] @ s)
     in Inr (PDict [(''role'', PStr ''system''), (''content'', PStr content)]))"

definition normalize_tool_call :: "pyval \<Rightarrow> py_error + (string \<times> pyval)" where
  "normalize_tool_call document =
     bindE (need (as_map document) (ProjectionError ''assistant tool call must be an object'')) (\<lambda>doc.
     bindE (env_text (get_or doc ''id'' (get doc ''call_id''))
       ''assistant tool call id must be a non-empty string'') (\<lambda>call_id.
     raise_if (get_or doc ''type'' (PStr ''function'') \<noteq> PStr ''function'')
       (ProjectionError ''only function tool calls can be projected'') (
     bindE (if get doc ''function'' \<noteq> PNone then
         bindE (need (as_map (get doc ''function'')) (ProjectionError ''assistant tool function must be an object'')) (\<lambda>f.
         Inr (get f ''name'', get f ''arguments''))
       else Inr (get doc ''name'', get doc ''arguments'')) (\<lambda>(raw_name, raw_arguments).
     bindE (env_text raw_name ''assistant tool name must be a non-empty string'') (\<lambda>name.
     bindE (case raw_arguments of
         PStr a \<Rightarrow> Inr a
       | _ \<Rightarrow> reraise (\<lambda>_. ProjectionError ''assistant tool arguments must be JSON-compatible'')
                (dumps (plain_json raw_arguments))) (\<lambda>arguments.
     Inr (call_id, PDict [(''id'', PStr call_id), (''type'', PStr ''function''),
        (''function'', PDict [(''name'', PStr name), (''arguments'', PStr arguments)])])))))))"

definition assistant_message :: "event \<Rightarrow> py_error + (string list \<times> pyval)" where
  "assistant_message ev =
     (let payload = ev_payload ev; content = get payload ''content'' in
     raise_if (content \<noteq> PNone \<and> as_str content = None)
       (ProjectionError ''assistant content must be a string or null'') (
     raise_if (has_key payload ''reasoning_content'' \<and> as_str (get payload ''reasoning_content'') = None)
       (ProjectionError ''assistant reasoning_content must be a string'') (
     bindE (need (as_seq (get_or payload ''tool_calls'' (PTuple [])))
       (ProjectionError ''assistant tool_calls must be an array'')) (\<lambda>raw_calls.
     bindE (mapE normalize_tool_call raw_calls) (\<lambda>calls.
     raise_if (content = PNone \<and> calls = [])
       (ProjectionError ''assistant fact must contain text or at least one tool call'') (
     Inr (map fst calls, PDict
       ([(''role'', PStr ''assistant''), (''content'', content)] @
        (if has_key payload ''reasoning_content''
         then [(''reasoning_content'', get payload ''reasoning_content'')] else []) @
        (if calls \<noteq> [] then [(''tool_calls'', PList (map snd calls))] else [])))))))))"

definition status_alias :: "pyval \<Rightarrow> pyval" where
  "status_alias v =
     (if v = PStr ''success'' then PStr ''succeeded''
      else if v = PStr ''timeout'' then PStr ''timed_out'' else v)"

definition tool_message :: "call_occurrence \<Rightarrow> string \<Rightarrow> pyval" where
  "tool_message occurrence content = PDict
     [(''role'', PStr ''tool''), (''tool_call_id'', PStr (co_provider_call_id occurrence)), (''content'', PStr content)]"

definition tool_result_message :: "event \<Rightarrow> call_occurrence \<Rightarrow> py_error + pyval option" where
  "tool_result_message ev occurrence =
     bindE (need (Option.bind (as_str (status_alias (get (ev_payload ev) ''status''))) tool_status_of)
       (ProjectionError ''unknown projected tool status'')) (\<lambda>status.
     if status = OutcomeUnknown then Inr None
     else
       raise_if (status \<in> {Requested, Started})
         (ProjectionError ''tool_finished does not contain a terminal result'') (
       bindE (if get (ev_payload ev) ''result'' = PNone then Inr []
         else need (as_str (get (ev_payload ev) ''result''))
           (ProjectionError ''tool result content must be a string or null'')) (\<lambda>result.
       Inr (Some (tool_message occurrence result)))))"

definition reconciliation_descriptions :: "string dict" where
  "reconciliation_descriptions =
     [(''succeeded'', ''User confirmed after recovery that the tool succeeded.''),
      (''user_confirmed_success'', ''User confirmed after recovery that the tool succeeded.''),
      (''failed'', ''User confirmed after recovery that the tool failed.''),
      (''user_confirmed_failure'', ''User confirmed after recovery that the tool failed.''),
      (''abandoned'', ''User abandoned the uncertain tool call after recovery.'')]"

definition reconciled_result_message :: "event \<Rightarrow> call_occurrence \<Rightarrow> py_error + pyval" where
  "reconciled_result_message ev occurrence =
     (let outcome = get (ev_payload ev) ''outcome'' in
     raise_if (\<not> hashable outcome) (TypeError ''unhashable type'') (
     bindE (need (Option.bind (as_str outcome) (map_of reconciliation_descriptions))
       (ProjectionError ''unknown reconciliation outcome'')) (\<lambda>content.
     bindE (need (as_str (get_or (ev_payload ev) ''note'' (PStr [])))
       (ProjectionError ''reconciliation note must be a string'')) (\<lambda>note.
     Inr (tool_message occurrence (if note \<noteq> [] then content @ '' Note: '' @ note else content))))))"

text \<open>One event: the message it projects to, if any, and the tracker after it.\<close>

definition project_event :: "event \<Rightarrow> call_tracker \<Rightarrow> py_error + (pyval option \<times> call_tracker)" where
  "project_event ev t =
     (let payload = ev_payload ev in
      if ev_type ev = ''turn_started'' then
        bindE (need (as_str (get_or payload ''user_input'' (get_or payload ''input'' (PStr []))))
          (ProjectionError ''turn input must be a string'')) (\<lambda>user_input.
        Inr (Some (PDict [(''role'', PStr ''user''), (''content'', PStr user_input)]), t))
      else if ev_type ev = ''assistant_accepted'' then
        bindE (assistant_message ev) (\<lambda>(ids, message).
        bindE (add_assistant_calls (ev_seq ev) t ids) (\<lambda>t'. Inr (Some message, t')))
      else if ev_type ev = ''tool_finished'' then
        (if get payload ''origin'' = PStr ''code'' then Inr (None, t)
         else
           bindE (tracker_resolve t payload) (\<lambda>occurrence.
           bindE (tool_result_message ev occurrence) (\<lambda>message.
           Inr (message, if message \<noteq> None then tracker_close t occurrence else t))))
      else if ev_type ev = ''tool_reconciled'' then
        (if get payload ''origin'' = PStr ''code'' then Inr (None, t)
         else
           bindE (tracker_resolve t payload) (\<lambda>occurrence.
           bindE (reconciled_result_message ev occurrence) (\<lambda>message.
           Inr (Some message, tracker_close t occurrence))))
      else Inr (None, t))"

text \<open>The loop over all events; only those after \<open>through_seq\<close> contribute messages.\<close>

fun project_events :: "int \<Rightarrow> call_tracker \<Rightarrow> event list \<Rightarrow> py_error + pyval list" where
  "project_events through_seq t [] = Inr []"
| "project_events through_seq t (ev # evs) =
     bindE (project_event ev t) (\<lambda>(message, t').
     bindE (project_events through_seq t' evs) (\<lambda>rest.
     Inr (case message of None \<Rightarrow> rest | Some m \<Rightarrow> if ev_seq ev > through_seq then m # rest else rest)))"

definition latest_checkpoint :: "event list \<Rightarrow> event option" where
  "latest_checkpoint events = fold (\<lambda>ev c. if ev_type ev = ''compaction_checkpoint'' then Some ev else c) events None"

text \<open>\<open>through_seq\<close>, the summary and the baseline messages the latest checkpoint gives.\<close>

definition checkpoint_baseline :: "event option \<Rightarrow> py_error + (int \<times> string option \<times> pyval list)" where
  "checkpoint_baseline checkpoint = (case checkpoint of
     None \<Rightarrow> Inr (0, None, [])
   | Some ev \<Rightarrow>
       bindE (need (as_int (get (ev_payload ev) ''through_seq''))
         (ProjectionError ''checkpoint through_seq must reference an earlier event'')) (\<lambda>through_seq.
       raise_if (through_seq < 0 \<or> through_seq \<ge> ev_seq ev)
         (ProjectionError ''checkpoint through_seq must reference an earlier event'') (
       bindE (need (as_str (get (ev_payload ev) ''summary''))
         (ProjectionError ''checkpoint summary must be a string'')) (\<lambda>summary.
       bindE (need (as_seq (get (ev_payload ev) ''replacement_conversation''))
         (ProjectionError ''checkpoint replacement_conversation must be an array'')) (\<lambda>replacement.
       Inr (through_seq, Some summary, map plain_json replacement))))))"

text \<open>The checks on the state before anything is projected.\<close>

definition projectable :: "session_state \<Rightarrow> py_error + unit" where
  "projectable state =
     raise_if (st_pending_recovery_intent state \<noteq> None)
       (ProjectionBlockedError ''session has a pending recovery intent'') (
     raise_if (st_recovery_blocked state \<or> (\<exists>c \<in> set (vals (st_tool_calls state)). tc_status c = OutcomeUnknown))
       (ProjectionBlockedError ''session recovery is blocked by an unknown tool outcome'') (
     raise_if (\<exists>c \<in> set (vals (st_tool_calls state)). tc_status c \<in> {Requested, Started})
       (ProjectionError ''cannot project unresolved tool calls'') (Inr ())))"

definition as_projection_error :: "py_error \<Rightarrow> py_error" where
  "as_projection_error e = (case e of DomainError m \<Rightarrow> ProjectionError ''invalid rollout facts'' | _ \<Rightarrow> e)"

definition project :: "event list \<Rightarrow> session_state \<Rightarrow> environment_value \<Rightarrow> py_error + pyval list" where
  "project events state env =
     bindE (reraise as_projection_error (replay events)) (\<lambda>replayed.
     raise_if (replayed \<noteq> state) (ProjectionError ''state does not match the supplied rollout facts'') (
     bindE (projectable state) (\<lambda>_.
     bindE (environment env) (\<lambda>current_environment.
     bindE (checkpoint_baseline (latest_checkpoint events)) (\<lambda>(through_seq, summary, baseline).
     bindE (system_message current_environment summary (st_plan_mode_active state)) (\<lambda>system.
     bindE (project_events through_seq tracker_init events) (\<lambda>projected.
     let messages = system # baseline @ projected in
     bindE (validate_conversation (PList messages)) (\<lambda>_. Inr messages))))))))"

subsection \<open>The size of a request\<close>

definition serialized_request :: "mapping list \<Rightarrow> pyval list option \<Rightarrow> py_error + string" where
  "serialized_request messages tool_schemas =
     reraise (\<lambda>_. ProjectionError ''messages and tool schemas must be safely JSON serializable'')
       (dumps (PDict ((''messages'', plain_json (PList (map PDict messages))) #
          (case tool_schemas of None \<Rightarrow> [] | Some ts \<Rightarrow>
             if ts = [] then [] else [(''tools'', plain_json (PList ts))]))))"

text \<open>
  \<open>math.ceil(n / 4)\<close> goes through a float, which is exact below 2 to the 53; the bytes of a
  character beyond ASCII are counted once, at its first byte.
\<close>

definition estimate_request_tokens :: "mapping list \<Rightarrow> pyval list option \<Rightarrow> py_error + int" where
  "estimate_request_tokens messages tool_schemas =
     bindE (serialized_request messages tool_schemas) (\<lambda>serialized.
     let ascii_characters = length (filter (\<lambda>c. (of_char c :: nat) < 128) serialized);
         non_ascii_characters = py_len serialized - ascii_characters
     in Inr (int non_ascii_characters + int ((ascii_characters + 3) div 4) + int (length messages) * 8))"

definition is_assistant :: "mapping \<Rightarrow> bool" where
  "is_assistant message \<longleftrightarrow> get message ''role'' = PStr ''assistant''"

text \<open>The messages after the last assistant message; \<open>None\<close>: there is none, the input itself is returned.\<close>

definition messages_after_last_assistant :: "mapping list \<Rightarrow> mapping list option" where
  "messages_after_last_assistant messages =
     (if \<exists>m \<in> set messages. is_assistant m
      then Some (rev (takeWhile (\<lambda>m. \<not> is_assistant m) (rev messages))) else None)"

definition parse_last_usage :: "pyval \<Rightarrow> py_error + int" where
  "parse_last_usage v = (case v of
     PTuple [PInt a, PInt b, PInt c] \<Rightarrow>
       raise_if (a < 0 \<or> b < 0 \<or> c < 0) (ProjectionError ''last_usage must be three non-negative integers or None'') (Inr c)
   | _ \<Rightarrow> Inl (ProjectionError ''last_usage must be three non-negative integers or None''))"

definition usage_anchored_request_tokens :: "mapping list \<Rightarrow> pyval list option \<Rightarrow> pyval \<Rightarrow> py_error + int" where
  "usage_anchored_request_tokens messages tool_schemas last_usage =
     bindE (estimate_request_tokens messages tool_schemas) (\<lambda>heuristic.
     if last_usage = PNone then Inr heuristic
     else
       bindE (parse_last_usage last_usage) (\<lambda>total.
       bindE (case messages_after_last_assistant messages of
           None \<Rightarrow> estimate_request_tokens messages tool_schemas
         | Some tail \<Rightarrow> estimate_request_tokens tail None) (\<lambda>unpriced.
       Inr (max heuristic (total + unpriced)))))"

definition request_fits_budget ::
  "mapping list \<Rightarrow> pyval list option \<Rightarrow> int \<Rightarrow> int \<Rightarrow> int \<Rightarrow> pyval \<Rightarrow> py_error + bool" where
  "request_fits_budget messages tool_schemas context_window reserved_output_tokens safety_margin last_usage =
     raise_if (context_window < 1) (ProjectionError ''context_window must be a positive integer'') (
     raise_if (reserved_output_tokens < 0) (ProjectionError ''reserved_output_tokens must be a non-negative integer'') (
     raise_if (safety_margin < 0) (ProjectionError ''safety_margin must be a non-negative integer'') (
     let available_input = context_window - reserved_output_tokens - safety_margin in
     bindE (usage_anchored_request_tokens messages tool_schemas last_usage) (\<lambda>estimate.
     Inr (estimate \<le> available_input)))))"

subsection \<open>Properties\<close>

lemma project_Inr:
  assumes "project events state env = Inr messages"
  shows "\<exists>content rest. replay events = Inr state \<and> projectable state = Inr () \<and>
    messages = PDict [(''role'', PStr ''system''), (''content'', PStr content)] # rest \<and>
    validate_conversation (PList messages) = Inr ()"
  using assms by (auto simp: project_def system_message_def Let_def succ_simps split: prod.splits)

lemma projectable_Inr:
  assumes "projectable s = Inr ()" "c \<in> set (vals (st_tool_calls s))"
  shows "tool_terminal (tc_status c) \<and> tc_status c \<noteq> OutcomeUnknown"
  using assms by (cases "tc_status c") (auto simp: projectable_def succ_simps tool_terminal_def)

lemma classify_system [simp]:
  "classify (PDict [(''role'', PStr ''system''), (''content'', PStr content)]) = Some KSystem"
  by (simp add: classify_def fields_of_def get_def get_or_def)

definition demo_environment :: environment_value where
  "demo_environment = Environment \<lparr>pe_cwd = ''/'', pe_platform = ''linux'', pe_date = ''2026-01-01'', pe_is_git = True\<rparr>"

text \<open>A session whose one call finished.\<close>

definition demo_finished :: "event list" where
  "demo_finished = demo_open @ [demo_start,
     ev_of 5 ''tool_finished'' [(''call_key'', PStr ''3:a''), (''status'', PStr ''failed''), (''result'', PStr ''no'')]]"

text \<open>
  C36. A projected prompt is a closed conversation: one system message first, then user
  messages and assistant messages each followed by exactly one result for every call it
  requested; and it is built only from a session in which every call has a known terminal
  outcome and no recovery is pending.
\<close>

theorem projected_prompt_is_closed:
  assumes "project events state env = Inr messages"
  shows "(\<exists>ks. list_all2 (\<lambda>raw k. classify raw = Some k) messages (KSystem # ks) \<and> batches ks) \<and>
    replay events = Inr state \<and> st_pending_recovery_intent state = None \<and> \<not> st_recovery_blocked state \<and>
    (\<forall>c \<in> set (vals (st_tool_calls state)). tool_terminal (tc_status c) \<and> tc_status c \<noteq> OutcomeUnknown)"
proof -
  obtain content rest where p: "replay events = Inr state" "projectable state = Inr ()"
    and m: "messages = PDict [(''role'', PStr ''system''), (''content'', PStr content)] # rest"
    and v: "validate_conversation (PList messages) = Inr ()"
    using project_Inr [OF assms] by blast
  obtain ks where ks: "list_all2 (\<lambda>raw k. classify raw = Some k) messages ks" "conversation_grammar ks"
    using v by (auto simp: validate_conversation_split validate_loop_iff accepts_fresh
        conversation_grammar_def conv_init_def)
  then obtain ks' where "ks = KSystem # ks'" using m by (auto simp: list_all2_Cons1)
  moreover from this have "batches ks'" using ks(2)
    by (auto simp: conversation_grammar_def batches_Cons_simps)
  moreover have "st_pending_recovery_intent state = None" "\<not> st_recovery_blocked state"
    using p(2) by (auto simp: projectable_def succ_simps)
  ultimately show ?thesis using ks(1) p projectable_Inr by blast
qed

lemma projected_prompt_is_closed_witness:
  "\<exists>state messages. project demo_finished state demo_environment = Inr messages \<and> length messages = 4 \<and>
     \<not> st_recovery_blocked state"
proof -
  have "case project demo_finished (demo_state demo_finished) demo_environment of Inl _ \<Rightarrow> False
      | Inr messages \<Rightarrow> length messages = 4" by code_simp
  then obtain messages where m: "project demo_finished (demo_state demo_finished) demo_environment = Inr messages"
    "length messages = 4" by (auto split: sum.splits)
  with projected_prompt_is_closed [OF m(1)] show ?thesis by blast
qed

lemma estimate_covers_text:
  assumes "estimate_request_tokens messages tool_schemas = Inr n"
  shows "\<exists>body. serialized_request messages tool_schemas = Inr body \<and>
    int (py_len body) + 32 * int (length messages) \<le> 4 * n"
proof -
  obtain body where b: "serialized_request messages tool_schemas = Inr body"
    and n: "n = int (py_len body - length (filter (\<lambda>c. (of_char c :: nat) < 128) body)) +
      int ((length (filter (\<lambda>c. (of_char c :: nat) < 128) body) + 3) div 4) + int (length messages) * 8"
    using assms by (auto simp: estimate_request_tokens_def Let_def succ_simps)
  define a where "a = length (filter (\<lambda>c. (of_char c :: nat) < 128) body)"
  obtain q where q: "q = (a + 3) div 4" "a \<le> 4 * q" by simp
  then have "py_len body \<le> 4 * (py_len body - a + q)" by simp
  then have "int (py_len body) \<le> int (4 * (py_len body - a + (a + 3) div 4))" unfolding q(1) of_nat_le_iff .
  then show ?thesis using b n by (simp add: a_def)
qed

text \<open>
  C37. The budget check is conservative: when a request is said to fit, its serialized text
  has at most four characters for every input token left after the output and safety
  reserves, with eight tokens per message set aside; and anchoring on reported usage can
  only refuse more requests, never admit one the plain estimate refuses.
\<close>

theorem budget_is_conservative:
  assumes "request_fits_budget messages tool_schemas context_window reserved margin last_usage = Inr True"
  shows "request_fits_budget messages tool_schemas context_window reserved margin PNone = Inr True \<and>
    (\<exists>body. serialized_request messages tool_schemas = Inr body \<and>
      int (py_len body) + 32 * int (length messages) \<le> 4 * (context_window - reserved - margin)) \<and>
    (case last_usage of PTuple [PInt a, PInt b, PInt c] \<Rightarrow> c \<le> context_window - reserved - margin | _ \<Rightarrow> True)"
proof -
  obtain n where n: "usage_anchored_request_tokens messages tool_schemas last_usage = Inr n"
    "n \<le> context_window - reserved - margin" "1 \<le> context_window" "0 \<le> reserved" "0 \<le> margin"
    using assms by (auto simp: request_fits_budget_def Let_def succ_simps)
  obtain h where h: "estimate_request_tokens messages tool_schemas = Inr h" "h \<le> n"
    using n(1) by (auto simp: usage_anchored_request_tokens_def succ_simps split: if_splits)
  have nonneg: "0 \<le> k" if "estimate_request_tokens ms ts = Inr k" for ms ts k
    using that by (auto simp: estimate_request_tokens_def Let_def succ_simps)
  have "request_fits_budget messages tool_schemas context_window reserved margin PNone = Inr True"
    using n h by (simp add: request_fits_budget_def usage_anchored_request_tokens_def Let_def)
  moreover have "\<exists>body. serialized_request messages tool_schemas = Inr body \<and>
      int (py_len body) + 32 * int (length messages) \<le> 4 * (context_window - reserved - margin)"
    using estimate_covers_text [OF h(1)] h(2) n(2) by fastforce
  moreover have "c \<le> context_window - reserved - margin" if usage: "last_usage = PTuple [PInt a, PInt b, PInt c]" for a b c
  proof -
    obtain k where "estimate_request_tokens (case messages_after_last_assistant messages of None \<Rightarrow> messages | Some t \<Rightarrow> t)
        (case messages_after_last_assistant messages of None \<Rightarrow> tool_schemas | Some t \<Rightarrow> None) = Inr k" "c + k \<le> n"
      using n(1) unfolding usage
      by (cases "messages_after_last_assistant messages")
         (auto simp: usage_anchored_request_tokens_def parse_last_usage_def succ_simps)
    with nonneg n(2) show ?thesis by force
  qed
  ultimately show ?thesis by (auto split: pyval.splits list.splits)
qed

lemma budget_is_conservative_witness:
  "request_fits_budget [[(''role'', PStr ''user''), (''content'', PStr ''hi'')]] None 100 10 10 PNone = Inr True"
proof -
  have "request_fits_budget [[(''role'', PStr ''user''), (''content'', PStr ''hi'')]] None 100 10 10
      (PTuple [PInt 1, PInt 1, PInt 2]) = Inr True" by code_simp
  from budget_is_conservative [OF this] show ?thesis by blast
qed

end
