(* ===== verification/Effects.thy ===== *)
theory Effects
  imports PyPrelude
begin

section \<open>Computations on a shared world\<close>

text \<open>
  The runtime components share mutable objects: the rollout store, the session state, the
  approver, and the world outside the process. A method is a function from the world to its
  result (a value or the exception it raises) and the world it leaves, whether it returns or
  raises. The theory holds the combinators, a Hoare triple with a postcondition for each of
  the two ways to end, and the contract of relations that survive sequential composition.
\<close>

named_theorems io_run \<open>how a computation ends\<close>

type_synonym ('w, 'a) io = "'w \<Rightarrow> (py_error + 'a) \<times> 'w"

definition ret :: "'a \<Rightarrow> ('w, 'a) io" where
  "ret x = (\<lambda>w. (Inr x, w))"

definition throw :: "py_error \<Rightarrow> ('w, 'a) io" where
  "throw e = (\<lambda>w. (Inl e, w))"

definition bind_io :: "('w, 'a) io \<Rightarrow> ('a \<Rightarrow> ('w, 'b) io) \<Rightarrow> ('w, 'b) io" where
  "bind_io m f = (\<lambda>w. case m w of (Inl e, w') \<Rightarrow> (Inl e, w') | (Inr x, w') \<Rightarrow> f x w')"

text \<open>A pure computation, and reading the world.\<close>

definition lift_io :: "py_error + 'a \<Rightarrow> ('w, 'a) io" where
  "lift_io m = (\<lambda>w. (m, w))"

definition asks :: "('w \<Rightarrow> 'a) \<Rightarrow> ('w, 'a) io" where
  "asks f = (\<lambda>w. (Inr (f w), w))"

text \<open>\<open>try: m except: h\<close>, where \<open>h e = None\<close> lets the exception through.\<close>

definition handle :: "('w, 'a) io \<Rightarrow> (py_error \<Rightarrow> ('w, 'a) io option) \<Rightarrow> ('w, 'a) io" where
  "handle m h = (\<lambda>w. case m w of
     (Inl e, w') \<Rightarrow> (case h e of None \<Rightarrow> (Inl e, w') | Some k \<Rightarrow> k w')
   | (Inr x, w') \<Rightarrow> (Inr x, w'))"

text \<open>\<open>for x in xs: f(x)\<close>\<close>

fun for_each :: "('a \<Rightarrow> ('w, unit) io) \<Rightarrow> 'a list \<Rightarrow> ('w, unit) io" where
  "for_each f [] = ret ()"
| "for_each f (x # xs) = bind_io (f x) (\<lambda>_. for_each f xs)"

text \<open>The exceptions that \<open>except Exception\<close> does not catch.\<close>

fun is_interrupt :: "py_error \<Rightarrow> bool" where
  "is_interrupt KeyboardInterrupt = True"
| "is_interrupt ApprovalInterrupted = True"
| "is_interrupt PostCommitInterrupted = True"
| "is_interrupt _ = False"

subsection \<open>Running\<close>

lemma ret_run [simp]: "ret x w = (Inr x, w)"
  by (simp add: ret_def)

lemma throw_run [simp]: "throw e w = (Inl e, w)"
  by (simp add: throw_def)

lemma lift_run [simp]: "lift_io m w = (m, w)"
  by (simp add: lift_io_def)

lemma asks_run [simp]: "asks f w = (Inr (f w), w)"
  by (simp add: asks_def)

lemma bind_ret [simp]: "bind_io (ret x) f = f x" "bind_io (throw e) f = throw e"
  by (simp_all add: bind_io_def ret_def throw_def)

lemma bind_asks: "bind_io (asks f) k w = k (f w) w"
  by (simp add: bind_io_def)

lemma bind_io_Inr [io_run]:
  "bind_io m f w = (Inr y, w') \<longleftrightarrow> (\<exists>x w1. m w = (Inr x, w1) \<and> f x w1 = (Inr y, w'))"
  by (auto simp: bind_io_def split: prod.splits sum.splits)

lemma bind_io_Inl [io_run]:
  "bind_io m f w = (Inl e, w') \<longleftrightarrow>
     m w = (Inl e, w') \<or> (\<exists>x w1. m w = (Inr x, w1) \<and> f x w1 = (Inl e, w'))"
  by (auto simp: bind_io_def split: prod.splits sum.splits)

lemma bind_io_run: "m w = (Inr x, w1) \<Longrightarrow> bind_io m f w = f x w1"
  by (simp add: bind_io_def)

lemma bind_io_raise: "m w = (Inl e, w1) \<Longrightarrow> bind_io m f w = (Inl e, w1)"
  by (simp add: bind_io_def)

lemma handle_Inr [io_run]:
  "handle m h w = (Inr y, w') \<longleftrightarrow> m w = (Inr y, w') \<or>
     (\<exists>e w1 k. m w = (Inl e, w1) \<and> h e = Some k \<and> k w1 = (Inr y, w'))"
  by (auto simp: handle_def split: prod.splits sum.splits option.splits)

lemma handle_Inl [io_run]:
  "handle m h w = (Inl e, w') \<longleftrightarrow>
     (m w = (Inl e, w') \<and> h e = None) \<or>
     (\<exists>e1 w1 k. m w = (Inl e1, w1) \<and> h e1 = Some k \<and> k w1 = (Inl e, w'))"
  by (auto simp: handle_def split: prod.splits sum.splits option.splits)

subsection \<open>Relations between the world before and after\<close>

text \<open>
  \<open>moves R m\<close>: however \<open>m\<close> ends, the world it leaves is related to the one it found. When
  \<open>R\<close> is reflexive and transitive, \<open>moves R\<close> is closed under the combinators.
\<close>

definition moves :: "('w \<Rightarrow> 'w \<Rightarrow> bool) \<Rightarrow> ('w, 'a) io \<Rightarrow> bool" where
  "moves R m \<longleftrightarrow> (\<forall>w. R w (snd (m w)))"

lemma movesI: "(\<And>w r w'. m w = (r, w') \<Longrightarrow> R w w') \<Longrightarrow> moves R m"
  unfolding moves_def by (metis prod.collapse)

lemma movesD: "moves R m \<Longrightarrow> m w = (r, w') \<Longrightarrow> R w w'"
  unfolding moves_def by (metis snd_conv)

locale world_order =
  fixes R :: "'w \<Rightarrow> 'w \<Rightarrow> bool"
  assumes same: "R w w"
    and trans: "R u v \<Longrightarrow> R v w \<Longrightarrow> R u w"
begin

lemma moves_ret: "moves R (ret x)" "moves R (throw e)" "moves R (lift_io m)" "moves R (asks f)"
  by (simp_all add: moves_def same)

lemma moves_bind: "moves R m \<Longrightarrow> (\<And>x. moves R (f x)) \<Longrightarrow> moves R (bind_io m f)"
  by (rule movesI) (auto simp: bind_io_def split: prod.splits sum.splits dest: movesD intro: trans)

lemma moves_handle:
  "moves R m \<Longrightarrow> (\<And>e k. h e = Some k \<Longrightarrow> moves R k) \<Longrightarrow> moves R (handle m h)"
proof (rule movesI)
  fix w r w'
  assume m: "moves R m" and h: "\<And>e k. h e = Some k \<Longrightarrow> moves R k" and run: "handle m h w = (r, w')"
  obtain x w1 where w1: "m w = (x, w1)" by (cases "m w") blast
  have "R w w1" using movesD [OF m w1] .
  moreover have "w1 = w' \<or> R w1 w'"
    using run w1 h by (auto simp: handle_def split: sum.splits option.splits dest: movesD)
  ultimately show "R w w'" using trans by blast
qed

lemma moves_each: "(\<And>x. moves R (f x)) \<Longrightarrow> moves R (for_each f xs)"
  by (induction xs) (auto intro: moves_ret moves_bind)

lemmas moves_rules = moves_ret moves_bind moves_handle moves_each

end

end
