(* ===== verification/Store.thy ===== *)
theory Store
  imports PyJson DomainTypes Sse
begin

section \<open>The rollout store (store.py)\<close>

text \<open>
  A session is stored as one JSON document per line in an append-only file. The model keeps
  what the store keeps: the bytes of the file, the events in memory, and whether the store
  is open or poisoned. \<open>parse_rollout\<close> interprets the bytes, \<open>read_and_repair_tail\<close> drops or
  completes a half-written last line, \<open>append_event\<close> writes one. Directory creation, the
  advisory lock and the descriptor flags are not modelled; a write that fails after \<open>n\<close> bytes
  is an argument of \<open>append_event\<close>. \<open>json.loads\<close> is the argument \<open>loads\<close>, \<open>None\<close> when it raises
  \<open>JSONDecodeError\<close>.
\<close>

subsection \<open>Reading a rollout\<close>

text \<open>\<open>data.splitlines(keepends=True)\<close> on bytes: lines end at \<open>CR LF\<close>, \<open>CR\<close> or \<open>LF\<close>.\<close>

fun records :: "string \<Rightarrow> string list" where
  "records [] = []"
| "records [c] = [[c]]"
| "records (c # d # s) =
     (if c = cr \<and> d = lf then [c, d] # records s
      else if c = cr \<or> c = lf then [c] # records (d # s)
      else (case records (d # s) of [] \<Rightarrow> [[c]] | r # rs \<Rightarrow> (c # r) # rs))"

definition rstrip_newlines :: "string \<Rightarrow> string" where
  "rstrip_newlines s = rev (dropWhile is_newline (rev s))"

record parsed_rollout =
  pr_events :: "event list"
  pr_committed_length :: nat
  pr_final_needs_newline :: bool
  pr_dropped_partial :: bool

text \<open>\<open>json.loads(body.decode("utf-8"))\<close>\<close>

definition read_document :: "(string \<Rightarrow> pyval option) \<Rightarrow> string \<Rightarrow> pyval option" where
  "read_document loads body = (if utf8_split body = Some (body, []) then loads body else None)"

text \<open>The loop over the records, with the events and the committed length so far.\<close>

fun parse_records ::
  "(string \<Rightarrow> bool) \<Rightarrow> (string \<Rightarrow> pyval option) \<Rightarrow> string \<Rightarrow> event list \<Rightarrow> nat \<Rightarrow> string list \<Rightarrow>
   py_error + parsed_rollout" where
  "parse_records iso_utc loads session_id events committed [] =
     Inr \<lparr>pr_events = events, pr_committed_length = committed, pr_final_needs_newline = False,
          pr_dropped_partial = False\<rparr>"
| "parse_records iso_utc loads session_id events committed (rec # recs) =
     (let is_final = (recs = []);
          has_newline = (rec \<noteq> [] \<and> is_newline (last rec));
          body = rstrip_newlines rec;
          partial = Inr \<lparr>pr_events = events, pr_committed_length = committed, pr_final_needs_newline = False,
            pr_dropped_partial = True\<rparr> in
      case read_document loads body of
        None \<Rightarrow> if is_final \<and> \<not> has_newline then partial else Inl (RolloutCorruptionError ''invalid JSON'')
      | Some document \<Rightarrow>
          (case event_from_dict iso_utc document of
             Inl (DomainError m) \<Rightarrow>
               if is_final \<and> \<not> has_newline \<and>
                 (case as_dict document of None \<Rightarrow> False | Some d \<Rightarrow> \<not> event_fields \<subseteq> fields_of d)
               then partial else Inl (RolloutCorruptionError ''invalid event'')
           | Inl e \<Rightarrow> Inl e
           | Inr ev \<Rightarrow>
               raise_if (ev_session_id ev \<noteq> session_id) (RolloutCorruptionError ''session mismatch'') (
               raise_if (ev_seq ev \<noteq> int (length events) + 1) (RolloutCorruptionError ''invalid sequence'') (
               if is_final \<and> \<not> has_newline then
                 Inr \<lparr>pr_events = events @ [ev], pr_committed_length = committed + length rec,
                      pr_final_needs_newline = True, pr_dropped_partial = False\<rparr>
               else parse_records iso_utc loads session_id (events @ [ev]) (committed + length rec) recs))))"

definition parse_rollout ::
  "(string \<Rightarrow> bool) \<Rightarrow> (string \<Rightarrow> pyval option) \<Rightarrow> string \<Rightarrow> string \<Rightarrow> py_error + parsed_rollout" where
  "parse_rollout iso_utc loads session_id data = parse_records iso_utc loads session_id [] 0 (records data)"

definition validate_session_id :: "pyval \<Rightarrow> py_error + string" where
  "validate_session_id v =
     bindE (need (as_str v) (ValueError ''session_id must be a canonical UUID'')) (\<lambda>s.
     raise_if (\<not> is_uuid s) (ValueError ''session_id must be a canonical UUID'') (Inr s))"

subsection \<open>The store\<close>

record rollout_store =
  ro_session_id :: string
  ro_file :: string
  ro_events :: "event list"
  ro_open :: bool
  ro_poisoned :: bool

text \<open>\<open>_read_and_repair_tail\<close>: the events, and the file after the repair.\<close>

definition read_and_repair_tail ::
  "(string \<Rightarrow> bool) \<Rightarrow> (string \<Rightarrow> pyval option) \<Rightarrow> string \<Rightarrow> string \<Rightarrow> py_error + (event list \<times> string)" where
  "read_and_repair_tail iso_utc loads session_id data =
     bindE (parse_rollout iso_utc loads session_id data) (\<lambda>parsed.
     Inr (pr_events parsed,
       if pr_dropped_partial parsed then take (pr_committed_length parsed) data
       else if pr_final_needs_newline parsed then data @ [lf]
       else data))"

text \<open>Opening the file of a session whose content is \<open>data\<close>; a new session has an empty file.\<close>

definition open_store ::
  "(string \<Rightarrow> bool) \<Rightarrow> (string \<Rightarrow> pyval option) \<Rightarrow> pyval \<Rightarrow> string \<Rightarrow> py_error + rollout_store" where
  "open_store iso_utc loads session_id data =
     bindE (validate_session_id session_id) (\<lambda>sid.
     bindE (read_and_repair_tail iso_utc loads sid data) (\<lambda>(events, file).
     Inr \<lparr>ro_session_id = sid, ro_file = file, ro_events = events, ro_open = True, ro_poisoned = False\<rparr>))"

definition read_session_snapshot ::
  "(string \<Rightarrow> bool) \<Rightarrow> (string \<Rightarrow> pyval option) \<Rightarrow> pyval \<Rightarrow> string \<Rightarrow> py_error + event list" where
  "read_session_snapshot iso_utc loads session_id data =
     bindE (validate_session_id session_id) (\<lambda>sid.
     bindE (parse_rollout iso_utc loads sid data) (\<lambda>parsed. Inr (pr_events parsed)))"

definition require_open :: "rollout_store \<Rightarrow> py_error + unit" where
  "require_open st =
     raise_if (ro_poisoned st) (StorePoisonedError ''rollout store is poisoned after an append failure'') (
     raise_if (\<not> ro_open st) (ValueError ''rollout store is closed'') (Inr ()))"

definition encode_event :: "event \<Rightarrow> py_error + string" where
  "encode_event ev =
     bindE (event_to_dict ev) (\<lambda>document.
     bindE (dumps document) (\<lambda>line. Inr (line @ [lf])))"

text \<open>
  How the writes of one append end: all bytes are written and synchronised, or an exception
  is raised after the first \<open>n\<close> bytes reached the file.
\<close>

datatype write_outcome = Written | WriteFailed nat

text \<open>
  \<open>append\<close> of an \<open>Event\<close>. A failure before the write leaves the store as it is; a failing
  write poisons and closes it. The result is the exception or the event, and the store.
\<close>

definition append_event ::
  "rollout_store \<Rightarrow> event \<Rightarrow> write_outcome \<Rightarrow> (py_error + event) \<times> rollout_store" where
  "append_event st ev outcome =
     (case bindE (require_open st) (\<lambda>_.
           raise_if (ev_session_id ev \<noteq> ro_session_id st) (ValueError ''event belongs to another session'') (
           raise_if (ev_seq ev \<noteq> int (length (ro_events st)) + 1) (ValueError ''event sequence mismatch'') (
           encode_event ev))) of
        Inl e \<Rightarrow> (Inl e, st)
      | Inr encoded \<Rightarrow>
          (case outcome of
             WriteFailed n \<Rightarrow> (Inl (RuntimeError ''write failed''),
               st\<lparr>ro_file := ro_file st @ take n encoded, ro_poisoned := True, ro_open := False\<rparr>)
           | Written \<Rightarrow> (Inr ev, st\<lparr>ro_file := ro_file st @ encoded, ro_events := ro_events st @ [ev]\<rparr>)))"

text \<open>\<open>append\<close> of a type and payload; the clock and the new id are arguments.\<close>

definition append_new ::
  "(string \<Rightarrow> bool) \<Rightarrow> rollout_store \<Rightarrow> string \<Rightarrow> string \<Rightarrow> string \<Rightarrow> mapping \<Rightarrow> write_outcome \<Rightarrow>
   (py_error + event) \<times> rollout_store" where
  "append_new iso_utc st event_id timestamp type payload outcome =
     (case bindE (require_open st) (\<lambda>_.
           mk_event iso_utc (PInt 1) (PInt (int (length (ro_events st)) + 1)) (PStr event_id) (PStr timestamp)
             (PStr (ro_session_id st)) (PStr type) (PDict payload)) of
        Inl e \<Rightarrow> (Inl e, st)
      | Inr ev \<Rightarrow> append_event st ev outcome)"

definition close_store :: "rollout_store \<Rightarrow> rollout_store" where
  "close_store st = st\<lparr>ro_open := False\<rparr>"

definition load_events :: "rollout_store \<Rightarrow> py_error + event list" where
  "load_events st = bindE (require_open st) (\<lambda>_. Inr (ro_events st))"

subsection \<open>What comes back from a rollout\<close>

text \<open>
  \<open>json.dumps\<close> sorts the keys, so a document that is written and read back has its keys
  sorted. In Python the two are equal; in the model the order of a dictionary is visible,
  and \<open>reloaded\<close> is the event with the entries of its payload sorted.
\<close>

fun sort_keys :: "pyval \<Rightarrow> pyval" where
  "sort_keys (PDict kvs) = PDict (sort_key fst (map (\<lambda>kv. (fst kv, sort_keys (snd kv))) kvs))"
| "sort_keys (PProxy kvs) = PProxy (sort_key fst (map (\<lambda>kv. (fst kv, sort_keys (snd kv))) kvs))"
| "sort_keys (PList vs) = PList (map sort_keys vs)"
| "sort_keys (PTuple vs) = PTuple (map sort_keys vs)"
| "sort_keys v = v"

definition reloaded :: "event \<Rightarrow> event" where
  "reloaded e = e\<lparr>ev_payload := (case sort_keys (PProxy (ev_payload e)) of PProxy kvs \<Rightarrow> kvs | _ \<Rightarrow> [])\<rparr>"

definition event_document :: "event \<Rightarrow> pyval" where
  "event_document e = PDict
     [(''version'', PInt (ev_version e)), (''seq'', PInt (ev_seq e)),
      (''event_id'', PStr (ev_id e)), (''timestamp'', PStr (ev_timestamp e)),
      (''session_id'', PStr (ev_session_id e)), (''type'', PStr (ev_type e)),
      (''payload'', thaw_json (PProxy (ev_payload e)))]"

text \<open>The text of a float is its \<open>repr\<close>, which is one line.\<close>

fun one_line_floats :: "pyval \<Rightarrow> bool" where
  "one_line_floats (PFloat r s) = list_all (\<lambda>c. \<not> is_newline c) s"
| "one_line_floats (PList vs) = list_all one_line_floats vs"
| "one_line_floats (PTuple vs) = list_all one_line_floats vs"
| "one_line_floats (PDict kvs) = list_all (\<lambda>kv. one_line_floats (snd kv)) kvs"
| "one_line_floats (PProxy kvs) = list_all (\<lambda>kv. one_line_floats (snd kv)) kvs"
| "one_line_floats _ = True"

text \<open>
  What \<open>json.loads\<close> does on one line of a rollout: it inverts \<open>json.dumps\<close> (up to the order of
  the keys), and no proper prefix of the text of an object is a JSON document.
\<close>

definition line_text :: "event \<Rightarrow> string" where
  "line_text e = (case dumps (event_document e) of Inl _ \<Rightarrow> [] | Inr s \<Rightarrow> s)"

definition loads_line :: "(string \<Rightarrow> pyval option) \<Rightarrow> event \<Rightarrow> bool" where
  "loads_line loads e \<longleftrightarrow> utf8_split (line_text e) = Some (line_text e, []) \<and>
     loads (line_text e) = Some (sort_keys (event_document e)) \<and>
     (\<forall>n < length (line_text e). loads (take n (line_text e)) = None)"

subsection \<open>Lines\<close>

abbreviation one_line :: "string \<Rightarrow> bool" where
  "one_line s \<equiv> list_all (\<lambda>c. \<not> is_newline c) s"

lemma not_newline: "\<not> is_newline c \<longleftrightarrow> c \<noteq> cr \<and> c \<noteq> lf"
  by (simp add: is_newline_def)

lemma one_line_join: "one_line sep \<Longrightarrow> \<forall>s \<in> set ss. one_line s \<Longrightarrow> one_line (join sep ss)"
  by (induction ss rule: induct_list012) auto

lemma one_line_escape: "one_line (json_escape_char c)"
proof -
  have "c = cr \<or> c = lf \<Longrightarrow> one_line (json_escape_char c)"
    by (auto simp: json_escape_char_def cr_def lf_def is_newline_def)
  moreover have "hex_digit n \<noteq> cr \<and> hex_digit n \<noteq> lf" if "n < 16" for n
  proof -
    have "\<forall>n \<in> {..<16}. hex_digit n \<noteq> cr \<and> hex_digit n \<noteq> lf" by (simp add: lessThan_nat_numeral lessThan_Suc hex_digit_def cr_def lf_def)
    with that show ?thesis by simp
  qed
  ultimately show ?thesis
    by (cases "c = cr \<or> c = lf") (auto simp: json_escape_char_def Let_def not_newline cr_def lf_def)
qed

lemma one_line_quote: "one_line (json_quote s)"
proof -
  have "one_line (concat (map json_escape_char s))"
    by (induction s) (use one_line_escape in auto)
  then show ?thesis by (auto simp: json_quote_def not_newline cr_def lf_def)
qed

lemma one_line_show_int: "one_line (show_int i)"
proof -
  have "one_line (show_nat n)" for n
  proof -
    have "\<not> is_newline c" if c: "c \<in> set (show_nat n)" for c
    proof -
      obtain d where "d < 10" "c = digit_char d" using show_nat_digits [OF c] by blast
      then have "(of_char c :: nat) \<noteq> 13" "(of_char c :: nat) \<noteq> 10" by (simp_all add: of_char_digit)
      then show ?thesis by (auto simp: is_newline_def cr_def lf_def)
    qed
    then show ?thesis by (simp add: list_all_iff)
  qed
  then show ?thesis by (simp add: show_int_def not_newline cr_def lf_def)
qed

lemma mapE_one_line:
  assumes "mapE f xs = Inr ys" "\<And>x y. x \<in> set xs \<Longrightarrow> f x = Inr y \<Longrightarrow> one_line y"
  shows "\<forall>y \<in> set ys. one_line y"
proof
  fix y assume "y \<in> set ys"
  then obtain i where "i < length xs" "f (xs ! i) = Inr y"
    using assms(1) by (auto simp: mapE_Inr_iff list_all2_conv_all_nth in_set_conv_nth)
  then have "xs ! i \<in> set xs" "f (xs ! i) = Inr y" by simp_all
  then show "one_line y" by (rule assms(2))
qed

lemma dumps_one_line: "dumps v = Inr s \<Longrightarrow> one_line_floats v \<Longrightarrow> one_line s"
proof (induction v arbitrary: s rule: dumps.induct)
  case (7 vs)
  then obtain parts where p: "mapE dumps vs = Inr parts" "s = ''['' @ join '','' parts @ '']''" by (auto simp: succ_simps)
  have "\<forall>y \<in> set parts. one_line y"
    using p(1) by (rule mapE_one_line) (use 7 in \<open>auto simp: list_all_iff\<close>)
  then have "one_line (join '','' parts)" by (intro one_line_join) (simp_all add: not_newline cr_def lf_def)
  then show ?case by (simp add: p(2) not_newline cr_def lf_def)
next
  case (8 vs)
  then obtain parts where p: "mapE dumps vs = Inr parts" "s = ''['' @ join '','' parts @ '']''" by (auto simp: succ_simps)
  have "\<forall>y \<in> set parts. one_line y"
    using p(1) by (rule mapE_one_line) (use 8 in \<open>auto simp: list_all_iff\<close>)
  then have "one_line (join '','' parts)" by (intro one_line_join) (simp_all add: not_newline cr_def lf_def)
  then show ?case by (simp add: p(2) not_newline cr_def lf_def)
next
  case (9 kvs)
  let ?f = "\<lambda>kv. bindE (dumps (snd kv)) (\<lambda>d. Inr (json_quote (fst kv) @ CHR '':'' # d))"
  obtain parts where p: "mapE ?f (sort_key fst kvs) = Inr parts" "s = CHR 0x7B # join '','' parts @ [CHR 0x7D]"
    using 9(2) by (auto simp: succ_simps)
  have "\<forall>y \<in> set parts. one_line y"
  proof (rule mapE_one_line [OF p(1)])
    fix kv y assume "kv \<in> set (sort_key fst kvs)" "?f kv = Inr y"
    then obtain d where kv: "kv \<in> set kvs" and d: "dumps (snd kv) = Inr d" "y = json_quote (fst kv) @ CHR '':'' # d"
      by (auto simp: succ_simps)
    have "one_line d" using 9(1) [of kv d] kv d(1) 9(3) by (auto simp: list_all_iff)
    then show "one_line y" using one_line_quote [of "fst kv"] by (simp add: d(2) not_newline cr_def lf_def)
  qed
  then have "one_line (join '','' parts)" by (intro one_line_join) (simp_all add: not_newline cr_def lf_def)
  then show ?case by (simp add: p(2) not_newline cr_def lf_def)
qed (use one_line_quote one_line_show_int in \<open>auto simp: not_newline cr_def lf_def\<close>)

subsection \<open>Reading the lines back\<close>

lemma records_line: "one_line t \<Longrightarrow> records (t @ lf # rest) = (t @ [lf]) # records rest"
proof (induction t)
  case Nil
  then show ?case by (cases rest) (simp_all add: cr_def lf_def)
next
  case (Cons c t)
  then show ?case by (cases t) (auto simp: not_newline)
qed

lemma records_partial: "one_line t \<Longrightarrow> records t = (if t = [] then [] else [t])"
  by (induction t rule: records.induct) (auto simp: not_newline split: if_splits)

lemma rstrip_line: "one_line t \<Longrightarrow> rstrip_newlines (t @ [lf]) = t" "one_line t \<Longrightarrow> rstrip_newlines t = t"
proof -
  have "dropWhile is_newline u = u" if "one_line (rev u)" for u
    using that by (cases u) auto
  then show "one_line t \<Longrightarrow> rstrip_newlines (t @ [lf]) = t" "one_line t \<Longrightarrow> rstrip_newlines t = t"
    by (simp_all add: rstrip_newlines_def is_newline_def)
qed

lemma one_line_last: "one_line t \<Longrightarrow> t \<noteq> [] \<Longrightarrow> \<not> is_newline (last t)"
  by (simp add: list_all_iff)

lemma thaw_one_line: "one_line_floats (thaw_json v) = one_line_floats v"
  by (induction v rule: thaw_json.induct) (auto simp: list_all_iff)

text \<open>The line of an event that can be stored.\<close>

definition storable :: "(string \<Rightarrow> bool) \<Rightarrow> (string \<Rightarrow> pyval option) \<Rightarrow> event \<Rightarrow> bool" where
  "storable iso_utc loads e \<longleftrightarrow> event_ok iso_utc e \<and> one_line_floats (PProxy (ev_payload e)) \<and> loads_line loads e"

lemma storable_line:
  assumes "storable iso_utc loads e"
  shows "encode_event e = Inr (line_text e @ [lf])" "one_line (line_text e)" "line_text e \<noteq> []"
    "read_document loads (line_text e) = Some (sort_keys (event_document e))"
    "n < length (line_text e) \<Longrightarrow> read_document loads (take n (line_text e)) = None"
proof -
  have "plain (thaw_json (PProxy (ev_payload e)))"
    using assms by (intro thaw_plain) (simp add: storable_def event_ok_def)
  then have "plain (event_document e)" by (simp add: event_document_def del: thaw_json.simps)
  then obtain s where s: "dumps (event_document e) = Inr s" using dumps_total_iff by blast
  have txt_eq: "line_text e = s" by (simp add: line_text_def s)
  show "encode_event e = Inr (line_text e @ [lf])"
    unfolding encode_event_def event_to_dict_def Let_def event_document_def [symmetric] s txt_eq by (simp add: s)
  have "one_line_floats (event_document e)"
    using assms by (simp add: storable_def event_document_def thaw_one_line del: thaw_json.simps)
  with s show "one_line (line_text e)" unfolding txt_eq by (rule dumps_one_line)
  show "line_text e \<noteq> []" using s by (auto simp: txt_eq event_document_def succ_simps)
  show "read_document loads (line_text e) = Some (sort_keys (event_document e))"
    "n < length (line_text e) \<Longrightarrow> read_document loads (take n (line_text e)) = None"
    using assms by (simp_all add: storable_def loads_line_def read_document_def)
qed

lemma map_of_sort_key: "distinct (map fst kvs) \<Longrightarrow> map_of (sort_key fst kvs) = map_of kvs"
  by (intro map_of_inject_set [THEN iffD2]) (simp_all add: distinct_map)

lemma sort_key_map_fst:
  assumes "\<And>kv. fst (h kv) = fst kv"
  shows "sort_key fst (map h kvs) = map h (sort_key fst kvs)"
proof -
  have "insort_key fst (h x) (map h xs) = map h (insort_key fst x xs)" for x xs
    by (induction xs) (simp_all add: assms)
  then show ?thesis by (induction kvs) simp_all
qed

lemma freeze_sorted: "frozen v \<Longrightarrow> freeze_json (sort_keys (thaw_json v)) = Inr (sort_keys v)"
proof (induction v rule: frozen.induct)
  case (5 vs)
  then have "mapE freeze_json (map (sort_keys \<circ> thaw_json) vs) = Inr (map sort_keys vs)"
    by (induction vs) simp_all
  then show ?case by simp
next
  case (6 kvs)
  let ?g = "\<lambda>kv. (fst kv, sort_keys (snd kv))" and ?h = "\<lambda>kv. (fst kv, sort_keys (thaw_json (snd kv)))"
  let ?f = "\<lambda>kv. bindE (freeze_json (snd kv)) (\<lambda>w. Inr (fst kv, w))"
  have "sort_key fst (map ?h kvs) = map ?h (sort_key fst kvs)" "sort_key fst (map ?g kvs) = map ?g (sort_key fst kvs)"
    by (simp_all add: sort_key_map_fst)
  moreover have "mapE ?f (map ?h xs) = Inr (map ?g xs)" if "set xs \<subseteq> set kvs" for xs
    using that 6 by (induction xs) (auto simp: list_all_iff)
  then have "mapE ?f (map ?h (sort_key fst kvs)) = Inr (map ?g (sort_key fst kvs))" by simp
  ultimately show ?case by (simp add: comp_def)
qed auto

lemma reloaded_frozen: "sort_keys (PProxy (ev_payload e)) = PProxy (ev_payload (reloaded e))"
  by (simp add: reloaded_def)

lemma reloaded_same [simp]: "ev_seq (reloaded e) = ev_seq e" "ev_session_id (reloaded e) = ev_session_id e"
  by (simp_all add: reloaded_def)

lemma event_from_sorted:
  assumes "event_ok iso_utc e"
  shows "event_from_dict iso_utc (sort_keys (event_document e)) = Inr (reloaded e)"
proof -
  define kvs where "kvs = [(''version'', PInt (ev_version e)), (''seq'', PInt (ev_seq e)),
      (''event_id'', PStr (ev_id e)), (''timestamp'', PStr (ev_timestamp e)),
      (''session_id'', PStr (ev_session_id e)), (''type'', PStr (ev_type e)),
      (''payload'', sort_keys (thaw_json (PProxy (ev_payload e))))]"
  have doc: "sort_keys (event_document e) = PDict (sort_key fst kvs)"
    by (simp add: event_document_def kvs_def del: thaw_json.simps list.map(2) sort_key_simps) simp
  have d: "distinct (map fst kvs)" by (simp add: kvs_def)
  have get: "get (sort_key fst kvs) k = get kvs k" for k
    by (simp add: get_def get_or_def map_of_sort_key [OF d])
  have fields: "fields_of (sort_key fst kvs) = event_fields"
    by (auto simp: fields_of_def kvs_def event_fields_def)
  have frozen: "frozen (PProxy (ev_payload e))" using assms by (simp add: event_ok_def)
  have payload: "freeze_json (sort_keys (thaw_json (PProxy (ev_payload e)))) = Inr (PProxy (ev_payload (reloaded e)))"
    using freeze_sorted [OF frozen] unfolding reloaded_frozen .
  have shape: "\<exists>p. sort_keys (thaw_json (PProxy (ev_payload e))) = PDict p" by simp
  then obtain p where p: "sort_keys (thaw_json (PProxy (ev_payload e))) = PDict p" by blast
  have gets: "get kvs ''version'' = PInt (ev_version e)" "get kvs ''seq'' = PInt (ev_seq e)"
    "get kvs ''event_id'' = PStr (ev_id e)" "get kvs ''timestamp'' = PStr (ev_timestamp e)"
    "get kvs ''session_id'' = PStr (ev_session_id e)" "get kvs ''type'' = PStr (ev_type e)"
    "get kvs ''payload'' = PDict p"
    unfolding kvs_def p by (simp_all add: get_def get_or_def)
  have "mk_event iso_utc (PInt (ev_version e)) (PInt (ev_seq e)) (PStr (ev_id e)) (PStr (ev_timestamp e))
      (PStr (ev_session_id e)) (PStr (ev_type e)) (PDict p) = Inr (reloaded e)"
    using assms payload unfolding p
    by (simp add: mk_event_def event_ok_def validate_timestamp_def canonical_uuid_def reloaded_def
        del: freeze_json.simps)
  then show ?thesis
    by (simp add: doc event_from_dict_def fields get gets)
qed

text \<open>Reading complete lines, one after the other, and then what follows them.\<close>

abbreviation rollout_line :: "event \<Rightarrow> string" where
  "rollout_line e \<equiv> line_text e @ [lf]"

definition rollout_bytes :: "event list \<Rightarrow> string" where
  "rollout_bytes es = concat (map rollout_line es)"

definition numbered :: "string \<Rightarrow> int \<Rightarrow> event list \<Rightarrow> bool" where
  "numbered sid n es \<longleftrightarrow> (\<forall>i < length es. ev_seq (es ! i) = n + int i + 1 \<and> ev_session_id (es ! i) = sid)"

lemma numbered_Cons: "numbered sid n (e # es) \<longleftrightarrow> ev_seq e = n + 1 \<and> ev_session_id e = sid \<and> numbered sid (n + 1) es"
  unfolding numbered_def by (auto simp: less_Suc_eq_0_disj all_conj_distrib add.assoc add.commute)

lemma records_lines:
  "list_all (storable iso_utc loads) es \<Longrightarrow>
   records (rollout_bytes es @ rest) = map rollout_line es @ records rest"
  by (induction es) (auto simp: rollout_bytes_def records_line storable_line(2))

lemma parse_line:
  assumes "storable iso_utc loads e" "ev_session_id e = sid" "ev_seq e = int (length evs) + 1"
  shows "parse_records iso_utc loads sid evs n (rollout_line e # recs) =
    parse_records iso_utc loads sid (evs @ [reloaded e]) (n + length (rollout_line e)) recs"
  using assms storable_line [OF assms(1)] event_from_sorted [of iso_utc e]
  by (simp add: Let_def rstrip_line is_newline_def storable_def)

lemma parse_lines:
  "list_all (storable iso_utc loads) es \<Longrightarrow> numbered sid (int (length evs)) es \<Longrightarrow>
   parse_records iso_utc loads sid evs n (map rollout_line es @ recs) =
   parse_records iso_utc loads sid (evs @ map reloaded es) (n + length (rollout_bytes es)) recs"
proof (induction es arbitrary: evs n)
  case (Cons e es)
  then have "parse_records iso_utc loads sid evs n (map rollout_line (e # es) @ recs) =
      parse_records iso_utc loads sid (evs @ [reloaded e]) (n + length (rollout_line e)) (map rollout_line es @ recs)"
    using parse_line [of iso_utc loads e sid evs n "map rollout_line es @ recs"] by (simp add: numbered_Cons)
  also have "\<dots> = parse_records iso_utc loads sid ((evs @ [reloaded e]) @ map reloaded es)
      (n + length (rollout_line e) + length (rollout_bytes es)) recs"
    using Cons.prems by (intro Cons.IH) (simp_all add: numbered_Cons add.commute)
  finally show ?case by (simp add: rollout_bytes_def add.assoc)
qed (simp add: rollout_bytes_def)

text \<open>A file of complete lines followed by the first \<open>n\<close> bytes of the next one.\<close>

lemma parse_tail:
  assumes "list_all (storable iso_utc loads) es" "numbered sid 0 es"
    and e: "storable iso_utc loads e" "ev_session_id e = sid" "ev_seq e = int (length es) + 1"
  shows "parse_rollout iso_utc loads sid (rollout_bytes es @ take n (rollout_line e)) = Inr
    (if n = 0 then \<lparr>pr_events = map reloaded es, pr_committed_length = length (rollout_bytes es),
        pr_final_needs_newline = False, pr_dropped_partial = False\<rparr>
     else if n < length (line_text e) then \<lparr>pr_events = map reloaded es,
        pr_committed_length = length (rollout_bytes es), pr_final_needs_newline = False, pr_dropped_partial = True\<rparr>
     else if n = length (line_text e) then \<lparr>pr_events = map reloaded (es @ [e]),
        pr_committed_length = length (rollout_bytes es) + n, pr_final_needs_newline = True, pr_dropped_partial = False\<rparr>
     else \<lparr>pr_events = map reloaded (es @ [e]), pr_committed_length = length (rollout_bytes (es @ [e])),
        pr_final_needs_newline = False, pr_dropped_partial = False\<rparr>)" (is "_ = Inr ?r")
proof -
  let ?t = "line_text e"
  note l = storable_line [OF e(1)]
  have start: "parse_rollout iso_utc loads sid (rollout_bytes es @ rest) =
      parse_records iso_utc loads sid (map reloaded es) (length (rollout_bytes es)) (records rest)" for rest
    using parse_lines [OF assms(1), of sid "[]" 0 "records rest"] assms(2)
    by (simp add: parse_rollout_def records_lines [OF assms(1)])
  have part: "one_line (take n ?t)" using l(2) by (auto simp: list_all_iff dest: in_set_takeD)
  have ev: "event_from_dict iso_utc (sort_keys (event_document e)) = Inr (reloaded e)"
    using e(1) by (intro event_from_sorted) (simp add: storable_def)
  consider "n = 0" | "0 < n" "n < length ?t" | "n = length ?t" | "length ?t < n" by linarith
  then show ?thesis
  proof cases
    case 1 then show ?thesis using start [of "[]"] by simp
  next
    case 2
    then have t: "take n (rollout_line e) = take n ?t" "take n ?t \<noteq> []" by auto
    show ?thesis unfolding t(1) start records_partial [OF part]
      using 2 t(2) l(5) [of n] one_line_last [OF part] by (simp add: Let_def rstrip_line(2) [OF part])
  next
    case 3
    then have t: "take n (rollout_line e) = ?t" by simp
    show ?thesis unfolding t start records_partial [OF l(2)]
      using 3 l(3,4) one_line_last [OF l(2)] ev e(2,3) by (simp add: Let_def rstrip_line(2) [OF l(2)])
  next
    case 4
    then have t: "take n (rollout_line e) = ?t @ lf # []" by simp
    have "parse_records iso_utc loads sid (map reloaded es) (length (rollout_bytes es)) (rollout_line e # []) =
        parse_records iso_utc loads sid (map reloaded es @ [reloaded e])
          (length (rollout_bytes es) + length (rollout_line e)) []"
      using e by (intro parse_line) simp_all
    then show ?thesis unfolding t start records_line [OF l(2)] using 4 l(3) by (simp add: rollout_bytes_def)
  qed
qed

lemma recover_tail:
  assumes "list_all (storable iso_utc loads) es" "numbered sid 0 es"
    "storable iso_utc loads e" "ev_session_id e = sid" "ev_seq e = int (length es) + 1"
  shows "read_and_repair_tail iso_utc loads sid (rollout_bytes es @ take n (rollout_line e)) =
    (let kept = (if n < length (line_text e) then es else es @ [e]) in Inr (map reloaded kept, rollout_bytes kept))"
proof -
  have "line_text e \<noteq> []" using storable_line(3) [OF assms(3)] .
  then show ?thesis unfolding read_and_repair_tail_def parse_tail [OF assms]
    by (auto simp: Let_def rollout_bytes_def)
qed

subsection \<open>A store at work\<close>

text \<open>Appending a sequence of events, each of them successfully.\<close>

fun append_all :: "rollout_store \<Rightarrow> event list \<Rightarrow> py_error + rollout_store" where
  "append_all st [] = Inr st"
| "append_all st (e # es) = (case append_event st e Written of
     (Inl x, _) \<Rightarrow> Inl x | (Inr _, st') \<Rightarrow> append_all st' es)"

definition new_store :: "string \<Rightarrow> rollout_store" where
  "new_store sid = \<lparr>ro_session_id = sid, ro_file = [], ro_events = [], ro_open = True, ro_poisoned = False\<rparr>"

lemma append_event_Inr:
  assumes "append_event st e Written = (Inr x, st')" "storable iso_utc loads e"
  shows "x = e \<and> ev_session_id e = ro_session_id st \<and> ev_seq e = int (length (ro_events st)) + 1 \<and> ro_open st \<and>
    \<not> ro_poisoned st \<and> st' = st\<lparr>ro_file := ro_file st @ rollout_line e, ro_events := ro_events st @ [e]\<rparr>"
  using assms(1) storable_line(1) [OF assms(2)]
  by (auto simp: append_event_def require_open_def succ_simps split: sum.splits)

lemma append_all_Inr:
  assumes "append_all st es = Inr st'" "list_all (storable iso_utc loads) es" "ro_open st" "\<not> ro_poisoned st"
  shows "numbered (ro_session_id st) (int (length (ro_events st))) es \<and>
    st' = st\<lparr>ro_file := ro_file st @ rollout_bytes es, ro_events := ro_events st @ es\<rparr>"
  using assms
proof (induction es arbitrary: st)
  case Nil
  then show ?case by (simp add: numbered_def rollout_bytes_def)
next
  case (Cons e es)
  then obtain x st1 where a: "append_event st e Written = (Inr x, st1)" "append_all st1 es = Inr st'"
    by (auto split: prod.splits sum.splits)
  have e: "storable iso_utc loads e" using Cons.prems(2) by simp
  note one = append_event_Inr [OF a(1) e]
  with Cons.IH [OF a(2)] Cons.prems show ?case
    by (simp add: numbered_Cons rollout_bytes_def add.commute [of 1])
qed

text \<open>A one-event session, and the \<open>json.loads\<close> of its line.\<close>

definition demo_fact :: event where
  "demo_fact = example_event 1 ''session_created'' [(''cwd'', PStr ''/'')]"

definition demo_read :: "string \<Rightarrow> pyval option" where
  "demo_read s = (if s = line_text demo_fact then Some (sort_keys (event_document demo_fact)) else None)"

lemma demo_storable: "storable (\<lambda>s. s = ''t'') demo_read demo_fact"
proof -
  have "event_ok (\<lambda>s. s = ''t'') demo_fact" by (simp add: event_ok_def demo_fact_def example_event_def)
  moreover have "one_line_floats (PProxy (ev_payload demo_fact))" by code_simp
  moreover have "utf8_split (line_text demo_fact) = Some (line_text demo_fact, [])" by code_simp
  moreover have "demo_read (take n (line_text demo_fact)) = None" if "n < length (line_text demo_fact)" for n
    using that by (simp add: demo_read_def)
  ultimately show ?thesis by (simp add: storable_def loads_line_def demo_read_def)
qed

text \<open>
  C7. A crash loses nothing that was committed. Take a new store, append events \<open>es\<close>
  successfully, and let the write of one more event fail after its first \<open>n\<close> bytes: the store
  is poisoned and refuses further work, and opening the session again yields exactly the
  events appended before, with the failing one only if all the bytes of its document had
  reached the file; the repaired file consists of exactly the lines of those events.
\<close>

theorem crash_keeps_committed_events:
  assumes "append_all (new_store sid) es = Inr st" "append_event st e (WriteFailed n) = (Inl err, st')"
    "ev_session_id e = sid" "ev_seq e = int (length es) + 1"
    "list_all (storable iso_utc loads) (es @ [e])" "is_uuid sid"
  shows "let kept = (if n < length (line_text e) then es else es @ [e]) in
    open_store iso_utc loads (PStr sid) (ro_file st') = Inr
      \<lparr>ro_session_id = sid, ro_file = rollout_bytes kept, ro_events = map reloaded kept, ro_open = True,
       ro_poisoned = False\<rparr> \<and>
    load_events st' = Inl (StorePoisonedError ''rollout store is poisoned after an append failure'')"
proof -
  have ok: "list_all (storable iso_utc loads) es" "storable iso_utc loads e" using assms(5) by simp_all
  have st: "numbered sid 0 es" "st = (new_store sid)\<lparr>ro_file := rollout_bytes es, ro_events := es\<rparr>"
    using append_all_Inr [OF assms(1) ok(1)] by (simp_all add: new_store_def)
  have "st' = st\<lparr>ro_file := rollout_bytes es @ take n (rollout_line e), ro_poisoned := True, ro_open := False\<rparr>"
    using assms(2,3,4) storable_line(1) [OF ok(2)] st(2)
    by (auto simp: append_event_def require_open_def new_store_def split: sum.splits)
  then show ?thesis
    using recover_tail [OF ok(1) st(1) ok(2) assms(3,4), of n] assms(6)
    by (simp add: open_store_def validate_session_id_def load_events_def require_open_def Let_def)
qed

lemma crash_keeps_committed_events_witness:
  "\<exists>st'. snd (append_event (new_store uuid_b) demo_fact (WriteFailed 10)) = st' \<and>
     open_store (\<lambda>s. s = ''t'') demo_read (PStr uuid_b) (ro_file st') = Inr (new_store uuid_b)"
proof -
  have a: "append_all (new_store uuid_b) [] = Inr (new_store uuid_b)" by simp
  obtain err st' where b: "append_event (new_store uuid_b) demo_fact (WriteFailed 10) = (Inl err, st')"
    using storable_line(1) [OF demo_storable]
    by (simp add: append_event_def require_open_def new_store_def demo_fact_def example_event_def)
  have c: "ev_session_id demo_fact = uuid_b" "ev_seq demo_fact = int (length []) + 1"
    by (simp_all add: demo_fact_def example_event_def)
  have d: "list_all (storable (\<lambda>s. s = ''t'') demo_read) ([] @ [demo_fact])" using demo_storable by simp
  have "10 < length (line_text demo_fact)" by code_simp
  with crash_keeps_committed_events [OF a b c d uuid_examples(2)] b show ?thesis
    by (simp add: Let_def new_store_def rollout_bytes_def)
qed

end
