(* ===== verification/ToolSchema.thy ===== *)
theory ToolSchema
  imports PyPrelude
begin

section \<open>Tool schemas and argument validation (tools/registry.py)\<close>

text \<open>
  The finite subset of JSON Schema the tools advertise: \<open>check_schema\<close> accepts a schema when
  a tool is registered, \<open>validate_value\<close> checks the arguments a model supplies. The \<open>path\<close>
  parameter of both only labels messages and is left out, as interpolated text is everywhere.
\<close>

subsection \<open>Python comparisons\<close>

text \<open>\<open>math.isfinite\<close> converts an integer to a float first, which raises beyond the double range.\<close>

definition float_range :: "int \<Rightarrow> bool" where
  "float_range i \<longleftrightarrow> \<bar>i\<bar> < 2 ^ 1024 - 2 ^ 970"

definition isfinite :: "pyval \<Rightarrow> py_error + bool" where
  "isfinite v = (case v of
     PInt i \<Rightarrow> raise_if (\<not> float_range i) (OverflowError ''int too large to convert to float'') (Inr True)
   | PBool b \<Rightarrow> Inr True
   | PFloat _ _ \<Rightarrow> Inr True
   | PNonFinite _ \<Rightarrow> Inr False
   | _ \<Rightarrow> Inl (TypeError ''must be real number''))"

text \<open>\<open>a < b\<close> on numbers; a non-finite float is named by its \<open>repr\<close>: \<open>inf\<close>, \<open>-inf\<close> or \<open>nan\<close>.\<close>

definition num_less :: "pyval \<Rightarrow> pyval \<Rightarrow> py_error + bool" where
  "num_less a b = (case (py_num a, py_num b) of
     (Some x, Some y) \<Rightarrow> Inr (x < y)
   | _ \<Rightarrow> (case (a, b) of
       (PNonFinite m, PNonFinite n) \<Rightarrow> Inr (m \<noteq> ''nan'' \<and> n \<noteq> ''nan'' \<and> m = ''-inf'' \<and> n = ''inf'')
     | (PNonFinite m, _) \<Rightarrow>
         (if py_num b \<noteq> None then Inr (m = ''-inf'') else Inl (TypeError ''< not supported''))
     | (_, PNonFinite n) \<Rightarrow>
         (if py_num a \<noteq> None then Inr (n = ''inf'') else Inl (TypeError ''< not supported''))
     | _ \<Rightarrow> Inl (TypeError ''< not supported'')))"

text \<open>\<open>==\<close>, elementwise in containers; the order of dictionary entries does not matter.\<close>

lemma size_dict_value: "(k, v) \<in> set kvs \<Longrightarrow> size v < Suc (size_list (size_prod (\<lambda>_. 0) size) kvs)"
  by (induction kvs) auto

function (sequential) py_equal :: "pyval \<Rightarrow> pyval \<Rightarrow> bool" where
  "py_equal (PList xs) (PList ys) = (length xs = length ys \<and> list_all (\<lambda>(x, y). py_equal x y) (zip xs ys))"
| "py_equal (PTuple xs) (PTuple ys) = (length xs = length ys \<and> list_all (\<lambda>(x, y). py_equal x y) (zip xs ys))"
| "py_equal (PDict xs) (PDict ys) = (length xs = length ys \<and>
     list_all (\<lambda>(k, v). case map_of ys k of None \<Rightarrow> False | Some w \<Rightarrow> py_equal v w) xs)"
| "py_equal (PNonFinite m) (PNonFinite n) = (m = n \<and> m \<noteq> ''nan'')"
| "py_equal v w = py_eq v w"
  by pat_completeness auto
termination
proof (relation "measure (\<lambda>(v, w). size v)")
  show "wf (measure (\<lambda>(v :: pyval, w :: pyval). size v))" by simp
  show "((x, y), PList xs, PList ys) \<in> measure (\<lambda>(v, w). size v)"
    if "z \<in> set (zip xs ys)" "(x, y) = z" for z x y xs ys
    using that size_list_estimation' [of x xs "size x" size] by (fastforce dest: set_zip_leftD)
  show "((x, y), PTuple xs, PTuple ys) \<in> measure (\<lambda>(v, w). size v)"
    if "z \<in> set (zip xs ys)" "(x, y) = z" for z x y xs ys
    using that size_list_estimation' [of x xs "size x" size] by (fastforce dest: set_zip_leftD)
  show "((v, w), PDict xs, PDict ys) \<in> measure (\<lambda>(v, w). size v)"
    if "z \<in> set xs" "(k, v) = z" "map_of ys k = Some w" for z k v w and xs ys :: mapping
    using that size_dict_value [of k v xs] by auto
qed

subsection \<open>Checking a schema\<close>

definition supported_types :: "string set" where
  "supported_types = {''object'', ''string'', ''integer'', ''number'', ''boolean'', ''array''}"

definition number_type :: "pyval \<Rightarrow> bool" where \<comment> \<open>an \<open>int\<close> or a \<open>float\<close>, not a \<open>bool\<close>\<close>
  "number_type v = (case v of PInt _ \<Rightarrow> True | PFloat _ _ \<Rightarrow> True | PNonFinite _ \<Rightarrow> True | _ \<Rightarrow> False)"

definition check_bound :: "mapping \<Rightarrow> string \<Rightarrow> py_error + unit" where
  "check_bound schema bound =
     (if \<not> has_key schema bound then Inr ()
      else
        raise_if (\<not> number_type (get schema bound)) (ValueError ''must be a finite number'') (
        bindE (isfinite (get schema bound)) (\<lambda>fin.
        raise_if (\<not> fin) (ValueError ''must be a finite number'') (Inr ()))))"

definition check_scalars :: "mapping \<Rightarrow> string \<Rightarrow> py_error + unit" where
  "check_scalars schema ty =
     raise_if (get schema ''enum'' \<noteq> PNone \<and>
         (case get schema ''enum'' of PList vs \<Rightarrow> vs = [] | _ \<Rightarrow> True))
       (ValueError ''enum must be a non-empty array'') (
     raise_if (has_key schema ''minLength'' \<and> (ty \<noteq> ''string'' \<or>
         (case as_int (get schema ''minLength'') of None \<Rightarrow> True | Some n \<Rightarrow> n < 0)))
       (ValueError ''minLength must be a non-negative integer'') (
     bindE (check_bound schema ''minimum'') (\<lambda>_. check_bound schema ''maximum'')))"

definition required_names :: "mapping \<Rightarrow> py_error + string list" where
  "required_names schema = (case get_or schema ''required'' (PList []) of
     PList rs \<Rightarrow> need (those (map as_str rs)) (ValueError ''required must be an array of strings'')
   | _ \<Rightarrow> Inl (ValueError ''required must be an array of strings''))"

lemma size_get: "size (get d k) \<le> size (PDict d)"
  using size_dict_value [OF map_of_SomeD, of d k]
  by (cases "map_of d k") (fastforce simp: get_def get_or_def)+

lemma size_get_key: "has_key d k \<Longrightarrow> size (get d k) < size (PDict d)"
  using size_dict_value [OF map_of_SomeD, of d k] by (auto simp: get_def get_or_def has_key_def)

lemma size_as_map: "as_map s = Some d \<Longrightarrow> size s = size (PDict d)"
  by (cases s) auto

lemma size_list_item: "x \<in> set xs \<Longrightarrow> size x < size (PList xs)"
  by (induction xs) auto

lemma smaller_variant:
  "as_map s = Some d \<Longrightarrow> get d k = PList vs \<Longrightarrow> v \<in> set vs \<Longrightarrow> size v < size s"
  using size_get [of d k] size_list_item [of v vs] size_as_map [of s d] by simp

lemma smaller_child:
  "as_map s = Some d \<Longrightarrow> as_map (get d k) = Some ps \<Longrightarrow> (n, c) \<in> set ps \<Longrightarrow> size c < size s"
  using size_get [of d k] size_dict_value [of n c ps] size_as_map [of s d] size_as_map [of "get d k" ps] by simp

lemma smaller_items: "as_map s = Some d \<Longrightarrow> has_key d k \<Longrightarrow> size (get d k) < size s"
  using size_get_key [of d k] size_as_map [of s d] by simp

function check_schema :: "pyval \<Rightarrow> py_error + unit" where
  "check_schema s =
     bindE (need (as_map s) (ValueError ''schema must be an object'')) (\<lambda>schema.
     if has_key schema ''anyOf'' then
       (case get schema ''anyOf'' of
          PList (v # vs) \<Rightarrow> each check_schema (v # vs)
        | _ \<Rightarrow> Inl (ValueError ''anyOf must be a non-empty array''))
     else
       raise_if (\<not> hashable (get schema ''type'')) (TypeError ''unhashable type'') (
       bindE (need (as_str (get schema ''type'')) (ValueError ''type is unsupported'')) (\<lambda>ty.
       raise_if (ty \<notin> supported_types) (ValueError ''type is unsupported'') (
       bindE (check_scalars schema ty) (\<lambda>_.
       bindE (if ty = ''object'' then
           bindE (need (as_map (get schema ''properties'')) (ValueError ''properties must be an object'')) (\<lambda>properties.
           bindE (required_names schema) (\<lambda>required.
           raise_if (\<not> distinct required) (ValueError ''required must not contain duplicates'') (
           raise_if (\<exists>r \<in> set required. \<not> has_key properties r)
             (ValueError ''required contains an unknown property'') (
           raise_if (get schema ''additionalProperties'' \<noteq> PBool False)
             (ValueError ''additionalProperties must be false'') (
           each (\<lambda>(name, child). check_schema child) properties)))))
         else Inr ()) (\<lambda>_.
       if ty = ''array'' then
         raise_if (\<not> has_key schema ''items'') (ValueError ''items is required'')
           (check_schema (get schema ''items''))
       else Inr ()))))))"
  by pat_completeness auto

termination
  by (relation "measure size")
     (auto simp: succ_simps intro: smaller_variant smaller_child smaller_items)

declare check_schema.simps [simp del]

subsection \<open>Validating arguments\<close>

text \<open>
  A schema that was never checked can make the Python code fail in more ways than a model
  needs: iterating a value that is not an array, or looking up a key of a value that is not
  an object, is a \<open>TypeError\<close> here. \<open>validation_never_crashes\<close> below shows that no such branch
  is reached for a schema \<open>check_schema\<close> accepted.
\<close>

definition valid_type :: "string \<Rightarrow> pyval \<Rightarrow> py_error + bool" where
  "valid_type ty v =
     (if ty = ''object'' then Inr (as_dict v \<noteq> None)
      else if ty = ''string'' then Inr (as_str v \<noteq> None)
      else if ty = ''integer'' then Inr (as_int v \<noteq> None)
      else if ty = ''number'' then (if number_type v then isfinite v else Inr False)
      else if ty = ''boolean'' then Inr (as_bool v \<noteq> None)
      else if ty = ''array'' then Inr (case v of PList _ \<Rightarrow> True | _ \<Rightarrow> False)
      else Inl (KeyError ty))"

fun type_name :: "pyval \<Rightarrow> string" where
  "type_name PNone = ''NoneType''"
| "type_name (PBool _) = ''bool''"
| "type_name (PInt _) = ''int''"
| "type_name (PFloat _ _) = ''float''"
| "type_name (PNonFinite _) = ''float''"
| "type_name (PStr _) = ''str''"
| "type_name (PList _) = ''list''"
| "type_name (PTuple _) = ''tuple''"
| "type_name (PDict _) = ''dict''"
| "type_name (PProxy _) = ''mappingproxy''"
| "type_name (PObject c) = ''object '' @ c"

definition same_type :: "pyval \<Rightarrow> pyval \<Rightarrow> bool" where
  "same_type v w \<longleftrightarrow> type_name v = type_name w"

definition in_enum :: "pyval \<Rightarrow> pyval list \<Rightarrow> bool" where
  "in_enum v candidates \<longleftrightarrow> (\<exists>c \<in> set candidates. same_type v c \<and> py_equal v c)"

definition validate_bounds :: "mapping \<Rightarrow> pyval \<Rightarrow> py_error + unit" where
  "validate_bounds schema v =
     bindE (if has_key schema ''minimum'' then num_less v (get schema ''minimum'') else Inr False) (\<lambda>low.
     raise_if low (ToolValidationError ''must be >= minimum'') (
     bindE (if has_key schema ''maximum'' then num_less (get schema ''maximum'') v else Inr False) (\<lambda>high.
     raise_if high (ToolValidationError ''must be <= maximum'') (Inr ()))))"

definition validate_shape :: "mapping \<Rightarrow> string \<Rightarrow> pyval \<Rightarrow> py_error + unit" where
  "validate_shape schema ty v =
     bindE (valid_type ty v) (\<lambda>valid.
     raise_if (\<not> valid) (ToolValidationError ''must be of the schema type'') (
     bindE (if ty = ''string'' then
         num_less (PInt (case v of PStr s \<Rightarrow> int (py_len s) | _ \<Rightarrow> 0)) (get_or schema ''minLength'' (PInt 0))
       else Inr False) (\<lambda>short.
     raise_if short (ToolValidationError ''must not be empty'') (
     bindE (if get schema ''enum'' = PNone then Inr True
       else bindE (need (as_seq (get schema ''enum'')) (TypeError ''not iterable'')) (\<lambda>cs. Inr (in_enum v cs))) (\<lambda>listed.
     raise_if (\<not> listed) (ToolValidationError ''must be one of the enum'')
       (validate_bounds schema v))))))"

definition require_property :: "mapping \<Rightarrow> pyval \<Rightarrow> py_error + unit" where
  "require_property d r =
     raise_if (\<not> hashable r) (TypeError ''unhashable type'') (
     raise_if (case as_str r of None \<Rightarrow> True | Some k \<Rightarrow> \<not> has_key d k)
       (ToolValidationError ''missing required property'') (Inr ()))"

text \<open>The loop over \<open>anyOf\<close>: the first variant that does not raise a validation error decides.\<close>

fun any_of :: "('a \<Rightarrow> py_error + unit) \<Rightarrow> 'a list \<Rightarrow> py_error + unit" where
  "any_of f [] = Inl (ToolValidationError ''does not match any allowed schema'')"
| "any_of f (x # xs) = (case f x of
     Inl (ToolValidationError _) \<Rightarrow> any_of f xs
   | r \<Rightarrow> r)"

lemma any_of_cong [fundef_cong]:
  "xs = ys \<Longrightarrow> (\<And>x. x \<in> set ys \<Longrightarrow> f x = g x) \<Longrightarrow> any_of f xs = any_of g ys"
  by (induction ys arbitrary: xs) (auto split: sum.splits py_error.splits)

lemma smaller_property:
  assumes "as_map s = Some d" "as_map (get d ''properties'') = Some ps"
  shows "size (get ps k) < size s"
proof -
  have "has_key d ''properties''"
    using assms(2) by (cases "map_of d ''properties''") (auto simp: has_key_def get_def get_or_def)
  then show ?thesis
    using smaller_items [OF assms(1), of "''properties''"] size_as_map [OF assms(2)] size_get [of ps k] by simp
qed

function validate_value :: "pyval \<Rightarrow> pyval \<Rightarrow> py_error + unit" where
  "validate_value s v =
     bindE (need (as_map s) (TypeError ''schema is not an object'')) (\<lambda>schema.
     if get schema ''anyOf'' \<noteq> PNone then
       (case get schema ''anyOf'' of
          PList variants \<Rightarrow> any_of (\<lambda>variant. validate_value variant v) variants
        | _ \<Rightarrow> Inl (TypeError ''anyOf is not an array''))
     else
       raise_if (\<not> has_key schema ''type'') (KeyError ''type'') (
       bindE (need (as_str (get schema ''type'')) (KeyError ''type'')) (\<lambda>ty.
       bindE (validate_shape schema ty v) (\<lambda>_.
       if ty = ''object'' then
         bindE (need (as_map (get schema ''properties'')) (KeyError ''properties'')) (\<lambda>properties.
         bindE (need (as_dict v) (TypeError ''not an object'')) (\<lambda>d.
         bindE (need (as_seq (get_or schema ''required'' (PList []))) (TypeError ''not iterable'')) (\<lambda>rs.
         bindE (each (require_property d) rs) (\<lambda>_.
         raise_if (\<exists>(k, x) \<in> set d. \<not> has_key properties k) (ToolValidationError ''unknown property'') (
         each (\<lambda>(k, x). validate_value (get properties k) x) d)))))
       else if ty = ''array'' then
         raise_if (\<not> has_key schema ''items'') (KeyError ''items'') (
         bindE (need (as_seq v) (TypeError ''not an array'')) (\<lambda>xs.
         each (\<lambda>x. validate_value (get schema ''items'') x) xs))
       else Inr ()))))"
  by pat_completeness auto

termination
  by (relation "measure (\<lambda>(s, v). size s)")
     (auto simp: succ_simps intro: smaller_variant smaller_property smaller_items)

declare validate_value.simps [simp del]

subsection \<open>What a schema means\<close>

text \<open>
  The meaning of an accepted schema, stated without an order of checks or errors: a value
  has the type of the schema and lies within its bounds, and its items and properties
  conform in turn.
\<close>

fun has_type :: "string \<Rightarrow> pyval \<Rightarrow> bool" where
  "has_type ty (PDict _) = (ty = ''object'')"
| "has_type ty (PStr _) = (ty = ''string'')"
| "has_type ty (PInt _) = (ty \<in> {''integer'', ''number''})"
| "has_type ty (PFloat _ _) = (ty = ''number'')"
| "has_type ty (PBool _) = (ty = ''boolean'')"
| "has_type ty (PList _) = (ty = ''array'')"
| "has_type ty _ = False"

definition at_least :: "pyval \<Rightarrow> pyval \<Rightarrow> bool" where
  "at_least v b \<longleftrightarrow> (\<exists>x y. py_num v = Some x \<and> py_num b = Some y \<and> y \<le> x)"

definition in_bounds :: "mapping \<Rightarrow> pyval \<Rightarrow> bool" where
  "in_bounds schema v \<longleftrightarrow>
     (\<forall>n s. get schema ''minLength'' = PInt n \<and> v = PStr s \<longrightarrow> n \<le> int (py_len s)) \<and>
     (\<forall>cs. get schema ''enum'' = PList cs \<longrightarrow> in_enum v cs) \<and>
     (has_key schema ''minimum'' \<longrightarrow> at_least v (get schema ''minimum'')) \<and>
     (has_key schema ''maximum'' \<longrightarrow> at_least (get schema ''maximum'') v)"

inductive conforms :: "pyval \<Rightarrow> pyval \<Rightarrow> bool" where
  variant: "as_map s = Some schema \<Longrightarrow> get schema ''anyOf'' = PList variants \<Longrightarrow> w \<in> set variants \<Longrightarrow>
     conforms w v \<Longrightarrow> conforms s v"
| scalar: "as_map s = Some schema \<Longrightarrow> get schema ''anyOf'' = PNone \<Longrightarrow> get schema ''type'' = PStr ty \<Longrightarrow>
     ty \<noteq> ''object'' \<Longrightarrow> ty \<noteq> ''array'' \<Longrightarrow> has_type ty v \<Longrightarrow> in_bounds schema v \<Longrightarrow> conforms s v"
| array: "as_map s = Some schema \<Longrightarrow> get schema ''anyOf'' = PNone \<Longrightarrow> get schema ''type'' = PStr ''array'' \<Longrightarrow>
     in_bounds schema (PList xs) \<Longrightarrow> (\<forall>x \<in> set xs. conforms (get schema ''items'') x) \<Longrightarrow> conforms s (PList xs)"
| object: "as_map s = Some schema \<Longrightarrow> get schema ''anyOf'' = PNone \<Longrightarrow> get schema ''type'' = PStr ''object'' \<Longrightarrow>
     in_bounds schema (PDict d) \<Longrightarrow> as_map (get schema ''properties'') = Some properties \<Longrightarrow>
     required_names schema = Inr required \<Longrightarrow> (\<forall>r \<in> set required. has_key d r) \<Longrightarrow>
     (\<forall>(k, x) \<in> set d. has_key properties k \<and> conforms (get properties k) x) \<Longrightarrow> conforms s (PDict d)"

inductive_cases conformsE: "conforms s v"

text \<open>
  Two conditions under which no check can fail for another reason than the value: bounds
  are given for numeric types only, and every number of the value is in the double range.
\<close>

definition bound_types_ok :: "mapping \<Rightarrow> bool" where
  "bound_types_ok schema \<longleftrightarrow> (has_key schema ''minimum'' \<or> has_key schema ''maximum'' \<longrightarrow>
     get schema ''type'' = PStr ''integer'' \<or> get schema ''type'' = PStr ''number'')"

function bounds_on_numbers :: "pyval \<Rightarrow> bool" where
  "bounds_on_numbers s = (case as_map s of None \<Rightarrow> True | Some schema \<Rightarrow>
     if has_key schema ''anyOf'' then
       (case get schema ''anyOf'' of PList vs \<Rightarrow> list_all bounds_on_numbers vs | _ \<Rightarrow> True)
     else bound_types_ok schema \<and>
       (case as_map (get schema ''properties'') of None \<Rightarrow> True
          | Some ps \<Rightarrow> list_all (\<lambda>(k, c). bounds_on_numbers c) ps) \<and>
       (has_key schema ''items'' \<longrightarrow> bounds_on_numbers (get schema ''items'')))"
  by pat_completeness auto
termination
  by (relation "measure size") (auto intro: smaller_variant smaller_child smaller_items)

declare bounds_on_numbers.simps [simp del]

fun float_safe :: "pyval \<Rightarrow> bool" where
  "float_safe (PInt i) = float_range i"
| "float_safe (PList vs) = list_all float_safe vs"
| "float_safe (PDict kvs) = list_all (\<lambda>kv. float_safe (snd kv)) kvs"
| "float_safe _ = True"

text \<open>One schema, one level.\<close>

abbreviation settles :: "py_error + unit \<Rightarrow> bool \<Rightarrow> bool" where
  "settles r ok \<equiv> (r = Inr () \<longleftrightarrow> ok) \<and> (\<forall>e. r = Inl e \<longrightarrow> (\<exists>m. e = ToolValidationError m))"

lemma settles_bind:
  assumes "settles r a" "a \<Longrightarrow> settles q b"
  shows "settles (bindE r (\<lambda>_. q)) (a \<and> b)"
  using assms by (cases r) auto

lemma settles_raise:
  assumes "settles q b"
  shows "settles (raise_if c (ToolValidationError m) q) (\<not> c \<and> b)"
  using assms by (cases c) auto

lemma settles_each:
  assumes "\<And>x. x \<in> set xs \<Longrightarrow> settles (f x) (P x)"
  shows "settles (each f xs) (\<forall>x \<in> set xs. P x)"
  using assms by (auto simp: each_Inr_iff dest!: each_Inl)

lemma settles_any_of:
  assumes "\<And>x. x \<in> set xs \<Longrightarrow> settles (f x) (P x)"
  shows "settles (any_of f xs) (\<exists>x \<in> set xs. P x)"
  using assms
proof (induction xs)
  case (Cons x xs)
  have IH: "settles (any_of f xs) (\<exists>x \<in> set xs. P x)"
    by (rule Cons.IH) (rule Cons.prems [OF list.set_intros(2)])
  show ?case
  proof (cases "f x")
    case (Inl e)
    with Cons.prems [of x] obtain m where "e = ToolValidationError m" "\<not> P x" by auto
    with Inl IH show ?thesis by simp
  next
    case (Inr u)
    with Cons.prems [of x] show ?thesis by simp
  qed
qed simp

lemma valid_type_number:
  "has_type ''number'' v \<Longrightarrow> \<exists>x. py_num v = Some x" "has_type ''integer'' v \<Longrightarrow> \<exists>x. py_num v = Some x"
  by (cases v; simp)+

lemma valid_type_iff:
  assumes "ty \<in> supported_types" "float_safe v"
  shows "valid_type ty v = Inr (has_type ty v)"
  using assms by (cases v) (auto simp: valid_type_def supported_types_def number_type_def isfinite_def raise_if_def)

lemma check_bound_number:
  "check_bound schema b = Inr () \<Longrightarrow> has_key schema b \<Longrightarrow> \<exists>y. py_num (get schema b) = Some y"
  by (cases "get schema b") (auto simp: check_bound_def isfinite_def number_type_def succ_simps)

lemma validate_bounds_settles:
  assumes "check_scalars schema ty = Inr ()" "bound_types_ok schema" "get schema ''type'' = PStr ty" "has_type ty v"
  shows "settles (validate_bounds schema v)
    ((has_key schema ''minimum'' \<longrightarrow> at_least v (get schema ''minimum'')) \<and>
     (has_key schema ''maximum'' \<longrightarrow> at_least (get schema ''maximum'') v))"
proof (cases "has_key schema ''minimum'' \<or> has_key schema ''maximum''")
  case True
  then obtain x where x: "py_num v = Some x"
    using assms(2-4) valid_type_number [of v] by (auto simp: bound_types_ok_def)
  have "check_bound schema ''minimum'' = Inr ()" "check_bound schema ''maximum'' = Inr ()"
    using assms(1) by (auto simp: check_scalars_def succ_simps)
  note nums = this [THEN check_bound_number]
  have low: "has_key schema ''minimum'' \<Longrightarrow>
      num_less v (get schema ''minimum'') = Inr (\<not> at_least v (get schema ''minimum''))"
    using nums(1) x by (auto simp: num_less_def at_least_def)
  have high: "has_key schema ''maximum'' \<Longrightarrow>
      num_less (get schema ''maximum'') v = Inr (\<not> at_least (get schema ''maximum'') v)"
    using nums(2) x by (auto simp: num_less_def at_least_def)
  show ?thesis
    by (cases "has_key schema ''minimum''"; cases "has_key schema ''maximum''")
       (auto simp: validate_bounds_def low high raise_if_def)
qed (auto simp: validate_bounds_def)

lemma validate_shape_settles:
  assumes "check_scalars schema ty = Inr ()" "bound_types_ok schema" "get schema ''type'' = PStr ty"
    "ty \<in> supported_types" "float_safe v"
  shows "settles (validate_shape schema ty v) (has_type ty v \<and> in_bounds schema v)"
proof (cases "has_type ty v")
  case False
  then show ?thesis using valid_type_iff [OF assms(4,5)] by (simp add: validate_shape_def)
next
  case True
  have enum: "get schema ''enum'' = PNone \<or> (\<exists>cs. get schema ''enum'' = PList cs)"
    using assms(1) by (cases "get schema ''enum''") (auto simp: check_scalars_def succ_simps)
  have len: "\<not> has_key schema ''minLength'' \<or> ty = ''string'' \<and> (\<exists>n. get schema ''minLength'' = PInt n)"
    using assms(1) by (auto simp: check_scalars_def succ_simps split: option.splits)
  define short where "short \<longleftrightarrow> (\<exists>n s. get schema ''minLength'' = PInt n \<and> v = PStr s \<and> int (py_len s) < n)"
  have short: "(if ty = ''string'' then
         num_less (PInt (case v of PStr s \<Rightarrow> int (py_len s) | _ \<Rightarrow> 0)) (get_or schema ''minLength'' (PInt 0))
       else Inr False) = Inr short"
  proof (cases "ty = ''string''")
    case ty: True
    then obtain s where s: "v = PStr s" using \<open>has_type ty v\<close> by (cases v) auto
    show ?thesis using len ty s
      by (auto simp: short_def num_less_def has_key_def get_def get_or_def split: option.splits)
  next
    case False
    then have "v \<noteq> PStr s" for s using True by auto
    then show ?thesis using False by (simp add: short_def)
  qed
  define listed where "listed \<longleftrightarrow> (\<forall>cs. get schema ''enum'' = PList cs \<longrightarrow> in_enum v cs)"
  have listed: "(if get schema ''enum'' = PNone then Inr True
       else bindE (need (as_seq (get schema ''enum'')) (TypeError ''not iterable'')) (\<lambda>cs. Inr (in_enum v cs))) =
      Inr listed"
    using enum by (auto simp: listed_def)
  have "validate_shape schema ty v = raise_if short (ToolValidationError ''must not be empty'')
      (raise_if (\<not> listed) (ToolValidationError ''must be one of the enum'') (validate_bounds schema v))"
    unfolding validate_shape_def valid_type_iff [OF assms(4,5)] short listed bindE_simps by (simp add: True)
  then have "settles (validate_shape schema ty v) (\<not> short \<and> \<not> \<not> listed \<and>
     (has_key schema ''minimum'' \<longrightarrow> at_least v (get schema ''minimum'')) \<and>
     (has_key schema ''maximum'' \<longrightarrow> at_least (get schema ''maximum'') v))"
    using settles_raise [OF settles_raise [OF validate_bounds_settles [OF assms(1-3) True]]] by simp
  moreover have "\<not> short \<longleftrightarrow> (\<forall>n s. get schema ''minLength'' = PInt n \<and> v = PStr s \<longrightarrow> n \<le> int (py_len s))"
    by (auto simp: short_def not_less)
  ultimately show ?thesis using True by (simp add: in_bounds_def listed_def)
qed


lemma conforms_iff:
  "conforms s v \<longleftrightarrow> (\<exists>schema. as_map s = Some schema \<and>
     ((\<exists>vs w. get schema ''anyOf'' = PList vs \<and> w \<in> set vs \<and> conforms w v) \<or>
      get schema ''anyOf'' = PNone \<and> (\<exists>ty. get schema ''type'' = PStr ty \<and> has_type ty v \<and> in_bounds schema v \<and>
        (ty = ''object'' \<longrightarrow> (\<exists>d ps rs. v = PDict d \<and> as_map (get schema ''properties'') = Some ps \<and>
          required_names schema = Inr rs \<and> (\<forall>r \<in> set rs. has_key d r) \<and>
          (\<forall>(k, x) \<in> set d. has_key ps k \<and> conforms (get ps k) x))) \<and>
        (ty = ''array'' \<longrightarrow> (\<exists>xs. v = PList xs \<and> (\<forall>x \<in> set xs. conforms (get schema ''items'') x))))))"
  (is "_ \<longleftrightarrow> ?R")
proof
  assume "conforms s v"
  then show ?R
  proof cases
    case variant then show ?thesis by blast
  next
    case scalar then show ?thesis by simp
  next
    case array then show ?thesis by auto
  next
    case object then show ?thesis by auto
  qed
next
  assume ?R
  then obtain schema where s: "as_map s = Some schema" and
    c: "(\<exists>vs w. get schema ''anyOf'' = PList vs \<and> w \<in> set vs \<and> conforms w v) \<or>
      get schema ''anyOf'' = PNone \<and> (\<exists>ty. get schema ''type'' = PStr ty \<and> has_type ty v \<and> in_bounds schema v \<and>
        (ty = ''object'' \<longrightarrow> (\<exists>d ps rs. v = PDict d \<and> as_map (get schema ''properties'') = Some ps \<and>
          required_names schema = Inr rs \<and> (\<forall>r \<in> set rs. has_key d r) \<and>
          (\<forall>(k, x) \<in> set d. has_key ps k \<and> conforms (get ps k) x))) \<and>
        (ty = ''array'' \<longrightarrow> (\<exists>xs. v = PList xs \<and> (\<forall>x \<in> set xs. conforms (get schema ''items'') x))))" by blast
  from c show "conforms s v"
  proof (elim disjE exE conjE)
    fix vs w assume "get schema ''anyOf'' = PList vs" "w \<in> set vs" "conforms w v"
    then show ?thesis by (rule conforms.variant [OF s])
  next
    fix ty assume a: "get schema ''anyOf'' = PNone" "get schema ''type'' = PStr ty" "has_type ty v" "in_bounds schema v"
      "ty = ''object'' \<longrightarrow> (\<exists>d ps rs. v = PDict d \<and> as_map (get schema ''properties'') = Some ps \<and>
          required_names schema = Inr rs \<and> (\<forall>r \<in> set rs. has_key d r) \<and>
          (\<forall>(k, x) \<in> set d. has_key ps k \<and> conforms (get ps k) x))"
      "ty = ''array'' \<longrightarrow> (\<exists>xs. v = PList xs \<and> (\<forall>x \<in> set xs. conforms (get schema ''items'') x))"
    show ?thesis
    proof (cases "ty = ''object'' \<or> ty = ''array''")
      case True
      then show ?thesis using a s by (auto intro: conforms.object conforms.array)
    next
      case False
      then show ?thesis using a s by (auto intro: conforms.scalar)
    qed
  qed
qed

text \<open>What \<open>check_schema\<close> has established for one level, and for the schemas below.\<close>

lemma checked_anyOf:
  assumes "check_schema s = Inr ()" "as_map s = Some schema" "has_key schema ''anyOf''"
  shows "\<exists>vs. get schema ''anyOf'' = PList vs \<and> (\<forall>w \<in> set vs. check_schema w = Inr ())"
  using assms by (cases "get schema ''anyOf''")
    (auto simp: check_schema.simps [of s] each_Inr_iff split: list.splits dest: bindE_Inr_iff [THEN iffD1])

lemma checked_typed:
  assumes "check_schema s = Inr ()" "as_map s = Some schema" "\<not> has_key schema ''anyOf''"
  shows "\<exists>ty \<in> supported_types. get schema ''type'' = PStr ty \<and> check_scalars schema ty = Inr () \<and>
    (ty = ''object'' \<longrightarrow> (\<exists>ps rs. as_map (get schema ''properties'') = Some ps \<and> required_names schema = Inr rs \<and>
       (\<forall>(k, c) \<in> set ps. check_schema c = Inr ()))) \<and>
    (ty = ''array'' \<longrightarrow> has_key schema ''items'' \<and> check_schema (get schema ''items'') = Inr ())"
proof -
  let ?obj = "\<lambda>ty. if ty = ''object'' then
           bindE (need (as_map (get schema ''properties'')) (ValueError ''properties must be an object'')) (\<lambda>properties.
           bindE (required_names schema) (\<lambda>required.
           raise_if (\<not> distinct required) (ValueError ''required must not contain duplicates'') (
           raise_if (\<exists>r \<in> set required. \<not> has_key properties r)
             (ValueError ''required contains an unknown property'') (
           raise_if (get schema ''additionalProperties'' \<noteq> PBool False)
             (ValueError ''additionalProperties must be false'') (
           each (\<lambda>(name, child). check_schema child) properties)))))
         else Inr ()"
  let ?arr = "\<lambda>ty. if ty = ''array'' then
         raise_if (\<not> has_key schema ''items'') (ValueError ''items is required'')
           (check_schema (get schema ''items''))
       else Inr ()"
  have "\<exists>ty u w. get schema ''type'' = PStr ty \<and> \<not> ty \<notin> supported_types \<and> check_scalars schema ty = Inr w \<and>
      ?obj ty = Inr u \<and> ?arr ty = Inr ()"
    using assms(1)
    unfolding check_schema.simps [of s] assms(2) need_simps bindE_simps if_not_P [OF assms(3)]
      raise_if_Inr_iff bindE_Inr_iff [of "need _ _"] bindE_Inr_iff [of "check_scalars _ _"]
      bindE_Inr_iff [of "?obj _"] need_Inr_iff as_str_Some_iff
    by (elim exE conjE) (intro exI conjI)
  then obtain ty where ty: "get schema ''type'' = PStr ty" "ty \<in> supported_types" "check_scalars schema ty = Inr ()"
    and obj: "?obj ty = Inr ()" and arr: "?arr ty = Inr ()"
    by (elim exE conjE) simp
  have "ty = ''object'' \<Longrightarrow> \<exists>ps rs. as_map (get schema ''properties'') = Some ps \<and> required_names schema = Inr rs \<and>
       (\<forall>(k, c) \<in> set ps. check_schema c = Inr ())"
    using obj by (auto simp: succ_simps)
  moreover have "ty = ''array'' \<Longrightarrow> has_key schema ''items'' \<and> check_schema (get schema ''items'') = Inr ()"
    using arr by (simp add: succ_simps)
  ultimately show ?thesis using ty by blast
qed

lemma get_key: "get d k \<noteq> PNone \<Longrightarrow> has_key d k"
  by (cases "map_of d k") (auto simp: has_key_def get_def get_or_def)

lemma anyOf_absent:
  assumes "check_schema s = Inr ()" "as_map s = Some schema"
  shows "has_key schema ''anyOf'' \<longleftrightarrow> get schema ''anyOf'' \<noteq> PNone"
proof
  assume "has_key schema ''anyOf''"
  then show "get schema ''anyOf'' \<noteq> PNone" using checked_anyOf [OF assms] by auto
qed (rule get_key)

lemma has_type_cases:
  "has_type ''array'' v \<Longrightarrow> \<exists>xs. v = PList xs" "has_type ''object'' v \<Longrightarrow> \<exists>d. v = PDict d"
  by (cases v; simp)+

lemma require_settles:
  "settles (require_property d (PStr r)) (has_key d r)"
  by (simp add: require_property_def raise_if_def)

lemma required_seq:
  assumes "required_names schema = Inr rs"
  shows "as_seq (get_or schema ''required'' (PList [])) = Some (map PStr rs)"
proof -
  obtain vs where vs: "get_or schema ''required'' (PList []) = PList vs" "those (map as_str vs) = Some rs"
    using assms by (auto simp: required_names_def succ_simps split: pyval.splits)
  have "those (map as_str vs) = Some rs \<Longrightarrow> vs = map PStr rs" for vs rs
    by (induction vs arbitrary: rs) (auto split: option.splits)
  with vs show ?thesis by simp
qed

lemma bounds_below:
  assumes "bounds_on_numbers s" "as_map s = Some schema"
  shows "has_key schema ''anyOf'' \<Longrightarrow> get schema ''anyOf'' = PList vs \<Longrightarrow> w \<in> set vs \<Longrightarrow> bounds_on_numbers w"
    and "\<not> has_key schema ''anyOf'' \<Longrightarrow> bound_types_ok schema"
    and "\<not> has_key schema ''anyOf'' \<Longrightarrow> as_map (get schema ''properties'') = Some ps \<Longrightarrow> (k, c) \<in> set ps \<Longrightarrow>
      bounds_on_numbers c"
    and "\<not> has_key schema ''anyOf'' \<Longrightarrow> has_key schema ''items'' \<Longrightarrow> bounds_on_numbers (get schema ''items'')"
  using assms by (auto simp: bounds_on_numbers.simps [of s] list_all_iff)

lemma get_in: "has_key d k \<Longrightarrow> (k, get d k) \<in> set d"
  by (auto simp: has_key_def get_def get_or_def dest: map_of_SomeD)

text \<open>The code and its meaning, one level at a time.\<close>

lemma typed_levels:
  assumes "as_map s = Some schema" "get schema ''anyOf'' = PNone" "get schema ''type'' = PStr ty"
  shows "ty \<noteq> ''object'' \<Longrightarrow> ty \<noteq> ''array'' \<Longrightarrow>
      validate_value s v = bindE (validate_shape schema ty v) (\<lambda>_. Inr ())"
    and "ty = ''array'' \<Longrightarrow> has_key schema ''items'' \<Longrightarrow>
      validate_value s v = bindE (validate_shape schema ty v) (\<lambda>_.
        bindE (need (as_seq v) (TypeError ''not an array'')) (each (validate_value (get schema ''items''))))"
    and "ty = ''object'' \<Longrightarrow> as_map (get schema ''properties'') = Some ps \<Longrightarrow> required_names schema = Inr rs \<Longrightarrow>
      validate_value s v = bindE (validate_shape schema ty v) (\<lambda>_.
        bindE (need (as_dict v) (TypeError ''not an object'')) (\<lambda>d.
        bindE (each (require_property d) (map PStr rs)) (\<lambda>_.
        raise_if (\<exists>(k, x) \<in> set d. \<not> has_key ps k) (ToolValidationError ''unknown property'') (
        each (\<lambda>(k, x). validate_value (get ps k) x) d))))"
  using assms required_seq [of schema rs]
  by (simp_all add: validate_value.simps [of s] get_key cong del: bindE_weak_cong)

lemma typed_meaning:
  assumes "as_map s = Some schema" "get schema ''anyOf'' = PNone" "get schema ''type'' = PStr ty"
  shows "ty \<noteq> ''object'' \<Longrightarrow> ty \<noteq> ''array'' \<Longrightarrow>
      conforms s v \<longleftrightarrow> (has_type ty v \<and> in_bounds schema v) \<and> True"
    and "ty = ''array'' \<Longrightarrow> conforms s v \<longleftrightarrow> (has_type ty v \<and> in_bounds schema v) \<and>
      (\<exists>xs. v = PList xs \<and> (\<forall>x \<in> set xs. conforms (get schema ''items'') x))"
    and "ty = ''object'' \<Longrightarrow> as_map (get schema ''properties'') = Some ps \<Longrightarrow> required_names schema = Inr rs \<Longrightarrow>
      conforms s v \<longleftrightarrow> (has_type ty v \<and> in_bounds schema v) \<and>
      (\<exists>d. v = PDict d \<and> (\<forall>r \<in> set rs. has_key d r) \<and> (\<forall>(k, x) \<in> set d. has_key ps k \<and> conforms (get ps k) x))"
  using assms by (simp_all add: conforms_iff [of s])

lemma items_settle:
  assumes "has_type ''array'' v"
    and "\<And>xs x. v = PList xs \<Longrightarrow> x \<in> set xs \<Longrightarrow> settles (validate_value items x) (conforms items x)"
  shows "settles (bindE (need (as_seq v) (TypeError ''not an array'')) (each (validate_value items)))
    (\<exists>xs. v = PList xs \<and> (\<forall>x \<in> set xs. conforms items x))"
proof -
  obtain xs where xs: "v = PList xs" using assms(1) has_type_cases(1) by blast
  have "settles (each (validate_value items) xs) (\<forall>x \<in> set xs. conforms items x)"
    using assms(2) [OF xs] by (rule settles_each)
  then show ?thesis by (simp add: xs)
qed

lemma properties_settle:
  assumes "has_type ''object'' v"
    and IH: "\<And>d k x. v = PDict d \<Longrightarrow> (k, x) \<in> set d \<Longrightarrow> has_key ps k \<Longrightarrow>
      settles (validate_value (get ps k) x) (conforms (get ps k) x)"
  shows "settles (bindE (need (as_dict v) (TypeError ''not an object'')) (\<lambda>d.
      bindE (each (require_property d) (map PStr rs)) (\<lambda>_.
      raise_if (\<exists>(k, x) \<in> set d. \<not> has_key ps k) (ToolValidationError ''unknown property'') (
      each (\<lambda>(k, x). validate_value (get ps k) x) d))))
    (\<exists>d. v = PDict d \<and> (\<forall>r \<in> set rs. has_key d r) \<and> (\<forall>(k, x) \<in> set d. has_key ps k \<and> conforms (get ps k) x))"
proof -
  obtain d where d: "v = PDict d" using assms(1) has_type_cases(2) by blast
  have "settles (each (require_property d) (map PStr rs)) (\<forall>r \<in> set (map PStr rs). has_key d (the (as_str r)))"
  proof (rule settles_each)
    fix r assume "r \<in> set (map PStr rs)"
    then obtain k where "r = PStr k" by auto
    then show "settles (require_property d r) (has_key d (the (as_str r)))" using require_settles [of d k] by simp
  qed
  then have req: "settles (each (require_property d) (map PStr rs)) (\<forall>r \<in> set rs. has_key d r)" by simp
  have vals: "settles (raise_if (\<exists>(k, x) \<in> set d. \<not> has_key ps k) (ToolValidationError ''unknown property'') (
       each (\<lambda>(k, x). validate_value (get ps k) x) d)) (\<forall>(k, x) \<in> set d. has_key ps k \<and> conforms (get ps k) x)"
  proof (cases "\<exists>(k, x) \<in> set d. \<not> has_key ps k")
    case True
    then have "\<not> (\<forall>(k, x) \<in> set d. has_key ps k \<and> conforms (get ps k) x)" by blast
    then show ?thesis unfolding raise_if_def if_P [OF True] by simp
  next
    case known: False
    have "settles (each (\<lambda>(k, x). validate_value (get ps k) x) d) (\<forall>kx \<in> set d. conforms (get ps (fst kx)) (snd kx))"
    proof (rule settles_each)
      fix kx assume kx: "kx \<in> set d"
      obtain k x where [simp]: "kx = (k, x)" by (cases kx)
      have "has_key ps k" using known kx by auto
      then show "settles (case kx of (k, x) \<Rightarrow> validate_value (get ps k) x) (conforms (get ps (fst kx)) (snd kx))"
        using IH [OF d, of k x] kx by simp
    qed
    moreover have "(\<forall>kx \<in> set d. conforms (get ps (fst kx)) (snd kx)) \<longleftrightarrow>
        (\<forall>(k, x) \<in> set d. has_key ps k \<and> conforms (get ps k) x)"
      using known by auto
    ultimately show ?thesis unfolding raise_if_def if_not_P [OF known] by simp
  qed
  from settles_bind [OF req vals] show ?thesis by (simp add: d)
qed

lemma validation_settles:
  "check_schema s = Inr () \<Longrightarrow> bounds_on_numbers s \<Longrightarrow> float_safe v \<Longrightarrow>
   settles (validate_value s v) (conforms s v)"
proof (induction "size s" arbitrary: s v rule: less_induct)
  case less
  obtain schema where s: "as_map s = Some schema"
    using less.prems(1) by (auto simp: check_schema.simps [of s] succ_simps)
  show ?case
  proof (cases "has_key schema ''anyOf''")
    case True
    then obtain vs where vs: "get schema ''anyOf'' = PList vs" "\<forall>w \<in> set vs. check_schema w = Inr ()"
      using checked_anyOf [OF less.prems(1) s] by blast
    have "settles (any_of (\<lambda>w. validate_value w v) vs) (\<exists>w \<in> set vs. conforms w v)"
      using less.prems(2,3) vs bounds_below(1) [OF less.prems(2) s True vs(1)] smaller_variant [OF s vs(1)]
      by (intro settles_any_of less.hyps) auto
    then show ?thesis using s vs(1) by (simp add: validate_value.simps [of s] conforms_iff [of s] Bex_def)
  next
    case False
    then have none: "get schema ''anyOf'' = PNone" using anyOf_absent [OF less.prems(1) s] by blast
    obtain ty where ty: "ty \<in> supported_types" "get schema ''type'' = PStr ty" "check_scalars schema ty = Inr ()"
      and obj: "ty = ''object'' \<Longrightarrow> \<exists>ps rs. as_map (get schema ''properties'') = Some ps \<and>
        required_names schema = Inr rs \<and> (\<forall>(k, c) \<in> set ps. check_schema c = Inr ())"
      and arr: "ty = ''array'' \<Longrightarrow> has_key schema ''items'' \<and> check_schema (get schema ''items'') = Inr ()"
      using checked_typed [OF less.prems(1) s False] by blast
    note shape = validate_shape_settles [OF ty(3) bounds_below(2) [OF less.prems(2) s False] ty(2,1) less.prems(3)]
    consider (object) "ty = ''object''" | (array) "ty = ''array''" | (scalar) "ty \<noteq> ''object''" "ty \<noteq> ''array''"
      by blast
    then show ?thesis
    proof cases
      case scalar
      show ?thesis unfolding typed_levels(1) [OF s none ty(2) scalar] typed_meaning(1) [OF s none ty(2) scalar]
        by (rule settles_bind [OF shape]) simp
    next
      case array
      then have items: "has_key schema ''items''" "check_schema (get schema ''items'') = Inr ()" using arr by auto
      have IH: "settles (validate_value (get schema ''items'') x) (conforms (get schema ''items'') x)"
        if "v = PList xs" "x \<in> set xs" for x xs
        using smaller_items [OF s items(1)] items(2) bounds_below(4) [OF less.prems(2) s False items(1)] less.prems(3) that
        by (intro less.hyps) (auto simp: list_all_iff)
      show ?thesis unfolding typed_levels(2) [OF s none ty(2) array items(1)] typed_meaning(2) [OF s none ty(2) array]
        by (rule settles_bind [OF shape]) (rule items_settle, use array IH in auto)
    next
      case object
      then obtain ps rs where ps: "as_map (get schema ''properties'') = Some ps" "required_names schema = Inr rs"
        "\<forall>(k, c) \<in> set ps. check_schema c = Inr ()" using obj by blast
      have IH: "settles (validate_value (get ps k) x) (conforms (get ps k) x)"
        if "v = PDict d" "(k, x) \<in> set d" "has_key ps k" for d k x
        using smaller_property [OF s ps(1), of k] ps(3) get_in [OF that(3)] less.prems(3) that
          bounds_below(3) [OF less.prems(2) s False ps(1) get_in [OF that(3)]]
        by (intro less.hyps) (auto simp: list_all_iff)
      show ?thesis
        unfolding typed_levels(3) [OF s none ty(2) object ps(1,2)] typed_meaning(3) [OF s none ty(2) object ps(1,2)]
        by (rule settles_bind [OF shape]) (rule properties_settle, use object IH in auto)
    qed
  qed
qed

end
