(* ===== verification/ToolOutput.thy ===== *)
theory ToolOutput
  imports Sse
begin

section \<open>Bounded tool results (tools/registry.py, truncate_output and ToolResult)\<close>

text \<open>
  Every result a model sees is bounded in bytes and in lines, keeping both ends of the
  output. A string is its UTF-8 encoding, so \<open>encode\<close> is the identity and \<open>decode\<close> a check
  that the bytes are complete characters (\<open>utf8_text\<close>). The theory holds \<open>truncate_output\<close>
  with its two clipping loops, and \<open>ToolResult.bounded\<close>.
\<close>

subsection \<open>str.splitlines\<close>

text \<open>The number of bytes of a line boundary at the head of a string, 0 if there is none.\<close>

definition single_breaks :: "nat set" where
  "single_breaks = {10, 11, 12, 13, 28, 29, 30}"

fun break_length :: "string \<Rightarrow> nat" where
  "break_length [] = 0"
| "break_length (c # s) =
     (if c = cr \<and> take 1 s = [lf] then 2
      else if of_char c \<in> single_breaks then 1
      else if c = CHR 0xC2 \<and> take 1 s = [CHR 0x85] then 2
      else if c = CHR 0xE2 \<and> (take 2 s = [CHR 0x80, CHR 0xA8] \<or> take 2 s = [CHR 0x80, CHR 0xA9]) then 3
      else 0)"

text \<open>The text before the first boundary, and what follows it (\<open>None\<close>: no boundary).\<close>

fun first_line :: "string \<Rightarrow> string \<times> string option" where
  "first_line [] = ([], None)"
| "first_line (c # s) =
     (if break_length (c # s) > 0 then ([], Some (drop (break_length (c # s)) (c # s)))
      else (case first_line s of (line, rest) \<Rightarrow> (c # line, rest)))"

lemma first_line_shorter: "first_line s = (line, Some rest) \<Longrightarrow> length rest < length s"
  by (induction s arbitrary: line) (auto split: if_splits prod.splits)

function splitlines :: "string \<Rightarrow> string list" where
  "splitlines s = (if s = [] then [] else
     case first_line s of (line, None) \<Rightarrow> [line] | (line, Some rest) \<Rightarrow> line # splitlines rest)"
  by pat_completeness auto
termination
  by (relation "measure length") (auto dest: first_line_shorter sym)

declare splitlines.simps [simp del]

subsection \<open>truncate_output\<close>

definition utf8_text :: "string \<Rightarrow> bool" where
  "utf8_text s \<longleftrightarrow> utf8_split s = Some (s, [])"

function prefix_loop :: "string \<Rightarrow> string" where
  "prefix_loop clipped = (if clipped = [] then [] else if utf8_text clipped then clipped else prefix_loop (butlast clipped))"
  by pat_completeness auto
termination by (relation "measure length") auto

fun suffix_loop :: "string \<Rightarrow> string" where
  "suffix_loop [] = []"
| "suffix_loop (c # clipped) = (if utf8_text (c # clipped) then c # clipped else suffix_loop clipped)"

declare prefix_loop.simps [simp del]

definition utf8_prefix :: "string \<Rightarrow> nat \<Rightarrow> string" where
  "utf8_prefix d limit = prefix_loop (take limit d)"

definition utf8_suffix :: "string \<Rightarrow> nat \<Rightarrow> string" where
  "utf8_suffix d limit = suffix_loop (drop (length d - limit) d)"

definition truncation_marker :: string where
  "truncation_marker = ''... [truncated] ...''"

text \<open>The two ends that are kept and the separator between them.\<close>

definition kept_ends :: "string list \<Rightarrow> nat \<Rightarrow> string \<times> string \<times> string" where
  "kept_ends source_lines max_lines =
     (if max_lines = 2 then
        (hd source_lines, last source_lines, '' '' @ truncation_marker @ '' '')
      else
        let content_slots = min (length source_lines) (max_lines - 1);
            head_count = (if length source_lines = 1 then 1 else max 1 ((content_slots + 1) div 2));
            tail_count = (if length source_lines = 1 then 1 else max 1 (content_slots - head_count))
        in (join [lf] (take head_count source_lines),
            join [lf] (drop (length source_lines - tail_count) source_lines),
            lf # truncation_marker @ [lf]))"

definition clip :: "string \<Rightarrow> nat \<Rightarrow> nat \<Rightarrow> string" where
  "clip output max_bytes max_lines =
     (if max_lines = 1 \<or> max_bytes \<le> length truncation_marker + 2 then utf8_prefix truncation_marker max_bytes
      else
        let source_lines = (if splitlines output = [] then [[]] else splitlines output) in
        (case kept_ends source_lines max_lines of (prefix_source, suffix_source, separator) \<Rightarrow>
          if length separator \<ge> max_bytes then utf8_prefix truncation_marker max_bytes
          else
            let available = max_bytes - length separator;
                head_budget = available div 2;
                tail_budget = available - head_budget
            in utf8_prefix prefix_source head_budget @ separator @ utf8_suffix suffix_source tail_budget))"

definition line_count :: "string \<Rightarrow> nat" where
  "line_count output = (if splitlines output \<noteq> [] then length (splitlines output) else if output \<noteq> [] then 1 else 0)"

definition truncate_output :: "string \<Rightarrow> int \<Rightarrow> int \<Rightarrow> py_error + (string \<times> bool)" where
  "truncate_output output max_bytes max_lines =
     raise_if (max_bytes < 1) (ValueError ''max_bytes must be a positive integer'') (
     raise_if (max_lines < 1) (ValueError ''max_lines must be a positive integer'') (
     if length output \<le> nat max_bytes \<and> line_count output \<le> nat max_lines then Inr (output, False)
     else Inr (clip output (nat max_bytes) (nat max_lines), True)))"

subsection \<open>ToolResult\<close>

record tool_result =
  tr_title :: string
  tr_output :: string
  tr_metadata :: mapping
  tr_status :: string

definition mk_tool_result :: "string \<Rightarrow> string \<Rightarrow> mapping \<Rightarrow> string \<Rightarrow> py_error + tool_result" where
  "mk_tool_result title output metadata status =
     raise_if (title = []) (ValueError ''tool result title must be a non-empty string'') (
     raise_if (status = []) (ValueError ''tool result status must be a non-empty string'') (
     Inr \<lparr>tr_title = title, tr_output = output, tr_metadata = metadata, tr_status = status\<rparr>))"

definition default_max_output_bytes :: int where "default_max_output_bytes = 64 * 1024"
definition default_max_output_lines :: int where "default_max_output_lines = 1000"

definition bounded ::
  "string \<Rightarrow> string \<Rightarrow> string \<Rightarrow> mapping \<Rightarrow> int \<Rightarrow> int \<Rightarrow> py_error + tool_result" where
  "bounded title output status metadata max_bytes max_lines =
     bindE (truncate_output output max_bytes max_lines) (\<lambda>(bounded_output, truncated).
     mk_tool_result title bounded_output
       (dict_set ''truncated''
          (PBool (truthy (get_or metadata ''truncated'' (PBool False)) \<or> truncated)) metadata)
       status)"

subsection \<open>Lines of clipped text\<close>

text \<open>A text without a line boundary, and texts joined by line feeds.\<close>

definition unbroken :: "string \<Rightarrow> bool" where
  "unbroken s \<longleftrightarrow> snd (first_line s) = None"

definition ascii :: "char \<Rightarrow> bool" where
  "ascii c \<longleftrightarrow> (of_char c :: nat) < 128"

lemma unbroken_Nil [simp]: "unbroken []"
  by (simp add: unbroken_def)

lemma unbroken_Cons: "unbroken (c # s) \<longleftrightarrow> break_length (c # s) = 0 \<and> unbroken s"
  by (simp add: unbroken_def split: prod.splits)

lemma first_line_unbroken: "unbroken s \<Longrightarrow> first_line s = (s, None)"
  by (induction s) (auto simp: unbroken_Cons simp del: break_length.simps)

lemma break_length_take:
  assumes "break_length (c # s) = 0"
  shows "break_length (c # take n s) = 0"
proof -
  have c: "(of_char c :: nat) \<notin> single_breaks" "c \<noteq> cr"
    using assms by (auto simp: single_breaks_def cr_def split: if_splits)
  have 1: "take 1 (take n s) = [x] \<Longrightarrow> take 1 s = [x]" for x
    by (cases n; cases s) auto
  have 2: "take 2 (take n s) = [x, y] \<Longrightarrow> take 2 s = [x, y]" for x y
    by (cases s; cases "tl s"; cases n; cases "n - 1") (auto simp: numeral_2_eq_2)
  show ?thesis using assms c 1 2 by (auto simp del: take_take split: if_splits)
qed

lemma unbroken_take: "unbroken s \<Longrightarrow> unbroken (take n s)"
proof (induction s arbitrary: n)
  case (Cons c s)
  then show ?case using break_length_take [of c s "n - 1"]
    by (cases n) (auto simp: unbroken_Cons simp del: break_length.simps)
qed simp

lemma unbroken_drop: "unbroken s \<Longrightarrow> unbroken (drop n s)"
proof (induction s arbitrary: n)
  case (Cons c s)
  then show ?case by (cases n) (auto simp: unbroken_Cons simp del: break_length.simps)
qed simp

lemma break_length_append:
  assumes "break_length (c # a) = 0" "b = [] \<or> ascii (hd b)"
  shows "break_length (c # a @ b) = 0"
proof -
  have c: "(of_char c :: nat) \<notin> single_breaks" "c \<noteq> cr"
    using assms(1) by (auto simp: single_breaks_def cr_def split: if_splits)
  have hi: "\<not> ascii (CHR 0x85)" "\<not> ascii (CHR 0x80)" "\<not> ascii (CHR 0xA8)" "\<not> ascii (CHR 0xA9)"
    by (simp_all add: ascii_def)
  have 1: "take 1 (a @ b) = [x] \<Longrightarrow> \<not> ascii x \<Longrightarrow> take 1 a = [x]" for x
    using assms(2) by (cases a; cases b) auto
  have 2: "take 2 (a @ b) = [x, y] \<Longrightarrow> \<not> ascii x \<Longrightarrow> \<not> ascii y \<Longrightarrow> take 2 a = [x, y]" for x y
    using assms(2) by (cases a; cases "tl a"; cases b) (auto simp: numeral_2_eq_2)
  show ?thesis using assms(1) c 1 2 hi by (auto split: if_splits)
qed

lemma first_line_append:
  assumes "b = [] \<or> ascii (hd b)"
  shows "unbroken a \<Longrightarrow> first_line (a @ b) = (a @ fst (first_line b), snd (first_line b))"
proof (induction a)
  case (Cons c a)
  have "break_length (c # a @ b) = 0" using Cons.prems assms by (intro break_length_append) (simp_all add: unbroken_Cons)
  with Cons show ?case by (simp add: unbroken_Cons del: break_length.simps)
qed simp

lemma unbroken_append: "unbroken a \<Longrightarrow> unbroken b \<Longrightarrow> b = [] \<or> ascii (hd b) \<Longrightarrow> unbroken (a @ b)"
  using first_line_append [of b a] by (simp add: unbroken_def)

lemma unbroken_first_line: "first_line s = (line, rest) \<Longrightarrow> unbroken line"
proof (induction s arbitrary: line)
  case (Cons c s)
  show ?case
  proof (cases "break_length (c # s) > 0")
    case False
    then obtain l where l: "first_line s = (l, rest)" "line = c # l"
      using Cons.prems by (auto simp del: break_length.simps split: prod.splits)
    have "\<exists>n. l = take n s" using l(1)
    proof (induction s arbitrary: l)
      case (Cons d s)
      then show ?case
        by (auto simp del: break_length.simps split: if_splits prod.splits intro: exI [of _ "Suc _"] exI [of _ 0])
    qed simp
    then show ?thesis using False l Cons.IH [OF l(1)] break_length_take [of c s]
      by (auto simp: unbroken_Cons simp del: break_length.simps)
  qed (use Cons.prems in \<open>simp del: break_length.simps\<close>)
qed simp

lemma splitlines_unbroken: "l \<in> set (splitlines s) \<Longrightarrow> unbroken l"
  by (induction s rule: splitlines.induct)
     (subst (asm) (2) splitlines.simps,
      auto split: if_splits prod.splits option.splits dest: unbroken_first_line dest!: sym [of "(_, _)"])

lemma first_line_lf: "first_line (lf # s) = ([], Some s)"
  by (simp add: lf_def cr_def single_breaks_def)

lemma ascii_lf: "ascii lf"
  by (simp add: ascii_def lf_def)

lemma splitlines_join:
  "\<forall>x \<in> set xs. unbroken x \<Longrightarrow> length (splitlines (join [lf] xs)) \<le> length xs"
proof (induction xs rule: induct_list012)
  case 1 then show ?case by (simp add: splitlines.simps)
next
  case (2 x) then show ?case by (simp add: splitlines.simps first_line_unbroken)
next
  case (3 x y zs)
  have "first_line (x @ lf # join [lf] (y # zs)) = (x, Some (join [lf] (y # zs)))"
    using 3(3) first_line_append [of "lf # join [lf] (y # zs)" x]
    by (simp add: first_line_lf ascii_lf del: first_line.simps)
  then show ?case using 3 by (subst splitlines.simps) simp
qed

lemma join_append: "xs \<noteq> [] \<Longrightarrow> ys \<noteq> [] \<Longrightarrow> join s (xs @ ys) = join s xs @ s @ join s ys"
proof (induction xs rule: induct_list012)
  case (2 x) then show ?case by (cases ys) auto
qed auto

lemma join_take:
  "xs \<noteq> [] \<Longrightarrow> \<forall>x \<in> set xs. unbroken x \<Longrightarrow>
   \<exists>ys. ys \<noteq> [] \<and> length ys \<le> length xs \<and> (\<forall>y \<in> set ys. unbroken y) \<and> take n (join [lf] xs) = join [lf] ys"
proof (induction xs arbitrary: n rule: induct_list012)
  case (2 x)
  then show ?case by (intro exI [of _ "[take n x]"]) (simp add: unbroken_take)
next
  case (3 x y zs)
  show ?case
  proof (cases "n \<le> length x")
    case True
    with 3 show ?thesis by (intro exI [of _ "[take n x]"]) (simp add: unbroken_take)
  next
    case False
    obtain ys where ys: "ys \<noteq> []" "length ys \<le> length (y # zs)" "\<forall>y \<in> set ys. unbroken y"
      "take (n - length x - 1) (join [lf] (y # zs)) = join [lf] ys"
      using 3(2) [of "n - length x - 1"] 3(4) by auto
    then show ?thesis using False 3(4)
      by (intro exI [of _ "x # ys"]) (cases ys; cases "n - length x"; auto)
  qed
qed simp

lemma join_drop:
  "xs \<noteq> [] \<Longrightarrow> \<forall>x \<in> set xs. unbroken x \<Longrightarrow>
   \<exists>ys. ys \<noteq> [] \<and> length ys \<le> length xs \<and> (\<forall>y \<in> set ys. unbroken y) \<and> drop n (join [lf] xs) = join [lf] ys"
proof (induction xs arbitrary: n rule: induct_list012)
  case (2 x)
  then show ?case by (intro exI [of _ "[drop n x]"]) (simp add: unbroken_drop)
next
  case (3 x y zs)
  show ?case
  proof (cases "n \<le> length x")
    case True
    with 3 show ?thesis by (intro exI [of _ "drop n x # y # zs"]) (simp add: unbroken_drop)
  next
    case False
    obtain ys where ys: "ys \<noteq> []" "length ys \<le> length (y # zs)" "\<forall>y \<in> set ys. unbroken y"
      "drop (n - length x - 1) (join [lf] (y # zs)) = join [lf] ys"
      using 3(2) [of "n - length x - 1"] 3(4) by auto
    then show ?thesis using False
      by (intro exI [of _ ys]) (cases "n - length x"; auto)
  qed
qed simp

subsection \<open>The bounds\<close>

lemma utf8_text_Nil [simp]: "utf8_text []"
  by (simp add: utf8_text_def)

lemma utf8_text_append: "utf8_text a \<Longrightarrow> utf8_text b \<Longrightarrow> utf8_text (a @ b)"
  using utf8_split_more [of a b] by (simp add: utf8_text_def)

lemma utf8_text_ascii: "list_all ascii s \<Longrightarrow> utf8_text s"
  by (induction s) (auto simp: utf8_text_def ascii_def cont_ranges_def)

lemma prefix_loop_prefix: "\<exists>n. prefix_loop s = take n s"
proof (induction s rule: prefix_loop.induct)
  case (1 s)
  show ?case
  proof (cases "s = [] \<or> utf8_text s")
    case True
    then show ?thesis by (subst prefix_loop.simps) (auto intro: exI [of _ "length s"])
  next
    case False
    with 1 obtain n where "prefix_loop (butlast s) = take n (butlast s)" by auto
    with False show ?thesis
      by (subst prefix_loop.simps) (auto simp: butlast_conv_take intro!: exI [of _ "min n (length s - 1)"])
  qed
qed

lemma prefix_loop_text: "utf8_text (prefix_loop s)"
  by (induction s rule: prefix_loop.induct) (subst prefix_loop.simps, auto)

lemma suffix_loop_suffix: "\<exists>n. suffix_loop s = drop n s"
proof (induction s)
  case (Cons c s)
  then obtain n where "suffix_loop s = drop n s" by blast
  then show ?case by (auto intro: exI [of _ 0] exI [of _ "Suc n"])
qed simp

lemma suffix_loop_text: "utf8_text (suffix_loop s)"
  by (induction s) auto

lemma utf8_prefix_take: "\<exists>n \<le> limit. utf8_prefix s limit = take n s"
proof -
  obtain n where "prefix_loop (take limit s) = take n (take limit s)" using prefix_loop_prefix by blast
  then show ?thesis by (intro exI [of _ "min n limit"]) (simp add: utf8_prefix_def)
qed

lemma utf8_suffix_drop: "\<exists>n. utf8_suffix s limit = drop n s \<and> length (utf8_suffix s limit) \<le> limit"
proof -
  obtain n where "suffix_loop (drop (length s - limit) s) = drop n (drop (length s - limit) s)"
    using suffix_loop_suffix by blast
  then show ?thesis by (intro exI [of _ "n + (length s - limit)"]) (simp add: utf8_suffix_def)
qed

lemma utf8_prefix_length: "length (utf8_prefix s limit) \<le> limit"
  using utf8_prefix_take [of limit s] by auto

lemma marker_ascii: "list_all ascii truncation_marker"
  by (simp add: truncation_marker_def ascii_def)

lemma marker_unbroken: "unbroken truncation_marker"
  by (simp add: truncation_marker_def unbroken_def cr_def single_breaks_def)

lemma clipped_marker:
  "utf8_text (utf8_prefix truncation_marker n) \<and> length (splitlines (utf8_prefix truncation_marker n)) \<le> 1 \<and>
   length (utf8_prefix truncation_marker n) \<le> n"
proof -
  obtain k where "utf8_prefix truncation_marker n = take k truncation_marker" using utf8_prefix_take by blast
  moreover have "length (splitlines (join [lf] [take k truncation_marker])) \<le> length [take k truncation_marker]"
    using unbroken_take [OF marker_unbroken] by (intro splitlines_join) simp
  moreover have "utf8_text (utf8_prefix truncation_marker n)" by (simp add: utf8_prefix_def prefix_loop_text)
  moreover have "length (utf8_prefix truncation_marker n) \<le> n" by (rule utf8_prefix_length)
  ultimately show ?thesis by simp
qed

text \<open>The three parts that are joined, whatever the budgets.\<close>

lemma ends_two_lines:
  assumes "lines \<noteq> []" "\<forall>l \<in> set lines. unbroken l" "kept_ends lines 2 = (p, s, sep)"
  shows "length (splitlines (utf8_prefix p a @ sep @ utf8_suffix s b)) \<le> 1"
proof -
  have ps: "p = hd lines" "s = last lines" "sep = '' '' @ truncation_marker @ '' ''"
    using assms(3) by (simp_all add: kept_ends_def)
  have "unbroken p" "unbroken s" using assms(1,2) ps by auto
  moreover obtain n m where "utf8_prefix p a = take n p" "utf8_suffix s b = drop m s"
    using utf8_prefix_take utf8_suffix_drop by blast
  ultimately have u: "unbroken (utf8_prefix p a)" "unbroken (utf8_suffix s b)"
    by (simp_all add: unbroken_take unbroken_drop)
  have sep: "unbroken ('' '' @ truncation_marker @ '' '' @ utf8_suffix s b)" (is "unbroken ?t")
  proof -
    have "unbroken ('' '' @ utf8_suffix s b)"
      using u(2) by (simp add: unbroken_Cons single_breaks_def cr_def)
    then have "unbroken (truncation_marker @ '' '' @ utf8_suffix s b)"
      by (rule unbroken_append [OF marker_unbroken]) (simp add: ascii_def)
    then show ?thesis by (simp add: unbroken_Cons single_breaks_def cr_def)
  qed
  have "unbroken (utf8_prefix p a @ ?t)"
    by (rule unbroken_append [OF u(1) sep]) (simp add: ascii_def)
  then show ?thesis
    using splitlines_join [of "[utf8_prefix p a @ ?t]"] ps by simp
qed

lemma ends_more_lines:
  assumes "lines \<noteq> []" "\<forall>l \<in> set lines. unbroken l" "kept_ends lines n = (p, s, sep)" "2 < n"
  shows "length (splitlines (utf8_prefix p a @ sep @ utf8_suffix s b)) \<le> n"
proof -
  define slots where "slots = min (length lines) (n - 1)"
  define h where "h = (if length lines = 1 then 1 else max 1 ((slots + 1) div 2))"
  define t where "t = (if length lines = 1 then 1 else max 1 (slots - h))"
  have parts: "p = join [lf] (take h lines)" "s = join [lf] (drop (length lines - t) lines)"
    "sep = lf # truncation_marker @ [lf]"
  proof -
    have "n \<noteq> 2" using assms(4) by simp
    then have "kept_ends lines n = (join [lf] (take h lines), join [lf] (drop (length lines - t) lines),
        lf # truncation_marker @ [lf])"
      unfolding kept_ends_def Let_def slots_def h_def t_def by (simp only: if_False)
    with assms(3) show "p = join [lf] (take h lines)" "s = join [lf] (drop (length lines - t) lines)"
      "sep = lf # truncation_marker @ [lf]" by simp_all
  qed
  have "0 < h" "0 < t" by (simp_all add: h_def t_def less_max_iff_disj)
  have total: "h + 1 + t \<le> n"
  proof (cases "length lines = 1")
    case False
    then have "2 \<le> slots" using assms(1,4) by (cases lines) (auto simp: slots_def Suc_le_eq)
    then have "h + t = slots" using False by (simp add: h_def t_def)
    then show ?thesis using assms(4) by (simp add: slots_def)
  qed (use assms(4) in \<open>simp add: h_def t_def\<close>)
  have short: "length lines - t < length lines" using assms(1) \<open>0 < t\<close> by simp
  have heads: "take h lines \<noteq> []" "\<forall>l \<in> set (take h lines). unbroken l"
    and tails: "drop (length lines - t) lines \<noteq> []" "\<forall>l \<in> set (drop (length lines - t) lines). unbroken l"
    using assms(1,2) \<open>0 < h\<close> short by (auto dest: in_set_takeD in_set_dropD)
  obtain n1 where n1: "utf8_prefix p a = take n1 p" using utf8_prefix_take by blast
  obtain ys where ys: "ys \<noteq> []" "length ys \<le> length (take h lines)" "\<forall>y \<in> set ys. unbroken y"
    "utf8_prefix p a = join [lf] ys"
    using join_take [OF heads, of n1] n1 parts(1) by auto
  obtain n2 where n2: "utf8_suffix s b = drop n2 s" using utf8_suffix_drop by blast
  obtain zs where zs: "zs \<noteq> []" "length zs \<le> length (drop (length lines - t) lines)" "\<forall>y \<in> set zs. unbroken y"
    "utf8_suffix s b = join [lf] zs"
    using join_drop [OF tails, of n2] n2 parts(2) by auto
  have "utf8_prefix p a @ sep @ utf8_suffix s b = join [lf] (ys @ [truncation_marker] @ zs)"
    using ys zs parts(3) join_append [of "[truncation_marker]" zs "[lf]"] by (simp add: join_append)
  moreover have "length (splitlines (join [lf] (ys @ [truncation_marker] @ zs))) \<le> length (ys @ [truncation_marker] @ zs)"
    using ys zs marker_unbroken by (intro splitlines_join) auto
  moreover have "length zs \<le> t" using zs(2) by simp
  ultimately show ?thesis using ys(2) total by simp
qed

lemma kept_ends_ascii: "kept_ends lines n = (p, s, sep) \<Longrightarrow> list_all ascii sep"
  using marker_ascii by (auto simp: kept_ends_def Let_def ascii_lf split: if_splits) (simp add: ascii_def)

lemma clip_bounds:
  assumes "0 < max_lines"
  shows "utf8_text (clip output max_bytes max_lines) \<and> length (clip output max_bytes max_lines) \<le> max_bytes \<and>
    length (splitlines (clip output max_bytes max_lines)) \<le> max_lines"
proof -
  define lines where "lines = (if splitlines output = [] then [[]] else splitlines output)"
  have lines: "lines \<noteq> []" "\<forall>l \<in> set lines. unbroken l"
    by (auto simp: lines_def splitlines_unbroken)
  obtain p s sep where k: "kept_ends lines max_lines = (p, s, sep)" by (metis prod_cases3)
  have marker: ?thesis if "clip output max_bytes max_lines = utf8_prefix truncation_marker max_bytes"
    using clipped_marker [of max_bytes] assms that by simp
  show ?thesis
  proof (cases "max_lines = 1 \<or> max_bytes \<le> length truncation_marker + 2 \<or> length sep \<ge> max_bytes")
    case True
    then show ?thesis using k by (intro marker) (auto simp: clip_def Let_def simp flip: lines_def)
  next
    case False
    define a where "a = (max_bytes - length sep) div 2"
    define b where "b = max_bytes - length sep - a"
    have c: "clip output max_bytes max_lines = utf8_prefix p a @ sep @ utf8_suffix s b"
      using False k by (simp add: clip_def Let_def a_def b_def flip: lines_def)
    have "length (utf8_suffix s b) \<le> b" using utf8_suffix_drop by blast
    moreover have "length (utf8_prefix p a) \<le> a" by (rule utf8_prefix_length)
    moreover have "a + length sep + b = max_bytes" using False unfolding a_def b_def by linarith
    ultimately have "length (clip output max_bytes max_lines) \<le> max_bytes" by (simp add: c)
    moreover have "utf8_text (clip output max_bytes max_lines)"
      unfolding c utf8_prefix_def utf8_suffix_def
      by (intro utf8_text_append prefix_loop_text suffix_loop_text utf8_text_ascii kept_ends_ascii [OF k])
    moreover have "length (splitlines (clip output max_bytes max_lines)) \<le> max_lines"
      using ends_two_lines [OF lines, of p s sep a b] ends_more_lines [OF lines k, of a b] False assms k c
      by (cases "max_lines = 2") auto
    ultimately show ?thesis by blast
  qed
qed

text \<open>
  C33. Whatever a tool prints, the result a model sees is complete UTF-8 text within both
  bounds: at most \<open>max_bytes\<close> bytes and at most \<open>max_lines\<close> lines. Output that already fits is
  passed on unchanged, and the flag tells exactly whether it did.
\<close>

theorem truncate_output_bounds:
  assumes "truncate_output output max_bytes max_lines = Inr (result, truncated)" "utf8_text output"
  shows "utf8_text result \<and> int (length result) \<le> max_bytes \<and> int (length (splitlines result)) \<le> max_lines \<and>
    (truncated \<longleftrightarrow> \<not> (int (length output) \<le> max_bytes \<and> int (length (splitlines output)) \<le> max_lines)) \<and>
    (\<not> truncated \<longrightarrow> result = output)"
proof -
  have pos: "1 \<le> max_bytes" "1 \<le> max_lines" using assms(1) by (auto simp: truncate_output_def succ_simps)
  have count: "line_count output \<le> nat max_lines \<longleftrightarrow> int (length (splitlines output)) \<le> max_lines"
    using pos by (auto simp: line_count_def le_nat_iff)
  show ?thesis
    using assms pos count clip_bounds [of "nat max_lines" "output" "nat max_bytes"]
    by (auto simp: truncate_output_def succ_simps le_nat_iff split: if_splits)
qed

lemma truncate_output_bounds_witness:
  "\<exists>r. truncate_output (''one'' @ [lf] @ ''two'' @ [lf] @ ''three'') 200 2 = Inr (r, True) \<and> length (splitlines r) \<le> 2"
proof -
  obtain r where r: "truncate_output (''one'' @ [lf] @ ''two'' @ [lf] @ ''three'') 200 2 = Inr (r, True)"
    by (simp add: truncate_output_def line_count_def splitlines.simps lf_def cr_def single_breaks_def)
  have "utf8_text (''one'' @ [lf] @ ''two'' @ [lf] @ ''three'')" by code_simp
  from truncate_output_bounds [OF r this] r show ?thesis by auto
qed

end
