(* ===== verification/ToolRegistry.thy ===== *)
theory ToolRegistry
  imports ToolSchema ToolOutput
begin

section \<open>The tool registry (tools/registry.py) and the built-in tools (tools/__init__.py)\<close>

text \<open>
  A registry maps names to tool specifications; it resolves a name, parses and validates
  the arguments a model supplies, and classifies a call for scheduling. The callables of a
  specification are of the type parameters \<open>'h\<close> (handlers), \<open>'p\<close> (prepare handlers) and \<open>'r\<close>
  (approval renderers); the
  concurrency classifier returns \<open>None\<close> when it raises. \<open>json.loads\<close>, with the constants
  \<open>NaN\<close> and \<open>Infinity\<close> rejected, is the argument \<open>loads\<close>.
\<close>

subsection \<open>Specifications\<close>

datatype side_effect = NoEffect | WorkspaceWrite | ShellEffect | PlanExit | EffectFlag bool

text \<open>\<open>side_effect in {SideEffect.NONE, False}\<close>\<close>

fun harmless :: "side_effect \<Rightarrow> bool" where
  "harmless NoEffect = True"
| "harmless (EffectFlag b) = (\<not> b)"
| "harmless _ = False"

datatype execution_mode = Parallel | Exclusive

record ('h, 'p, 'r) tool_spec =
  ts_name :: string
  ts_description :: string
  ts_schema :: pyval
  ts_handler :: "'h option"
  ts_prepare :: "'p option"
  ts_side_effect :: side_effect
  ts_renderer :: "'r option"
  ts_concurrency :: "(mapping \<Rightarrow> pyval option) option"

text \<open>\<open>ToolSpec.__post_init__\<close>; the typed fields need no check.\<close>

definition tool_spec_post_init :: "('h, 'p, 'r) tool_spec \<Rightarrow> py_error + ('h, 'p, 'r) tool_spec" where
  "tool_spec_post_init spec =
     raise_if (ts_name spec = []) (ValueError ''tool name must be a non-empty string'') (
     raise_if (ts_description spec = []) (ValueError ''tool description must be a non-empty string'') (
     raise_if ((ts_handler spec = None) = (ts_prepare spec = None))
       (ValueError ''tool must define exactly one handler or prepare handler'') (
     bindE (check_schema (ts_schema spec)) (\<lambda>_.
     raise_if (case as_map (ts_schema spec) of None \<Rightarrow> True | Some d \<Rightarrow> get d ''type'' \<noteq> PStr ''object'')
       (ValueError ''tool schema must have type object'') (Inr spec)))))"

definition provider_schema :: "('h, 'p, 'r) tool_spec \<Rightarrow> pyval" where
  "provider_schema spec = PDict [(''type'', PStr ''function''),
     (''function'', PDict [(''name'', PStr (ts_name spec)), (''description'', PStr (ts_description spec)),
        (''parameters'', ts_schema spec)])]"

subsection \<open>The registry\<close>

type_synonym ('h, 'p, 'r) registry = "('h, 'p, 'r) tool_spec dict"

definition add_spec :: "('h, 'p, 'r) registry \<Rightarrow> ('h, 'p, 'r) tool_spec \<Rightarrow> py_error + ('h, 'p, 'r) registry" where
  "add_spec specs spec =
     raise_if (has_key specs (ts_name spec)) (ValueError ''duplicate tool'')
       (Inr (dict_set (ts_name spec) spec specs))"

definition registry_init :: "('h, 'p, 'r) tool_spec list \<Rightarrow> py_error + ('h, 'p, 'r) registry" where
  "registry_init specs = foldE add_spec [] specs"

definition resolve :: "('h, 'p, 'r) registry \<Rightarrow> string \<Rightarrow> py_error + ('h, 'p, 'r) tool_spec" where
  "resolve reg name = need (map_of reg name) (UnknownToolError ''unknown tool'')"

definition provider_schemas :: "('h, 'p, 'r) registry \<Rightarrow> pyval list" where
  "provider_schemas reg = map provider_schema (vals reg)"

definition validate_arguments :: "pyval \<Rightarrow> mapping \<Rightarrow> py_error + unit" where
  "validate_arguments schema arguments = validate_value schema (PDict arguments)"

definition parse_and_validate ::
  "(string \<Rightarrow> pyval option) \<Rightarrow> ('h, 'p, 'r) registry \<Rightarrow> string \<Rightarrow> string \<Rightarrow> py_error + mapping" where
  "parse_and_validate loads reg name raw =
     bindE (resolve reg name) (\<lambda>spec.
     bindE (need (loads raw) (ToolValidationError ''arguments must be valid JSON'')) (\<lambda>v.
     bindE (need (as_dict v) (ToolValidationError ''arguments must be an object'')) (\<lambda>arguments.
     bindE (validate_arguments (ts_schema spec) arguments) (\<lambda>_. Inr arguments))))"

definition execution_mode ::
  "(string \<Rightarrow> pyval option) \<Rightarrow> ('h, 'p, 'r) registry \<Rightarrow> string \<Rightarrow> string \<Rightarrow> execution_mode" where
  "execution_mode loads reg name raw =
     (case resolve reg name of Inl _ \<Rightarrow> Exclusive | Inr spec \<Rightarrow>
        if \<not> harmless (ts_side_effect spec) then Exclusive
        else case ts_concurrency spec of None \<Rightarrow> Exclusive | Some classifier \<Rightarrow>
          (case parse_and_validate loads reg name raw of Inl _ \<Rightarrow> Exclusive | Inr arguments \<Rightarrow>
             if classifier arguments = Some (PBool True) then Parallel else Exclusive))"

subsection \<open>The built-in tools\<close>

definition string_schema :: "(string \<times> pyval) list \<Rightarrow> pyval" where
  "string_schema extra = PDict ((''type'', PStr ''string'') # extra)"

definition closed_object :: "mapping \<Rightarrow> string list \<Rightarrow> pyval" where
  "closed_object properties required = PDict
     [(''type'', PStr ''object''), (''properties'', PDict properties),
      (''required'', PList (map PStr required)), (''additionalProperties'', PBool False)]"

abbreviation nonempty :: pyval where
  "nonempty \<equiv> string_schema [(''minLength'', PInt 1)]"

abbreviation between :: "int \<Rightarrow> int \<Rightarrow> pyval" where
  "between lo hi \<equiv> PDict [(''type'', PStr ''integer''), (''minimum'', PInt lo), (''maximum'', PInt hi)]"

definition max_read_lines :: int where "max_read_lines = 200"
definition max_list_entries :: int where "max_list_entries = 200"

text \<open>
  The specifications of \<open>create_tool_registry\<close>: schema, side effect and concurrency classifier.
  The callables and descriptions are arguments; \<open>handlers\<close>, \<open>prepares\<close> and \<open>renderers\<close> give them by
  tool name.
\<close>

definition builtin_spec ::
  "(string \<Rightarrow> string) \<Rightarrow> (string \<Rightarrow> 'h) \<Rightarrow> (string \<Rightarrow> 'p) \<Rightarrow> (string \<Rightarrow> 'r) \<Rightarrow>
   string \<Rightarrow> pyval \<Rightarrow> bool \<Rightarrow> side_effect \<Rightarrow> bool \<Rightarrow> ('h, 'p, 'r) tool_spec" where
  "builtin_spec describe handlers prepares renderers name schema direct effect parallel_safe =
     \<lparr>ts_name = name, ts_description = describe name, ts_schema = schema,
      ts_handler = (if direct then Some (handlers name) else None),
      ts_prepare = (if direct then None else Some (prepares name)),
      ts_side_effect = effect,
      ts_renderer = (if harmless effect then None else Some (renderers name)),
      ts_concurrency = (if parallel_safe then Some (\<lambda>_. Some (PBool True)) else None)\<rparr>"

definition builtin_schemas :: "(string \<times> pyval) list" where
  "builtin_schemas =
     [(''read_file'', closed_object [(''path'', nonempty),
         (''offset'', PDict [(''type'', PStr ''integer''), (''minimum'', PInt 1)]),
         (''limit'', between 1 max_read_lines)] [''path'']),
      (''list_dir'', closed_object [(''path'', string_schema []), (''limit'', between 1 max_list_entries)] []),
      (''grep'', closed_object [(''pattern'', nonempty), (''path'', string_schema []), (''glob'', nonempty)] [''pattern'']),
      (''write_file'', closed_object [(''path'', nonempty), (''content'', string_schema [])] [''path'', ''content'']),
      (''edit_file'', closed_object [(''path'', nonempty), (''old_text'', nonempty), (''new_text'', string_schema [])]
         [''path'', ''old_text'', ''new_text'']),
      (''bash'', closed_object [(''command'', nonempty), (''timeout_seconds'', between 1 600)] [''command'']),
      (''exit_plan_mode'', closed_object [(''plan'', nonempty)] [''plan'']),
      (''run_code'', closed_object [(''description'', nonempty), (''code'', nonempty)] [''description'', ''code''])]"

definition schema_of :: "string \<Rightarrow> pyval" where
  "schema_of name = (case map_of builtin_schemas name of None \<Rightarrow> PNone | Some s \<Rightarrow> s)"

definition create_tool_registry ::
  "(string \<Rightarrow> string) \<Rightarrow> (string \<Rightarrow> 'h) \<Rightarrow> (string \<Rightarrow> 'p) \<Rightarrow> (string \<Rightarrow> 'r) \<Rightarrow> py_error + ('h, 'p, 'r) registry" where
  "create_tool_registry describe handlers prepares renderers =
     (let spec = (\<lambda>name. builtin_spec describe handlers prepares renderers name (schema_of name)) in
      bindE (mapE tool_spec_post_init
        [spec ''read_file'' True NoEffect True,
         spec ''list_dir'' True NoEffect True,
         spec ''grep'' True NoEffect False,
         spec ''write_file'' False WorkspaceWrite False,
         spec ''edit_file'' False WorkspaceWrite False,
         spec ''bash'' False ShellEffect False,
         spec ''exit_plan_mode'' False PlanExit False,
         spec ''run_code'' False NoEffect False])
      registry_init)"

subsection \<open>Registered tools\<close>

text \<open>Every entry passed the checks of its construction and stands under its own name.\<close>

definition registry_ok :: "('h, 'p, 'r) registry \<Rightarrow> bool" where
  "registry_ok reg \<longleftrightarrow> (\<forall>(name, spec) \<in> set reg. ts_name spec = name \<and> tool_spec_post_init spec = Inr spec)"

lemma tool_spec_post_init_same: "tool_spec_post_init spec = Inr spec' \<Longrightarrow> spec' = spec"
  by (auto simp: tool_spec_post_init_def succ_simps)

lemma add_spec_ok:
  assumes "add_spec reg spec = Inr reg'" "registry_ok reg" "tool_spec_post_init spec = Inr spec"
  shows "registry_ok reg'"
proof -
  have "map_of reg (ts_name spec) = None" "reg' = dict_set (ts_name spec) spec reg"
    using assms(1) by (auto simp: add_spec_def succ_simps has_key_def)
  then have "reg' = reg @ [(ts_name spec, spec)]" by (simp add: dict_set_new)
  with assms(2,3) show ?thesis by (auto simp: registry_ok_def)
qed

lemma registry_init_ok:
  assumes "mapE tool_spec_post_init raw = Inr specs" "registry_init specs = Inr reg"
  shows "registry_ok reg"
proof -
  have all: "\<forall>spec \<in> set specs. tool_spec_post_init spec = Inr spec"
  proof
    fix spec assume "spec \<in> set specs"
    then obtain i where "tool_spec_post_init (raw ! i) = Inr spec"
      using assms(1) by (auto simp: mapE_Inr_iff list_all2_conv_all_nth in_set_conv_nth)
    moreover from this have "spec = raw ! i" by (rule tool_spec_post_init_same)
    ultimately show "tool_spec_post_init spec = Inr spec" by simp
  qed
  have "foldE add_spec acc specs = Inr reg \<Longrightarrow> registry_ok acc \<Longrightarrow> registry_ok reg" for acc
    using all
  proof (induction specs arbitrary: acc)
    case (Cons spec specs)
    then obtain acc' where "add_spec acc spec = Inr acc'" "foldE add_spec acc' specs = Inr reg"
      by (auto simp: succ_simps)
    with Cons add_spec_ok [of acc spec acc'] show ?case by auto
  qed simp
  with assms(2) show ?thesis by (simp add: registry_init_def registry_ok_def)
qed

lemma registered_schema:
  assumes "registry_ok reg" "map_of reg name = Some spec"
  shows "ts_name spec = name \<and> check_schema (ts_schema spec) = Inr () \<and> ((ts_handler spec = None) \<longleftrightarrow> (ts_prepare spec \<noteq> None))"
proof -
  have "ts_name spec = name" "tool_spec_post_init spec = Inr spec"
    using assms(1) map_of_SomeD [OF assms(2)] by (auto simp: registry_ok_def)
  then show ?thesis by (auto simp: tool_spec_post_init_def succ_simps)
qed

lemma parse_settles:
  assumes reg: "registry_ok reg" and spec: "map_of reg name = Some spec"
    and num: "bounds_on_numbers (ts_schema spec)" and safe: "\<And>v. loads raw = Some v \<Longrightarrow> float_safe v"
  shows "(parse_and_validate loads reg name raw = Inr arguments \<longleftrightarrow>
      loads raw = Some (PDict arguments) \<and> conforms (ts_schema spec) (PDict arguments)) \<and>
    (\<forall>e. parse_and_validate loads reg name raw = Inl e \<longrightarrow> (\<exists>m. e = ToolValidationError m))"
proof (cases "\<exists>d. loads raw = Some (PDict d)")
  case True
  then obtain d where d: "loads raw = Some (PDict d)" by blast
  have "settles (validate_value (ts_schema spec) (PDict d)) (conforms (ts_schema spec) (PDict d))"
    using registered_schema [OF reg spec] num safe [OF d] by (intro validation_settles) auto
  then show ?thesis using spec d
    by (auto simp: parse_and_validate_def resolve_def validate_arguments_def succ_simps fail_simps)
next
  case False
  have dict: "as_dict v = Some d \<longleftrightarrow> v = PDict d" for v d by (cases v) auto
  show ?thesis using False spec
    by (auto simp: parse_and_validate_def resolve_def succ_simps fail_simps dict)
qed

lemma builtin_schemas_checked:
  "list_all (\<lambda>(name, s). check_schema s = Inr () \<and> bounds_on_numbers s) builtin_schemas"
  by code_simp

lemma builtin_schema_is_object: "(name, s) \<in> set builtin_schemas \<Longrightarrow> \<exists>d. as_map s = Some d \<and> get d ''type'' = PStr ''object''"
  by (auto simp: builtin_schemas_def closed_object_def get_def get_or_def)

definition tool_names :: "string list" where
  "tool_names = map fst builtin_schemas"

lemma tool_names_distinct: "distinct tool_names"
  by code_simp

lemma schema_of_builtin: "name \<in> set tool_names \<Longrightarrow> (name, schema_of name) \<in> set builtin_schemas"
  by (cases "map_of builtin_schemas name")
     (auto simp: tool_names_def schema_of_def map_of_eq_None_iff dest: map_of_SomeD)

lemma builtin_spec_post_init:
  assumes "name \<in> set tool_names" "describe name \<noteq> []"
  shows "tool_spec_post_init (builtin_spec describe handlers prepares renderers name (schema_of name) direct effect safe) =
    Inr (builtin_spec describe handlers prepares renderers name (schema_of name) direct effect safe)"
proof -
  have s: "(name, schema_of name) \<in> set builtin_schemas" by (rule schema_of_builtin [OF assms(1)])
  have "check_schema (schema_of name) = Inr ()" using builtin_schemas_checked s by (auto simp: list_all_iff)
  moreover obtain d where "as_map (schema_of name) = Some d" "get d ''type'' = PStr ''object''"
    using builtin_schema_is_object [OF s] by blast
  moreover have "name \<noteq> []" using assms(1) by (auto simp: tool_names_def builtin_schemas_def)
  ultimately show ?thesis using assms(2) by (simp add: tool_spec_post_init_def builtin_spec_def)
qed

lemma registry_init_distinct:
  "distinct (map ts_name specs) \<Longrightarrow> registry_init specs = Inr (map (\<lambda>s. (ts_name s, s)) specs)"
proof -
  have "distinct (map ts_name (done' @ specs)) \<Longrightarrow>
      foldE add_spec (map (\<lambda>s. (ts_name s, s)) done') specs = Inr (map (\<lambda>s. (ts_name s, s)) (done' @ specs))" for done'
  proof (induction specs arbitrary: done')
    case (Cons s specs)
    have "map_of (map (\<lambda>s. (ts_name s, s)) done') (ts_name s) = None"
      using Cons.prems by (auto simp: map_of_eq_None_iff)
    then have "add_spec (map (\<lambda>s. (ts_name s, s)) done') s = Inr (map (\<lambda>s. (ts_name s, s)) (done' @ [s]))"
      by (simp add: add_spec_def has_key_def dict_set_new)
    with Cons.IH [of "done' @ [s]"] Cons.prems show ?case by simp
  qed simp
  from this [of "[]"] show "distinct (map ts_name specs) \<Longrightarrow> ?thesis" by (simp add: registry_init_def)
qed

lemma created_registry:
  assumes "\<And>name. name \<in> set tool_names \<Longrightarrow> describe name \<noteq> []"
  shows "create_tool_registry describe handlers prepares renderers = Inr
    (map (\<lambda>(name, direct, effect, safe). (name, builtin_spec describe handlers prepares renderers name (schema_of name) direct effect safe))
      [(''read_file'', True, NoEffect, True), (''list_dir'', True, NoEffect, True), (''grep'', True, NoEffect, False),
       (''write_file'', False, WorkspaceWrite, False), (''edit_file'', False, WorkspaceWrite, False),
       (''bash'', False, ShellEffect, False), (''exit_plan_mode'', False, PlanExit, False),
       (''run_code'', False, NoEffect, False)])" (is "_ = Inr (map ?entry ?rows)")
proof -
  let ?specs = "map (\<lambda>row. snd (?entry row)) ?rows"
  have names: "map fst ?rows = tool_names" by (simp add: tool_names_def builtin_schemas_def)
  have post: "tool_spec_post_init (snd (?entry row)) = Inr (snd (?entry row))" if row: "row \<in> set ?rows" for row
  proof -
    obtain n d e s where r: "row = (n, d, e, s)" by (metis prod_cases4)
    have "fst row \<in> set (map fst ?rows)" using row unfolding set_map by (rule imageI)
    then have "n \<in> set tool_names" unfolding names r by simp
    then show ?thesis using builtin_spec_post_init [OF \<open>n \<in> set tool_names\<close> assms] by (simp add: r)
  qed
  have "mapE tool_spec_post_init ?specs = Inr (map (\<lambda>s. s) ?specs)"
    by (rule mapE_total) (use post in \<open>auto simp del: list.simps(9) list.set(2)\<close>)
  moreover have "registry_init ?specs = Inr (map (\<lambda>s. (ts_name s, s)) ?specs)"
  proof (rule registry_init_distinct)
    have "map ts_name ?specs = map fst ?rows" by (simp add: builtin_spec_def)
    then show "distinct (map ts_name ?specs)" using tool_names_distinct names by metis
  qed
  moreover have "create_tool_registry describe handlers prepares renderers = bindE (mapE tool_spec_post_init ?specs) registry_init"
    unfolding create_tool_registry_def Let_def by simp
  moreover have "map (\<lambda>s. (ts_name s, s)) ?specs = map ?entry ?rows" by (simp add: builtin_spec_def)
  ultimately show ?thesis by (simp only: map_ident bindE_simps)
qed

subsection \<open>Properties\<close>

text \<open>A registry with one tool, used as an example.\<close>

definition demo_spec :: "(string, string, string) tool_spec" where
  "demo_spec = builtin_spec (\<lambda>n. n) (\<lambda>n. n) (\<lambda>n. n) (\<lambda>n. n) ''list_dir'' (schema_of ''list_dir'') True NoEffect True"

definition demo_json :: "string \<Rightarrow> pyval option" where
  "demo_json = map_of [(''{limit:3}'', PDict [(''limit'', PInt 3)]), (''{limit:0}'', PDict [(''limit'', PInt 0)])]"



text \<open>
  C35. Only side-effect-free tools ever run beside other calls: in the registry of the
  built-in tools a call is classified parallel exactly when it names \<open>read_file\<close> or
  \<open>list_dir\<close> and its arguments are valid; every writing, shell, plan or code call, every
  unknown tool and every malformed call is exclusive.
\<close>

theorem parallel_calls_are_read_only:
  assumes "create_tool_registry describe handlers prepares renderers = Inr reg"
    and "list_all (\<lambda>name. describe name \<noteq> []) tool_names"
  shows "execution_mode loads reg name raw = Parallel \<longleftrightarrow>
    name \<in> {''read_file'', ''list_dir''} \<and> (case parse_and_validate loads reg name raw of Inl _ \<Rightarrow> False | Inr _ \<Rightarrow> True)"
proof -
  have reg: "create_tool_registry describe handlers prepares renderers = Inr
    (map (\<lambda>(name, direct, effect, safe). (name, builtin_spec describe handlers prepares renderers name (schema_of name) direct effect safe))
      [(''read_file'', True, NoEffect, True), (''list_dir'', True, NoEffect, True), (''grep'', True, NoEffect, False),
       (''write_file'', False, WorkspaceWrite, False), (''edit_file'', False, WorkspaceWrite, False),
       (''bash'', False, ShellEffect, False), (''exit_plan_mode'', False, PlanExit, False),
       (''run_code'', False, NoEffect, False)])"
    using assms(2) by (intro created_registry) (auto simp: list_all_iff)
  show ?thesis
  proof (cases "name \<in> {''read_file'', ''list_dir''}")
    case True
    then obtain spec where "map_of reg name = Some spec" "harmless (ts_side_effect spec)"
      "ts_concurrency spec = Some (\<lambda>_. Some (PBool True))"
      using assms(1) reg by (auto simp: builtin_spec_def)
    with True show ?thesis by (simp add: execution_mode_def resolve_def split: sum.split)
  next
    case False
    then have "case map_of reg name of None \<Rightarrow> True
        | Some spec \<Rightarrow> \<not> harmless (ts_side_effect spec) \<or> ts_concurrency spec = None"
      using assms(1) reg by (auto simp: builtin_spec_def)
    then have "execution_mode loads reg name raw = Exclusive"
      by (auto simp: execution_mode_def resolve_def split: option.splits)
    with False show ?thesis by simp
  qed
qed

definition demo_registry :: "(string, string, string) registry" where
  "demo_registry = (case create_tool_registry (\<lambda>n. n) (\<lambda>n. n) (\<lambda>n. n) (\<lambda>n. n) of Inl _ \<Rightarrow> [] | Inr reg \<Rightarrow> reg)"

lemma parallel_calls_are_read_only_witness:
  "execution_mode demo_json demo_registry ''list_dir'' ''{limit:3}'' = Parallel \<and>
   execution_mode demo_json demo_registry ''bash'' ''{limit:3}'' = Exclusive"
proof -
  have b: "list_all (\<lambda>name. name \<noteq> []) tool_names" by code_simp
  then have a: "create_tool_registry (\<lambda>n. n) (\<lambda>n. n) (\<lambda>n. n) (\<lambda>n. n) = Inr demo_registry"
    unfolding demo_registry_def by (subst (1 2) created_registry) (auto simp: list_all_iff)
  have c: "case parse_and_validate demo_json demo_registry ''list_dir'' ''{limit:3}'' of Inl _ \<Rightarrow> False | Inr _ \<Rightarrow> True"
    by code_simp
  have "execution_mode demo_json demo_registry ''bash'' ''{limit:3}'' \<noteq> Parallel"
    unfolding parallel_calls_are_read_only [OF a b] by simp
  then show ?thesis using c parallel_calls_are_read_only [OF a b, of demo_json "''list_dir''" "''{limit:3}''"]
    by (cases "execution_mode demo_json demo_registry ''bash'' ''{limit:3}''") auto
qed

end
