(* ===== verification/Executor.thy ===== *)
theory Executor
  imports Effects Store Reducer ToolRegistry
begin

section \<open>The execution pipeline of accepted calls (executor.py)\<close>

text \<open>
  Every call goes through the same steps: it is validated and prepared, the user approves it,
  its start is recorded, its body runs, and its result is recorded. Each fact is appended to
  the store first and then reduced into the session state.

  The world of a computation is the store, the session state, the flag of an executor whose
  state diverged, the state of the approver, and the world outside. A tool body is a function
  on the outside; preparing a call reads the outside. The collaborators of an executor are
  the fields of \<open>executor\<close>: its registry, the clock and identifiers of new events with the fate
  of their writes, the approver, \<open>json.loads\<close>, \<open>Path.resolve\<close> and SHA-256. The event observer is
  not modelled; it cannot influence the pipeline.
\<close>

subsection \<open>Values\<close>

datatype approval_decision = AllowOnce | AllowSession | Deny

record approval_request =
  aq_tool_name :: string
  aq_target :: string
  aq_kind :: string
  aq_cwd :: "string option"
  aq_diff :: "string option"
  aq_before_hash :: "string option"

record executed_file_change =
  xc_canonical_path :: string
  xc_before_hash :: "string option"
  xc_after_hash :: string
  xc_after_mode :: int
  xc_after_version :: file_version
  xc_created_directories :: "string list"
  xc_durability_warning :: bool
  xc_interruption_warning :: bool

text \<open>What a tool body may return.\<close>

datatype raw_result = RawToolResult tool_result | RawFileChange executed_file_change | RawOther

type_synonym 'u body = "'u \<Rightarrow> (py_error + raw_result) \<times> 'u"

record prepared_file_change =
  pf_canonical_path :: string
  pf_before_hash :: "string option"
  pf_diff :: string
  pf_existed_before :: bool
  pf_before_bytes :: string
  pf_before_mode :: "int option"
  pf_expected_version :: file_version
  pf_proposed_bytes :: string

text \<open>
  The prepared forms of a call, each with the \<open>execute\<close> method it has; a plan has none.
\<close>

datatype 'u prepared =
    PreparedFile prepared_file_change "'u body"
  | PreparedShell string string "'u body" \<comment> \<open>command and working directory\<close>
  | PreparedPlan string
  | PreparedCode string string \<comment> \<open>description and program\<close>
  | PreparedOther "'u body"

type_synonym 'u handler = "mapping \<Rightarrow> 'u body"
type_synonym 'u preparer = "mapping \<Rightarrow> 'u \<Rightarrow> py_error + 'u prepared"
type_synonym 'u renderer = "'u prepared \<Rightarrow> py_error + pyval"
type_synonym 'u spec = "('u handler, 'u preparer, 'u renderer) tool_spec"

record ('a, 'u) executor =
  ex_registry :: "('u handler, 'u preparer, 'u renderer) registry"
  ex_loads :: "string \<Rightarrow> pyval option"
  ex_iso_utc :: "string \<Rightarrow> bool"
  ex_clock :: "int \<Rightarrow> string \<times> string \<times> write_outcome"
  ex_decide :: "approval_request \<Rightarrow> 'a \<Rightarrow> (py_error + approval_decision) \<times> 'a"
  ex_resolve_path :: "string \<Rightarrow> string"
  ex_sha256 :: "string \<Rightarrow> string"
  ex_secrets :: "string list"

record ('a, 'u) world =
  w_store :: rollout_store
  w_state :: session_state
  w_usable :: bool
  w_approver :: 'a
  w_outside :: 'u

record accepted_call =
  ac_call_key :: string
  ac_provider_call_id :: string
  ac_name :: string
  ac_raw_arguments :: string

definition from_tool_call :: "tool_call \<Rightarrow> accepted_call" where
  "from_tool_call c = \<lparr>ac_call_key = tc_call_key c, ac_provider_call_id = tc_provider_call_id c,
     ac_name = tc_name c, ac_raw_arguments = tc_arguments c\<rparr>"

record 'u staged_call =
  sg_call :: tool_call
  sg_spec :: "'u spec"
  sg_arguments :: mapping
  sg_prepared :: "'u prepared option"

subsection \<open>Error texts and results\<close>

text \<open>\<open>text.replace(old, new)\<close>\<close>

function replace_text :: "string \<Rightarrow> string \<Rightarrow> string \<Rightarrow> string" where
  "replace_text old new s =
     (if old = [] then s
      else case s of [] \<Rightarrow> []
      | c # cs \<Rightarrow> if take (length old) s = old then new @ replace_text old new (drop (length old) s)
          else c # replace_text old new cs)"
  by pat_completeness auto
termination
  by (relation "measure (\<lambda>(old, new, s). length s)") auto

fun error_name :: "py_error \<Rightarrow> string" where \<comment> \<open>\<open>type(error).__name__\<close>\<close>
  "error_name (DomainError _) = ''DomainError''"
| "error_name (ProjectionError _) = ''ProjectionError''"
| "error_name (ProjectionBlockedError _) = ''ProjectionBlockedError''"
| "error_name (ProtocolError _) = ''ProtocolError''"
| "error_name (StreamInterruptedError _) = ''StreamInterruptedError''"
| "error_name (ToolValidationError _) = ''ToolValidationError''"
| "error_name (UnknownToolError _) = ''UnknownToolError''"
| "error_name (FileVersionError _) = ''FileVersionError''"
| "error_name (ValueError _) = ''ValueError''"
| "error_name (TypeError _) = ''TypeError''"
| "error_name (KeyError _) = ''KeyError''"
| "error_name (RuntimeError _) = ''RuntimeError''"
| "error_name (AttributeError _) = ''AttributeError''"
| "error_name (OverflowError _) = ''OverflowError''"
| "error_name (ProtocolFrameError _) = ''ProtocolFrameError''"
| "error_name (RolloutCorruptionError _) = ''RolloutCorruptionError''"
| "error_name (StorePoisonedError _) = ''StorePoisonedError''"
| "error_name (ToolExecutorError _) = ''ToolExecutorError''"
| "error_name (PlanToolError _) = ''PlanToolError''"
| "error_name (FileToolError _) = ''FileToolError''"
| "error_name (PathSafetyError _) = ''PathSafetyError''"
| "error_name (FileConflictError _) = ''FileConflictError''"
| "error_name (UndoError _) = ''UndoError''"
| "error_name (UndoConflict _) = ''_UndoConflict''"
| "error_name (CompactionError _) = ''CompactionError''"
| "error_name (AgentLoopError _) = ''AgentLoopError''"
| "error_name (OSError _) = ''OSError''"
| "error_name (FileNotFoundError _) = ''FileNotFoundError''"
| "error_name (FileExistsError _) = ''FileExistsError''"
| "error_name AssertionError = ''AssertionError''"
| "error_name KeyboardInterrupt = ''KeyboardInterrupt''"
| "error_name ApprovalInterrupted = ''ApprovalInterrupted''"
| "error_name PostCommitInterrupted = ''PostCommitInterrupted''"

fun error_text :: "py_error \<Rightarrow> string" where \<comment> \<open>\<open>str(error)\<close>\<close>
  "error_text (DomainError m) = m"
| "error_text (ProjectionError m) = m"
| "error_text (ProjectionBlockedError m) = m"
| "error_text (ProtocolError m) = m"
| "error_text (StreamInterruptedError m) = m"
| "error_text (ToolValidationError m) = m"
| "error_text (UnknownToolError m) = m"
| "error_text (FileVersionError m) = m"
| "error_text (ValueError m) = m"
| "error_text (TypeError m) = m"
| "error_text (KeyError m) = m"
| "error_text (RuntimeError m) = m"
| "error_text (AttributeError m) = m"
| "error_text (OverflowError m) = m"
| "error_text (ProtocolFrameError m) = m"
| "error_text (RolloutCorruptionError m) = m"
| "error_text (StorePoisonedError m) = m"
| "error_text (ToolExecutorError m) = m"
| "error_text (PlanToolError m) = m"
| "error_text (FileToolError m) = m"
| "error_text (PathSafetyError m) = m"
| "error_text (FileConflictError m) = m"
| "error_text (UndoError m) = m"
| "error_text (UndoConflict m) = m"
| "error_text (CompactionError m) = m"
| "error_text (AgentLoopError m) = m"
| "error_text (OSError m) = m"
| "error_text (FileNotFoundError m) = m"
| "error_text (FileExistsError m) = m"
| "error_text _ = []"

definition safe_error :: "string list \<Rightarrow> string \<Rightarrow> py_error \<Rightarrow> string" where
  "safe_error secrets prefix error =
     (let detail = foldl (\<lambda>detail secret. if secret \<noteq> [] then replace_text secret ''<redacted>'' detail else detail)
            (error_text error) secrets;
          detail = (if detail = [] then error_name error else detail) in
      prefix @ '': '' @ error_name error @ '': '' @ detail)"

definition error_result :: "string \<Rightarrow> tool_status \<Rightarrow> string \<Rightarrow> py_error + tool_result" where
  "error_result name status message =
     bounded (name @ '' error'') message (tool_status_value status) []
       default_max_output_bytes default_max_output_lines"

text \<open>\<open>base64.b64encode\<close>\<close>

fun b64_encode :: "string \<Rightarrow> string" where
  "b64_encode [] = []"
| "b64_encode [a] = (let x = of_char a :: nat in
     [b64_chr (x div 4), b64_chr (16 * (x mod 4)), CHR ''='', CHR ''=''])"
| "b64_encode [a, b] = (let x = of_char a :: nat; y = of_char b in
     [b64_chr (x div 4), b64_chr (16 * (x mod 4) + y div 16), b64_chr (4 * (y mod 16)), CHR ''=''])"
| "b64_encode (a # b # c # s) = (let x = of_char a :: nat; y = of_char b; z = of_char c in
     [b64_chr (x div 4), b64_chr (16 * (x mod 4) + y div 16), b64_chr (4 * (y mod 16) + z div 64), b64_chr (z mod 64)]
     @ b64_encode s)"

subsection \<open>Appending a fact\<close>

text \<open>
  \<open>_append_and_reduce\<close>: the fact is durable before it is reduced; a fact the reducer rejects
  leaves the executor unusable, with the state the failing handler left.
\<close>

definition append_and_reduce ::
  "('a, 'u) executor \<Rightarrow> string \<Rightarrow> mapping \<Rightarrow> (('a, 'u) world, unit) io" where
  "append_and_reduce ex type payload = (\<lambda>w.
     let (event_id, timestamp, outcome) = ex_clock ex (int (length (ro_events (w_store w))) + 1) in
     case append_new (ex_iso_utc ex) (w_store w) event_id timestamp type payload outcome of
       (Inl e, st) \<Rightarrow> (Inl e, w\<lparr>w_store := st\<rparr>)
     | (Inr ev, st) \<Rightarrow>
         (case apply_event (w_state w) ev of
            Inl (e, s) \<Rightarrow> (Inl (ToolExecutorError ''durable event could not be applied to state''),
              w\<lparr>w_store := st, w_state := s, w_usable := False\<rparr>)
          | Inr s \<Rightarrow> (Inr (), w\<lparr>w_store := st, w_state := s\<rparr>)))"

subsection \<open>Closing a call\<close>

definition code_origin :: "tool_call \<Rightarrow> mapping" where
  "code_origin c = (if tc_origin c = ''code'' then [(''origin'', PStr ''code'')] else [])"

definition code_metadata :: "tool_call \<Rightarrow> tool_result \<Rightarrow> mapping" where
  "code_metadata c r =
     (if tc_origin c = ''code'' then [(''result_metadata'', PDict (tr_metadata r))] else [])"

text \<open>\<open>d.update(extra)\<close>\<close>

definition dict_update :: "mapping \<Rightarrow> mapping \<Rightarrow> mapping" where
  "dict_update d extra = fold (\<lambda>(k, v) d. dict_set k v d) extra d"

definition finish_requested_error ::
  "('a, 'u) executor \<Rightarrow> tool_call \<Rightarrow> tool_status \<Rightarrow> string \<Rightarrow> mapping \<Rightarrow>
   (('a, 'u) world, tool_result) io" where
  "finish_requested_error ex c status message extra =
     bind_io (lift_io (error_result (tc_name c) status message)) (\<lambda>r.
     bind_io (append_and_reduce ex ''tool_finished''
       (dict_update
         ([(''call_key'', PStr (tc_call_key c)), (''call_id'', PStr (tc_provider_call_id c)),
           (''status'', PStr (tool_status_value status)), (''result'', PStr (tr_output r)),
           (''truncated'', PBool (truthy (get (tr_metadata r) ''truncated'')))]
          @ code_origin c @ code_metadata c r) extra)) (\<lambda>_.
     ret r))"

definition require_accepted_identity :: "accepted_call \<Rightarrow> session_state \<Rightarrow> py_error + tool_call" where
  "require_accepted_identity accepted s =
     bindE (need (map_of (st_tool_calls s) (ac_call_key accepted))
       (ToolExecutorError ''unknown accepted call'')) (\<lambda>c.
     raise_if ((tc_provider_call_id c, tc_name c, tc_arguments c) \<noteq>
         (ac_provider_call_id accepted, ac_name accepted, ac_raw_arguments accepted))
       (ToolExecutorError ''accepted call identity mismatch'') (
     raise_if (tc_status c \<noteq> Requested) (ToolExecutorError ''accepted call is not pending'') (
     raise_if (st_active_turn_id s \<noteq> Some (tc_turn_id c))
       (ToolExecutorError ''accepted call is not in the active turn'') (Inr c))))"

text \<open>\<open>finish_unstarted\<close> of a \<open>ToolCall\<close>, and of an accepted call, which is looked up first.\<close>

definition finish_unstarted ::
  "('a, 'u) executor \<Rightarrow> tool_call \<Rightarrow> tool_status \<Rightarrow> string \<Rightarrow> mapping \<Rightarrow>
   (('a, 'u) world, tool_result) io" where
  "finish_unstarted ex c status message extra = finish_requested_error ex c status message extra"

definition finish_unstarted_accepted ::
  "('a, 'u) executor \<Rightarrow> accepted_call \<Rightarrow> tool_status \<Rightarrow> string \<Rightarrow> mapping \<Rightarrow>
   (('a, 'u) world, tool_result) io" where
  "finish_unstarted_accepted ex accepted status message extra =
     bind_io (\<lambda>w. (require_accepted_identity accepted (w_state w), w)) (\<lambda>c.
     finish_requested_error ex c status message extra)"

text \<open>The statuses a body may end with; any other becomes a failure.\<close>

definition body_status :: "tool_status set" where
  "body_status = {Succeeded, Failed, TimedOut, Interrupted, Conflict, Cancelled}"

definition settled_result :: "tool_call \<Rightarrow> tool_result \<Rightarrow> py_error + tool_status \<times> tool_result" where
  "settled_result c result =
     (case tool_status_of (tr_status result) of
        Some status \<Rightarrow>
          if status \<in> body_status then Inr (status, result)
          else bindE (error_result (tc_name c) Failed (''tool returned invalid status: '' @ tr_status result)) (\<lambda>r. Inr (Failed, r))
      | None \<Rightarrow> bindE (error_result (tc_name c) Failed (''tool returned invalid status: '' @ tr_status result)) (\<lambda>r. Inr (Failed, r)))"

text \<open>The file facts of a successful managed write, taken from the result's metadata.\<close>

definition file_fields :: "tool_status \<Rightarrow> mapping \<Rightarrow> mapping" where
  "file_fields status metadata =
     (case (as_str (get metadata ''path''), as_str (get metadata ''after_hash''), as_int (get metadata ''after_mode'')) of
        (Some path, Some after_hash, Some after_mode) \<Rightarrow>
          if status \<noteq> Succeeded then []
          else [(''path'', PStr path), (''after_hash'', PStr after_hash), (''after_mode'', PInt after_mode)]
            @ (case as_dict (get metadata ''after_version'') of None \<Rightarrow> []
               | Some d \<Rightarrow> [(''after_version'', PDict d)])
            @ (case get metadata ''created_directories'' of
                 PTuple (v # vs) \<Rightarrow> [(''created_directories'', PList (v # vs))] | _ \<Rightarrow> [])
      | _ \<Rightarrow> [])"

definition finish_payload :: "tool_call \<Rightarrow> tool_status \<Rightarrow> tool_result \<Rightarrow> mapping" where
  "finish_payload c status r =
     [(''call_key'', PStr (tc_call_key c)), (''call_id'', PStr (tc_provider_call_id c)),
      (''status'', PStr (tool_status_value status)), (''result'', PStr (tr_output r)),
      (''truncated'', PBool (truthy (get_or (tr_metadata r) ''truncated'' (PBool False))))]
     @ code_origin c @ code_metadata c r
     @ (case as_int (get (tr_metadata r) ''exit_code'') of None \<Rightarrow> []
        | Some code \<Rightarrow> [(''exit_code'', PInt code)])
     @ file_fields status (tr_metadata r)"

definition finish_started ::
  "('a, 'u) executor \<Rightarrow> tool_call \<Rightarrow> tool_result \<Rightarrow> (('a, 'u) world, unit) io" where
  "finish_started ex c result =
     bind_io (lift_io (settled_result c result)) (\<lambda>(status, r).
     append_and_reduce ex ''tool_finished'' (finish_payload c status r))"

subsection \<open>Approval\<close>

definition request_for_file :: "string \<Rightarrow> prepared_file_change \<Rightarrow> approval_request" where
  "request_for_file name p = \<lparr>aq_tool_name = name, aq_target = pf_canonical_path p, aq_kind = ''file'',
     aq_cwd = None, aq_diff = Some (pf_diff p), aq_before_hash = pf_before_hash p\<rparr>"

definition request_for_shell :: "(string \<Rightarrow> string) \<Rightarrow> string \<Rightarrow> string \<Rightarrow> approval_request" where
  "request_for_shell resolve_path command cwd = \<lparr>aq_tool_name = ''bash'', aq_target = command,
     aq_kind = ''shell'', aq_cwd = Some (resolve_path cwd), aq_diff = None, aq_before_hash = None\<rparr>"

text \<open>\<open>_approval_request\<close>; \<open>escape\<close> is \<open>_escape_terminal_text\<close>.\<close>

definition rendered_request ::
  "(string \<Rightarrow> string) \<Rightarrow> ('a, 'u) executor \<Rightarrow> string \<Rightarrow> 'u prepared \<Rightarrow> py_error + approval_request" where
  "rendered_request escape ex name prepared =
     bindE (resolve (ex_registry ex) name) (\<lambda>spec.
     bindE (need (ts_renderer spec) (ToolExecutorError ''tool has no supported approval target'')) (\<lambda>render.
     bindE (render prepared) (\<lambda>v.
     bindE (need (as_str v) (ToolExecutorError ''approval renderer must return a string'')) (\<lambda>rendered.
     Inr \<lparr>aq_tool_name = name, aq_target = escape rendered, aq_kind = ''rendered'', aq_cwd = None,
          aq_diff = None, aq_before_hash = None\<rparr>))))"

definition approval_request_for ::
  "(string \<Rightarrow> string) \<Rightarrow> ('a, 'u) executor \<Rightarrow> side_effect \<Rightarrow> string \<Rightarrow> 'u prepared \<Rightarrow>
   py_error + approval_request" where
  "approval_request_for escape ex effect name prepared =
     (case (effect, prepared) of
        (WorkspaceWrite, PreparedFile p _) \<Rightarrow> Inr (request_for_file name p)
      | (ShellEffect, PreparedShell command cwd _) \<Rightarrow> Inr (request_for_shell (ex_resolve_path ex) command cwd)
      | _ \<Rightarrow> rendered_request escape ex name prepared)"

text \<open>\<open>_approval_decision\<close>: anything but an explicit permission is a denial.\<close>

definition approval_decision_of ::
  "('a, 'u) executor \<Rightarrow> approval_request \<Rightarrow> (('a, 'u) world, approval_decision) io" where
  "approval_decision_of ex request = (\<lambda>w.
     let (answer, approver) = ex_decide ex request (w_approver w); w' = w\<lparr>w_approver := approver\<rparr> in
     case answer of
       Inl e \<Rightarrow> if is_interrupt e then (Inl ApprovalInterrupted, w') else (Inr Deny, w')
     | Inr decision \<Rightarrow> (Inr decision, w'))"

definition record_decision ::
  "('a, 'u) executor \<Rightarrow> accepted_call \<Rightarrow> bool \<Rightarrow> string \<Rightarrow> (('a, 'u) world, unit) io" where
  "record_decision ex call approved scope =
     append_and_reduce ex ''approval_decided''
       [(''call_key'', PStr (ac_call_key call)), (''call_id'', PStr (ac_provider_call_id call)),
        (''approved'', PBool approved), (''scope'', PStr scope)]"

text \<open>The result with which a call is closed before it starts, if it is.\<close>

definition stop ::
  "('a, 'u) executor \<Rightarrow> tool_call \<Rightarrow> tool_status \<Rightarrow> string \<Rightarrow> (('a, 'u) world, tool_result option) io" where
  "stop ex c status message =
     bind_io (finish_requested_error ex c status message []) (\<lambda>r. ret (Some r))"

definition decide ::
  "('a, 'u) executor \<Rightarrow> accepted_call \<Rightarrow> tool_call \<Rightarrow> approval_request \<Rightarrow>
   (('a, 'u) world, approval_decision) io" where
  "decide ex call c request =
     bind_io (asks (\<lambda>w. st_session_approval_always (w_state w))) (\<lambda>always.
     if always then ret AllowSession
     else handle (approval_decision_of ex request) (\<lambda>e.
       if e = ApprovalInterrupted then Some (
         bind_io (record_decision ex call False ''once'') (\<lambda>_.
         bind_io (finish_requested_error ex c Cancelled ''tool approval interrupted'' []) (\<lambda>_.
         throw KeyboardInterrupt)))
       else None))"

definition approve ::
  "(string \<Rightarrow> string) \<Rightarrow> ('a, 'u) executor \<Rightarrow> accepted_call \<Rightarrow> tool_call \<Rightarrow> 'u spec \<Rightarrow> 'u prepared option \<Rightarrow>
   (('a, 'u) world, tool_result option) io" where
  "approve escape ex call c spec prepared =
     (case prepared of None \<Rightarrow> throw AssertionError | Some p \<Rightarrow>
      case approval_request_for escape ex (ts_side_effect spec) (ac_name call) p of
        Inl e \<Rightarrow>
          if is_interrupt e then
            bind_io (finish_requested_error ex c Cancelled ''tool approval rendering interrupted'' []) (\<lambda>_.
            throw e)
          else stop ex c Failed (safe_error (ex_secrets ex) ''tool approval rendering failed'' e)
      | Inr request \<Rightarrow>
          bind_io (decide ex call c request) (\<lambda>decision.
          bind_io (record_decision ex call (decision \<noteq> Deny)
            (if decision = AllowSession then ''session'' else ''once'')) (\<lambda>_.
          if decision = Deny then stop ex c Denied ''tool execution denied'' else ret None)))"

text \<open>Why plan mode refuses a call, if it does.\<close>

definition plan_mode_refusal :: "side_effect \<Rightarrow> bool \<Rightarrow> (tool_status \<times> string) option" where
  "plan_mode_refusal effect active =
     (if effect = PlanExit \<and> \<not> active then
        Some (Failed, ''exit_plan_mode is only available while plan mode is active'')
      else if active \<and> effect \<in> {WorkspaceWrite, ShellEffect} then
        Some (Denied, ''plan mode is active; call exit_plan_mode to get the plan approved before running write_file, edit_file, or bash'')
      else None)"

subsection \<open>Facts about a managed write\<close>

definition append_first_snapshot ::
  "('a, 'u) executor \<Rightarrow> tool_call \<Rightarrow> prepared_file_change \<Rightarrow> (('a, 'u) world, unit) io" where
  "append_first_snapshot ex c p =
     bind_io (asks (\<lambda>w. map_of (st_file_snapshots (w_state w)) (tc_turn_id c, pf_canonical_path p))) (\<lambda>existing.
     if (case existing of None \<Rightarrow> False | Some sn \<Rightarrow> fs_after_hash sn \<noteq> None) then ret ()
     else append_and_reduce ex ''file_snapshot''
       [(''turn_id'', PStr (tc_turn_id c)), (''path'', PStr (pf_canonical_path p)),
        (''existed_before'', PBool (pf_existed_before p)),
        (''before_bytes'', PStr (b64_encode (pf_before_bytes p))), (''before_encoding'', PStr ''base64''),
        (''before_mode'', opt_int (pf_before_mode p)), (''before_hash'', opt_str (pf_before_hash p)),
        (''call_key'', PStr (tc_call_key c))])"

definition append_mutation_plan ::
  "('a, 'u) executor \<Rightarrow> tool_call \<Rightarrow> prepared_file_change \<Rightarrow> (('a, 'u) world, unit) io" where
  "append_mutation_plan ex c p =
     append_and_reduce ex ''file_mutation_planned''
       [(''turn_id'', PStr (tc_turn_id c)), (''call_key'', PStr (tc_call_key c)),
        (''path'', PStr (pf_canonical_path p)),
        (''expected_version'', file_version_to_dict (pf_expected_version p)),
        (''proposed_hash'', PStr (ex_sha256 ex (pf_proposed_bytes p))), (''diff'', PStr (pf_diff p))]"

definition record_write ::
  "('a, 'u) executor \<Rightarrow> tool_call \<Rightarrow> 'u prepared option \<Rightarrow> (('a, 'u) world, unit) io" where
  "record_write ex c prepared = (case prepared of
     Some (PreparedFile change _) \<Rightarrow>
       bind_io (append_mutation_plan ex c change) (\<lambda>_. append_first_snapshot ex c change)
   | _ \<Rightarrow> ret ())"

subsection \<open>prepare_staged\<close>

text \<open>The prepare handler, when the tool has one; the result if preparing failed.\<close>

definition prepare_call ::
  "('a, 'u) executor \<Rightarrow> tool_call \<Rightarrow> 'u spec \<Rightarrow> mapping \<Rightarrow>
   (('a, 'u) world, tool_result + 'u prepared option) io" where
  "prepare_call ex c spec arguments =
     (case ts_prepare spec of None \<Rightarrow> ret (Inr None) | Some prepare \<Rightarrow>
      bind_io (asks (\<lambda>w. prepare arguments (w_outside w))) (\<lambda>p. case p of
        Inr prepared \<Rightarrow> ret (Inr (Some prepared))
      | Inl e \<Rightarrow> if is_interrupt e then throw e
          else bind_io (finish_requested_error ex c InvalidArguments
            (safe_error (ex_secrets ex) ''tool preparation failed'' e) []) (\<lambda>r. ret (Inl r))))"

definition authorize ::
  "(string \<Rightarrow> string) \<Rightarrow> ('a, 'u) executor \<Rightarrow> accepted_call \<Rightarrow> tool_call \<Rightarrow> 'u spec \<Rightarrow> 'u prepared option \<Rightarrow>
   (('a, 'u) world, tool_result option) io" where
  "authorize escape ex call c spec prepared =
     bind_io (asks (\<lambda>w. st_plan_mode_active (w_state w))) (\<lambda>active.
     case plan_mode_refusal (ts_side_effect spec) active of
       Some (status, message) \<Rightarrow> stop ex c status message
     | None \<Rightarrow> if harmless (ts_side_effect spec) then ret None else approve escape ex call c spec prepared)"

definition prepare_staged ::
  "(string \<Rightarrow> string) \<Rightarrow> ('a, 'u) executor \<Rightarrow> accepted_call \<Rightarrow>
   (('a, 'u) world, tool_result + 'u staged_call) io" where
  "prepare_staged escape ex call =
     bind_io (asks w_usable) (\<lambda>usable.
     if \<not> usable then throw (ToolExecutorError ''executor is unusable after reducer divergence'') else
     bind_io (\<lambda>w. (require_accepted_identity call (w_state w), w)) (\<lambda>c.
     let early = (\<lambda>status message.
       bind_io (finish_requested_error ex c status message []) (\<lambda>r. ret (Inl r))) in
     case resolve (ex_registry ex) (ac_name call) of
       Inl e \<Rightarrow> early UnknownTool (error_text e)
     | Inr spec \<Rightarrow>
         (case parse_and_validate (ex_loads ex) (ex_registry ex) (ac_name call) (ac_raw_arguments call) of
            Inl (ToolValidationError m) \<Rightarrow> early InvalidArguments m
          | Inl e \<Rightarrow> throw e
          | Inr arguments \<Rightarrow>
              bind_io (prepare_call ex c spec arguments) (\<lambda>p. case p of
                Inl r \<Rightarrow> ret (Inl r)
              | Inr prepared \<Rightarrow>
                  bind_io (authorize escape ex call c spec prepared) (\<lambda>stopped. case stopped of
                    Some r \<Rightarrow> ret (Inl r)
                  | None \<Rightarrow>
                      bind_io (record_write ex c prepared) (\<lambda>_.
                      ret (Inr \<lparr>sg_call = c, sg_spec = spec, sg_arguments = arguments, sg_prepared = prepared\<rparr>)))))))"

subsection \<open>Start, dispatch and commit\<close>

definition start_staged :: "('a, 'u) executor \<Rightarrow> 'u staged_call \<Rightarrow> (('a, 'u) world, unit) io" where
  "start_staged ex staged =
     append_and_reduce ex ''tool_started''
       ([(''call_key'', PStr (tc_call_key (sg_call staged))),
         (''call_id'', PStr (tc_provider_call_id (sg_call staged))),
         (''name'', PStr (tc_name (sg_call staged))), (''arguments'', PDict (sg_arguments staged))]
        @ code_origin (sg_call staged))"

definition change_metadata :: "executed_file_change \<Rightarrow> mapping" where
  "change_metadata x =
     [(''path'', PStr (xc_canonical_path x)), (''before_hash'', opt_str (xc_before_hash x)),
      (''after_hash'', PStr (xc_after_hash x)), (''after_mode'', PInt (xc_after_mode x)),
      (''after_version'', file_version_to_dict (xc_after_version x)),
      (''created_directories'', PTuple (map PStr (xc_created_directories x))),
      (''durability_warning'', PBool (xc_durability_warning x)),
      (''interruption_warning'', PBool (xc_interruption_warning x))]"

definition normalize_result :: "raw_result \<Rightarrow> py_error + tool_result" where
  "normalize_result raw = (case raw of
     RawToolResult r \<Rightarrow> raise_if (tr_title r = []) (TypeError ''invalid ToolResult'') (Inr r)
   | RawFileChange x \<Rightarrow>
       bounded (''Write '' @ xc_canonical_path x) (''wrote '' @ xc_canonical_path x) ''succeeded''
         (change_metadata x) default_max_output_bytes default_max_output_lines
   | RawOther \<Rightarrow> Inl (TypeError ''unsupported result''))"

text \<open>\<open>prepared.execute()\<close>; a plan and a program have no such method.\<close>

fun prepared_body :: "'u prepared \<Rightarrow> 'u body" where
  "prepared_body (PreparedFile _ body) = body"
| "prepared_body (PreparedShell _ _ body) = body"
| "prepared_body (PreparedOther body) = body"
| "prepared_body _ = (\<lambda>u. (Inl (AttributeError ''execute''), u))"

definition staged_body :: "'u staged_call \<Rightarrow> 'u body" where
  "staged_body staged = (case ts_handler (sg_spec staged) of
     Some handler \<Rightarrow> handler (sg_arguments staged)
   | None \<Rightarrow> (case sg_prepared staged of
       None \<Rightarrow> (\<lambda>u. (Inl AssertionError, u)) | Some p \<Rightarrow> prepared_body p))"

text \<open>How the \<open>except\<close> clauses of \<open>dispatch_staged_with_cancel\<close> turn an exception into a result.\<close>

definition settle_body ::
  "('a, 'u) executor \<Rightarrow> 'u staged_call \<Rightarrow> py_error + tool_result \<Rightarrow> py_error + tool_result" where
  "settle_body ex staged r =
     (let name = tc_name (sg_call staged) in case r of
        Inr result \<Rightarrow> Inr result
      | Inl e \<Rightarrow>
          (case e of
             ToolExecutorError m \<Rightarrow> Inl e
           | FileConflictError m \<Rightarrow>
               if ts_prepare (sg_spec staged) \<noteq> None
               then error_result name Conflict (safe_error (ex_secrets ex) ''tool execution conflict'' e)
               else error_result name Failed (safe_error (ex_secrets ex) ''tool execution failed'' e)
           | PathSafetyError m \<Rightarrow>
               if ts_prepare (sg_spec staged) \<noteq> None
               then error_result name Conflict (safe_error (ex_secrets ex) ''tool execution conflict'' e)
               else error_result name Failed (safe_error (ex_secrets ex) ''tool execution failed'' e)
           | _ \<Rightarrow>
               if is_interrupt e then error_result name Interrupted ''tool execution interrupted''
               else error_result name Failed (safe_error (ex_secrets ex) ''tool execution failed'' e)))"

text \<open>\<open>run_code\<close> programs are run by \<open>program\<close>, the runner of \<open>code_mode.py\<close>.\<close>

definition dispatch_staged ::
  "(tool_call \<Rightarrow> string \<Rightarrow> string \<Rightarrow> (('a, 'u) world, tool_result) io) \<Rightarrow> ('a, 'u) executor \<Rightarrow>
   'u staged_call \<Rightarrow> (('a, 'u) world, tool_result) io" where
  "dispatch_staged program ex staged = (\<lambda>w.
     case sg_prepared staged of
       Some (PreparedCode description code) \<Rightarrow>
         (let (r, w') = program (sg_call staged) description code w in (settle_body ex staged r, w'))
     | _ \<Rightarrow>
         (let (raw, u) = staged_body staged (w_outside w) in
          (settle_body ex staged (bindE raw normalize_result), w\<lparr>w_outside := u\<rparr>)))"

fun is_executor_error :: "py_error \<Rightarrow> bool" where
  "is_executor_error (ToolExecutorError _) = True"
| "is_executor_error _ = False"

definition commit_staged ::
  "('a, 'u) executor \<Rightarrow> 'u staged_call \<Rightarrow> tool_result \<Rightarrow> (('a, 'u) world, unit) io" where
  "commit_staged ex staged result =
     handle (finish_started ex (sg_call staged) result) (\<lambda>e.
       if is_executor_error e \<or> is_interrupt e then None
       else Some (
         bind_io (lift_io (error_result (tc_name (sg_call staged)) Failed
           (safe_error (ex_secrets ex) ''tool result handling failed'' e))) (\<lambda>r.
         finish_started ex (sg_call staged) r)))"

subsection \<open>execute\<close>

definition execute ::
  "(string \<Rightarrow> string) \<Rightarrow> (tool_call \<Rightarrow> string \<Rightarrow> string \<Rightarrow> (('a, 'u) world, tool_result) io) \<Rightarrow>
   ('a, 'u) executor \<Rightarrow> accepted_call \<Rightarrow> (('a, 'u) world, tool_result) io" where
  "execute escape program ex call =
     bind_io (prepare_staged escape ex call) (\<lambda>p. case p of
       Inl r \<Rightarrow> ret r
     | Inr staged \<Rightarrow>
         bind_io (start_staged ex staged) (\<lambda>_.
         bind_io (if ts_side_effect (sg_spec staged) = PlanExit then
             bind_io (append_and_reduce ex ''plan_mode_set'' [(''active'', PBool False)]) (\<lambda>_.
             lift_io (bounded ''exit_plan_mode'' ''plan approved; plan mode exited'' ''succeeded'' []
               default_max_output_bytes default_max_output_lines))
           else dispatch_staged program ex staged) (\<lambda>result.
         bind_io (commit_staged ex staged result) (\<lambda>_.
         if get (tr_metadata result) ''interruption_warning'' = PBool True
         then throw PostCommitInterrupted else ret result))))"

subsection \<open>Parallel calls\<close>

record 'u parallel_call =
  pp_call :: tool_call
  pp_name :: string
  pp_arguments :: mapping
  pp_handler :: "'u handler"

definition prepare_parallel ::
  "('a, 'u) executor \<Rightarrow> accepted_call \<Rightarrow> (('a, 'u) world, 'u parallel_call) io" where
  "prepare_parallel ex call =
     bind_io (asks w_usable) (\<lambda>usable.
     if \<not> usable then throw (ToolExecutorError ''executor is unusable after reducer divergence'') else
     bind_io (\<lambda>w. (require_accepted_identity call (w_state w), w)) (\<lambda>c.
     if execution_mode (ex_loads ex) (ex_registry ex) (ac_name call) (ac_raw_arguments call) \<noteq> Parallel
     then throw (ToolExecutorError (''accepted call is not concurrency-safe: '' @ ac_call_key call)) else
     bind_io (lift_io (resolve (ex_registry ex) (ac_name call))) (\<lambda>spec.
     bind_io (lift_io (parse_and_validate (ex_loads ex) (ex_registry ex) (ac_name call) (ac_raw_arguments call))) (\<lambda>arguments.
     bind_io (lift_io (need (ts_handler spec) (ToolExecutorError ''parallel call has no direct handler''))) (\<lambda>handler.
     bind_io (append_and_reduce ex ''tool_started''
       [(''call_key'', PStr (ac_call_key call)), (''call_id'', PStr (ac_provider_call_id call)),
        (''name'', PStr (ac_name call)), (''arguments'', PDict arguments)]) (\<lambda>_.
     ret \<lparr>pp_call = c, pp_name = ac_name call, pp_arguments = arguments, pp_handler = handler\<rparr>))))))"

definition dispatch_parallel ::
  "('a, 'u) executor \<Rightarrow> 'u parallel_call \<Rightarrow> (('a, 'u) world, tool_result) io" where
  "dispatch_parallel ex p = (\<lambda>w.
     let (raw, u) = pp_handler p (pp_arguments p) (w_outside w) in
     (case bindE raw normalize_result of
        Inr r \<Rightarrow> Inr r
      | Inl e \<Rightarrow> if is_interrupt e then error_result (pp_name p) Interrupted ''tool execution interrupted''
          else error_result (pp_name p) Failed (safe_error (ex_secrets ex) ''tool execution failed'' e),
      w\<lparr>w_outside := u\<rparr>))"

definition commit_parallel ::
  "('a, 'u) executor \<Rightarrow> 'u parallel_call \<Rightarrow> tool_result \<Rightarrow> (('a, 'u) world, unit) io" where
  "commit_parallel ex p result =
     bind_io (asks (\<lambda>w. map_of (st_tool_calls (w_state w)) (tc_call_key (pp_call p)))) (\<lambda>c.
     case c of
       Some c \<Rightarrow> if tc_status c \<noteq> Started then throw (ToolExecutorError ''parallel call is not started'')
         else finish_started ex c result
     | None \<Rightarrow> throw (ToolExecutorError ''parallel call is not started''))"

end
