(* ===== verification/ExecutorRun.thy ===== *)
theory ExecutorRun
  imports Executor ReducerSteps
begin

section \<open>What the pipeline does to the journal\<close>

text \<open>
  Every step of the executor, and every program built from its steps, only appends to the
  log, and keeps the session state equal to the replay of the log until a fact is rejected;
  from then on the log cannot be replayed. The step relation \<open>journal_step\<close> collects this.

  What every operation does to the world follows from what one append does to it: the locale
  \<open>executor_order\<close> states the contract of a relation, and proves it for the operations that do
  not run a body; \<open>pipeline_order\<close> adds the bodies. \<open>journal_step\<close> is an interpretation of
  the second, and "the outside is untouched" of the first.
\<close>

definition log_of :: "('a, 'u) world \<Rightarrow> event list" where
  "log_of w = ro_events (w_store w)"

definition consistent :: "('a, 'u) world \<Rightarrow> bool" where
  "consistent w \<longleftrightarrow>
     (if w_usable w then replay (log_of w) = Inr (w_state w) else (\<exists>e. replay (log_of w) = Inl e))"

definition journal_step :: "('a, 'u) world \<Rightarrow> ('a, 'u) world \<Rightarrow> bool" where
  "journal_step w w' \<longleftrightarrow>
     (\<exists>es. log_of w' = log_of w @ es) \<and> ro_session_id (w_store w') = ro_session_id (w_store w) \<and>
     (w_usable w' \<longrightarrow> w_usable w) \<and>
     (consistent w \<longrightarrow> consistent w' \<and> (w_usable w' \<longrightarrow> evolves (w_state w) (w_state w')))"

lemma journal_step_refl: "journal_step w w"
  by (simp add: journal_step_def)

lemma journal_step_trans: "journal_step u v \<Longrightarrow> journal_step v w \<Longrightarrow> journal_step u w"
  unfolding journal_step_def by (auto intro: evolves_trans)

lemma same_journal:
  "w_store w' = w_store w \<Longrightarrow> w_state w' = w_state w \<Longrightarrow> w_usable w' = w_usable w \<Longrightarrow> journal_step w w'"
  by (simp add: journal_step_def consistent_def log_of_def)

subsection \<open>One fact\<close>

lemma append_new_Inl:
  assumes "append_new iso_utc st i t ty p outcome = (Inl e, st')"
  shows "ro_events st' = ro_events st \<and> ro_session_id st' = ro_session_id st"
  using assms by (auto simp: append_new_def append_event_def split: sum.splits write_outcome.splits)

lemma mk_event_fields:
  assumes "mk_event iso_utc (PInt v) (PInt n) (PStr i) (PStr t) (PStr sid) (PStr ty) (PDict p) = Inr ev"
  shows "ev_seq ev = n \<and> ev_type ev = ty \<and> ev_session_id ev = sid \<and> ev_timestamp ev = t \<and>
    freeze_json (PDict p) = Inr (PProxy (ev_payload ev))"
  using assms by (auto simp: mk_event_def succ_simps validate_timestamp_def freeze_map_shape)

lemma append_new_Inr:
  assumes "append_new iso_utc st i t ty p outcome = (Inr ev, st')"
  shows "ro_events st' = ro_events st @ [ev] \<and> ro_session_id st' = ro_session_id st \<and>
    ev_type ev = ty \<and> ev_session_id ev = ro_session_id st \<and> ev_seq ev = int (length (ro_events st)) + 1 \<and>
    freeze_json (PDict p) = Inr (PProxy (ev_payload ev))"
proof -
  from assms obtain ev0 where ev0: "mk_event iso_utc (PInt 1) (PInt (int (length (ro_events st)) + 1)) (PStr i) (PStr t)
      (PStr (ro_session_id st)) (PStr ty) (PDict p) = Inr ev0" "append_event st ev0 outcome = (Inr ev, st')"
    by (auto simp: append_new_def succ_simps split: sum.splits)
  from ev0(2) have "ev = ev0" "ro_events st' = ro_events st @ [ev]" "ro_session_id st' = ro_session_id st"
    by (auto simp: append_event_def split: sum.splits write_outcome.splits)
  with mk_event_fields [OF ev0(1)] show ?thesis by simp
qed

text \<open>What a recorded fact says: its fields are those of the payload, frozen.\<close>

definition recorded :: "string \<Rightarrow> mapping \<Rightarrow> event \<Rightarrow> bool" where
  "recorded ty p ev \<longleftrightarrow> ev_type ev = ty \<and> freeze_json (PDict p) = Inr (PProxy (ev_payload ev))"

lemma replay_snoc: "replay (es @ [ev]) = bindE (replay es) (\<lambda>s. reraise fst (apply_event s ev))"
  by (simp add: replay_def replay_from_def foldE_append bindE_def reraise_def split: sum.split)

lemma append_and_reduce_cases:
  assumes "append_and_reduce ex ty p w = (r, w')"
  obtains (refused) e where "r = Inl e" "log_of w' = log_of w" "w_state w' = w_state w" "w_usable w' = w_usable w"
      "ro_session_id (w_store w') = ro_session_id (w_store w)" "w_outside w' = w_outside w"
  | (diverged) ev e s where "r = Inl (ToolExecutorError ''durable event could not be applied to state'')"
      "recorded ty p ev" "log_of w' = log_of w @ [ev]" "apply_event (w_state w) ev = Inl (e, s)" "\<not> w_usable w'"
      "ro_session_id (w_store w') = ro_session_id (w_store w)" "w_outside w' = w_outside w"
  | (reduced) ev where "r = Inr ()" "recorded ty p ev" "log_of w' = log_of w @ [ev]"
      "apply_event (w_state w) ev = Inr (w_state w')" "w_usable w' = w_usable w"
      "ro_session_id (w_store w') = ro_session_id (w_store w)" "w_outside w' = w_outside w"
proof -
  obtain i t oc where c: "ex_clock ex (int (length (ro_events (w_store w))) + 1) = (i, t, oc)" by (metis prod_cases3)
  obtain x st where a: "append_new (ex_iso_utc ex) (w_store w) i t ty p oc = (x, st)" by (metis prod.exhaust)
  show ?thesis
  proof (cases x)
    case (Inl e)
    show ?thesis by (rule refused) (use assms c a Inl append_new_Inl in \<open>auto simp: append_and_reduce_def log_of_def\<close>)
  next
    case (Inr ev)
    note n = append_new_Inr [OF a [unfolded Inr]]
    show ?thesis
    proof (cases "apply_event (w_state w) ev")
      case (Inl es)
      obtain e s where "es = (e, s)" by (cases es)
      with assms c a Inr Inl n show ?thesis
        by (intro diverged [of ev e s]) (auto simp: append_and_reduce_def log_of_def recorded_def)
    next
      case (Inr s)
      with assms c a \<open>x = Inr ev\<close> n show ?thesis
        by (intro reduced [of ev]) (auto simp: append_and_reduce_def log_of_def recorded_def)
    qed
  qed
qed

lemma append_and_reduce_journal: "moves journal_step (append_and_reduce ex ty p)"
proof (rule movesI)
  fix w r w'
  assume "append_and_reduce ex ty p w = (r, w')"
  then show "journal_step w w'"
  proof (cases rule: append_and_reduce_cases)
    case refused
    then show ?thesis by (simp add: journal_step_def consistent_def log_of_def)
  next
    case (diverged ev e s)
    have "consistent w'" if "consistent w"
      using that diverged by (auto simp: consistent_def replay_snoc split: if_splits)
    with diverged show ?thesis by (simp add: journal_step_def)
  next
    case (reduced ev)
    have "consistent w' \<and> (w_usable w' \<longrightarrow> evolves (w_state w) (w_state w'))" if c: "consistent w"
    proof (cases "w_usable w")
      case True
      then have "replay (log_of w) = Inr (w_state w)" using c by (simp add: consistent_def)
      then show ?thesis
        using reduced True apply_event_evolves [OF replay_wf] by (auto simp: consistent_def replay_snoc)
    next
      case False
      with c obtain e where "replay (log_of w) = Inl e" by (auto simp: consistent_def)
      then show ?thesis using reduced False by (simp add: consistent_def replay_snoc)
    qed
    with reduced show ?thesis by (simp add: journal_step_def)
  qed
qed

subsection \<open>Every operation of the executor\<close>

locale executor_order = world_order R
  for R :: "('a, 'u) world \<Rightarrow> ('a, 'u) world \<Rightarrow> bool" +
  assumes append: "moves R (append_and_reduce (ex :: ('a, 'u) executor) ty p)"
    and approver: "R w (w\<lparr>w_approver := x\<rparr>)"
begin

lemma moves_pure: "moves R (\<lambda>w. (f w, w))"
  by (simp add: moves_def same)

lemmas basic = moves_rules append moves_pure

lemma moves_finish_requested_error: "moves R (finish_requested_error ex c st msg extra)"
  unfolding finish_requested_error_def by (intro basic)

lemma moves_finish_unstarted: "moves R (finish_unstarted ex c st msg extra)"
  unfolding finish_unstarted_def by (rule moves_finish_requested_error)

lemma moves_finish_unstarted_accepted: "moves R (finish_unstarted_accepted ex a st msg extra)"
  unfolding finish_unstarted_accepted_def by (intro basic moves_finish_requested_error)

lemma moves_finish_started: "moves R (finish_started ex c r)"
  unfolding finish_started_def by (auto intro!: basic)

lemma moves_approval_decision_of: "moves R (approval_decision_of ex q)"
  by (rule movesI) (auto simp: approval_decision_of_def Let_def approver split: prod.splits sum.splits if_splits)

lemma moves_record_decision: "moves R (record_decision ex a b s)"
  unfolding record_decision_def by (rule append)

lemma moves_stop: "moves R (stop ex c st msg)"
  unfolding stop_def by (intro basic moves_finish_requested_error)

lemma moves_decide: "moves R (decide ex a c q)"
  unfolding decide_def
  by (auto intro!: basic moves_approval_decision_of moves_record_decision moves_finish_requested_error split: if_splits)

lemma moves_approve: "moves R (approve escape ex a c spec p)"
  unfolding approve_def
  by (auto intro!: basic moves_finish_requested_error moves_stop moves_decide moves_record_decision
      split: option.split sum.split)

lemma moves_authorize: "moves R (authorize escape ex a c spec p)"
  unfolding authorize_def by (auto intro!: basic moves_stop moves_approve split: option.split)

lemma moves_record_write: "moves R (record_write ex c p)"
  unfolding record_write_def append_mutation_plan_def append_first_snapshot_def
  by (auto intro!: basic split: option.split prepared.split)

lemma moves_prepare_call: "moves R (prepare_call ex c spec args)"
  unfolding prepare_call_def
  by (auto intro!: basic moves_finish_requested_error split: option.split sum.split)

lemma moves_prepare_staged: "moves R (prepare_staged escape ex a)"
  unfolding prepare_staged_def Let_def
  by (auto intro!: basic moves_finish_requested_error moves_prepare_call moves_authorize moves_record_write
      split: option.split sum.split py_error.split)

lemma moves_start_staged: "moves R (start_staged ex staged)"
  unfolding start_staged_def by (rule append)

lemma moves_commit_staged: "moves R (commit_staged ex staged r)"
  unfolding commit_staged_def by (auto intro!: basic moves_finish_started split: if_splits)

lemma moves_prepare_parallel: "moves R (prepare_parallel ex a)"
  unfolding prepare_parallel_def by (auto intro!: basic)

lemma moves_commit_parallel: "moves R (commit_parallel ex p r)"
  unfolding commit_parallel_def by (auto intro!: basic moves_finish_started split: option.split)

lemmas staged_rules = basic moves_finish_requested_error moves_finish_unstarted moves_finish_unstarted_accepted
  moves_finish_started moves_record_decision moves_stop moves_decide moves_approve moves_authorize
  moves_record_write moves_prepare_call moves_prepare_staged moves_start_staged moves_commit_staged
  moves_prepare_parallel moves_commit_parallel

end

locale pipeline_order = executor_order R
  for R :: "('a, 'u) world \<Rightarrow> ('a, 'u) world \<Rightarrow> bool" +
  assumes outside: "R w (w\<lparr>w_outside := u\<rparr>)"
begin

lemma moves_dispatch_staged:
  assumes "\<And>c d s. moves R (program c d s)"
  shows "moves R (dispatch_staged program ex staged)"
proof (rule movesI)
  fix w r w'
  assume run: "dispatch_staged program ex staged w = (r, w')"
  have "\<exists>u. w' = w\<lparr>w_outside := u\<rparr>" if "\<And>d s. sg_prepared staged \<noteq> Some (PreparedCode d s)"
    using run that by (auto simp: dispatch_staged_def split: prod.splits option.splits prepared.splits)
  then show "R w w'"
    using run movesD [OF assms] outside
    by (cases "\<exists>d s. sg_prepared staged = Some (PreparedCode d s)")
       (auto simp: dispatch_staged_def split: prod.splits)
qed

lemma moves_execute:
  assumes "\<And>c d s. moves R (program c d s)"
  shows "moves R (execute escape program ex a)"
  unfolding execute_def by (auto intro!: staged_rules moves_dispatch_staged assms split: sum.split)

lemma moves_dispatch_parallel: "moves R (dispatch_parallel ex p)"
  by (rule movesI) (auto simp: dispatch_parallel_def outside split: prod.splits)

end

definition same_outside :: "('a, 'u) world \<Rightarrow> ('a, 'u) world \<Rightarrow> bool" where
  "same_outside w w' \<longleftrightarrow> w_outside w' = w_outside w"

interpretation journal: pipeline_order "journal_step :: ('a, 'u) world \<Rightarrow> ('a, 'u) world \<Rightarrow> bool"
  by unfold_locales
     (auto intro: journal_step_refl journal_step_trans append_and_reduce_journal same_journal)

interpretation outside: executor_order "same_outside :: ('a, 'u) world \<Rightarrow> ('a, 'u) world \<Rightarrow> bool"
proof
  show "moves same_outside (append_and_reduce ex ty p)" for ex :: "('a, 'u) executor" and ty p
  proof (rule movesI)
    fix w :: "('a, 'u) world" and r w'
    assume "append_and_reduce ex ty p w = (r, w')"
    then show "same_outside w w'" by (cases rule: append_and_reduce_cases) (simp_all add: same_outside_def)
  qed
qed (simp_all add: same_outside_def)

end
