(* ===== verification/ExecutorProps.thy ===== *)
theory ExecutorProps
  imports ExecutorRun ReducerProps
begin

section \<open>Properties of the execution pipeline\<close>

text \<open>
  A call is executed at most once and ends settled; nothing outside changes before its start,
  and its approval where one is needed, are on record; the session state is the replay of the
  log for as long as the executor is usable.
\<close>

subsection \<open>Reading a recorded fact\<close>

lemma freeze_entries:
  assumes "mapE (\<lambda>kv. bindE (freeze_json (snd kv)) (\<lambda>w. Inr (fst kv, w))) kvs = Inr ws"
  shows "map_of ws k = None \<longleftrightarrow> map_of kvs k = None"
    and "map_of kvs k = Some v \<Longrightarrow> \<exists>w. map_of ws k = Some w \<and> freeze_json v = Inr w"
  using assms by (induction kvs arbitrary: ws) (auto simp: succ_simps)

lemma recorded_get:
  assumes "recorded ty p ev"
  shows "map_of p k = Some v \<Longrightarrow> freeze_json v = Inr w \<Longrightarrow> get_or (ev_payload ev) k d = w"
    and "map_of p k = None \<Longrightarrow> get_or (ev_payload ev) k d = d"
proof -
  have m: "mapE (\<lambda>kv. bindE (freeze_json (snd kv)) (\<lambda>w. Inr (fst kv, w))) p = Inr (ev_payload ev)"
    using assms by (auto simp: recorded_def succ_simps)
  show "map_of p k = Some v \<Longrightarrow> freeze_json v = Inr w \<Longrightarrow> get_or (ev_payload ev) k d = w"
    using freeze_entries(2) [OF m, of k v] by (auto simp: get_or_def)
  show "map_of p k = None \<Longrightarrow> get_or (ev_payload ev) k d = d"
    using freeze_entries(1) [OF m, of k] by (simp add: get_or_def)
qed

lemma recorded_str: "recorded ty p ev \<Longrightarrow> map_of p k = Some (PStr s) \<Longrightarrow> get (ev_payload ev) k = PStr s"
  and recorded_bool: "recorded ty p ev \<Longrightarrow> map_of p k = Some (PBool b) \<Longrightarrow> get (ev_payload ev) k = PBool b"
  by (simp_all add: get_def recorded_get)

lemma recorded_type: "recorded ty p ev \<Longrightarrow> ev_type ev = ty"
  by (simp add: recorded_def)

subsection \<open>A finished call is settled\<close>

definition settled :: "string \<Rightarrow> ('a, 'u) world \<Rightarrow> bool" where
  "settled key w \<longleftrightarrow> (\<exists>c. map_of (st_tool_calls (w_state w)) key = Some c \<and> is_terminal c)"

lemma keyed_call:
  assumes "call_for_active_turn s p = Inr c" "get p ''call_key'' = PStr k"
  shows "map_of (st_tool_calls s) k = Some c"
  using assms by (auto simp: call_for_active_turn_def succ_simps split: if_splits)

lemma tool_finished_settles:
  assumes "apply_event s ev = Inr s'" "ev_type ev = ''tool_finished''" "get (ev_payload ev) ''call_key'' = PStr k"
    "wf_state s"
  shows "\<exists>c. map_of (st_tool_calls s') k = Some c \<and> is_terminal c"
proof -
  from assms(1) obtain h s1 where h: "map_of handlers (ev_type ev) = Some h" "h s ev = Inr s1"
    "s' = record_event ev s1" by (rule apply_eventD)
  have fin: "apply_tool_finished s ev = Inr s1" using h assms(2) by (simp add: handlers_def)
  from fin obtain c f u c' s2 where c: "call_for_active_turn s (ev_payload ev) = Inr c"
    and f: "read_result_fields s c (ev_payload ev) = Inr f"
    and c': "tool_call_post_init
       (c\<lparr>tc_status := rf_status f, tc_result := rf_result f, tc_exit_code := rf_exit_code f,
          tc_truncated := rf_truncated f,
          tc_result_metadata := get_or (ev_payload ev) ''result_metadata'' (PDict []),
          tc_recovery_blocked := rf_recovery_blocked f,
          tc_finished_seq := Some (ev_seq ev)\<rparr>) = Inr c'"
    and s2: "finish_node (set_snapshot u (set_call c' s)) c ev f = Inr s2"
    and s1: "s1 = refresh_recovery_block s2"
    by (auto simp: apply_tool_finished_def succ_simps)
  have "tc_call_key c = k"
    using keyed_call [OF c assms(3)] assms(4) by (auto simp: wf_state_def calls_wf_def)
  moreover have "tool_terminal (rf_status f)" using f by (auto simp: read_result_fields_def succ_simps)
  moreover have "tc_call_key c' = tc_call_key c" "tc_status c' = rf_status f" using post_init_InrD [OF c'] by auto
  moreover have "st_tool_calls s' = dict_set (tc_call_key c') c' (st_tool_calls s)"
    using finish_node_calls [OF s2] s1 h(3) by simp
  ultimately show ?thesis by (simp add: is_terminal_def)
qed

lemma finish_appended_settles:
  assumes run: "append_and_reduce ex ''tool_finished'' p w = (Inr (), w')" and p: "map_of p ''call_key'' = Some (PStr k)"
    and ok: "consistent w" "w_usable w'"
  shows "settled k w'"
  using run
proof (cases rule: append_and_reduce_cases)
  case (reduced ev)
  have "replay (log_of w) = Inr (w_state w)" using ok reduced(5) by (simp add: consistent_def)
  then have "wf_state (w_state w)" by (rule replay_wf)
  moreover have "ev_type ev = ''tool_finished''" using reduced(2) by (simp add: recorded_def)
  ultimately show ?thesis
    unfolding settled_def using tool_finished_settles [OF reduced(4)] recorded_str [OF reduced(2) p] by blast
qed simp_all

lemma finish_requested_settles:
  assumes "finish_requested_error ex c st msg [] w = (Inr r, w')" "consistent w" "w_usable w'"
  shows "settled (tc_call_key c) w'"
proof -
  from assms(1) obtain p where "append_and_reduce ex ''tool_finished'' p w = (Inr (), w')"
    "map_of p ''call_key'' = Some (PStr (tc_call_key c))"
    by (auto simp: finish_requested_error_def io_run dict_update_def)
  then show ?thesis using finish_appended_settles assms(2,3) by blast
qed

lemma finish_started_settles:
  assumes "finish_started ex c r w = (Inr (), w')" "consistent w" "w_usable w'"
  shows "settled (tc_call_key c) w'"
proof -
  from assms(1) obtain p where "append_and_reduce ex ''tool_finished'' p w = (Inr (), w')"
    "map_of p ''call_key'' = Some (PStr (tc_call_key c))"
    by (auto simp: finish_started_def io_run finish_payload_def split: prod.splits)
  then show ?thesis using finish_appended_settles assms(2,3) by blast
qed

lemma journalD:
  assumes "moves journal_step m" "m w = (r, w')" "consistent w"
  shows "consistent w'" "w_usable w' \<Longrightarrow> w_usable w" "\<exists>es. log_of w' = log_of w @ es"
    "w_usable w' \<Longrightarrow> evolves (w_state w) (w_state w')"
  using movesD [OF assms(1,2)] assms(3) by (auto simp: journal_step_def)

lemma commit_staged_settles:
  assumes run: "commit_staged ex staged r w = (Inr (), w')" and ok: "consistent w" "w_usable w'"
  shows "settled (tc_call_key (sg_call staged)) w'"
proof -
  have fs: "moves journal_step (finish_started ex (sg_call staged) r)" for r by (rule journal.moves_finish_started)
  from run consider "finish_started ex (sg_call staged) r w = (Inr (), w')"
    | e r' w1 where "finish_started ex (sg_call staged) r w = (Inl e, w1)"
        "finish_started ex (sg_call staged) r' w1 = (Inr (), w')"
    by (auto simp: commit_staged_def io_run split: if_splits)
  then show ?thesis
  proof cases
    case 1 then show ?thesis using ok by (rule finish_started_settles)
  next
    case 2
    from 2(2) journalD(1) [OF fs 2(1) ok(1)] ok(2) show ?thesis by (rule finish_started_settles)
  qed
qed

subsection \<open>What prepare_staged promises\<close>

lemma identityD:
  assumes "require_accepted_identity a s = Inr c"
  shows "map_of (st_tool_calls s) (ac_call_key a) = Some c \<and> tc_status c = Requested \<and>
    st_active_turn_id s = Some (tc_turn_id c) \<and> tc_provider_call_id c = ac_provider_call_id a"
  using assms by (auto simp: require_accepted_identity_def succ_simps)

lemma prepare_call_early:
  assumes "prepare_call ex c spec args w = (Inr (Inl r), w')"
  shows "\<exists>st msg. finish_requested_error ex c st msg [] w = (Inr r, w')"
  using assms by (auto simp: prepare_call_def io_run split: option.splits sum.splits if_splits)

lemma prepare_call_ready: "prepare_call ex c spec args w = (Inr (Inr p), w') \<Longrightarrow> w' = w"
  by (auto simp: prepare_call_def io_run split: option.splits sum.splits if_splits)

lemma stopD: "stop ex c st msg w = (Inr x, w') \<Longrightarrow>
    \<exists>r. x = Some r \<and> finish_requested_error ex c st msg [] w = (Inr r, w')"
  by (auto simp: stop_def io_run)

lemma approve_run:
  assumes "approve escape ex a c spec p w = (Inr x, w')"
  obtains st msg where "stop ex c st msg w = (Inr x, w')"
  | decision scope w1 w2 where "journal_step w w1" "record_decision ex a (decision \<noteq> Deny) scope w1 = (Inr (), w2)"
      "if decision = Deny then stop ex c Denied ''tool execution denied'' w2 = (Inr x, w') else x = None \<and> w' = w2"
proof (cases p)
  case (Some q)
  show thesis
  proof (cases "approval_request_for escape ex (ts_side_effect spec) (ac_name a) q")
    case (Inl e)
    with assms Some that(1) show thesis by (auto simp: approve_def io_run split: if_splits)
  next
    case (Inr request)
    with assms Some obtain d w1 w2 where r: "decide ex a c request w = (Inr d, w1)"
      "record_decision ex a (d \<noteq> Deny) (if d = AllowSession then ''session'' else ''once'') w1 = (Inr (), w2)"
      "if d = Deny then stop ex c Denied ''tool execution denied'' w2 = (Inr x, w') else x = None \<and> w' = w2"
      by (auto simp: approve_def io_run split: if_splits)
    show thesis using that(2) [OF movesD [OF journal.moves_decide r(1)] r(2,3)] .
  qed
qed (use assms in \<open>simp add: approve_def\<close>)

lemma authorize_run:
  assumes "authorize escape ex a c spec p w = (Inr x, w')"
  obtains st msg where "stop ex c st msg w = (Inr x, w')"
  | "plan_mode_refusal (ts_side_effect spec) (st_plan_mode_active (w_state w)) = None"
      "harmless (ts_side_effect spec)" "x = None" "w' = w"
  | "plan_mode_refusal (ts_side_effect spec) (st_plan_mode_active (w_state w)) = None"
      "\<not> harmless (ts_side_effect spec)" "approve escape ex a c spec p w = (Inr x, w')"
  using assms
  by (cases "plan_mode_refusal (ts_side_effect spec) (st_plan_mode_active (w_state w))")
     (auto simp: authorize_def bind_asks split: if_splits)

lemma authorize_stop:
  assumes "authorize escape ex a c spec p w = (Inr (Some r), w')"
  shows "\<exists>st msg w1. journal_step w w1 \<and> finish_requested_error ex c st msg [] w1 = (Inr r, w')"
  using assms
proof (cases rule: authorize_run)
  case (1 st msg)
  with stopD show ?thesis using journal.same by blast
next
  case 3
  from 3(3) show ?thesis
  proof (cases rule: approve_run)
    case (1 st msg)
    with stopD show ?thesis using journal.same by blast
  next
    case (2 decision scope w1 w2)
    then have "journal_step w w2" using movesD [OF journal.moves_record_decision 2(2)] journal.trans by blast
    with 2(3) stopD show ?thesis by (fastforce split: if_splits)
  qed
qed simp

text \<open>The ways \<open>prepare_staged\<close> can return: the call closed early, or staged.\<close>

lemma prepare_staged_early:
  assumes "prepare_staged escape ex a w = (Inr (Inl r), w')"
  obtains c st msg w1 where "require_accepted_identity a (w_state w) = Inr c" "journal_step w w1"
    "finish_requested_error ex c st msg [] w1 = (Inr r, w')"
proof -
  from assms obtain c where c: "require_accepted_identity a (w_state w) = Inr c"
    by (auto simp: prepare_staged_def io_run bind_asks split: if_splits)
  show thesis
  proof (cases "resolve (ex_registry ex) (ac_name a)")
    case (Inl e)
    with assms that [OF c journal.same] show thesis
      by (auto simp: prepare_staged_def io_run c Let_def split: if_splits)
  next
    case (Inr spec)
    show thesis
    proof (cases "parse_and_validate (ex_loads ex) (ex_registry ex) (ac_name a) (ac_raw_arguments a)")
      case (Inl e)
      with assms Inr that [OF c journal.same] show thesis
        by (cases e) (auto simp: prepare_staged_def io_run c Let_def split: if_splits)
    next
      case args: (Inr args)
      with assms Inr obtain p w1 where p: "prepare_call ex c spec args w = (Inr p, w1)"
        "(case p of Inl q \<Rightarrow> q = r \<and> w' = w1
          | Inr prepared \<Rightarrow> authorize escape ex a c spec prepared w1 = (Inr (Some r), w'))"
        by (fastforce simp: prepare_staged_def io_run c Let_def split: if_splits sum.splits option.splits)
      show thesis
      proof (cases p)
        case (Inl q)
        with p prepare_call_early that [OF c journal.same] show thesis by fastforce
      next
        case (Inr prepared)
        with p authorize_stop prepare_call_ready [of ex c spec args w prepared w1] that [OF c]
        show thesis by fastforce
      qed
    qed
  qed
qed

lemma prepare_staged_staged:
  assumes "prepare_staged escape ex a w = (Inr (Inr staged), w')"
  obtains c spec args p w2 where "require_accepted_identity a (w_state w) = Inr c" "w_usable w"
    "staged = \<lparr>sg_call = c, sg_spec = spec, sg_arguments = args, sg_prepared = p\<rparr>"
    "resolve (ex_registry ex) (ac_name a) = Inr spec"
    "authorize escape ex a c spec p w = (Inr None, w2)" "journal_step w2 w'"
proof -
  from assms obtain c where c: "require_accepted_identity a (w_state w) = Inr c" "w_usable w"
    by (auto simp: prepare_staged_def io_run bind_asks split: if_splits)
  obtain spec where spec: "resolve (ex_registry ex) (ac_name a) = Inr spec"
    using assms c by (auto simp: prepare_staged_def io_run Let_def split: sum.splits)
  obtain args where args: "parse_and_validate (ex_loads ex) (ex_registry ex) (ac_name a) (ac_raw_arguments a) = Inr args"
    using assms c spec by (auto simp: prepare_staged_def io_run Let_def split: sum.splits py_error.splits)
  let ?rest = "\<lambda>p. case p of Inl r \<Rightarrow> ret (Inl r)
      | Inr prepared \<Rightarrow> bind_io (authorize escape ex a c spec prepared) (\<lambda>stopped. case stopped of
          Some r \<Rightarrow> ret (Inl r)
        | None \<Rightarrow> bind_io (record_write ex c prepared) (\<lambda>_.
            ret (Inr \<lparr>sg_call = c, sg_spec = spec, sg_arguments = args, sg_prepared = prepared\<rparr>)))"
  have "bind_io (prepare_call ex c spec args) ?rest w = (Inr (Inr staged), w')"
    using assms c(2) spec args by (simp add: prepare_staged_def bind_asks bind_io_run [of _ _ c] c(1) Let_def)
  then obtain q w1 where q: "prepare_call ex c spec args w = (Inr q, w1)" "?rest q w1 = (Inr (Inr staged), w')"
    by (auto simp: bind_io_Inr)
  then obtain p where p: "q = Inr p" by (cases q) auto
  from q p obtain x w2 where a: "authorize escape ex a c spec p w1 = (Inr x, w2)"
    and x: "(case x of Some r \<Rightarrow> ret (Inl r) | None \<Rightarrow> bind_io (record_write ex c p) (\<lambda>_.
            ret (Inr \<lparr>sg_call = c, sg_spec = spec, sg_arguments = args, sg_prepared = p\<rparr>))) w2 = (Inr (Inr staged), w')"
    by (auto simp: bind_io_Inr)
  from x have none: "x = None" by (cases x) auto
  with x have f: "record_write ex c p w2 = (Inr (), w')"
    and s: "staged = \<lparr>sg_call = c, sg_spec = spec, sg_arguments = args, sg_prepared = p\<rparr>"
    by (auto simp: bind_io_Inr)
  from movesD [OF journal.moves_record_write f] prepare_call_ready [OF q(1) [unfolded p]] a none show thesis
    by (intro that [OF c(1) c(2) s spec]) simp_all
qed

subsection \<open>How a call is executed\<close>

lemma execute_run:
  assumes "execute escape program ex a w = (r, w')"
  obtains (early) "prepare_staged escape ex a w = (case r of Inl e \<Rightarrow> (Inl e, w') | Inr x \<Rightarrow> (Inr (Inl x), w'))"
  | (not_started) staged w1 e where "prepare_staged escape ex a w = (Inr (Inr staged), w1)"
      "start_staged ex staged w1 = (Inl e, w')" "r = Inl e"
  | (started) staged w1 w2 m where "prepare_staged escape ex a w = (Inr (Inr staged), w1)"
      "start_staged ex staged w1 = (Inr (), w2)" "m w2 = (r, w')"
      "m = bind_io (if ts_side_effect (sg_spec staged) = PlanExit then
             bind_io (append_and_reduce ex ''plan_mode_set'' [(''active'', PBool False)]) (\<lambda>_.
             lift_io (bounded ''exit_plan_mode'' ''plan approved; plan mode exited'' ''succeeded'' []
               default_max_output_bytes default_max_output_lines))
           else dispatch_staged program ex staged) (\<lambda>result.
         bind_io (commit_staged ex staged result) (\<lambda>_.
         if get (tr_metadata result) ''interruption_warning'' = PBool True
         then throw PostCommitInterrupted else ret result))"
proof -
  obtain p w1 where p: "prepare_staged escape ex a w = (p, w1)" by fastforce
  consider e where "p = Inl e" | x where "p = Inr (Inl x)" | staged where "p = Inr (Inr staged)"
    by (metis sum.exhaust)
  then show thesis
  proof cases
    case 3
    obtain q w2 where q: "start_staged ex staged w1 = (q, w2)" by fastforce
    show thesis
      using assms p 3 q by (cases q) (auto simp: execute_def bind_io_def intro: not_started started)
  qed (use assms p early in \<open>auto simp: execute_def bind_io_def\<close>)
qed

lemma plan_exit_quiet: "moves same_outside (bind_io (append_and_reduce ex ''plan_mode_set'' p) (\<lambda>_. lift_io m))"
  by (intro outside.staged_rules)

lemma execute_returns_settled:
  assumes run: "execute escape program ex a w = (Inr x, w')" and ok: "consistent w" "w_usable w'"
    and program: "\<And>c d s. moves journal_step (program c d s)"
  shows "settled (ac_call_key a) w' \<and> consistent w'"
proof -
  have wf: "wf_state (w_state w)" if "w_usable w"
    using ok(1) that replay_wf by (auto simp: consistent_def)
  have usable: "w_usable w" "consistent w'"
    using journalD [OF journal.moves_execute run ok(1)] program ok(2) by auto
  have key: "tc_call_key c = ac_call_key a" if "require_accepted_identity a (w_state w) = Inr c" for c
    using identityD [OF that] wf [OF usable(1)] by (auto simp: wf_state_def calls_wf_def)
  from run show ?thesis
  proof (cases rule: execute_run)
    case early
    then have "prepare_staged escape ex a w = (Inr (Inl x), w')" by simp
    then obtain c st msg w1 where c: "require_accepted_identity a (w_state w) = Inr c" "journal_step w w1"
      and f: "finish_requested_error ex c st msg [] w1 = (Inr x, w')" by (rule prepare_staged_early)
    have "consistent w1" using c(2) ok(1) by (simp add: journal_step_def)
    from finish_requested_settles [OF f this ok(2)] key [OF c(1)] usable show ?thesis by simp
  next
    case (started staged w1 w2 m)
    from started(1) obtain c where c: "require_accepted_identity a (w_state w) = Inr c" "sg_call staged = c"
      by (rule prepare_staged_staged) simp
    let ?d = "if ts_side_effect (sg_spec staged) = PlanExit then
             bind_io (append_and_reduce ex ''plan_mode_set'' [(''active'', PBool False)]) (\<lambda>_.
             lift_io (bounded ''exit_plan_mode'' ''plan approved; plan mode exited'' ''succeeded'' []
               default_max_output_bytes default_max_output_lines))
           else dispatch_staged program ex staged"
    have d: "moves journal_step ?d" using program by (auto intro!: journal.basic journal.moves_dispatch_staged)
    from started(3,4) obtain result w3 where w3: "?d w2 = (Inr result, w3)"
      and commit: "commit_staged ex staged result w3 = (Inr (), w')"
      by (auto simp only: bind_io_Inr) (auto split: if_splits)
    have "consistent w3"
      using journalD(1) [OF d w3 journalD(1) [OF journal.moves_start_staged started(2)
          journalD(1) [OF journal.moves_prepare_staged started(1) ok(1)]]] .
    from commit_staged_settles [OF commit this ok(2)] key [OF c(1)] c(2) usable show ?thesis by simp
  qed simp
qed

subsection \<open>Approval before effects\<close>

definition approval_on_record :: "string \<Rightarrow> event list \<Rightarrow> bool" where
  "approval_on_record key es \<longleftrightarrow> (\<exists>ev \<in> set es. ev_type ev = ''approval_decided'' \<and>
     get (ev_payload ev) ''call_key'' = PStr key \<and> get (ev_payload ev) ''approved'' = PBool True)"

lemma record_decision_logged:
  assumes "record_decision ex a approved scope w = (Inr (), w')"
  obtains ev where "log_of w' = log_of w @ [ev]" "ev_type ev = ''approval_decided''"
    "get (ev_payload ev) ''call_key'' = PStr (ac_call_key a)" "get (ev_payload ev) ''approved'' = PBool approved"
  using assms unfolding record_decision_def
proof (cases rule: append_and_reduce_cases)
  case (reduced ev)
  then show thesis
    by (intro that [of ev] recorded_str [OF reduced(2)] recorded_bool [OF reduced(2)] recorded_type [OF reduced(2)])
      simp_all
qed simp_all

lemma authorized_call:
  assumes run: "authorize escape ex a c spec p w = (Inr None, w')"
  shows "plan_mode_refusal (ts_side_effect spec) (st_plan_mode_active (w_state w)) = None \<and>
    (\<exists>es. log_of w' = log_of w @ es \<and>
       (\<not> harmless (ts_side_effect spec) \<longrightarrow> approval_on_record (ac_call_key a) es))"
  using run
proof (cases rule: authorize_run)
  case (1 st msg)
  with stopD show ?thesis by blast
next
  case 3
  from 3(3) show ?thesis
  proof (cases rule: approve_run)
    case (1 st msg)
    with stopD show ?thesis by blast
  next
    case (2 decision scope w1 w2)
    have d: "decision \<noteq> Deny" "w' = w2" using 2(3) stopD by (fastforce split: if_splits)+
    from 2(2) obtain ev where ev: "log_of w2 = log_of w1 @ [ev]" "ev_type ev = ''approval_decided''"
      "get (ev_payload ev) ''call_key'' = PStr (ac_call_key a)" "get (ev_payload ev) ''approved'' = PBool (decision \<noteq> Deny)"
      by (rule record_decision_logged)
    from 2(1) obtain es where "log_of w1 = log_of w @ es" by (auto simp: journal_step_def)
    with ev d have "log_of w' = log_of w @ (es @ [ev])" "approval_on_record (ac_call_key a) (es @ [ev])"
      by (auto simp: approval_on_record_def)
    with 3(1) show ?thesis by blast
  qed
qed auto

lemma start_staged_logged:
  assumes "start_staged ex staged w = (Inr (), w')"
  obtains ev where "log_of w' = log_of w @ [ev]" "ev_type ev = ''tool_started''"
    "get (ev_payload ev) ''call_key'' = PStr (tc_call_key (sg_call staged))"
  using assms unfolding start_staged_def
proof (cases rule: append_and_reduce_cases)
  case (reduced ev)
  then show thesis
    by (intro that [of ev] recorded_str [OF reduced(2)] recorded_type [OF reduced(2)]) simp_all
qed simp_all

subsection \<open>A demonstration\<close>

text \<open>
  A session with one requested call of a tool \<open>note\<close>, a shell-like tool whose body counts how
  often it ran; the user allows it once.
\<close>

definition demo_note :: "nat spec" where
  "demo_note = \<lparr>ts_name = ''write_file'', ts_description = ''d'', ts_schema = closed_object [] [], ts_handler = None,
     ts_prepare = Some (\<lambda>_ _. Inr (PreparedShell ''c'' ''/'' (\<lambda>n.
       (Inr (RawToolResult \<lparr>tr_title = ''t'', tr_output = ''o'', tr_metadata = [], tr_status = ''succeeded''\<rparr>), Suc n)))),
     ts_side_effect = ShellEffect, ts_renderer = None, ts_concurrency = None\<rparr>"

definition demo_executor :: "(unit, nat) executor" where
  "demo_executor = \<lparr>ex_registry = [(''write_file'', demo_note)], ex_loads = (\<lambda>_. Some (PDict [])), ex_iso_utc = (\<lambda>_. True),
     ex_clock = (\<lambda>_. (uuid_a, ''t'', Written)), ex_decide = (\<lambda>_ _. (Inr AllowOnce, ())),
     ex_resolve_path = (\<lambda>p. p), ex_sha256 = (\<lambda>s. s), ex_secrets = []\<rparr>"

definition demo_world :: "(unit, nat) world" where
  "demo_world = \<lparr>w_store = \<lparr>ro_session_id = uuid_b, ro_file = [], ro_events = demo_open, ro_open = True, ro_poisoned = False\<rparr>,
     w_state = demo_state demo_open, w_usable = True, w_approver = (), w_outside = 0\<rparr>"

definition demo_accepted :: accepted_call where
  "demo_accepted = \<lparr>ac_call_key = ''3:a'', ac_provider_call_id = ''a'', ac_name = ''write_file'', ac_raw_arguments = ''{}''\<rparr>"

definition no_programs :: "tool_call \<Rightarrow> string \<Rightarrow> string \<Rightarrow> (('a, 'u) world, tool_result) io" where
  "no_programs c description code = throw (RuntimeError ''no code runtime'')"

lemma no_programs_journal: "moves journal_step (no_programs c d s)"
  unfolding no_programs_def by (rule journal.moves_ret)

lemma demo_world_consistent: "consistent demo_world"
proof -
  have "case replay demo_open of Inl _ \<Rightarrow> False | Inr _ \<Rightarrow> True" by code_simp
  then show ?thesis by (auto simp: consistent_def demo_world_def log_of_def demo_state_def split: sum.splits)
qed

definition demo_result :: tool_result where
  "demo_result = \<lparr>tr_title = ''t'', tr_output = ''o'', tr_metadata = [], tr_status = ''succeeded''\<rparr>"

definition demo_note_call :: tool_call where
  "demo_note_call = (new_tool_call ''3:a'' ''a'' uuid_c ''write_file'' ''{}'' 3)\<lparr>tc_result_metadata := PProxy []\<rparr>"

definition demo_prepared :: "nat prepared" where
  "demo_prepared = PreparedShell ''c'' ''/'' (\<lambda>n.
       (Inr (RawToolResult \<lparr>tr_title = ''t'', tr_output = ''o'', tr_metadata = [], tr_status = ''succeeded''\<rparr>), Suc n))"

definition demo_staged :: "nat staged_call" where
  "demo_staged = \<lparr>sg_call = demo_note_call, sg_spec = demo_note, sg_arguments = [], sg_prepared = Some demo_prepared\<rparr>"

definition demo_world1 :: "(unit, nat) world" where
  "demo_world1 = snd (record_decision demo_executor demo_accepted True ''once'' demo_world)"

definition demo_world2 :: "(unit, nat) world" where
  "demo_world2 = snd (start_staged demo_executor demo_staged demo_world1)"

definition demo_world3 :: "(unit, nat) world" where
  "demo_world3 = snd (append_and_reduce demo_executor ''tool_finished'' (finish_payload demo_note_call Succeeded demo_result) (demo_world2\<lparr>w_outside := Suc 0\<rparr>))"

lemma demo_step0: "require_accepted_identity demo_accepted (w_state demo_world) = Inr demo_note_call" by code_simp
lemma demo_step1: "fst (record_decision demo_executor demo_accepted True ''once'' demo_world) = Inr ()" by code_simp
lemma demo_step2: "fst (start_staged demo_executor demo_staged demo_world1) = Inr ()" by code_simp
lemma demo_step3: "fst (append_and_reduce demo_executor ''tool_finished'' (finish_payload demo_note_call Succeeded demo_result) (demo_world2\<lparr>w_outside := Suc 0\<rparr>)) = Inr ()" by code_simp
lemma demo_step4: "w_usable demo_world3 \<and> w_outside demo_world3 = Suc 0" by code_simp
lemma demo_step5: "parse_and_validate (\<lambda>_. Some (PDict [])) [(''write_file'', demo_note)] ''write_file'' ''{}'' = Inr []" by code_simp
lemma demo_step6: "\<not> st_plan_mode_active (w_state demo_world)" "\<not> st_session_approval_always (w_state demo_world)" by code_simp+
lemma demo_step7: "w_outside demo_world2 = 0" by code_simp

lemma demo_prepare: "prepare_staged (\<lambda>s. s) demo_executor demo_accepted demo_world = (Inr (Inr demo_staged), demo_world1)"
proof -
  have r: "resolve [(''write_file'', demo_note)] ''write_file'' = Inr demo_note" by (simp add: resolve_def)
  have c: "prepare_call demo_executor demo_note_call demo_note [] demo_world = (Inr (Inr (Some demo_prepared)), demo_world)"
    by (simp add: prepare_call_def demo_note_def bind_asks demo_prepared_def)
  have w: "demo_world\<lparr>w_approver := ()\<rparr> = demo_world" by (simp add: demo_world_def)
  have dec: "decide demo_executor demo_accepted demo_note_call q demo_world = (Inr AllowOnce, demo_world)" for q
    by (simp add: decide_def bind_asks demo_step6 handle_def approval_decision_of_def demo_executor_def w)
  have rec: "record_decision demo_executor demo_accepted True ''once'' demo_world = (Inr (), demo_world1)"
    using demo_step1 by (simp add: demo_world1_def prod_eq_iff)
  have auth: "authorize (\<lambda>s. s) demo_executor demo_accepted demo_note_call demo_note (Some demo_prepared) demo_world = (Inr None, demo_world1)"
    by (simp add: authorize_def demo_step6 plan_mode_refusal_def demo_note_def approve_def demo_prepared_def
      approval_request_for_def bind_io_def dec rec)
  have env: "ex_registry demo_executor = [(''write_file'', demo_note)]" "ex_loads demo_executor = (\<lambda>_. Some (PDict []))"
    "ac_name demo_accepted = ''write_file''" "ac_raw_arguments demo_accepted = ''{}''" "w_usable demo_world"
    by (simp_all add: demo_executor_def demo_accepted_def demo_world_def)
  show ?thesis
    by (simp add: prepare_staged_def bind_io_def demo_step0 env r demo_step5 c auth Let_def record_write_def demo_staged_def)
       (simp add: demo_prepared_def)
qed

lemma demo_execution: "execute (\<lambda>s. s) no_programs demo_executor demo_accepted demo_world = (Inr demo_result, demo_world3)"
proof -
  have s: "start_staged demo_executor demo_staged demo_world1 = (Inr (), demo_world2)" using demo_step2 by (simp add: demo_world2_def prod_eq_iff)
  have b: "dispatch_staged no_programs demo_executor demo_staged demo_world2 = (Inr demo_result, demo_world2\<lparr>w_outside := Suc 0\<rparr>)"
    by (simp add: dispatch_staged_def demo_staged_def demo_prepared_def staged_body_def demo_note_def normalize_result_def
      settle_body_def demo_step7 demo_result_def)
  have f: "append_and_reduce demo_executor ''tool_finished'' (finish_payload demo_note_call Succeeded demo_result)
      (demo_world2\<lparr>w_outside := Suc 0\<rparr>) = (Inr (), demo_world3)" using demo_step3 by (simp add: demo_world3_def prod_eq_iff)
  have k: "settled_result demo_note_call demo_result = Inr (Succeeded, demo_result)" by code_simp
  have m: "sg_call demo_staged = demo_note_call" "sg_spec demo_staged = demo_note" "ts_side_effect demo_note = ShellEffect"
    "get (tr_metadata demo_result) ''interruption_warning'' = PNone"
    by (simp_all add: demo_staged_def demo_note_def demo_result_def get_def get_or_def)
  show ?thesis
    by (simp add: execute_def bind_io_def demo_prepare s m b commit_staged_def handle_def finish_started_def k f)
qed

subsection \<open>Properties\<close>

text \<open>
  C4. While calls are executed the session state is exactly the replay of the durable log:
  whatever a call does, returns or raises, the log only grows; as long as the executor stays
  usable, replaying the log gives the state in memory, in which no settled call has changed;
  once a fact was rejected the executor is unusable and the log can no longer be replayed.
\<close>

theorem executor_keeps_the_session:
  assumes "consistent w" "execute escape program ex call w = (r, w')"
    "\<And>c description code. moves journal_step (program c description code)"
  shows "(\<exists>es. log_of w' = log_of w @ es) \<and>
    (if w_usable w' then replay (log_of w') = Inr (w_state w') \<and> evolves (w_state w) (w_state w')
     else \<exists>e. replay (log_of w') = Inl e)"
  using journalD [OF journal.moves_execute assms(2,1)] assms(3) by (auto simp: consistent_def split: if_splits)

lemma executor_keeps_the_session_witness:
  "replay (log_of demo_world3) = Inr (w_state demo_world3) \<and> consistent demo_world"
  using executor_keeps_the_session [OF demo_world_consistent demo_execution no_programs_journal] demo_step4
    demo_world_consistent by simp

text \<open>
  C5. A call runs at most once: when \<open>execute\<close> returns, however the call ended (unknown tool,
  invalid arguments, refused, denied, or run), its result is on record and final, and executing
  the same call again is refused without changing anything.
\<close>

theorem call_executes_once:
  assumes "consistent w" "execute escape program ex call w = (Inr result, w')" "w_usable w'"
    "\<And>c description code. moves journal_step (program c description code)"
  shows "(\<exists>c. map_of (st_tool_calls (w_state w')) (ac_call_key call) = Some c \<and> is_terminal c) \<and>
    (\<exists>m. execute escape program ex call w' = (Inl (ToolExecutorError m), w'))"
proof -
  have s: "settled (ac_call_key call) w'"
    using execute_returns_settled [OF assms(2,1,3)] assms(4) by blast
  then obtain c where c: "map_of (st_tool_calls (w_state w')) (ac_call_key call) = Some c" "is_terminal c"
    by (auto simp: settled_def)
  then have "tc_status c \<noteq> Requested" by (auto simp: is_terminal_def tool_terminal_def)
  with c have "\<exists>m. require_accepted_identity call (w_state w') = Inl (ToolExecutorError m)"
    by (auto simp: require_accepted_identity_def raise_if_def)
  then obtain m where "require_accepted_identity call (w_state w') = Inl (ToolExecutorError m)" by blast
  then have "execute escape program ex call w' = (Inl (ToolExecutorError m), w')"
    using assms(3) by (simp add: execute_def prepare_staged_def bind_io_def)
  with c show ?thesis by blast
qed

lemma call_executes_once_witness:
  "\<exists>m. execute (\<lambda>s. s) no_programs demo_executor demo_accepted demo_world3 = (Inl (ToolExecutorError m), demo_world3)"
  using call_executes_once [OF demo_world_consistent demo_execution _ no_programs_journal] demo_step4 by blast

text \<open>
  C6. Nothing happens outside the session before it is on record and, where the tool has side
  effects, approved: if executing a call changed the outside, then the log holds the start of
  that call, preceded (for a tool with side effects) by a decision approving it, and a write or
  a shell command was not run in plan mode.
\<close>

theorem no_effect_without_approval:
  assumes "consistent w" "execute escape program ex call w = (r, w')" "w_outside w' \<noteq> w_outside w"
    "\<And>c description code. moves journal_step (program c description code)"
  shows "\<exists>spec before started after. resolve (ex_registry ex) (ac_name call) = Inr spec \<and>
    log_of w' = log_of w @ before @ started # after \<and>
    ev_type started = ''tool_started'' \<and> get (ev_payload started) ''call_key'' = PStr (ac_call_key call) \<and>
    (harmless (ts_side_effect spec) \<or> approval_on_record (ac_call_key call) before) \<and>
    (ts_side_effect spec \<in> {WorkspaceWrite, ShellEffect} \<longrightarrow> \<not> st_plan_mode_active (w_state w))"
  using assms(2)
proof (cases rule: execute_run)
  case early
  then obtain q where "prepare_staged escape ex call w = (q, w')" by (cases r) auto
  from movesD [OF outside.moves_prepare_staged this] assms(3) show ?thesis by (simp add: same_outside_def)
next
  case (not_started staged w1 e)
  from movesD [OF outside.moves_prepare_staged not_started(1)] movesD [OF outside.moves_start_staged not_started(2)]
    assms(3) show ?thesis by (simp add: same_outside_def)
next
  case (started staged w1 w2 m)
  from started(1) obtain c spec args p w0 where c: "require_accepted_identity call (w_state w) = Inr c" "w_usable w"
    "staged = \<lparr>sg_call = c, sg_spec = spec, sg_arguments = args, sg_prepared = p\<rparr>"
    and spec: "resolve (ex_registry ex) (ac_name call) = Inr spec"
    and auth: "authorize escape ex call c spec p w = (Inr None, w0)" and w1: "journal_step w0 w1"
    by (rule prepare_staged_staged)
  have "replay (log_of w) = Inr (w_state w)" using assms(1) c(2) by (simp add: consistent_def)
  then have "wf_state (w_state w)" by (rule replay_wf)
  then have key: "tc_call_key c = ac_call_key call"
    using identityD [OF c(1)] by (auto simp: wf_state_def calls_wf_def)
  obtain es where es: "log_of w0 = log_of w @ es"
    "\<not> harmless (ts_side_effect spec) \<longrightarrow> approval_on_record (ac_call_key call) es"
    and plan: "plan_mode_refusal (ts_side_effect spec) (st_plan_mode_active (w_state w)) = None"
    using authorized_call [OF auth] by blast
  obtain es1 where es1: "log_of w1 = log_of w0 @ es1" using w1 by (auto simp: journal_step_def)
  from started(2) obtain ev where ev: "log_of w2 = log_of w1 @ [ev]" "ev_type ev = ''tool_started''"
    "get (ev_payload ev) ''call_key'' = PStr (ac_call_key call)" using key c(3) by (elim start_staged_logged) simp
  have "moves journal_step m" unfolding started(4)
    by (auto intro!: journal.staged_rules journal.moves_dispatch_staged assms(4))
  from movesD [OF this started(3)] obtain es2 where "log_of w' = log_of w2 @ es2" by (auto simp: journal_step_def)
  with es(1) es1 ev(1) have "log_of w' = log_of w @ (es @ es1) @ ev # es2" by simp
  moreover have "harmless (ts_side_effect spec) \<or> approval_on_record (ac_call_key call) (es @ es1)"
    using es(2) by (auto simp: approval_on_record_def)
  moreover have "ts_side_effect spec \<in> {WorkspaceWrite, ShellEffect} \<longrightarrow> \<not> st_plan_mode_active (w_state w)"
    using plan by (auto simp: plan_mode_refusal_def split: if_splits)
  ultimately show ?thesis using spec ev(2,3) by blast
qed

lemma no_effect_without_approval_witness:
  "\<exists>before started after. log_of demo_world3 = demo_open @ before @ started # after \<and>
     ev_type started = ''tool_started'' \<and> approval_on_record ''3:a'' before"
proof -
  have out: "w_outside demo_world3 \<noteq> w_outside demo_world" using demo_step4 by (simp add: demo_world_def)
  have "resolve (ex_registry demo_executor) (ac_name demo_accepted) = Inr demo_note"
    by (simp add: demo_executor_def demo_accepted_def resolve_def)
  moreover have "\<not> harmless (ts_side_effect demo_note)" by (simp add: demo_note_def)
  moreover have "log_of demo_world = demo_open" "ac_call_key demo_accepted = ''3:a''"
    by (simp_all add: log_of_def demo_world_def demo_accepted_def)
  ultimately show ?thesis
    using no_effect_without_approval [OF demo_world_consistent demo_execution out no_programs_journal] by fastforce
qed

end
