(* ===== verification/Sampling.thy ===== *)
theory Sampling
  imports StreamAssembler
begin

section \<open>The outcome of a sampling attempt (domain.py, model.py)\<close>

text \<open>
  What the agent and the compactor see of the model client: the classification of a complete
  sampling attempt and the typed result of one logical sample. The client itself (HTTP, retry,
  back-off) is a parameter of type \<open>'u sampler\<close>: given the messages, the tool schemas and
  whether tools are allowed it may raise, and it acts on the outside.
\<close>

datatype sampling_outcome =
    CompleteText
  | ValidToolBatch
  | LengthExceeded
  | ContextOverflow
  | Filtered
  | TransportInterrupted
  | SamplingProtocolError
  | Aborted

record sampling_result =
  sm_outcome :: sampling_outcome
  sm_content :: string
  sm_reasoning :: string
  sm_tool_calls :: "sampled_tool_call list"
  sm_finish_reason :: "string option"
  sm_usage :: "token_usage option"

type_synonym 'u sampler = "pyval list \<Rightarrow> pyval list \<Rightarrow> bool \<Rightarrow> 'u \<Rightarrow> (py_error + sampling_result) \<times> 'u"

end
