(* ===== verification/Compaction.thy ===== *)
theory Compaction
  imports Projection ExecutorRun Sampling
begin

section \<open>Conversation compaction (compact.py)\<close>

text \<open>
  A long conversation is replaced by a summary and a tail: \<open>atomic_groups\<close> cuts the visible
  history into groups that keep calls with their results, \<open>prepare_compaction\<close> chooses the
  groups that stay and builds the request for the summary, \<open>finalize_checkpoint\<close> the durable
  payload, and \<open>compact\<close> drives the three and appends the checkpoint. The environment
  variables that hold secrets are an argument, the list of their non-empty values.
\<close>

subsection \<open>Redaction\<close>

definition redaction_marker :: string where
  "redaction_marker = ''[REDACTED]''"

text \<open>\<open>sorted({...}, key=lambda v: (-len(v), v))\<close>\<close>

definition known_secret_values :: "string list \<Rightarrow> string list" where
  "known_secret_values values =
     sort_key (\<lambda>v. - int (py_len v)) (sort (remdups (filter (\<lambda>v. v \<noteq> []) values)))"

fun redact_text :: "string list \<Rightarrow> string \<Rightarrow> string" where
  "redact_text [] s = s"
| "redact_text (secret # secrets) s = redact_text secrets (replace_text secret redaction_marker s)"

fun redact_json_strings :: "string list \<Rightarrow> pyval \<Rightarrow> pyval" where
  "redact_json_strings secrets (PStr s) = PStr (redact_text secrets s)"
| "redact_json_strings secrets (PDict kvs) = PDict (map (\<lambda>kv. (fst kv, redact_json_strings secrets (snd kv))) kvs)"
| "redact_json_strings secrets (PProxy kvs) = PDict (map (\<lambda>kv. (fst kv, redact_json_strings secrets (snd kv))) kvs)"
| "redact_json_strings secrets (PList vs) = PList (map (redact_json_strings secrets) vs)"
| "redact_json_strings secrets (PTuple vs) = PTuple (map (redact_json_strings secrets) vs)"
| "redact_json_strings secrets v = v"

text \<open>\<open>_plain_messages\<close>: a deep copy of messages that can be serialised.\<close>

definition plain_messages :: "pyval list \<Rightarrow> py_error + pyval list" where
  "plain_messages messages =
     bindE (reraise (\<lambda>_. ProjectionError ''conversation must be safely JSON serializable'')
       (dumps (PList messages))) (\<lambda>_. Inr messages)"

definition redacted_messages :: "string list \<Rightarrow> pyval list \<Rightarrow> py_error + pyval list" where
  "redacted_messages secrets messages =
     bindE (plain_messages messages) (\<lambda>copied. Inr (map (redact_json_strings secrets) copied))"

subsection \<open>Atomic groups\<close>

record atomic_group =
  ag_index :: nat
  ag_messages :: "pyval list"

definition message_fields :: "pyval \<Rightarrow> mapping" where
  "message_fields m = (case as_map m of None \<Rightarrow> [] | Some d \<Rightarrow> d)"

definition role_of :: "pyval \<Rightarrow> pyval" where
  "role_of m = get (message_fields m) ''role''"

definition requested_ids :: "pyval \<Rightarrow> string list" where
  "requested_ids m = (case as_seq (get (message_fields m) ''tool_calls'') of None \<Rightarrow> []
     | Some calls \<Rightarrow> List.map_filter (\<lambda>c. as_str (get (message_fields c) ''id'')) calls)"

text \<open>The inner loop: the results that follow a batch, until none is pending.\<close>

fun take_results :: "string set \<Rightarrow> pyval list \<Rightarrow> py_error + (pyval list \<times> pyval list)" where
  "take_results pending_ids ms =
     (if pending_ids = {} then Inr ([], ms)
      else case ms of
        [] \<Rightarrow> Inl (ProjectionError ''tool call group has missing results'')
      | m # rest \<Rightarrow>
          raise_if (role_of m \<noteq> PStr ''tool'')
            (ProjectionError ''tool call group is interrupted before all results'') (
          bindE (need (as_str (get (message_fields m) ''tool_call_id'')) (KeyError ''tool_call_id'')) (\<lambda>i.
          raise_if (i \<notin> pending_ids) (KeyError i) (
          bindE (take_results (pending_ids - {i}) rest) (\<lambda>(results, rest').
          Inr (m # results, rest'))))))"

declare take_results.simps [simp del]

lemma take_results_shorter:
  "take_results p ms = Inr (rs, rest) \<Longrightarrow> ms = rs @ rest"
proof (induction ms arbitrary: p rs)
  case Nil
  then show ?case by (subst (asm) take_results.simps) (auto split: if_splits)
next
  case (Cons m ms)
  from Cons.prems show ?case
    by (subst (asm) take_results.simps) (auto simp: succ_simps split: if_splits dest: Cons.IH)
qed

text \<open>The outer loop, from message \<open>position\<close> on, with \<open>n\<close> groups already built.\<close>

function groups_from :: "nat \<Rightarrow> pyval list \<Rightarrow> py_error + atomic_group list" where
  "groups_from n ms = (case ms of
     [] \<Rightarrow> Inr []
   | m # rest \<Rightarrow>
       raise_if (role_of m = PStr ''tool'')
         (ProjectionError ''tool message cannot begin an atomic group'') (
       if role_of m \<noteq> PStr ''assistant'' \<or> \<not> truthy (get (message_fields m) ''tool_calls'') then
         bindE (groups_from (Suc n) rest) (\<lambda>gs. Inr (\<lparr>ag_index = n, ag_messages = [m]\<rparr> # gs))
       else
         (case take_results (set (requested_ids m)) rest of
            Inl e \<Rightarrow> Inl e
          | Inr (results, rest') \<Rightarrow>
              bindE (groups_from (Suc n) rest') (\<lambda>gs.
              Inr (\<lparr>ag_index = n, ag_messages = m # results\<rparr> # gs)))))"
  by pat_completeness auto
termination
  by (relation "measure (\<lambda>(n, ms). length ms)") (auto dest: take_results_shorter)

declare groups_from.simps [simp del]

definition is_system :: "pyval \<Rightarrow> bool" where
  "is_system m \<longleftrightarrow> role_of m = PStr ''system''"

definition atomic_groups :: "pyval list \<Rightarrow> py_error + atomic_group list" where
  "atomic_groups messages =
     bindE (validate_conversation (PList messages)) (\<lambda>_.
     bindE (plain_messages messages) (\<lambda>copied.
     groups_from 0 (case copied of m # rest \<Rightarrow> if is_system m then rest else copied | [] \<Rightarrow> [])))"


subsection \<open>Shortening\<close>

definition shortening_marker :: string where
  "shortening_marker = ''[tool output shortened for compaction]''"

text \<open>\<open>s[:n]\<close> and \<open>s[n:]\<close> in code points.\<close>

fun take_points :: "nat \<Rightarrow> string \<Rightarrow> string" where
  "take_points n [] = []"
| "take_points n (c # cs) =
     (if is_cont c then c # take_points n cs
      else case n of 0 \<Rightarrow> [] | Suc k \<Rightarrow> c # take_points k cs)"

fun drop_points :: "nat \<Rightarrow> string \<Rightarrow> string" where
  "drop_points n [] = []"
| "drop_points n (c # cs) =
     (if is_cont c then drop_points n cs
      else case n of 0 \<Rightarrow> c # cs | Suc k \<Rightarrow> drop_points k cs)"

definition shorten_tool_output :: "string \<Rightarrow> nat \<Rightarrow> string" where
  "shorten_tool_output content limit =
     (if py_len content \<le> limit then content
      else if limit \<le> py_len shortening_marker then take_points limit shortening_marker
      else
        let remaining = limit - py_len shortening_marker;
            head = (remaining + 1) div 2;
            tail = remaining div 2;
            suffix = (if tail \<noteq> 0 then drop_points (py_len content - tail) content else [])
        in take_points head content @ shortening_marker @ suffix)"

text \<open>\<open>message["content"] = new_content\<close> for the tool messages of an old group.\<close>

definition shorten_message :: "nat \<Rightarrow> pyval \<Rightarrow> pyval" where
  "shorten_message limit m =
     (if role_of m = PStr ''tool'' then
        (case as_str (get (message_fields m) ''content'') of
           None \<Rightarrow> m
         | Some content \<Rightarrow> PDict (dict_set ''content'' (PStr (shorten_tool_output content limit)) (message_fields m)))
      else m)"

definition shorten_old_groups :: "nat set \<Rightarrow> nat \<Rightarrow> atomic_group list \<Rightarrow> atomic_group list" where
  "shorten_old_groups retained limit groups =
     map (\<lambda>g. if ag_index g \<in> retained then g
              else g\<lparr>ag_messages := map (shorten_message limit) (ag_messages g)\<rparr>) groups"

subsection \<open>prepare_compaction\<close>

record compaction_draft =
  cd_through_seq :: int
  cd_summary_messages :: "pyval list"
  cd_replacement_conversation :: "pyval list"

definition summary_sections :: "string list" where
  "summary_sections = [''Goal'', ''Completed'', ''Decisions'', ''Constraints'', ''Workspace state'',
     ''Next steps'', ''Uncertainties'']"

definition summary_prompt :: string where
  "summary_prompt = ''Summarize the supplied coding-agent conversation as a precise handoff. Return exactly these Markdown sections in this order, using the section names verbatim: ''
     @ join '', '' (map (\<lambda>s. ''## '' @ s) summary_sections)
     @ ''. Preserve concrete paths, commands, observed results, remaining work, and uncertainty. Never copy credentials, tokens, or secrets into the summary; replace each such value with [REDACTED]. Do not invent facts or tool results.''"

definition summary_request_messages :: "pyval list \<Rightarrow> py_error + pyval list" where
  "summary_request_messages conversation =
     bindE (dumps (PList conversation)) (\<lambda>transcript.
     Inr [PDict [(''role'', PStr ''system''), (''content'', PStr summary_prompt)],
          PDict [(''role'', PStr ''user''),
                 (''content'', PStr (''Conversation to summarize (JSON):'' @ [CHR 0x0A] @ transcript))]])"

definition positive :: "int \<Rightarrow> string \<Rightarrow> py_error + unit" where
  "positive n name = raise_if (n < 1) (ValueError (name @ '' must be a positive integer'')) (Inr ())"

definition user_group_indexes :: "atomic_group list \<Rightarrow> nat list" where
  "user_group_indexes groups =
     map ag_index (filter (\<lambda>g. role_of (hd (ag_messages g)) = PStr ''user'') groups)"

definition retained_indexes :: "atomic_group list \<Rightarrow> nat \<Rightarrow> nat set" where
  "retained_indexes groups tail_group_count =
     {hd (user_group_indexes groups), last (user_group_indexes groups)}
       \<union> {length groups - tail_group_count..<length groups}"

definition group_messages :: "atomic_group list \<Rightarrow> pyval list" where
  "group_messages groups = concat (map ag_messages groups)"

text \<open>The groups that are still to be summarised: those after the summarised prefix.\<close>

fun drop_summarized :: "nat \<Rightarrow> atomic_group list \<Rightarrow> py_error + atomic_group list" where
  "drop_summarized n [] =
     raise_if (n \<noteq> 0) (CompactionError ''summarized prefix exceeds the projected conversation'') (Inr [])"
| "drop_summarized n (g # gs) =
     (if n = 0 then Inr (g # gs)
      else raise_if (length (ag_messages g) > n)
             (CompactionError ''summarized prefix must end at an atomic group boundary'')
             (drop_summarized (n - length (ag_messages g)) gs))"

text \<open>The conversation to summarise, with old tool outputs shortened when it is too large.\<close>

definition summary_input ::
  "pyval list \<Rightarrow> atomic_group list \<Rightarrow> nat set \<Rightarrow> int \<Rightarrow> nat \<Rightarrow> py_error + pyval list" where
  "summary_input system_messages groups retained max_chars max_old_tool_chars =
     bindE (dumps (PList (system_messages @ group_messages groups))) (\<lambda>serialized.
     if int (py_len serialized) \<le> max_chars then Inr (system_messages @ group_messages groups)
     else
       let shortened = shorten_old_groups retained max_old_tool_chars groups in
       bindE (dumps (PList (system_messages @ group_messages shortened))) (\<lambda>serialized'.
       raise_if (shortened = groups \<or> int (py_len serialized') > max_chars)
         (CompactionError ''summary input remains too large after shortening old tool outputs'') (
       Inr (system_messages @ group_messages shortened))))"

definition prepare_compaction ::
  "string list \<Rightarrow> pyval list \<Rightarrow> int \<Rightarrow> int \<Rightarrow> int \<Rightarrow> int \<Rightarrow> int \<Rightarrow> py_error + compaction_draft" where
  "prepare_compaction secrets messages through_seq tail_group_count max_summary_input_chars
     max_old_tool_chars summarized_prefix_message_count =
     bindE (positive through_seq ''through_seq'') (\<lambda>_.
     bindE (positive tail_group_count ''tail_group_count'') (\<lambda>_.
     bindE (positive max_summary_input_chars ''max_summary_input_chars'') (\<lambda>_.
     bindE (positive max_old_tool_chars ''max_old_tool_chars'') (\<lambda>_.
     raise_if (summarized_prefix_message_count < 0)
       (ValueError ''summarized_prefix_message_count must be a non-negative integer'') (
     bindE (redacted_messages secrets messages) (\<lambda>copied.
     raise_if (list_ex (\<lambda>m. as_map m = None) copied) (AttributeError ''get'') (
     bindE (atomic_groups copied) (\<lambda>groups.
     raise_if (user_group_indexes groups = [])
       (CompactionError ''conversation has no user task to compact'') (
     let retained = retained_indexes groups (nat tail_group_count);
         replacement = group_messages (filter (\<lambda>g. ag_index g \<in> retained) groups)
     in
     bindE (validate_conversation (PTuple replacement)) (\<lambda>_.
     bindE (drop_summarized (nat summarized_prefix_message_count) groups) (\<lambda>summary_groups.
     bindE (summary_input (filter is_system copied) summary_groups retained max_summary_input_chars
       (nat max_old_tool_chars)) (\<lambda>conversation.
     bindE (summary_request_messages conversation) (\<lambda>request.
     bindE (redacted_messages secrets request) (\<lambda>summary_messages.
     Inr \<lparr>cd_through_seq = through_seq, cd_summary_messages = summary_messages,
          cd_replacement_conversation = replacement\<rparr>))))))))))))))"

definition finalize_checkpoint :: "string list \<Rightarrow> compaction_draft \<Rightarrow> string \<Rightarrow> py_error + mapping" where
  "finalize_checkpoint secrets draft summary =
     raise_if (blank summary) (CompactionError ''compaction summary must be non-empty text'') (
     bindE (redacted_messages secrets (cd_replacement_conversation draft)) (\<lambda>replacement.
     raise_if (list_ex is_system replacement)
       (CompactionError ''replacement conversation must not contain system'') (
     bindE (validate_conversation (PList replacement)) (\<lambda>_.
     Inr [(''through_seq'', PInt (cd_through_seq draft)), (''summary'', PStr (redact_text secrets summary)),
          (''replacement_conversation'', PList replacement)]))))"

subsection \<open>SessionCompactor.compact\<close>

text \<open>
  The compactor shares the store and the state of the executor; the summary model runs on the
  outside. \<open>co_clock\<close> gives the id and the time of a new event and what the disk does with it.
\<close>

record 'u compactor =
  co_secrets :: "string list"
  co_environment :: "'u \<Rightarrow> py_error + environment_value"
  co_sample :: "'u sampler"
  co_iso_utc :: "string \<Rightarrow> bool"
  co_clock :: "int \<Rightarrow> string \<times> string \<times> write_outcome"
  co_tail_group_count :: int
  co_max_summary_input_chars :: int
  co_max_old_tool_chars :: int

fun is_fact_error :: "py_error \<Rightarrow> bool" where \<comment> \<open>\<open>except (DomainError, ProjectionError)\<close>\<close>
  "is_fact_error (DomainError _) = True"
| "is_fact_error (ProjectionError _) = True"
| "is_fact_error (ProjectionBlockedError _) = True"
| "is_fact_error _ = False"

definition wrap_fact_error :: "string \<Rightarrow> py_error \<Rightarrow> py_error" where
  "wrap_fact_error message e = (if is_fact_error e then CompactionError message else e)"

definition summarized_prefix :: "session_state \<Rightarrow> py_error + int" where
  "summarized_prefix s = (case st_latest_checkpoint s of
     None \<Rightarrow> Inr 0
   | Some ev \<Rightarrow> bindE (need (as_seq (get (ev_payload ev) ''replacement_conversation''))
       (TypeError ''object has no len()'')) (\<lambda>ms. Inr (int (length ms))))"

definition draft_of :: "'u compactor \<Rightarrow> event list \<Rightarrow> session_state \<Rightarrow> environment_value \<Rightarrow> py_error + compaction_draft" where
  "draft_of co events s env =
     reraise (wrap_fact_error ''compaction requires a completed sampling boundary'') (
     bindE (project events s env) (\<lambda>messages.
     bindE (summarized_prefix s) (\<lambda>prefix.
     prepare_compaction (co_secrets co) messages (st_last_seq s) (co_tail_group_count co)
       (co_max_summary_input_chars co) (co_max_old_tool_chars co) prefix)))"

definition sample_summary :: "'u compactor \<Rightarrow> compaction_draft \<Rightarrow> (('a, 'u) world, string) io" where
  "sample_summary co draft = (\<lambda>w.
     let (r, u) = co_sample co (cd_summary_messages draft) [] False (w_outside w) in
     (case r of
        Inl e \<Rightarrow> if is_interrupt e then Inl e else Inl (CompactionError ''summary sampling failed'')
      | Inr sampled \<Rightarrow>
          raise_if (sm_outcome sampled \<noteq> CompleteText \<or> blank (sm_content sampled) \<or> sm_tool_calls sampled \<noteq> [])
            (CompactionError ''summary model did not return non-empty complete text'')
            (Inr (sm_content sampled)),
      w\<lparr>w_outside := u\<rparr>))"

definition commit_checkpoint ::
  "'u compactor \<Rightarrow> event list \<Rightarrow> environment_value \<Rightarrow> mapping \<Rightarrow> (('a, 'u) world, bool) io" where
  "commit_checkpoint co events env payload = (\<lambda>w.
     let (event_id, timestamp, outcome) = co_clock co (st_last_seq (w_state w) + 1) in
     case mk_event (co_iso_utc co) (PInt 1) (PInt (st_last_seq (w_state w) + 1)) (PStr event_id) (PStr timestamp)
         (PStr (ro_session_id (w_store w))) (PStr ''compaction_checkpoint'') (PDict payload) of
       Inl e \<Rightarrow> (Inl e, w)
     | Inr candidate \<Rightarrow>
         (case reraise (wrap_fact_error ''checkpoint candidate is invalid'') (
             bindE (reduce_event (w_state w) candidate) (\<lambda>s. project (events @ [candidate]) s env)) of
            Inl e \<Rightarrow> (Inl e, w)
          | Inr _ \<Rightarrow>
              (case append_event (w_store w) candidate outcome of
                 (Inl e, st) \<Rightarrow> (Inl (CompactionError ''checkpoint append failed''), w\<lparr>w_store := st\<rparr>)
               | (Inr durable, st) \<Rightarrow>
                   (case apply_event (w_state w) durable of
                      Inl (e, s) \<Rightarrow> (Inl (CompactionError ''durable checkpoint could not be applied''),
                        w\<lparr>w_store := st, w_state := s\<rparr>)
                    | Inr s \<Rightarrow> (Inr True, w\<lparr>w_store := st, w_state := s\<rparr>)))))"

definition compact :: "'u compactor \<Rightarrow> (('a, 'u) world, bool) io" where
  "compact co =
     bind_io (\<lambda>w. (load_events (w_store w), w)) (\<lambda>events.
     bind_io (asks w_state) (\<lambda>s.
     if st_session_id s = None \<or> events = [] then throw (CompactionError ''session has not been created'') else
     bind_io (\<lambda>w. (co_environment co (w_outside w), w)) (\<lambda>env.
     bind_io (lift_io (draft_of co events s env)) (\<lambda>draft.
     bind_io (sample_summary co draft) (\<lambda>summary.
     bind_io (lift_io (finalize_checkpoint (co_secrets co) draft summary)) (\<lambda>payload.
     commit_checkpoint co events env payload))))))"

end
