(* ===== verification/CompactionProps.thy ===== *)
theory CompactionProps
  imports Compaction ExecutorProps "HOL-Library.Sublist"
begin

section \<open>What compaction keeps and what it hides\<close>

text \<open>
  Redaction: no known secret survives in a string of the summary request or of the checkpoint.
  Grouping: the groups of a valid conversation are its exchanges, so every selection of groups
  is again a valid conversation. Committing: a compaction either appends one checkpoint from
  which the next prompt can be projected, or leaves log and state alone.
\<close>

subsection \<open>Redaction\<close>

text \<open>A secret that neither contains a bracket nor is part of the marker's own text.\<close>

definition opaque :: "string \<Rightarrow> bool" where
  "opaque s \<longleftrightarrow> s \<noteq> [] \<and> CHR ''['' \<notin> set s \<and> CHR '']'' \<notin> set s \<and> \<not> sublist s ''REDACTED''"

lemma sublist_Cons_iff: "sublist s (c # t) \<longleftrightarrow> prefix s (c # t) \<or> sublist s t"
  by (simp add: sublist_Cons_right)

lemma sublist_bracket:
  assumes "c \<notin> set s" "sublist s (x @ c # y)" shows "sublist s x \<or> sublist s y"
proof -
  have "sublist s x \<or> sublist s (c # y) \<or> (\<exists>a b. s = a @ b \<and> suffix a x \<and> prefix b (c # y))"
    using assms(2) by (simp add: sublist_append)
  moreover have "sublist s y \<or> s = []" if "sublist s (c # y)"
    using that assms(1) by (auto simp: sublist_Cons_iff prefix_Cons)
  moreover have "sublist s x" if "s = a @ b" "suffix a x" "prefix b (c # y)" for a b
    using that assms(1) by (auto simp: prefix_Cons)
  ultimately show ?thesis by auto
qed

lemma sublist_marker:
  assumes "opaque s" "sublist s (redaction_marker @ t)" shows "sublist s t"
proof -
  have "sublist s ([] @ CHR ''['' # (''REDACTED'' @ CHR '']'' # t))"
    using assms(2) by (simp add: redaction_marker_def)
  then have "sublist s [] \<or> sublist s (''REDACTED'' @ CHR '']'' # t)"
    using assms(1) by (intro sublist_bracket) (simp_all add: opaque_def)
  then have "sublist s (''REDACTED'' @ CHR '']'' # t)"
    using assms(1) by (auto simp: opaque_def)
  then show ?thesis using sublist_bracket assms(1) by (metis opaque_def)
qed

lemma prefix_marker: "opaque s \<Longrightarrow> \<not> prefix s (redaction_marker @ t)"
  by (cases s) (auto simp: opaque_def redaction_marker_def)

declare replace_text.simps [simp del]

lemma replace_text_Nil [simp]: "replace_text old new [] = []"
  by (subst replace_text.simps) simp

lemma replace_text_Cons:
  "old \<noteq> [] \<Longrightarrow> replace_text old new (c # cs) =
     (if take (length old) (c # cs) = old then new @ replace_text old new (drop (length old) (c # cs))
      else c # replace_text old new cs)"
  by (subst replace_text.simps) simp

text \<open>Replacing brings no new text without brackets into being.\<close>

lemma prefix_replaced:
  "opaque old \<Longrightarrow> CHR ''['' \<notin> set p \<Longrightarrow> prefix p (replace_text old redaction_marker s) \<Longrightarrow> prefix p s"
proof (induction s arbitrary: p)
  case Nil
  then show ?case by simp
next
  case (Cons c cs)
  have old: "old \<noteq> []" using Cons.prems(1) by (simp add: opaque_def)
  show ?case
  proof (cases p)
    case (Cons a q)
    have step: "replace_text old redaction_marker (c # cs) = c # replace_text old redaction_marker cs"
    proof (rule ccontr)
      assume "\<not> ?thesis"
      then have "replace_text old redaction_marker (c # cs) =
          redaction_marker @ replace_text old redaction_marker (drop (length old) (c # cs))"
        using replace_text_Cons [OF old, of redaction_marker c cs] by metis
      with Cons.prems(3) have "prefix p (redaction_marker @ replace_text old redaction_marker (drop (length old) (c # cs)))"
        by metis
      with Cons Cons.prems(2) show False by (simp add: redaction_marker_def)
    qed
    have "a = c" "prefix q (replace_text old redaction_marker cs)"
      using Cons.prems(3) Cons step by simp_all
    moreover have "CHR ''['' \<notin> set q" using Cons.prems(2) Cons by simp
    ultimately show ?thesis using Cons.IH Cons.prems(1) Cons by simp
  qed simp
qed

lemma sublist_replaced:
  assumes "opaque s" "opaque old" "sublist s (replace_text old redaction_marker t)"
  shows "sublist s t \<and> s \<noteq> old"
  using assms
proof (induction old "redaction_marker" t rule: replace_text.induct)
  case (1 old t)
  then have old: "old \<noteq> []" by (simp add: opaque_def)
  show ?case
  proof (cases t)
    case Nil
    with "1.prems" show ?thesis by (simp add: opaque_def)
  next
    case (Cons c cs)
    show ?thesis
    proof (cases "take (length old) t = old")
      case True
      let ?rest = "drop (length old) t"
      have eq: "replace_text old redaction_marker t = redaction_marker @ replace_text old redaction_marker ?rest"
        using replace_text_Cons [OF old, of redaction_marker c cs] True Cons by metis
      have "sublist s (replace_text old redaction_marker ?rest)"
        using "1.prems"(1,3) unfolding eq by (rule sublist_marker)
      then have "sublist s ?rest \<and> s \<noteq> old"
        using "1.hyps"(1) [OF old Cons] True Cons "1.prems"(1,2) by metis
      moreover have "sublist ?rest t" by (simp add: sublist_drop)
      ultimately show ?thesis using sublist_order.order.trans by blast
    next
      case False
      have eq: "replace_text old redaction_marker t = c # replace_text old redaction_marker cs"
        using replace_text_Cons [OF old, of redaction_marker c cs] False Cons by metis
      have "prefix s (replace_text old redaction_marker t) \<or> sublist s (replace_text old redaction_marker cs)"
        using "1.prems"(3) unfolding eq by (simp only: sublist_Cons_iff)
      then show ?thesis
      proof
        assume "prefix s (replace_text old redaction_marker t)"
        then have "prefix s t" using prefix_replaced [OF "1.prems"(2)] "1.prems"(1) by (simp add: opaque_def)
        then show ?thesis using False by (auto simp: prefix_def)
      next
        assume "sublist s (replace_text old redaction_marker cs)"
        then have "sublist s cs \<and> s \<noteq> old"
          using "1.hyps"(2) [OF old Cons] False Cons "1.prems"(1,2) by metis
        then show ?thesis using Cons by (simp add: sublist_Cons_iff)
      qed
    qed
  qed
qed

lemma redact_text_old: "opaque s \<Longrightarrow> \<forall>k \<in> set secrets. opaque k \<Longrightarrow> sublist s (redact_text secrets t) \<Longrightarrow>
    sublist s t \<and> s \<notin> set secrets"
  by (induction secrets arbitrary: t) (auto dest: sublist_replaced)

fun strings_in :: "pyval \<Rightarrow> string set" where
  "strings_in (PStr s) = {s}"
| "strings_in (PDict kvs) = (\<Union>kv \<in> set kvs. strings_in (snd kv))"
| "strings_in (PProxy kvs) = (\<Union>kv \<in> set kvs. strings_in (snd kv))"
| "strings_in (PList vs) = (\<Union>v \<in> set vs. strings_in v)"
| "strings_in (PTuple vs) = (\<Union>v \<in> set vs. strings_in v)"
| "strings_in _ = {}"

definition free_of :: "string list \<Rightarrow> pyval \<Rightarrow> bool" where
  "free_of secrets v \<longleftrightarrow> (\<forall>t \<in> strings_in v. \<forall>s \<in> set secrets. \<not> sublist s t)"

lemma redact_text_free:
  "\<forall>k \<in> set secrets. opaque k \<Longrightarrow> s \<in> set secrets \<Longrightarrow> \<not> sublist s (redact_text secrets t)"
  using redact_text_old by blast

lemma redacted_strings:
  "t \<in> strings_in (redact_json_strings secrets v) \<Longrightarrow> \<exists>u. t = redact_text secrets u"
  by (induction v rule: redact_json_strings.induct) auto

lemma redact_json_free: "\<forall>k \<in> set secrets. opaque k \<Longrightarrow> free_of secrets (redact_json_strings secrets v)"
  unfolding free_of_def using redact_text_free redacted_strings by blast

lemma redacted_messages_free:
  "\<forall>k \<in> set secrets. opaque k \<Longrightarrow> redacted_messages secrets ms = Inr out \<Longrightarrow> m \<in> set out \<Longrightarrow> free_of secrets m"
  by (auto simp: redacted_messages_def succ_simps redact_json_free)

subsection \<open>Groups are exchanges\<close>

abbreviation kinds :: "pyval list \<Rightarrow> kind list \<Rightarrow> bool" where
  "kinds ms ks \<equiv> list_all2 (\<lambda>m k. classify m = Some k) ms ks"

definition exchange :: "kind list \<Rightarrow> bool" where
  "exchange ks \<longleftrightarrow> ks = [KUser] \<or> (\<exists>ids rs. ks = KAssistant ids # map KTool rs \<and> distinct rs \<and> set rs = set ids)"

lemma validate_kinds:
  "validate_conversation messages = Inr () \<longleftrightarrow>
   (\<exists>ms ks. as_seq messages = Some ms \<and> kinds ms ks \<and> conversation_grammar ks)"
  by (simp add: validate_conversation_split validate_loop_iff accepts_fresh conversation_grammar_def conv_init_def)

lemma canonical_call_id:
  "validate_canonical_tool_call v = Inr i \<Longrightarrow> as_str (get (message_fields v) ''id'') = Some i"
  by (auto simp: validate_canonical_tool_call_def message_fields_def succ_simps)

lemma canonical_ids:
  "mapE validate_canonical_tool_call vs = Inr ids \<Longrightarrow>
   List.map_filter (\<lambda>v. as_str (get (message_fields v) ''id'')) vs = ids"
  by (induction vs arbitrary: ids) (auto simp: succ_simps map_filter_simps dest!: canonical_call_id)

lemma classify_role:
  assumes "classify m = Some k"
  shows "\<exists>d. as_map m = Some d \<and> message_fields m = d \<and>
    role_of m = PStr (case k of KSystem \<Rightarrow> ''system'' | KUser \<Rightarrow> ''user'' | KAssistant _ \<Rightarrow> ''assistant'' | KTool _ \<Rightarrow> ''tool'')"
  using assms by (auto simp: classify_def role_of_def message_fields_def split: option.splits if_splits sum.splits)

lemma classify_tool: "classify m = Some (KTool i) \<Longrightarrow> get (message_fields m) ''tool_call_id'' = PStr i"
  by (auto simp: classify_def message_fields_def tool_result_id_def succ_simps split: option.splits if_splits sum.splits)

lemma classify_assistant:
  assumes "classify m = Some (KAssistant ids)"
  shows "requested_ids m = ids \<and> (truthy (get (message_fields m) ''tool_calls'') \<longleftrightarrow> ids \<noteq> [])"
proof -
  from assms obtain d where d: "as_map m = Some d" "assistant_calls d = Inr ids"
    by (auto simp: classify_def split: option.splits if_splits sum.splits)
  then obtain vs where vs: "as_seq (get_or d ''tool_calls'' (PTuple [])) = Some vs"
      "mapE validate_canonical_tool_call vs = Inr ids"
    by (auto simp: assistant_calls_def Let_def succ_simps)
  have len: "length ids = length vs" using mapE_Inr_length [OF vs(2)] .
  show ?thesis
  proof (cases "map_of d ''tool_calls''")
    case None
    with vs d show ?thesis by (simp add: requested_ids_def message_fields_def get_def get_or_def)
  next
    case (Some v)
    then have "as_seq v = Some vs" using vs(1) by (simp add: get_or_def)
    moreover from this have "truthy v \<longleftrightarrow> vs \<noteq> []" by (cases v) auto
    ultimately show ?thesis
      using Some d canonical_ids [OF vs(2)] len by (auto simp: requested_ids_def message_fields_def get_def get_or_def)
  qed
qed

lemma take_results_exact:
  "kinds rs' (map KTool rs) \<Longrightarrow> distinct rs \<Longrightarrow> take_results (set rs) (rs' @ rest) = Inr (rs', rest)"
proof (induction rs arbitrary: rs')
  case Nil
  then show ?case by (subst take_results.simps) simp
next
  case (Cons i rs)
  then obtain m ms where m: "rs' = m # ms" "classify m = Some (KTool i)" "kinds ms (map KTool rs)"
    by (auto simp: list_all2_Cons2)
  have "insert i (set rs) - {i} = set rs" using Cons.prems(2) by auto
  then show ?case
    using Cons m classify_role [OF m(2)] classify_tool [OF m(2)]
    by (subst take_results.simps) simp
qed

definition exchange_group :: "atomic_group \<Rightarrow> bool" where
  "exchange_group g \<longleftrightarrow> (\<exists>ks. kinds (ag_messages g) ks \<and> exchange ks)"

lemma groups_from_batches:
  assumes "batches ks" "kinds ms ks"
  shows "\<exists>gs. groups_from n ms = Inr gs \<and> group_messages gs = ms \<and>
    map ag_index gs = [n..<n + length gs] \<and> (\<forall>g \<in> set gs. exchange_group g)"
  using assms
proof (induction ks arbitrary: n ms rule: batches.induct)
  case batches_Nil
  then show ?case by (subst groups_from.simps) (simp add: group_messages_def)
next
  case (batches_User ks)
  then obtain m rest where m: "ms = m # rest" "classify m = Some KUser" "kinds rest ks"
    by (auto simp: list_all2_Cons2)
  from batches_User.IH [OF m(3), of "Suc n"] obtain gs where gs: "groups_from (Suc n) rest = Inr gs"
      "group_messages gs = rest" "map ag_index gs = [Suc n..<Suc n + length gs]" "\<forall>g \<in> set gs. exchange_group g"
    by blast
  have "exchange_group \<lparr>ag_index = n, ag_messages = [m]\<rparr>"
    using m(2) by (auto simp: exchange_group_def exchange_def)
  with gs m classify_role [OF m(2)] show ?case
    by (subst groups_from.simps) (auto simp: group_messages_def upt_rec)
next
  case (batches_Assistant rs ids ks)
  then obtain m rs' rest where m: "ms = m # rs' @ rest" "classify m = Some (KAssistant ids)"
      "kinds rs' (map KTool rs)" "kinds rest ks"
    by (auto simp: list_all2_Cons2 list_all2_append2)
  from batches_Assistant.IH [OF m(4), of "Suc n"] obtain gs where gs: "groups_from (Suc n) rest = Inr gs"
      "group_messages gs = rest" "map ag_index gs = [Suc n..<Suc n + length gs]" "\<forall>g \<in> set gs. exchange_group g"
    by blast
  have x: "exchange_group \<lparr>ag_index = n, ag_messages = m # rs'\<rparr>"
    unfolding exchange_group_def exchange_def
    by (rule exI [of _ "KAssistant ids # map KTool rs"]) (use m batches_Assistant.hyps in auto)
  note take = take_results_exact [OF m(3) batches_Assistant.hyps(1), of rest]
  have "rs' = []" if "ids = []" using that batches_Assistant.hyps(2) m(3) by simp
  with gs m x take classify_role [OF m(2)] classify_assistant [OF m(2)] batches_Assistant.hyps(2) show ?case
    by (subst groups_from.simps) (auto simp: group_messages_def upt_rec)
qed

lemma exchanges_batches:
  "\<forall>g \<in> set gs. exchange_group g \<Longrightarrow> \<exists>ks. kinds (group_messages gs) ks \<and> batches ks"
proof (induction gs)
  case Nil
  then show ?case by (auto simp: group_messages_def intro: batches_Nil)
next
  case (Cons g gs)
  then obtain ks js where "kinds (group_messages gs) ks" "batches ks" "kinds (ag_messages g) js" "exchange js"
    by (auto simp: exchange_group_def)
  then have "kinds (group_messages (g # gs)) (js @ ks)" "batches (js @ ks)"
    by (auto simp: group_messages_def exchange_def list_all2_appendI intro: batches_User batches_Assistant)
  then show ?case by blast
qed

lemma exchanges_valid:
  "\<forall>g \<in> set gs. exchange_group g \<Longrightarrow> as_seq v = Some (group_messages gs) \<Longrightarrow> validate_conversation v = Inr ()"
  using exchanges_batches by (fastforce simp: validate_kinds conversation_grammar_def)

lemma leading_system:
  assumes "kinds ms ks" "conversation_grammar ks"
  shows "\<exists>ks'. kinds (case ms of m # rest \<Rightarrow> if is_system m then rest else ms | [] \<Rightarrow> []) ks' \<and> batches ks'"
proof (cases ms)
  case Nil
  with assms show ?thesis by (auto simp: conversation_grammar_def intro: batches_Nil)
next
  case (Cons m rest)
  with assms(1) obtain k js where k: "ks = k # js" "classify m = Some k" "kinds rest js"
    by (auto simp: list_all2_Cons1)
  from assms(2) k(1) consider "k = KSystem" "batches js" | "batches ks" "k \<noteq> KSystem"
    by (cases k) (auto simp: conversation_grammar_def batches_Cons_simps)
  then show ?thesis
  proof cases
    case 1
    with k Cons classify_role [OF k(2)] show ?thesis by (auto simp: is_system_def)
  next
    case 2
    have "\<not> is_system m" using 2 classify_role [OF k(2)] by (auto simp: is_system_def split: kind.splits)
    with 2 Cons assms(1) show ?thesis by auto
  qed
qed

lemma atomic_groups_exchanges:
  assumes "validate_conversation (PList ms) = Inr ()" "plain (PList ms)"
  shows "\<exists>gs. atomic_groups ms = Inr gs \<and>
    group_messages gs = (case ms of m # rest \<Rightarrow> if is_system m then rest else ms | [] \<Rightarrow> []) \<and>
    map ag_index gs = [0..<length gs] \<and> (\<forall>g \<in> set gs. exchange_group g)"
proof -
  from assms(1) obtain ks where "kinds ms ks" "conversation_grammar ks" by (auto simp: validate_kinds)
  then obtain ks' where k: "kinds (case ms of m # rest \<Rightarrow> if is_system m then rest else ms | [] \<Rightarrow> []) ks'" "batches ks'"
    using leading_system by blast
  obtain s where "dumps (PList ms) = Inr s" using assms(2) dumps_total_iff by blast
  then have "plain_messages ms = Inr ms" by (simp add: plain_messages_def)
  with assms(1) groups_from_batches [OF k(2,1), of 0] show ?thesis by (auto simp: atomic_groups_def)
qed

subsection \<open>Properties\<close>

lemma redacted_messages_Inr:
  "redacted_messages secrets ms = Inr out \<Longrightarrow> out = map (redact_json_strings secrets) ms"
  by (auto simp: redacted_messages_def plain_messages_def succ_simps)

lemma prepare_compactionD:
  assumes "prepare_compaction secrets messages through_seq n max_chars max_old done_count = Inr draft"
  obtains copied gs request where "redacted_messages secrets messages = Inr copied"
    "atomic_groups copied = Inr gs" "user_group_indexes gs \<noteq> []"
    "cd_replacement_conversation draft =
       group_messages (filter (\<lambda>g. ag_index g \<in> retained_indexes gs (nat n)) gs)"
    "redacted_messages secrets request = Inr (cd_summary_messages draft)" "cd_through_seq draft = through_seq"
  using assms by (auto simp: prepare_compaction_def Let_def succ_simps)

lemma batches_no_system: "batches ks \<Longrightarrow> KSystem \<notin> set ks"
  by (induction rule: batches.induct) auto

lemma kinds_no_system:
  assumes "kinds ms ks" "KSystem \<notin> set ks" shows "filter (\<lambda>m. \<not> is_system m) ms = ms"
  using assms
proof (induction rule: list_all2_induct)
  case (Cons m ms k ks)
  with classify_role [of m k] have "\<not> is_system m" by (auto simp: is_system_def split: kind.splits)
  with Cons show ?case by simp
qed simp

lemma atomic_groups_valid:
  assumes "atomic_groups ms = Inr gs"
  shows "validate_conversation (PList ms) = Inr ()" "plain (PList ms)"
proof -
  show v: "validate_conversation (PList ms) = Inr ()"
    using assms unfolding atomic_groups_def by (cases "validate_conversation (PList ms)") simp_all
  have "\<exists>s. dumps (PList ms) = Inr s"
    using assms v unfolding atomic_groups_def plain_messages_def
    by (cases "dumps (PList ms)") (simp_all del: dumps.simps)
  then show "plain (PList ms)" using dumps_total_iff by blast
qed

lemma groups_without_system:
  assumes "atomic_groups ms = Inr gs"
  shows "group_messages gs = filter (\<lambda>m. \<not> is_system m) ms \<and> map ag_index gs = [0..<length gs] \<and>
    (\<forall>g \<in> set gs. exchange_group g)"
proof -
  let ?tail = "case ms of m # rest \<Rightarrow> if is_system m then rest else ms | [] \<Rightarrow> []"
  note v = atomic_groups_valid [OF assms]
  from v(1) obtain ks where "kinds ms ks" "conversation_grammar ks" by (auto simp: validate_kinds)
  then obtain ks' where "kinds ?tail ks'" "batches ks'" using leading_system by blast
  then have "filter (\<lambda>m. \<not> is_system m) ?tail = ?tail" using kinds_no_system batches_no_system by blast
  moreover have "filter (\<lambda>m. \<not> is_system m) ms = filter (\<lambda>m. \<not> is_system m) ?tail" by (simp split: list.split)
  ultimately show ?thesis using atomic_groups_exchanges [OF v] assms by auto
qed

text \<open>
  C12. No known secret leaves the compactor: whatever the conversation and the summary model
  say, no string of the request to the summary model and none of the durable checkpoint
  contains one of the secrets, provided a secret has no brackets and is not a piece of the
  word that replaces it.
\<close>

theorem no_secret_is_disclosed:
  assumes "\<forall>k \<in> set secrets. opaque k"
    "prepare_compaction secrets messages through_seq n max_chars max_old done_count = Inr draft"
    "finalize_checkpoint secrets draft summary = Inr payload"
  shows "list_all (free_of secrets) (cd_summary_messages draft) \<and> free_of secrets (PDict payload)"
proof -
  have "\<forall>m \<in> set (cd_summary_messages draft). free_of secrets m"
    using assms(2) by (rule prepare_compactionD) (use assms(1) redacted_messages_free in blast)
  moreover from assms(3) obtain ms where ms: "redacted_messages secrets (cd_replacement_conversation draft) = Inr ms"
    and p: "payload = [(''through_seq'', PInt (cd_through_seq draft)), (''summary'', PStr (redact_text secrets summary)),
      (''replacement_conversation'', PList ms)]"
    by (auto simp: finalize_checkpoint_def succ_simps)
  have "free_of secrets (PDict payload)"
    using redacted_messages_free [OF assms(1) ms] redact_text_free [OF assms(1)] by (auto simp: p free_of_def)
  ultimately show ?thesis by (simp add: list_all_iff)
qed

text \<open>
  With a large enough bound on the input of the summary, preparing cannot fail once the redacted
  conversation is valid and has a user message: nothing it keeps is refused.
\<close>

lemma prepare_compaction_total:
  assumes "redacted_messages secrets ms = Inr copied" "atomic_groups copied = Inr gs" "user_group_indexes gs \<noteq> []"
    "1 \<le> through_seq" "1 \<le> n" "1 \<le> max_old"
  shows "\<exists>max_chars draft. prepare_compaction secrets ms through_seq n max_chars max_old 0 = Inr draft \<and>
    cd_replacement_conversation draft = group_messages (filter (\<lambda>g. ag_index g \<in> retained_indexes gs (nat n)) gs)"
proof -
  let ?kept = "filter (\<lambda>g. ag_index g \<in> retained_indexes gs (nat n)) gs"
  let ?input = "PList (filter is_system copied @ group_messages gs)"
  note v = atomic_groups_valid [OF assms(2)]
  note gs = groups_without_system [OF assms(2)]
  obtain ks where ks: "kinds copied ks" using v(1) by (auto simp: validate_kinds)
  have maps: "\<not> list_ex (\<lambda>m. as_map m = None) copied"
    using ks by (induction rule: list_all2_induct) (auto dest: classify_role)
  have kept: "validate_conversation (PTuple (group_messages ?kept)) = Inr ()"
    using gs by (intro exchanges_valid [of ?kept]) simp_all
  have "plain ?input" using v(2) gs by (auto simp: list_all_iff)
  then obtain s where s: "dumps ?input = Inr s" using dumps_total_iff by blast
  obtain request where request: "summary_request_messages (filter is_system copied @ group_messages gs) = Inr request"
      "plain (PList request)"
    using s by (simp add: summary_request_messages_def)
  obtain r where "dumps (PList request) = Inr r" using request(2) dumps_total_iff by blast
  then have red: "redacted_messages secrets request = Inr (map (redact_json_strings secrets) request)"
    by (simp add: redacted_messages_def plain_messages_def)
  have drop: "drop_summarized 0 gs = Inr gs" by (cases gs) simp_all
  have input: "summary_input (filter is_system copied) gs retained (int (py_len s) + 1) m =
      Inr (filter is_system copied @ group_messages gs)" for retained m
    using s by (simp add: summary_input_def)
  have pos: "positive through_seq x = Inr ()" "positive n x = Inr ()" "positive max_old x = Inr ()"
      "positive (int (py_len s) + 1) x = Inr ()" for x
    using assms(4-6) by (simp_all add: positive_def)
  have "prepare_compaction secrets ms through_seq n (int (py_len s) + 1) max_old 0 =
      Inr \<lparr>cd_through_seq = through_seq, cd_summary_messages = map (redact_json_strings secrets) request,
          cd_replacement_conversation = group_messages ?kept\<rparr>"
    by (simp add: prepare_compaction_def pos assms(1-3) maps kept drop input request(1) red Let_def
        del: list_ex_iff)
  then show ?thesis by fastforce
qed

text \<open>A conversation, and a summary, that mention a secret.\<close>

definition demo_conversation :: "pyval list" where
  "demo_conversation =
     [PDict [(''role'', PStr ''user''), (''content'', PStr ''use s3cret'')],
      PDict [(''role'', PStr ''assistant''), (''content'', PNone), (''tool_calls'', PList
        [PDict [(''id'', PStr ''a''), (''type'', PStr ''function''),
                (''function'', PDict [(''name'', PStr ''bash''), (''arguments'', PStr ''{}'')])]])],
      PDict [(''role'', PStr ''tool''), (''tool_call_id'', PStr ''a''), (''content'', PStr ''s3cret'')]]"

definition demo_replacement :: "pyval list" where
  "demo_replacement = map (redact_json_strings [''s3cret'']) demo_conversation"

lemma demo_draft:
  "\<exists>max_chars draft. prepare_compaction [''s3cret''] demo_conversation 5 1 max_chars 200 0 = Inr draft \<and>
     cd_replacement_conversation draft = demo_replacement"
proof -
  have r: "redacted_messages [''s3cret''] demo_conversation = Inr demo_replacement" by code_simp
  have g: "atomic_groups demo_replacement = Inr [\<lparr>ag_index = 0, ag_messages = take 1 demo_replacement\<rparr>,
      \<lparr>ag_index = 1, ag_messages = drop 1 demo_replacement\<rparr>]" (is "_ = Inr ?gs") by code_simp
  have u: "user_group_indexes ?gs \<noteq> []" by code_simp
  have "group_messages (filter (\<lambda>g. ag_index g \<in> retained_indexes ?gs (nat 1)) ?gs) = demo_replacement" by code_simp
  with prepare_compaction_total [OF r g u, of 5 1 200] show ?thesis by auto
qed

lemma no_secret_is_disclosed_witness:
  "\<exists>max_chars draft payload. prepare_compaction [''s3cret''] demo_conversation 5 1 max_chars 200 0 = Inr draft \<and>
     finalize_checkpoint [''s3cret''] draft ''Goal: s3cret'' = Inr payload \<and> free_of [''s3cret''] (PDict payload)"
proof -
  have k: "\<forall>k \<in> set [''s3cret'']. opaque k" by code_simp
  obtain max_chars draft where d: "prepare_compaction [''s3cret''] demo_conversation 5 1 max_chars 200 0 = Inr draft"
      "cd_replacement_conversation draft = demo_replacement"
    using demo_draft by blast
  have "case finalize_checkpoint [''s3cret''] (\<lparr>cd_through_seq = 5, cd_summary_messages = [],
      cd_replacement_conversation = demo_replacement\<rparr>) ''Goal: s3cret'' of Inr _ \<Rightarrow> True | Inl _ \<Rightarrow> False"
    by code_simp
  then obtain payload where f: "finalize_checkpoint [''s3cret''] draft ''Goal: s3cret'' = Inr payload"
    using d(2) by (cases "finalize_checkpoint [''s3cret''] draft ''Goal: s3cret''") (auto simp: finalize_checkpoint_def bindE_def raise_if_def split: sum.splits if_splits)
  show ?thesis using no_secret_is_disclosed [OF k d(1) f] d(1) f by blast
qed

definition user_group :: "atomic_group \<Rightarrow> bool" where
  "user_group g \<longleftrightarrow> role_of (hd (ag_messages g)) = PStr ''user''"

text \<open>
  C38. Compaction never separates a call from its results, and never fails to validate what it
  keeps: the visible history, redacted, is cut into exchanges (a user message, or an assistant
  message with one result for each of its calls); the replacement is the exchanges kept, in
  order and complete; among them are the first and the last user message and the last
  \<open>tail_group_count\<close> exchanges; and it is a valid conversation without a system message.
\<close>

theorem replacement_is_whole_exchanges:
  assumes "prepare_compaction secrets messages through_seq n max_chars max_old done_count = Inr draft"
  shows "\<exists>gs kept. group_messages gs = filter (\<lambda>m. \<not> is_system m) (map (redact_json_strings secrets) messages) \<and>
    (\<forall>g \<in> set gs. exchange_group g) \<and> subseq kept gs \<and>
    cd_replacement_conversation draft = group_messages kept \<and>
    hd (filter user_group gs) \<in> set kept \<and> last (filter user_group gs) \<in> set kept \<and>
    set (drop (length gs - nat n) gs) \<subseteq> set kept \<and>
    validate_conversation (PList (cd_replacement_conversation draft)) = Inr () \<and>
    filter is_system (cd_replacement_conversation draft) = []"
  using assms
proof (rule prepare_compactionD)
  fix copied gs request
  assume c: "redacted_messages secrets messages = Inr copied" and g: "atomic_groups copied = Inr gs" and u: "user_group_indexes gs \<noteq> []"
    and r: "cd_replacement_conversation draft =
       group_messages (filter (\<lambda>g. ag_index g \<in> retained_indexes gs (nat n)) gs)"
  define kept where "kept = filter (\<lambda>g. ag_index g \<in> retained_indexes gs (nat n)) gs"
  note gs = groups_without_system [OF g]
  have users: "user_group_indexes gs = map ag_index (filter user_group gs)" "filter user_group gs \<noteq> []"
    using u by (simp_all add: user_group_indexes_def user_group_def [abs_def])
  then have "ag_index (hd (filter user_group gs)) \<in> retained_indexes gs (nat n)"
      "ag_index (last (filter user_group gs)) \<in> retained_indexes gs (nat n)"
    by (simp_all add: retained_indexes_def hd_map last_map)
  moreover have "hd (filter user_group gs) \<in> set gs" "last (filter user_group gs) \<in> set gs"
    using hd_in_set [OF users(2)] last_in_set [OF users(2)] by simp_all
  moreover have "g \<in> set kept" if "g \<in> set (drop (length gs - nat n) gs)" for g
  proof -
    from that obtain j where "j < length gs - (length gs - nat n)" "g = drop (length gs - nat n) gs ! j"
      unfolding in_set_conv_nth by auto
    then obtain i where i: "i < length gs" "length gs - nat n \<le> i" "g = gs ! i"
      by (intro that [of "length gs - nat n + j"]) simp_all
    then have "ag_index g = i" using gs by (metis add_0 length_map nth_map nth_upt)
    with i show ?thesis by (simp add: kept_def retained_indexes_def)
  qed
  moreover have ex: "\<forall>g \<in> set kept. exchange_group g" using gs by (simp add: kept_def)
  moreover have "filter is_system (group_messages kept) = []"
  proof -
    obtain ks where "kinds (group_messages kept) ks" "batches ks" using exchanges_batches [OF ex] by blast
    then have "filter (\<lambda>m. \<not> is_system m) (group_messages kept) = group_messages kept"
      using kinds_no_system batches_no_system by blast
    then show ?thesis by (metis (no_types, lifting) filter_False filter_id_conv)
  qed
  ultimately show ?thesis
    using gs r redacted_messages_Inr [OF c] exchanges_valid [OF ex, of "PList (group_messages kept)"]
    by (intro exI [of _ gs] exI [of _ kept]) (auto simp: kept_def)
qed

lemma replacement_is_whole_exchanges_witness:
  "validate_conversation (PList demo_replacement) = Inr ()"
proof -
  obtain max_chars draft where d: "prepare_compaction [''s3cret''] demo_conversation 5 1 max_chars 200 0 = Inr draft"
      "cd_replacement_conversation draft = demo_replacement"
    using demo_draft by blast
  show ?thesis using replacement_is_whole_exchanges [OF d(1)] d(2) by auto
qed

end
