(* ===== verification/CompactionRun.thy ===== *)
theory CompactionRun
  imports CompactionProps
begin

section \<open>Committing a checkpoint\<close>

text \<open>
  A compaction either appends one checkpoint, from which the next prompt can be projected, or
  leaves the log and the state alone.
\<close>

lemma projected_old_events:
  "project_events through_seq tr evs = Inr ms \<Longrightarrow> \<forall>e \<in> set evs. ev_seq e \<le> through_seq \<Longrightarrow> ms = []"
  by (induction evs arbitrary: tr ms) (auto simp: succ_simps split: option.splits)

lemma projected_silent:
  "project_event ev tr = Inr (None, tr) \<Longrightarrow> project_events n tr [ev] = Inr []"
  by simp

lemma project_events_snoc:
  "project_events n tr (xs @ [ev]) = Inr r \<Longrightarrow> ev_type ev = ''compaction_checkpoint'' \<Longrightarrow>
   project_events n tr xs = Inr r"
proof (induction xs arbitrary: tr r)
  case Nil
  then show ?case by (simp add: project_event_def)
next
  case (Cons x xs)
  then show ?case by (fastforce simp: succ_simps)
qed

lemma project_after_checkpoint:
  assumes "project (es @ [ev]) s env = Inr messages" "ev_type ev = ''compaction_checkpoint''"
    "get (ev_payload ev) ''through_seq'' = PInt n" "\<forall>e \<in> set es. ev_seq e \<le> n"
  shows "\<exists>content rs. as_seq (get (ev_payload ev) ''replacement_conversation'') = Some rs \<and>
    messages = PDict [(''role'', PStr ''system''), (''content'', PStr content)] # map plain_json rs"
proof -
  have cp: "latest_checkpoint (es @ [ev]) = Some ev" using assms(2) by (simp add: latest_checkpoint_def)
  from assms(1) obtain summary rs content rest where
    rs: "as_seq (get (ev_payload ev) ''replacement_conversation'') = Some rs"
    and rest: "project_events n tracker_init (es @ [ev]) = Inr rest"
    and m: "messages = PDict [(''role'', PStr ''system''), (''content'', PStr content)] # map plain_json rs @ rest"
    by (auto simp: project_def cp checkpoint_baseline_def assms(3) system_message_def Let_def succ_simps
        split: prod.splits)
  have "rest = []"
    using projected_old_events [OF project_events_snoc [OF rest assms(2)] assms(4)] .
  with rs m show ?thesis by simp
qed

lemma log_numbered:
  assumes "replay es = Inr s" "e \<in> set es" shows "ev_seq e \<le> st_last_seq s"
proof -
  have "log_wf s" using replay_wf [OF assms(1)] by (simp add: wf_state_def)
  moreover have "st_events s = es"
  proof -
    have "replay_from empty_state es = Inr s" using assms(1) by (simp add: replay_def succ_simps)
    from events_grow [OF this] show ?thesis by (simp add: empty_state_def)
  qed
  ultimately show ?thesis using assms(2) by (auto simp: log_wf_def in_set_conv_nth)
qed

lemma append_event_cases:
  assumes "append_event st ev oc = (r, st')"
  obtains e where "r = Inl e" "ro_events st' = ro_events st"
  | "r = Inr ev" "ro_events st' = ro_events st @ [ev]"
  using assms by (auto simp: append_event_def split: sum.splits write_outcome.splits)

lemma commit_checkpoint_cases:
  assumes "commit_checkpoint co events env payload w = (r, w')" "events = log_of w"
  obtains (refused) e where "r = Inl e" "log_of w' = log_of w" "w_state w' = w_state w" "w_usable w' = w_usable w"
  | (committed) ev messages where "r = Inr True" "recorded ''compaction_checkpoint'' payload ev"
      "log_of w' = log_of w @ [ev]" "apply_event (w_state w) ev = Inr (w_state w')" "w_usable w' = w_usable w"
      "project (log_of w @ [ev]) (w_state w') env = Inr messages"
proof -
  obtain i t oc where c: "co_clock co (st_last_seq (w_state w) + 1) = (i, t, oc)" by (metis prod_cases3)
  let ?mk = "mk_event (co_iso_utc co) (PInt 1) (PInt (st_last_seq (w_state w) + 1)) (PStr i) (PStr t)
         (PStr (ro_session_id (w_store w))) (PStr ''compaction_checkpoint'') (PDict payload)"
  show ?thesis
  proof (cases ?mk)
    case (Inl e)
    then show ?thesis using refused [of e] assms c by (simp add: commit_checkpoint_def)
  next
    case ev: (Inr ev)
    let ?check = "bindE (reduce_event (w_state w) ev) (\<lambda>s. project (log_of w @ [ev]) s env)"
    show ?thesis
    proof (cases ?check)
      case (Inl e)
      then show ?thesis using refused [OF _ _ _ _] assms c ev by (auto simp: commit_checkpoint_def)
    next
      case (Inr messages)
      then obtain s where s: "apply_event (w_state w) ev = Inr s" "project (log_of w @ [ev]) s env = Inr messages"
        by (auto simp: reduce_event_def succ_simps)
      obtain x st where a: "append_event (w_store w) ev oc = (x, st)" by (cases "append_event (w_store w) ev oc")
      from a show ?thesis
      proof (cases rule: append_event_cases)
        case (1 e)
        then have "(r, w') = (Inl (CompactionError ''checkpoint append failed''), w\<lparr>w_store := st\<rparr>)"
          using assms c ev Inr a by (simp add: commit_checkpoint_def)
        with 1 show ?thesis using refused by (simp add: log_of_def)
      next
        case 2
        have "recorded ''compaction_checkpoint'' payload ev"
          using mk_event_fields [OF ev] by (simp add: recorded_def)
        moreover have "(r, w') = (Inr True, w\<lparr>w_store := st, w_state := s\<rparr>)"
          using 2 assms c ev Inr a s by (simp add: commit_checkpoint_def)
        ultimately show ?thesis using committed [of ev messages] 2 s by (simp add: log_of_def)
      qed
    qed
  qed
qed

lemma sample_summary_keeps:
  "sample_summary co draft w = (r, w') \<Longrightarrow>
   w_store w' = w_store w \<and> w_state w' = w_state w \<and> w_usable w' = w_usable w"
  by (auto simp: sample_summary_def split: prod.splits)

lemma compact_cases:
  assumes "compact co w = (r, w')"
  obtains (stopped) e where "r = Inl e" "w_store w' = w_store w" "w_state w' = w_state w" "w_usable w' = w_usable w"
  | (sampled) events env draft w1 summary payload where "load_events (w_store w) = Inr events"
      "co_environment co (w_outside w) = Inr env" "draft_of co events (w_state w) env = Inr draft"
      "sample_summary co draft w = (Inr summary, w1)" "finalize_checkpoint (co_secrets co) draft summary = Inr payload"
      "commit_checkpoint co events env payload w1 = (r, w')"
  using assms
  by (auto simp: compact_def bind_io_def split: sum.splits prod.splits if_splits dest: sample_summary_keeps)

lemma load_events_log: "load_events (w_store w) = Inr events \<Longrightarrow> events = log_of w"
  by (auto simp: load_events_def log_of_def succ_simps)

text \<open>
  C11. A compaction commits all or nothing. If it fails, in any way, the log and the session
  state are what they were. If it succeeds it has appended exactly one checkpoint, the state is
  the replay of the log, and the next prompt projects: it is the system message followed by
  the replacement conversation and nothing else.
\<close>

theorem compaction_commits_or_keeps:
  assumes "consistent w" "w_usable w" "compact co w = (r, w')"
  shows "case r of
      Inl _ \<Rightarrow> log_of w' = log_of w \<and> w_state w' = w_state w \<and> w_usable w'
    | Inr done_flag \<Rightarrow> done_flag \<and> consistent w' \<and> w_usable w' \<and>
        (\<exists>ev env content rs. log_of w' = log_of w @ [ev] \<and> ev_type ev = ''compaction_checkpoint'' \<and>
          co_environment co (w_outside w) = Inr env \<and>
          as_seq (get (ev_payload ev) ''replacement_conversation'') = Some rs \<and>
          project (log_of w') (w_state w') env =
            Inr (PDict [(''role'', PStr ''system''), (''content'', PStr content)] # map plain_json rs))"
  using assms(3)
proof (cases rule: compact_cases)
  case (stopped e)
  with assms(2) show ?thesis by (simp add: log_of_def)
next
  case (sampled events env draft w1 summary payload)
  note events = load_events_log [OF sampled(1)]
  note w1 = sample_summary_keeps [OF sampled(4)]
  then have log: "log_of w1 = log_of w" by (simp add: log_of_def)
  from sampled(6) events log have "commit_checkpoint co (log_of w1) env payload w1 = (r, w')" by simp
  from this refl show ?thesis
  proof (cases rule: commit_checkpoint_cases)
    case (refused e)
    with w1 log assms(2) show ?thesis by simp
  next
    case (committed ev messages)
    have rep: "replay (log_of w) = Inr (w_state w)" using assms by (simp add: consistent_def)
    have "cd_through_seq draft = st_last_seq (w_state w)"
      using sampled(3) by (auto simp: draft_of_def succ_simps elim!: prepare_compactionD)
    then have "map_of payload ''through_seq'' = Some (PInt (st_last_seq (w_state w)))"
      using sampled(5) by (auto simp: finalize_checkpoint_def succ_simps)
    then have n: "get (ev_payload ev) ''through_seq'' = PInt (st_last_seq (w_state w))"
      using recorded_get(1) [OF committed(2)] by (simp add: get_def)
    have ty: "ev_type ev = ''compaction_checkpoint''" using recorded_type [OF committed(2)] .
    have "\<forall>e \<in> set (log_of w). ev_seq e \<le> st_last_seq (w_state w)" using log_numbered [OF rep] by blast
    with project_after_checkpoint [OF committed(6) ty n] log obtain content rs where
      "as_seq (get (ev_payload ev) ''replacement_conversation'') = Some rs"
      "messages = PDict [(''role'', PStr ''system''), (''content'', PStr content)] # map plain_json rs" by auto
    moreover have "consistent w'" "w_usable w'"
      using committed w1 log assms(2) rep by (simp_all add: consistent_def replay_snoc)
    ultimately show ?thesis using committed log ty sampled(2) by auto
  qed
qed

text \<open>Compacting while a call is open is refused, and nothing changes.\<close>

definition demo_compactor :: "nat compactor" where
  "demo_compactor = \<lparr>co_secrets = [''s3cret''], co_environment = (\<lambda>_. Inr demo_environment),
     co_sample = (\<lambda>_ _ _ u. (Inl (RuntimeError ''offline''), u)),
     co_iso_utc = (\<lambda>_. True), co_clock = (\<lambda>_. (uuid_c, ''2026-01-01T00:00:00Z'', Written)),
     co_tail_group_count = 4, co_max_summary_input_chars = 48000, co_max_old_tool_chars = 2000\<rparr>"

lemma compaction_commits_or_keeps_witness:
  "\<exists>e w'. compact demo_compactor demo_world = (Inl (CompactionError e), w') \<and> log_of w' = log_of demo_world"
proof -
  have w: "consistent demo_world" "w_usable demo_world" by (rule demo_world_consistent) (simp add: demo_world_def)
  have p: "project demo_open (demo_state demo_open) demo_environment =
      Inl (ProjectionError ''cannot project unresolved tool calls'')" by code_simp
  have l: "load_events (w_store demo_world) = Inr demo_open" by code_simp
  have s: "st_session_id (w_state demo_world) \<noteq> None" "demo_open \<noteq> []" by (code_simp, code_simp)
  have st: "w_state demo_world = demo_state demo_open" by (simp add: demo_world_def)
  have env: "co_environment demo_compactor u = Inr demo_environment" for u by (simp add: demo_compactor_def)
  have d: "draft_of demo_compactor demo_open (demo_state demo_open) demo_environment =
      Inl (CompactionError ''compaction requires a completed sampling boundary'')"
    by (simp add: draft_of_def p wrap_fact_error_def)
  have e: "compact demo_compactor demo_world =
      (Inl (CompactionError ''compaction requires a completed sampling boundary''), demo_world)"
    using s by (auto simp: compact_def bind_io_def l st env d)
  show ?thesis using compaction_commits_or_keeps [OF w e] e by auto
qed

end
