(* ===== verification/CodeScheduler.thy ===== *)
theory CodeScheduler
  imports ExecutorRun PyJson
begin

section \<open>The DAG scheduler of a Code Mode run (code_scheduler.py)\<close>

text \<open>
  A worker submits batches of nodes that may depend on nodes of the same or of earlier batches.
  \<open>execute_graph\<close> normalises and orders a batch, plans every node durably, and executes the
  closure of the targets: in rounds, first closing the nodes a failed dependency blocks, then
  running the ready ones in waves through the executor.

  \<open>local_to_durable\<close> is an insertion-ordered dictionary that the scheduler keeps across
  batches, also when a batch fails half-way; the operations that change it act on a pair of
  world and dictionary. The cancellation event and the completion of futures are read from the
  outside: \<open>sd_cancelled\<close> polls the event, \<open>sd_wait\<close> says which of the \<open>n\<close> futures in flight are
  done. The body of a node acts on the outside when its future is observed to be done.
\<close>

subsection \<open>Nodes and batches\<close>

record graph_node =
  gn_local_id :: string
  gn_ordinal :: int
  gn_name :: string
  gn_arguments :: mapping
  gn_dependencies :: "string list"

definition code_tools :: "string set" where
  "code_tools = {''read_file'', ''list_dir'', ''grep'', ''write_file'', ''edit_file'', ''bash''}"

definition invalid_node :: py_error where
  "invalid_node = ValueError ''invalid code graph node''"

definition normalize_node :: "pyval \<Rightarrow> py_error + graph_node" where
  "normalize_node raw =
     bindE (need (as_dict raw) (ValueError ''code graph node must be an object'')) (\<lambda>d.
     bindE (need (as_str (get d ''node_id'')) invalid_node) (\<lambda>local_id.
     bindE (need (as_int (get d ''ordinal'')) invalid_node) (\<lambda>ordinal.
     bindE (need (as_str (get d ''name'')) invalid_node) (\<lambda>name.
     bindE (need (as_dict (get d ''arguments'')) invalid_node) (\<lambda>arguments.
     bindE (case get_or d ''dependencies'' (PList []) of PList vs \<Rightarrow> Inr vs | _ \<Rightarrow> Inl invalid_node) (\<lambda>vs.
     bindE (mapE (\<lambda>v. need (as_str v) invalid_node) vs) (\<lambda>dependencies.
     raise_if (local_id = [] \<or> ordinal < 1 \<or> name = []) invalid_node (
     Inr \<lparr>gn_local_id = local_id, gn_ordinal = ordinal, gn_name = name, gn_arguments = arguments,
          gn_dependencies = dependencies\<rparr>))))))))"

definition add_node ::
  "string dict \<Rightarrow> graph_node dict \<Rightarrow> pyval \<Rightarrow> py_error + graph_node dict" where
  "add_node submitted normalized raw =
     bindE (normalize_node raw) (\<lambda>node.
     raise_if (has_key submitted (gn_local_id node) \<or> has_key normalized (gn_local_id node))
       (ValueError ''code graph node id already submitted'') (
     Inr (dict_set (gn_local_id node) node normalized)))"

definition normalize_nodes :: "string dict \<Rightarrow> pyval list \<Rightarrow> py_error + graph_node dict" where
  "normalize_nodes submitted raw_nodes = foldE (add_node submitted) [] raw_nodes"

definition durable_node_id :: "string \<Rightarrow> int \<Rightarrow> string" where
  "durable_node_id run_id ordinal = run_id @ '':node:'' @ show_int ordinal"

definition validate_batch :: "string \<Rightarrow> session_state \<Rightarrow> graph_node list \<Rightarrow> py_error + unit" where
  "validate_batch run_id s nodes =
     (let ordinals = map gn_ordinal nodes; durable_ids = map (durable_node_id run_id) ordinals in
     raise_if (\<not> distinct ordinals) (ValueError ''code graph node ordinal must be unique'') (
     raise_if (\<not> distinct durable_ids \<or>
         list_ex (\<lambda>i. has_key (st_code_nodes s) i \<or> has_key (st_tool_calls s) i) durable_ids)
       (ValueError ''code graph durable node id already exists'') (
     each (\<lambda>node. raise_if (gn_name node \<notin> code_tools)
       (ValueError ''tool is not available in Code Mode'') (Inr ())) nodes)))"

definition unknown_node :: py_error where
  "unknown_node = ValueError ''UNKNOWN_NODE_REFERENCE''"

definition validate_targets ::
  "string dict \<Rightarrow> graph_node dict \<Rightarrow> pyval list \<Rightarrow> py_error + string list" where
  "validate_targets submitted nodes targets =
     mapE (\<lambda>t. bindE (need (as_str t) unknown_node) (\<lambda>i.
       raise_if (\<not> has_key nodes i \<and> \<not> has_key submitted i) unknown_node (Inr i))) targets"

subsection \<open>The topological order\<close>

text \<open>
  \<open>visit\<close>: \<open>temporary\<close> is the path from the root of the traversal, so it is passed down; the
  nodes already placed (\<open>permanent\<close>, and in order \<open>ordered\<close>) are threaded through.
\<close>

function visit ::
  "graph_node dict \<Rightarrow> string dict \<Rightarrow> string set \<Rightarrow> string set \<times> graph_node list \<Rightarrow> string \<Rightarrow>
   py_error + string set \<times> graph_node list" where
  "visit nodes submitted temporary placed local_id =
     (if local_id \<in> fst placed \<or> has_key submitted local_id then Inr placed
      else if local_id \<in> temporary then Inl (ValueError ''CYCLIC_DEPENDENCY'')
      else case map_of nodes local_id of
        None \<Rightarrow> Inl unknown_node
      | Some node \<Rightarrow>
          bindE (foldE (visit nodes submitted (insert local_id temporary)) placed (gn_dependencies node)) (\<lambda>(permanent, ordered).
          Inr (insert local_id permanent, ordered @ [node])))"
  by pat_completeness auto
termination
proof (relation "measure (\<lambda>(nodes, submitted, temporary, placed, local_id). card (fst ` set nodes - temporary))")
  show "wf (measure (\<lambda>(nodes :: graph_node dict, submitted :: string dict, temporary, placed :: string set \<times> graph_node list, local_id :: string).
      card (fst ` set nodes - temporary)))" by simp
next
  fix nodes :: "graph_node dict" and submitted :: "string dict" and temporary local_id node
    and placed u :: "string set \<times> graph_node list" and x
  assume new: "local_id \<notin> temporary" and "map_of nodes local_id = Some node"
  then have "local_id \<in> fst ` set nodes - temporary" using map_of_SomeD by force
  then have "fst ` set nodes - insert local_id temporary \<subset> fst ` set nodes - temporary" by blast
  then have "card (fst ` set nodes - insert local_id temporary) < card (fst ` set nodes - temporary)"
    by (simp add: psubset_card_mono)
  then show "((nodes, submitted, insert local_id temporary, u, x), nodes, submitted, temporary, placed, local_id)
      \<in> measure (\<lambda>(nodes, submitted, temporary, placed, local_id). card (fst ` set nodes - temporary))"
    by simp
qed

declare visit.simps [simp del]

definition topological :: "string dict \<Rightarrow> graph_node dict \<Rightarrow> py_error + graph_node list" where
  "topological submitted nodes =
     bindE (foldE (visit nodes submitted {}) ({}, [])
       (map gn_local_id (sort_key gn_ordinal (vals nodes)))) (\<lambda>(permanent, ordered). Inr ordered)"

subsection \<open>Planning\<close>

type_synonym ('a, 'u) gworld = "('a, 'u) world \<times> string dict"

definition on_world :: "(('a, 'u) world, 'b) io \<Rightarrow> (('a, 'u) gworld, 'b) io" where
  "on_world m = (\<lambda>(w, submitted). let (r, w') = m w in (r, (w', submitted)))"

record ('a, 'u) scheduler =
  sd_executor :: "('a, 'u) executor"
  sd_run_id :: string
  sd_max_parallel :: nat
  sd_max_nodes :: nat
  sd_cancelled :: "'u \<Rightarrow> bool \<times> 'u"
  sd_wait :: "nat \<Rightarrow> 'u \<Rightarrow> (py_error + nat list) \<times> 'u"
  sd_escape :: "string \<Rightarrow> string"
  sd_program :: "tool_call \<Rightarrow> string \<Rightarrow> string \<Rightarrow> (('a, 'u) world, tool_result) io"

text \<open>
  \<open>store.append\<close> followed by \<open>SessionReducer.apply\<close>, as \<open>_plan\<close> and \<open>CodeModeRunner._append\<close>
  write it: the error of the reducer passes through and the executor stays usable.
\<close>

definition append_and_apply ::
  "('a, 'u) executor \<Rightarrow> string \<Rightarrow> mapping \<Rightarrow> (('a, 'u) world, unit) io" where
  "append_and_apply ex type payload = (\<lambda>w.
     let (event_id, timestamp, outcome) = ex_clock ex (int (length (ro_events (w_store w))) + 1) in
     case append_new (ex_iso_utc ex) (w_store w) event_id timestamp type payload outcome of
       (Inl e, st) \<Rightarrow> (Inl e, w\<lparr>w_store := st\<rparr>)
     | (Inr ev, st) \<Rightarrow>
         (case apply_event (w_state w) ev of
            Inl (e, s) \<Rightarrow> (Inl e, w\<lparr>w_store := st, w_state := s\<rparr>)
          | Inr s \<Rightarrow> (Inr (), w\<lparr>w_store := st, w_state := s\<rparr>)))"

definition durable_id :: "string dict \<Rightarrow> string \<Rightarrow> py_error + string" where
  "durable_id submitted local_id = need (map_of submitted local_id) unknown_node"

definition plan_payload :: "string \<Rightarrow> graph_node \<Rightarrow> string list \<Rightarrow> string \<Rightarrow> mapping" where
  "plan_payload run_id node dependencies encoded =
     [(''run_id'', PStr run_id), (''node_id'', PStr (durable_node_id run_id (gn_ordinal node))),
      (''ordinal'', PInt (gn_ordinal node)), (''name'', PStr (gn_name node)), (''arguments'', PStr encoded),
      (''dependencies'', PList (map PStr dependencies))]"

definition plan :: "('a, 'u) scheduler \<Rightarrow> graph_node \<Rightarrow> (('a, 'u) gworld, unit) io" where
  "plan sd node = (\<lambda>(w, submitted).
     case bindE (need (map_of (st_code_runs (w_state w)) (sd_run_id sd)) (KeyError (sd_run_id sd))) (\<lambda>_.
          bindE (mapE (durable_id submitted) (gn_dependencies node)) (\<lambda>dependencies.
          bindE (dumps (PDict (gn_arguments node))) (\<lambda>encoded. Inr (dependencies, encoded)))) of
       Inl e \<Rightarrow> (Inl e, (w, submitted))
     | Inr (dependencies, encoded) \<Rightarrow>
         (case append_and_apply (sd_executor sd) ''code_node_planned''
             (plan_payload (sd_run_id sd) node dependencies encoded) w of
            (Inl e, w') \<Rightarrow> (Inl e, (w', submitted))
          | (Inr _, w') \<Rightarrow> (Inr (),
              (w', dict_set (gn_local_id node) (durable_node_id (sd_run_id sd) (gn_ordinal node)) submitted))))"

text \<open>
  The closure of the targets under dependencies. A nested call always adds a node, so the depth
  of the recursion is bounded by the number of nodes; \<open>depth\<close> is that bound.
\<close>

fun visit_closure :: "nat \<Rightarrow> code_node dict \<Rightarrow> string list \<Rightarrow> string \<Rightarrow> py_error + string list" where
  "visit_closure depth nodes included node_id =
     (if node_id \<in> set included then Inr included
      else case depth of
        0 \<Rightarrow> Inl (RuntimeError ''maximum recursion depth exceeded'')
      | Suc d \<Rightarrow>
          bindE (need (map_of nodes node_id) (KeyError node_id)) (\<lambda>node.
          foldE (visit_closure d nodes) (included @ [node_id]) (cn_dependencies node)))"

declare visit_closure.simps [simp del]

definition closure :: "session_state \<Rightarrow> string list \<Rightarrow> py_error + string list" where
  "closure s targets = foldE (visit_closure (length (st_code_nodes s)) (st_code_nodes s)) [] targets"

subsection \<open>Waves\<close>

definition success :: "tool_status set" where
  "success = {Succeeded, UserConfirmedSuccess}"

text \<open>The path of a prepared write.\<close>

definition mutation_path :: "'u staged_call \<Rightarrow> string option" where
  "mutation_path staged = (case sg_prepared staged of
     Some (PreparedFile p _) \<Rightarrow> Some (pf_canonical_path p) | _ \<Rightarrow> None)"

fun split_wave :: "string set \<Rightarrow> 'u staged_call list \<Rightarrow> 'u staged_call list \<times> 'u staged_call list" where
  "split_wave mutation_paths [] = ([], [])"
| "split_wave mutation_paths (item # items) =
     (case mutation_path item of
        Some path \<Rightarrow>
          if path \<in> mutation_paths
          then (let (wave, deferred) = split_wave mutation_paths items in (wave, item # deferred))
          else (let (wave, deferred) = split_wave (insert path mutation_paths) items in (item # wave, deferred))
      | None \<Rightarrow> (let (wave, deferred) = split_wave mutation_paths items in (item # wave, deferred)))"

definition next_execution_wave :: "'u staged_call list \<Rightarrow> 'u staged_call list \<times> 'u staged_call list" where
  "next_execution_wave staged = split_wave {} staged"

definition is_set :: "('a, 'u) scheduler \<Rightarrow> (('a, 'u) world, bool) io" where
  "is_set sd = (\<lambda>w. let (b, u) = sd_cancelled sd (w_outside w) in (Inr b, w\<lparr>w_outside := u\<rparr>))"

definition call_of :: "string \<Rightarrow> (('a, 'u) world, tool_call) io" where
  "call_of key = (\<lambda>w. (need (map_of (st_tool_calls (w_state w)) key) (KeyError key), w))"

definition finish_not_executed :: "('a, 'u) scheduler \<Rightarrow> string \<Rightarrow> (('a, 'u) world, unit) io" where
  "finish_not_executed sd key =
     bind_io (call_of key) (\<lambda>c.
     bind_io (finish_unstarted (sd_executor sd) c NotExecuted
       ''node was not started because the code run was cancelled'' []) (\<lambda>_. ret ()))"

definition cancelled_result :: "tool_call \<Rightarrow> py_error + tool_result" where
  "cancelled_result c = bounded (tc_name c @ '' cancelled'')
     ''tool body was not dispatched because the code run was cancelled'' (tool_status_value Cancelled) []
     default_max_output_bytes default_max_output_lines"

text \<open>The inner loop: starts are admitted while there is room, until the run is cancelled.\<close>

fun fill ::
  "('a, 'u) scheduler \<Rightarrow> 'u staged_call list \<Rightarrow> 'u staged_call list \<Rightarrow>
   (('a, 'u) world, 'u staged_call list \<times> 'u staged_call list) io" where
  "fill sd in_flight [] = ret (in_flight, [])"
| "fill sd in_flight (item # items) =
     (if \<not> length in_flight < sd_max_parallel sd then ret (in_flight, item # items)
      else
        bind_io (start_staged (sd_executor sd) item) (\<lambda>_.
        bind_io (is_set sd) (\<lambda>cancelled.
        if cancelled then
          bind_io (lift_io (cancelled_result (sg_call item))) (\<lambda>r.
          bind_io (commit_staged (sd_executor sd) item r) (\<lambda>_. ret (in_flight, items)))
        else fill sd (in_flight @ [item]) items)))"

definition settle :: "('a, 'u) scheduler \<Rightarrow> 'u staged_call \<Rightarrow> (('a, 'u) world, unit) io" where
  "settle sd item =
     bind_io (dispatch_staged (sd_program sd) (sd_executor sd) item) (\<lambda>r.
     commit_staged (sd_executor sd) item r)"

definition wait_any ::
  "('a, 'u) scheduler \<Rightarrow> 'u staged_call list \<Rightarrow> (('a, 'u) world, 'u staged_call list \<times> 'u staged_call list) io" where
  "wait_any sd in_flight = (\<lambda>w.
     let (r, u) = sd_wait sd (length in_flight) (w_outside w) in
     (case r of Inl e \<Rightarrow> Inl e
      | Inr finished \<Rightarrow> Inr (nths in_flight (set finished), nths in_flight (- set finished)),
      w\<lparr>w_outside := u\<rparr>))"

datatype loop_end = Completed | NoProgress | OutOfFuel

definition after :: "('w, loop_end) io \<Rightarrow> ('w, loop_end) io \<Rightarrow> ('w, loop_end) io" where
  "after m k = bind_io m (\<lambda>x. if x = Completed then k else ret x)"

text \<open>The loop of \<open>_execute_staged_wave\<close>; a wait may time out, so it has fuel.\<close>

fun execute_staged_wave ::
  "('a, 'u) scheduler \<Rightarrow> nat \<Rightarrow> 'u staged_call list \<Rightarrow> 'u staged_call list \<Rightarrow> (('a, 'u) world, loop_end) io" where
  "execute_staged_wave sd fuel in_flight remaining =
     (if remaining = [] \<and> in_flight = [] then ret Completed
      else case fuel of 0 \<Rightarrow> ret OutOfFuel | Suc n \<Rightarrow>
        bind_io (fill sd in_flight remaining) (\<lambda>(in_flight, remaining).
        if in_flight = [] then
          bind_io (for_each (\<lambda>item. finish_not_executed sd (tc_call_key (sg_call item))) remaining) (\<lambda>_.
          ret Completed)
        else
          bind_io (handle (wait_any sd in_flight) (\<lambda>e.
            if e = KeyboardInterrupt then Some (
              bind_io (for_each (settle sd) in_flight) (\<lambda>_. throw KeyboardInterrupt))
            else None)) (\<lambda>(finished, in_flight).
          bind_io (for_each (settle sd) finished) (\<lambda>_.
          execute_staged_wave sd n in_flight remaining))))"

declare execute_staged_wave.simps [simp del]

lemma split_wave_length:
  "split_wave ps items = (wave, deferred) \<Longrightarrow> length wave + length deferred = length items"
  by (induction ps items arbitrary: wave deferred rule: split_wave.induct)
     (auto split: option.splits if_splits prod.splits)

lemma first_in_wave: "next_execution_wave (item # items) = (wave, deferred) \<Longrightarrow> length deferred < length (item # items)"
  using split_wave_length [of _ items]
  by (auto simp: next_execution_wave_def less_Suc_eq_le split: option.splits prod.splits) (metis le_add2)+

text \<open>The waves of the staged nodes, one after another.\<close>

function run_waves ::
  "('a, 'u) scheduler \<Rightarrow> nat \<Rightarrow> 'u staged_call list \<Rightarrow> (('a, 'u) world, loop_end) io" where
  "run_waves sd fuel [] = ret Completed"
| "run_waves sd fuel (item # items) =
     bind_io (is_set sd) (\<lambda>cancelled.
     if cancelled then
       bind_io (for_each (\<lambda>i. finish_not_executed sd (tc_call_key (sg_call i))) (item # items)) (\<lambda>_.
       ret Completed)
     else
       case next_execution_wave (item # items) of (wave, deferred) \<Rightarrow>
         after (execute_staged_wave sd fuel [] wave) (run_waves sd fuel deferred))"
  by pat_completeness auto
termination
  by (relation "measure (\<lambda>(sd, fuel, staged). length staged)") (auto dest!: sym first_in_wave)

declare run_waves.simps [simp del]

text \<open>\<open>_execute_ready\<close>: prepare the ready nodes in order, then run the waves.\<close>

fun local_of :: "string dict \<Rightarrow> string \<Rightarrow> py_error + string" where
  "local_of [] durable = Inl (KeyError durable)"
| "local_of ((local_id, candidate) # rest) durable =
     (if candidate = durable then Inr local_id else local_of rest durable)"

fun stage_nodes ::
  "('a, 'u) scheduler \<Rightarrow> string dict \<Rightarrow> code_node list \<Rightarrow> (('a, 'u) world, 'u staged_call list) io" where
  "stage_nodes sd submitted [] = ret []"
| "stage_nodes sd submitted (node # nodes) =
     bind_io (is_set sd) (\<lambda>cancelled.
     if cancelled then
       bind_io (finish_not_executed sd (cn_node_id node)) (\<lambda>_. stage_nodes sd submitted nodes)
     else
       bind_io (call_of (cn_node_id node)) (\<lambda>c.
       bind_io (prepare_staged (sd_escape sd) (sd_executor sd) (from_tool_call c)) (\<lambda>p.
       case p of
         Inl r \<Rightarrow> stage_nodes sd submitted nodes
       | Inr staged \<Rightarrow>
           bind_io (lift_io (local_of submitted (cn_node_id node))) (\<lambda>_.
           bind_io (stage_nodes sd submitted nodes) (\<lambda>rest. ret (staged # rest))))))"

definition execute_ready ::
  "('a, 'u) scheduler \<Rightarrow> nat \<Rightarrow> string dict \<Rightarrow> code_node list \<Rightarrow> (('a, 'u) world, loop_end) io" where
  "execute_ready sd fuel submitted nodes =
     bind_io (stage_nodes sd submitted nodes) (\<lambda>staged. run_waves sd fuel staged)"

subsection \<open>The closure of the targets\<close>

definition nodes_of :: "session_state \<Rightarrow> string list \<Rightarrow> py_error + code_node list" where
  "nodes_of s ids = mapE (\<lambda>i. need (map_of (st_code_nodes s) i) (KeyError i)) ids"

definition planned_nodes :: "string list \<Rightarrow> session_state \<Rightarrow> py_error + code_node list" where
  "planned_nodes relevant s =
     bindE (nodes_of s relevant) (\<lambda>nodes.
     Inr (sort_key cn_ordinal (filter (\<lambda>n. cn_status n = NPlanned) nodes)))"

text \<open>The settled dependencies that did not succeed, and the failures they go back to.\<close>

definition blockers_of :: "session_state \<Rightarrow> code_node \<Rightarrow> py_error + string list" where
  "blockers_of s node =
     bindE (mapE (\<lambda>d. need (map_of (st_tool_calls s) d) (KeyError d)) (cn_dependencies node)) (\<lambda>calls.
     Inr (map fst (filter (\<lambda>(d, c). tc_status c \<notin> success \<and> is_terminal c) (zip (cn_dependencies node) calls))))"

definition roots_of :: "session_state \<Rightarrow> string list \<Rightarrow> py_error + string list" where
  "roots_of s blockers =
     bindE (nodes_of s blockers) (\<lambda>sources.
     Inr (uniq (concat (map (\<lambda>(b, source). if cn_root_failures source = [] then [b] else cn_root_failures source)
       (zip blockers sources)))))"

fun close_blocked ::
  "('a, 'u) scheduler \<Rightarrow> code_node list \<Rightarrow> (('a, 'u) world, bool) io" where
  "close_blocked sd [] = ret False"
| "close_blocked sd (node # nodes) =
     bind_io (\<lambda>w. (blockers_of (w_state w) node, w)) (\<lambda>blockers.
     if blockers = [] then close_blocked sd nodes
     else
       bind_io (\<lambda>w. (roots_of (w_state w) blockers, w)) (\<lambda>roots.
       bind_io (call_of (cn_node_id node)) (\<lambda>c.
       bind_io (finish_unstarted (sd_executor sd) c UpstreamFailed
         ''node was not executed because a dependency failed''
         [(''blocked_by'', PList (map PStr blockers)), (''root_failures'', PList (map PStr roots))]) (\<lambda>_.
       bind_io (close_blocked sd nodes) (\<lambda>_. ret True)))))"

definition ready_nodes :: "string list \<Rightarrow> session_state \<Rightarrow> py_error + code_node list" where
  "ready_nodes relevant s =
     bindE (planned_nodes relevant s) (\<lambda>planned.
     bindE (mapE (\<lambda>n. bindE (mapE (\<lambda>d. need (map_of (st_tool_calls s) d) (KeyError d)) (cn_dependencies n))
       (\<lambda>calls. Inr (n, list_all (\<lambda>c. tc_status c \<in> success) calls))) planned) (\<lambda>marked.
     Inr (map fst (filter snd marked))))"

text \<open>The loop of \<open>_execute_closure\<close>; every round with progress closes a node, so fuel is the nodes.\<close>

fun execute_closure ::
  "('a, 'u) scheduler \<Rightarrow> nat \<Rightarrow> nat \<Rightarrow> string dict \<Rightarrow> string list \<Rightarrow> (('a, 'u) world, loop_end) io" where
  "execute_closure sd patience rounds submitted relevant =
     bind_io (\<lambda>w. (planned_nodes relevant (w_state w), w)) (\<lambda>pending.
     if pending = [] then ret Completed
     else case rounds of 0 \<Rightarrow> ret OutOfFuel | Suc n \<Rightarrow>
       bind_io (close_blocked sd pending) (\<lambda>progress.
       bind_io (is_set sd) (\<lambda>cancelled.
       if cancelled then
         bind_io (\<lambda>w. (planned_nodes relevant (w_state w), w)) (\<lambda>remaining.
         bind_io (for_each (\<lambda>node. finish_not_executed sd (cn_node_id node)) remaining) (\<lambda>_. ret Completed))
       else
         bind_io (\<lambda>w. (ready_nodes relevant (w_state w), w)) (\<lambda>ready.
         if ready \<noteq> [] then
           after (execute_ready sd patience submitted ready) (execute_closure sd patience n submitted relevant)
         else if progress then execute_closure sd patience n submitted relevant
         else ret NoProgress))))"

declare execute_closure.simps [simp del]

subsection \<open>execute_graph\<close>

text \<open>What the worker is told about a node. \<open>str.upper\<close> acts on the ASCII status names.\<close>

definition upper_char :: "char \<Rightarrow> char" where
  "upper_char c = (if 97 \<le> (of_char c :: nat) \<and> (of_char c :: nat) \<le> 122 then char_of ((of_char c :: nat) - 32) else c)"

definition outcome_of :: "tool_call \<Rightarrow> code_node \<Rightarrow> pyval" where
  "outcome_of c node =
     (if tc_status c \<in> success then PDict
        [(''ok'', PBool True), (''value'', PDict
          [(''status'', PStr (tool_status_value (tc_status c))),
           (''output'', PStr (case tc_result c of None \<Rightarrow> [] | Some r \<Rightarrow> r)),
           (''exit_code'', opt_int (tc_exit_code c)), (''truncated'', PBool (tc_truncated c)),
           (''metadata'', thaw_json (tc_result_metadata c))])]
      else PDict
        [(''ok'', PBool False), (''error'', PDict
          ([(''status'', PStr (tool_status_value (tc_status c))),
            (''code'', PStr (if tc_status c = Conflict then ''FILE_STALE_VERSION''
              else map upper_char (tool_status_value (tc_status c)))),
            (''message'', PStr (case tc_result c of None \<Rightarrow> ''tool call failed''
              | Some r \<Rightarrow> if r = [] then ''tool call failed'' else r))]
           @ (if cn_blocked_by node = [] then [] else [(''blocked_by'', PList (map PStr (cn_blocked_by node)))])
           @ (if cn_root_failures node = [] then []
              else [(''root_failures'', PList (map PStr (cn_root_failures node)))])))])"

definition graph_results :: "session_state \<Rightarrow> string dict \<Rightarrow> string list \<Rightarrow> py_error + pyval" where
  "graph_results s submitted relevant =
     bindE (mapE (\<lambda>(local_id, durable).
       bindE (need (map_of (st_tool_calls s) durable) (KeyError durable)) (\<lambda>c.
       bindE (need (map_of (st_code_nodes s) durable) (KeyError durable)) (\<lambda>n.
       Inr (local_id, outcome_of c n))))
       (filter (\<lambda>(local_id, durable). durable \<in> set relevant) submitted)) (\<lambda>results.
     Inr (PDict [(''results'', PDict results)]))"

text \<open>Everything \<open>execute_graph\<close> checks before it plans: the ordered batch and the targets.\<close>

definition admit_batch ::
  "('a, 'u) scheduler \<Rightarrow> mapping \<Rightarrow> ('a, 'u) gworld \<Rightarrow> py_error + graph_node list \<times> string list" where
  "admit_batch sd request = (\<lambda>(w, submitted).
     (case (get request ''nodes'', get request ''targets'') of
        (PList nodes, PList targets) \<Rightarrow>
          raise_if (length submitted + length nodes > sd_max_nodes sd)
            (ValueError ''code graph exceeds node limit'') (
          bindE (normalize_nodes submitted nodes) (\<lambda>normalized.
          bindE (topological submitted normalized) (\<lambda>ordered.
          bindE (validate_batch (sd_run_id sd) (w_state w) ordered) (\<lambda>_.
          bindE (validate_targets submitted normalized targets) (\<lambda>target_ids.
          Inr (ordered, target_ids))))))
      | _ \<Rightarrow> Inl (ValueError ''execute_graph requires nodes and targets arrays'')))"

definition run_closure ::
  "('a, 'u) scheduler \<Rightarrow> nat \<Rightarrow> string list \<Rightarrow> (('a, 'u) gworld, pyval option) io" where
  "run_closure sd patience target_ids = (\<lambda>(w, submitted).
     case bindE (mapE (durable_id submitted) target_ids) (\<lambda>ids. closure (w_state w) ids) of
       Inl e \<Rightarrow> (Inl e, (w, submitted))
     | Inr relevant \<Rightarrow>
         on_world (bind_io (execute_closure sd patience (length relevant) submitted relevant) (\<lambda>r.
           case r of
             Completed \<Rightarrow> bind_io (\<lambda>w. (graph_results (w_state w) submitted relevant, w)) (\<lambda>v. ret (Some v))
           | NoProgress \<Rightarrow> throw (RuntimeError ''code graph made no progress'')
           | OutOfFuel \<Rightarrow> ret None)) (w, submitted))"

text \<open>\<open>None\<close>: the fuel for the waits ran out.\<close>

definition execute_graph ::
  "('a, 'u) scheduler \<Rightarrow> nat \<Rightarrow> mapping \<Rightarrow> (('a, 'u) gworld, pyval option) io" where
  "execute_graph sd patience request =
     bind_io (\<lambda>g. (admit_batch sd request g, g)) (\<lambda>(ordered, target_ids).
     bind_io (for_each (plan sd) ordered) (\<lambda>_.
     run_closure sd patience target_ids))"

end
