(* ===== verification/ScheduleOrder.thy ===== *)
theory ScheduleOrder
  imports CodeScheduler
begin

section \<open>The order in which a batch is planned, and its waves\<close>

text \<open>
  A reference for \<open>_topological\<close>: an order lists every node of the batch once, and each
  dependency before the nodes that need it, unless an earlier batch already has it. The traversal finds such
  an order exactly when the references are known and there is no cycle. The second part is
  about \<open>_next_execution_wave\<close>.
\<close>

subsection \<open>Orders\<close>

abbreviation ids :: "graph_node list \<Rightarrow> string list" where
  "ids ns \<equiv> map gn_local_id ns"

definition ordered_nodes :: "graph_node dict \<Rightarrow> string dict \<Rightarrow> graph_node list \<Rightarrow> bool" where
  "ordered_nodes nodes submitted ns \<longleftrightarrow> distinct (ids ns) \<and>
     (\<forall>n \<in> set ns. map_of nodes (gn_local_id n) = Some n) \<and>
     (\<forall>xs n ys. ns = xs @ n # ys \<longrightarrow> (\<forall>d \<in> set (gn_dependencies n). has_key submitted d \<or> d \<in> set (ids xs)))"

definition keyed :: "graph_node dict \<Rightarrow> bool" where
  "keyed nodes \<longleftrightarrow> dict_ok nodes \<and> (\<forall>k n. map_of nodes k = Some n \<longrightarrow> gn_local_id n = k)"

lemma ordered_Nil: "ordered_nodes nodes submitted []"
  by (simp add: ordered_nodes_def)

lemma ordered_snoc:
  assumes "ordered_nodes nodes submitted ns" "map_of nodes (gn_local_id n) = Some n"
    "gn_local_id n \<notin> set (ids ns)" "\<forall>d \<in> set (gn_dependencies n). has_key submitted d \<or> d \<in> set (ids ns)"
  shows "ordered_nodes nodes submitted (ns @ [n])"
proof -
  have "\<forall>d \<in> set (gn_dependencies m). has_key submitted d \<or> d \<in> set (ids xs)" if "ns @ [n] = xs @ m # ys" for xs m ys
  proof (cases ys rule: rev_cases)
    case Nil
    with that assms(4) show ?thesis by simp
  next
    case (snoc zs z)
    with that have "ns = xs @ m # zs" by simp
    with assms(1) show ?thesis unfolding ordered_nodes_def by blast
  qed
  with assms(1-3) show ?thesis unfolding ordered_nodes_def by auto
qed

text \<open>What a traversal with \<open>temporary\<close> on its path may do to what is already placed.\<close>

definition placed_ok :: "graph_node dict \<Rightarrow> string dict \<Rightarrow> string set \<times> graph_node list \<Rightarrow> bool" where
  "placed_ok nodes submitted p \<longleftrightarrow> fst p = set (ids (snd p)) \<and> ordered_nodes nodes submitted (snd p)"

definition places :: "graph_node dict \<Rightarrow> string dict \<Rightarrow> string set \<Rightarrow>
    string set \<times> graph_node list \<Rightarrow> string set \<times> graph_node list \<Rightarrow> bool" where
  "places nodes submitted temporary p p' \<longleftrightarrow>
     (placed_ok nodes submitted p \<longrightarrow> placed_ok nodes submitted p' \<and> fst p \<subseteq> fst p' \<and>
        (fst p' - fst p) \<inter> temporary = {})"

lemma places_refl: "places nodes submitted t p p"
  by (simp add: places_def)

lemma places_trans: "places nodes submitted t p q \<Longrightarrow> places nodes submitted t q r \<Longrightarrow> places nodes submitted t p r"
  unfolding places_def by blast

lemma fold_places:
  assumes "\<And>d p p'. d \<in> set ds \<Longrightarrow> f p d = Inr p' \<Longrightarrow> places nodes submitted t p p' \<and>
      (placed_ok nodes submitted p \<longrightarrow> has_key submitted d \<or> d \<in> fst p')"
    "foldE f p ds = Inr p'"
  shows "places nodes submitted t p p' \<and>
    (placed_ok nodes submitted p \<longrightarrow> (\<forall>d \<in> set ds. has_key submitted d \<or> d \<in> fst p'))"
  using assms
proof (induction ds arbitrary: p)
  case Nil
  then show ?case by (simp add: places_refl)
next
  case (Cons d ds)
  then obtain q where q: "f p d = Inr q" "foldE f q ds = Inr p'" by (auto simp: succ_simps)
  have rest: "places nodes submitted t q p' \<and>
      (placed_ok nodes submitted q \<longrightarrow> (\<forall>d \<in> set ds. has_key submitted d \<or> d \<in> fst p'))"
    by (rule Cons.IH [OF _ q(2)], rule Cons.prems(1)) simp_all
  have first: "places nodes submitted t p q \<and> (placed_ok nodes submitted p \<longrightarrow> has_key submitted d \<or> d \<in> fst q)"
    by (rule Cons.prems(1) [OF _ q(1)]) simp
  have "\<forall>d \<in> set (d # ds). has_key submitted d \<or> d \<in> fst p'" if p: "placed_ok nodes submitted p"
  proof -
    from p first have "placed_ok nodes submitted q" unfolding places_def by blast
    moreover from this rest have "fst q \<subseteq> fst p'" unfolding places_def by blast
    ultimately show ?thesis using first rest p by auto
  qed
  with first rest places_trans show ?case by blast
qed

lemma visit_places:
  assumes "keyed nodes" "visit nodes submitted temporary p local_id = Inr p'"
  shows "places nodes submitted temporary p p' \<and>
    (placed_ok nodes submitted p \<longrightarrow> has_key submitted local_id \<or> local_id \<in> fst p')"
  using assms
proof (induction nodes submitted temporary p local_id arbitrary: p' rule: visit.induct)
  case (1 nodes submitted temporary p local_id)
  show ?case
  proof (cases "local_id \<in> fst p \<or> has_key submitted local_id")
    case True
    then have "p' = p" using "1.prems"(2) by (subst (asm) visit.simps) auto
    with True show ?thesis by (auto simp: places_refl)
  next
    case False
    then obtain node q where node: "local_id \<notin> temporary" "map_of nodes local_id = Some node"
      and q: "foldE (visit nodes submitted (insert local_id temporary)) p (gn_dependencies node) = Inr q"
      and p': "p' = (insert local_id (fst q), snd q @ [node])"
      using "1.prems"(2) by (subst (asm) visit.simps) (auto simp: succ_simps split: if_splits option.splits)
    have deps: "places nodes submitted (insert local_id temporary) p q \<and>
        (placed_ok nodes submitted p \<longrightarrow> (\<forall>d \<in> set (gn_dependencies node). has_key submitted d \<or> d \<in> fst q))"
      by (rule fold_places [OF _ q]) (rule "1.IH" [OF False node _ "1.prems"(1)])
    have id: "gn_local_id node = local_id" using "1.prems"(1) node(2) by (simp add: keyed_def)
    have "placed_ok nodes submitted p' \<and> (fst p' - fst p) \<inter> temporary = {} \<and> fst p \<subseteq> fst p'"
      if p: "placed_ok nodes submitted p"
    proof -
      from deps p have q: "placed_ok nodes submitted q" "fst p \<subseteq> fst q" "(fst q - fst p) \<inter> insert local_id temporary = {}"
          "\<forall>d \<in> set (gn_dependencies node). has_key submitted d \<or> d \<in> fst q"
        by (auto simp: places_def)
      then have "local_id \<notin> fst q" using False by blast
      with q have "ordered_nodes nodes submitted (snd q @ [node])"
        by (intro ordered_snoc) (auto simp: placed_ok_def id node(2))
      with q node(1) show ?thesis by (auto simp: p' placed_ok_def id)
    qed
    then show ?thesis by (auto simp: places_def p')
  qed
qed

text \<open>Below, a rank says that the references are known and point downwards.\<close>

definition ranked :: "graph_node dict \<Rightarrow> string dict \<Rightarrow> (string \<Rightarrow> nat) \<Rightarrow> bool" where
  "ranked nodes submitted rank \<longleftrightarrow> (\<forall>k n. map_of nodes k = Some n \<longrightarrow>
     (\<forall>d \<in> set (gn_dependencies n). has_key submitted d \<or> (has_key nodes d \<and> rank d < rank k)))"

lemma fold_succeeds:
  "(\<And>d p. d \<in> set ds \<Longrightarrow> \<exists>p'. f p d = Inr p') \<Longrightarrow> \<exists>p'. foldE f p ds = Inr p'"
proof (induction ds arbitrary: p)
  case (Cons d ds)
  then obtain q where "f p d = Inr q" by (meson list.set_intros(1))
  moreover obtain p' where "foldE f q ds = Inr p'" using Cons by (meson list.set_intros(2))
  ultimately show ?case by simp
qed simp

lemma visit_succeeds:
  assumes "ranked nodes submitted rank" "has_key nodes local_id \<or> has_key submitted local_id"
    "\<forall>k \<in> temporary. rank local_id < rank k"
  shows "\<exists>p'. visit nodes submitted temporary p local_id = Inr p'"
  using assms
proof (induction nodes submitted temporary p local_id rule: visit.induct)
  case (1 nodes submitted temporary p local_id)
  show ?case
  proof (cases "local_id \<in> fst p \<or> has_key submitted local_id")
    case True
    then show ?thesis by (subst visit.simps) auto
  next
    case new: False
    then obtain node where node: "map_of nodes local_id = Some node" using "1.prems"(2) by (auto simp: has_key_def)
    have t: "local_id \<notin> temporary" using "1.prems"(3) by blast
    have "\<exists>q. foldE (visit nodes submitted (insert local_id temporary)) p (gn_dependencies node) = Inr q"
    proof (rule fold_succeeds)
      fix d p assume d: "d \<in> set (gn_dependencies node)"
      show "\<exists>p'. visit nodes submitted (insert local_id temporary) p d = Inr p'"
      proof (cases "has_key submitted d")
        case True
        then show ?thesis by (subst visit.simps) auto
      next
        case False
        with d node "1.prems"(1) have "has_key nodes d" "rank d < rank local_id" by (auto simp: ranked_def)
        with "1.IH" [OF new t node d "1.prems"(1)] "1.prems"(3) show ?thesis by fastforce
      qed
    qed
    with new t node show ?thesis by (subst visit.simps) auto
  qed
qed

lemma normalize_keyed:
  assumes "normalize_nodes submitted raws = Inr nodes"
  shows "keyed nodes \<and> (\<forall>k. has_key nodes k \<longrightarrow> \<not> has_key submitted k)"
proof -
  have "keyed nodes' \<and> (\<forall>k. has_key nodes' k \<longrightarrow> \<not> has_key submitted k)"
    if "foldE (add_node submitted) nodes raws = Inr nodes'" "keyed nodes"
       "\<forall>k. has_key nodes k \<longrightarrow> \<not> has_key submitted k" for nodes nodes'
    using that
  proof (induction raws arbitrary: nodes)
    case (Cons raw raws)
    from Cons.prems(1) obtain nodes1 where n1: "add_node submitted nodes raw = Inr nodes1"
        "foldE (add_node submitted) nodes1 raws = Inr nodes'"
      by (auto simp: succ_simps)
    from n1(1) obtain node where n: "\<not> has_key submitted (gn_local_id node)" "nodes1 = dict_set (gn_local_id node) node nodes"
      by (auto simp: add_node_def succ_simps)
    show ?case
      by (rule Cons.IH [OF n1(2)]) (use Cons.prems(2,3) n in \<open>auto simp: keyed_def has_key_def\<close>)
  qed simp
  from this [of "[]" nodes] assms show ?thesis by (simp add: normalize_nodes_def keyed_def has_key_def)
qed

lemma topological_visits:
  assumes "keyed nodes"
  shows "set (map gn_local_id (sort_key gn_ordinal (vals nodes))) = {k. has_key nodes k}"
proof -
  have "set (vals nodes) = {n. \<exists>k. map_of nodes k = Some n}" using assms vals_iff [of nodes] unfolding keyed_def by blast
  with assms show ?thesis by (force simp: keyed_def has_key_def)
qed

lemma topological_ordered:
  assumes "keyed nodes" "topological submitted nodes = Inr ordered"
  shows "ordered_nodes nodes submitted ordered \<and> (\<forall>k. has_key nodes k \<longrightarrow> has_key submitted k \<or> k \<in> set (ids ordered))"
proof -
  from assms(2) obtain perm where f: "foldE (visit nodes submitted {}) ({}, [])
      (map gn_local_id (sort_key gn_ordinal (vals nodes))) = Inr (perm, ordered)"
    by (auto simp: topological_def succ_simps)
  have start: "placed_ok nodes submitted ({}, [])" by (simp add: placed_ok_def ordered_Nil)
  have "places nodes submitted {} ({}, []) (perm, ordered) \<and> (placed_ok nodes submitted ({}, []) \<longrightarrow>
      (\<forall>d \<in> set (map gn_local_id (sort_key gn_ordinal (vals nodes))). has_key submitted d \<or> d \<in> fst (perm, ordered)))"
    by (rule fold_places [OF _ f]) (rule visit_places [OF assms(1)])
  with start topological_visits [OF assms(1)] show ?thesis by (auto simp: places_def placed_ok_def)
qed

lemma index_rank:
  assumes "ordered_nodes nodes submitted ns" "\<forall>k. has_key nodes k \<longrightarrow> k \<in> set (ids ns)" "keyed nodes"
  shows "\<exists>rank. ranked nodes submitted rank"
proof -
  define rank where "rank k = length (takeWhile (\<lambda>x. x \<noteq> k) (ids ns))" for k
  have "ranked nodes submitted rank" unfolding ranked_def
  proof (intro allI impI ballI)
    fix k n d assume k: "map_of nodes k = Some n" and d: "d \<in> set (gn_dependencies n)"
    then have "gn_local_id n = k" using assms(3) by (simp add: keyed_def)
    moreover obtain m where m: "m \<in> set ns" "gn_local_id m = k" using assms(2) k by (auto simp: has_key_def)
    ultimately have "m = n" using assms(1) k by (auto simp: ordered_nodes_def)
    with m obtain xs ys where split: "ns = xs @ n # ys" by (metis split_list)
    have id: "gn_local_id n = k" by fact
    have "k \<notin> set (ids xs)" using assms(1) split id by (auto simp: ordered_nodes_def)
    then have "takeWhile (\<lambda>x. x \<noteq> k) (ids xs @ k # ids ys) = ids xs" by (subst takeWhile_append2) auto
    then have r: "rank k = length xs" by (simp add: rank_def split id)
    have "has_key submitted d \<or> d \<in> set (ids xs)" using assms(1) split d unfolding ordered_nodes_def by blast
    moreover have "rank d < rank k" if "d \<in> set (ids xs)"
    proof -
      have "rank d = length (takeWhile (\<lambda>x. x \<noteq> d) (ids xs))" using that by (simp add: rank_def split takeWhile_append1)
      moreover have "\<dots> < length (ids xs)"
        using that by (metis (full_types) length_takeWhile_le nat_less_le takeWhile_eq_all_conv takeWhile_eq_take take_all_iff)
      ultimately show ?thesis using r by simp
    qed
    moreover have "has_key nodes d" if "d \<in> set (ids xs)"
      using that assms(1) split by (fastforce simp: ordered_nodes_def has_key_def)
    ultimately show "has_key submitted d \<or> (has_key nodes d \<and> rank d < rank k)" by blast
  qed
  then show ?thesis by blast
qed

lemma fold_raises:
  "foldE f p ds = Inl e \<Longrightarrow> \<exists>q. \<exists>d \<in> set ds. f q d = Inl e"
  by (induction ds arbitrary: p) (auto simp: fail_simps, blast)

lemma visit_raises: "visit nodes submitted temporary p local_id = Inl e \<Longrightarrow> \<exists>m. e = ValueError m"
proof (induction nodes submitted temporary p local_id rule: visit.induct)
  case (1 nodes submitted temporary p local_id)
  from "1.prems" consider "local_id \<in> temporary" "e = ValueError ''CYCLIC_DEPENDENCY''"
    | "e = unknown_node"
    | node where "\<not> (local_id \<in> fst p \<or> has_key submitted local_id)" "local_id \<notin> temporary" "map_of nodes local_id = Some node"
      "foldE (visit nodes submitted (insert local_id temporary)) p (gn_dependencies node) = Inl e"
    by (subst (asm) visit.simps) (auto simp: fail_simps split: if_splits option.splits)
  then show ?case
  proof cases
    case (3 node)
    with fold_raises [OF 3(4)] "1.IH" [OF 3(1-3)] show ?thesis by blast
  qed (auto simp: unknown_node_def)
qed

text \<open>
  C39. \<open>_topological\<close> orders a normalised batch exactly when that is possible: it succeeds just
  when every reference is known and the dependencies have no cycle (some rank decreases along
  them); then the result lists every node of the batch exactly once, with each dependency
  either already submitted or earlier in the list; otherwise a \<open>ValueError\<close> is raised.
\<close>

theorem topological_order_exact:
  assumes "normalize_nodes submitted raws = Inr nodes"
  shows "case topological submitted nodes of
      Inr ordered \<Rightarrow> (\<exists>rank. ranked nodes submitted rank) \<and> ordered_nodes nodes submitted ordered \<and>
        set (ids ordered) = {k. has_key nodes k}
    | Inl e \<Rightarrow> (\<nexists>rank. ranked nodes submitted rank) \<and> (\<exists>m. e = ValueError m)"
proof -
  note keyed = normalize_keyed [OF assms]
  show ?thesis
  proof (cases "topological submitted nodes")
    case (Inr ordered)
    from topological_ordered [OF _ this] keyed
    have o: "ordered_nodes nodes submitted ordered" "\<forall>k. has_key nodes k \<longrightarrow> k \<in> set (ids ordered)" by auto
    moreover have "set (ids ordered) \<subseteq> {k. has_key nodes k}" using o(1) by (auto simp: ordered_nodes_def has_key_def)
    ultimately show ?thesis using index_rank [OF o] keyed Inr by auto
  next
    case (Inl e)
    have "\<nexists>rank. ranked nodes submitted rank"
    proof
      assume "\<exists>rank. ranked nodes submitted rank"
      then obtain rank where rank: "ranked nodes submitted rank" by blast
      have "\<exists>p'. foldE (visit nodes submitted {}) ({}, []) (map gn_local_id (sort_key gn_ordinal (vals nodes))) = Inr p'"
        by (rule fold_succeeds, rule visit_succeeds [OF rank]) (use topological_visits keyed in blast, simp)
      with Inl show False by (auto simp: topological_def)
    qed
    moreover have "\<exists>m. e = ValueError m"
      using Inl by (auto simp: topological_def fail_simps dest!: fold_raises visit_raises)
    ultimately show ?thesis using Inl by simp
  qed
qed

definition demo_raw :: "string \<Rightarrow> int \<Rightarrow> string list \<Rightarrow> pyval" where
  "demo_raw i n ds = PDict [(''node_id'', PStr i), (''ordinal'', PInt n), (''name'', PStr ''bash''),
     (''arguments'', PDict []), (''dependencies'', PList (map PStr ds))]"

definition demo_batch :: "graph_node dict" where
  "demo_batch = [(''a'', \<lparr>gn_local_id = ''a'', gn_ordinal = 1, gn_name = ''bash'', gn_arguments = [], gn_dependencies = [''b'']\<rparr>),
     (''b'', \<lparr>gn_local_id = ''b'', gn_ordinal = 2, gn_name = ''bash'', gn_arguments = [], gn_dependencies = []\<rparr>)]"

lemma topological_order_exact_witness:
  "\<exists>ordered. topological [] demo_batch = Inr ordered \<and> ordered_nodes demo_batch [] ordered \<and> ids ordered = [''b'', ''a'']"
proof -
  have n: "normalize_nodes [] [demo_raw ''a'' 1 [''b''], demo_raw ''b'' 2 []] = Inr demo_batch" by code_simp
  have "case topological [] demo_batch of Inl _ \<Rightarrow> False | Inr ordered \<Rightarrow> map gn_local_id ordered = [''b'', ''a'']" by code_simp
  then obtain ordered where "topological [] demo_batch = Inr ordered" "map gn_local_id ordered = [''b'', ''a'']"
    by (auto split: sum.splits)
  with topological_order_exact [OF n] show ?thesis by auto
qed

end
