(* ===== verification/GraphSteps.thy ===== *)
theory GraphSteps
  imports ReducerSteps ExecutorProps
begin

section \<open>How a code graph evolves\<close>

text \<open>
  Events never remove or rewire a planned node: its ordinal and its dependencies stay, and a new
  node comes after all others and depends only on earlier ones. So in every reachable state the
  order of planning is a topological order of the graph.
\<close>

definition graph_frame :: "session_state \<Rightarrow> session_state \<Rightarrow> bool" where
  "graph_frame s s' \<longleftrightarrow> map fst (st_code_nodes s') = map fst (st_code_nodes s) \<and>
     (\<forall>k x. map_of (st_code_nodes s) k = Some x \<longrightarrow> (\<exists>x'. map_of (st_code_nodes s') k = Some x' \<and>
        cn_dependencies x' = cn_dependencies x \<and> cn_ordinal x' = cn_ordinal x \<and> cn_node_id x' = cn_node_id x))"

definition graph_grows :: "session_state \<Rightarrow> session_state \<Rightarrow> bool" where
  "graph_grows s s' \<longleftrightarrow> (\<exists>k x. map_of (st_code_nodes s) k = None \<and> st_code_nodes s' = st_code_nodes s @ [(k, x)] \<and>
     set (cn_dependencies x) \<subseteq> fst ` set (st_code_nodes s))"

lemma graph_frame_refl: "st_code_nodes s' = st_code_nodes s \<Longrightarrow> graph_frame s s'"
  by (simp add: graph_frame_def)

lemma graph_frame_node:
  assumes "map_of (st_code_nodes s) k = Some x" "st_code_nodes s' = dict_set k x' (st_code_nodes s)"
    "cn_dependencies x' = cn_dependencies x" "cn_ordinal x' = cn_ordinal x" "cn_node_id x' = cn_node_id x"
  shows "graph_frame s s'"
  using assms by (auto simp: graph_frame_def map_fst_dict_set_old)

lemma graph_session_created: "apply_session_created s ev = Inr s' \<Longrightarrow> graph_frame s s'"
  by (auto simp: apply_session_created_def succ_simps intro: graph_frame_refl)

lemma graph_turn_started: "apply_turn_started s ev = Inr s' \<Longrightarrow> graph_frame s s'"
  by (auto simp: apply_turn_started_def succ_simps intro: graph_frame_refl)

lemma graph_turn_finished: "apply_turn_finished s ev = Inr s' \<Longrightarrow> graph_frame s s'"
  by (auto simp: apply_turn_finished_def succ_simps intro: graph_frame_refl)

lemma store_calls_nodes: "store_calls s cs = Inr s' \<Longrightarrow> st_code_nodes s' = st_code_nodes s"
  by (induction cs arbitrary: s) (force simp: succ_simps)+

lemma graph_assistant_accepted: "apply_assistant_accepted s ev = Inr s' \<Longrightarrow> graph_frame s s'"
  by (auto simp: apply_assistant_accepted_def succ_simps dest!: store_calls_nodes intro!: graph_frame_refl)

lemma graph_approval_decided: "apply_approval_decided s ev = Inr s' \<Longrightarrow> graph_frame s s'"
  by (auto simp: apply_approval_decided_def succ_simps Let_def intro!: graph_frame_refl)

lemma graph_session_approval_reset: "apply_session_approval_reset s ev = Inr s' \<Longrightarrow> graph_frame s s'"
  by (auto simp: apply_session_approval_reset_def succ_simps intro: graph_frame_refl)

lemma graph_tool_started: "apply_tool_started s ev = Inr s' \<Longrightarrow> graph_frame s s'"
  unfolding apply_tool_started_def Let_def succ_simps
  by (elim exE conjE, auto simp: succ_simps node_of_call_def split: if_splits)
     ((rule graph_frame_node, assumption, simp, simp, simp, simp) | (rule graph_frame_refl, simp))+

lemma graph_finish_node: "finish_node s c ev f = Inr s' \<Longrightarrow> graph_frame s s'"
  by (auto simp: finish_node_def succ_simps node_of_call_def split: if_splits)
     ((rule graph_frame_node, assumption, simp, simp, simp, simp) | (rule graph_frame_refl, simp))+

lemma graph_frame_cong:
  "graph_frame s t \<Longrightarrow> st_code_nodes s' = st_code_nodes s \<Longrightarrow> st_code_nodes t' = st_code_nodes t \<Longrightarrow> graph_frame s' t'"
  by (simp add: graph_frame_def)

lemma graph_tool_finished: "apply_tool_finished s ev = Inr s' \<Longrightarrow> graph_frame s s'"
  by (auto simp: apply_tool_finished_def succ_simps dest!: graph_finish_node
      elim!: graph_frame_cong)

lemma graph_code_run_started: "apply_code_run_started s ev = Inr s' \<Longrightarrow> graph_frame s s'"
  by (auto simp: apply_code_run_started_def succ_simps intro: graph_frame_refl)

lemma graph_code_run_finished: "apply_code_run_finished s ev = Inr s' \<Longrightarrow> graph_frame s s'"
  by (auto simp: apply_code_run_finished_def succ_simps intro: graph_frame_refl)

lemma graph_turn_recovery_intent: "apply_turn_recovery_intent s ev = Inr s' \<Longrightarrow> graph_frame s s'"
  unfolding apply_turn_recovery_intent_def Let_def succ_simps
  by (elim exE conjE) (simp add: succ_simps graph_frame_def split: if_splits del: insert_iff, safe, simp_all)

lemma graph_tool_reconciled: "apply_tool_reconciled s ev = Inr s' \<Longrightarrow> graph_frame s s'"
  unfolding apply_tool_reconciled_def Let_def succ_simps
  by (elim exE conjE, auto simp: succ_simps node_of_call_def split: if_splits)
     ((rule graph_frame_node, assumption, simp, simp, simp, simp) | (rule graph_frame_refl, simp))+

lemma graph_file_snapshot: "apply_file_snapshot s ev = Inr s' \<Longrightarrow> graph_frame s s'"
  by (drule file_snapshot_effect) (auto intro: graph_frame_refl)

lemma graph_compaction_checkpoint: "apply_compaction_checkpoint s ev = Inr s' \<Longrightarrow> graph_frame s s'"
  by (auto simp: apply_compaction_checkpoint_def succ_simps intro: graph_frame_refl)

lemma graph_file_mutation_planned: "apply_file_mutation_planned s ev = Inr s' \<Longrightarrow> graph_frame s s'"
  unfolding apply_file_mutation_planned_def succ_simps by (elim exE conjE) (auto intro: graph_frame_refl)

lemma graph_sampling_failed: "apply_sampling_failed s ev = Inr s' \<Longrightarrow> graph_frame s s'"
  by (auto simp: apply_sampling_failed_def succ_simps intro: graph_frame_refl)

lemma graph_undo_finished: "apply_undo_finished s ev = Inr s' \<Longrightarrow> graph_frame s s'"
  unfolding apply_undo_finished_def Let_def succ_simps
  by (elim exE conjE, drule sum.inject(2) [THEN iffD1], hypsubst, simp (no_asm) add: graph_frame_def)

lemma graph_plan_mode_set: "apply_plan_mode_set s ev = Inr s' \<Longrightarrow> graph_frame s s'"
  unfolding apply_plan_mode_set_def succ_simps
  by (elim exE conjE, drule sum.inject(2) [THEN iffD1], hypsubst, simp (no_asm) add: graph_frame_def)

lemma graph_code_node_planned: "apply_code_node_planned s ev = Inr s' \<Longrightarrow> graph_grows s s'"
  unfolding apply_code_node_planned_def Let_def succ_simps
  by (elim exE conjE) (auto simp: graph_grows_def has_key_def dict_set_new map_of_eq_None_iff split: option.splits dest: map_of_SomeD)

lemmas graph_all = graph_session_created graph_turn_started graph_turn_finished graph_assistant_accepted
  graph_approval_decided graph_session_approval_reset graph_tool_started graph_tool_finished
  graph_code_run_started graph_code_run_finished graph_turn_recovery_intent graph_tool_reconciled
  graph_compaction_checkpoint graph_file_snapshot graph_file_mutation_planned graph_sampling_failed
  graph_undo_finished graph_plan_mode_set

lemma apply_event_graph:
  assumes "apply_event s ev = Inr s'" shows "graph_frame s s' \<or> graph_grows s s'"
proof -
  from assms obtain h s1 where h: "map_of handlers (ev_type ev) = Some h" "h s ev = Inr s1"
    and s': "s' = record_event ev s1" by (rule apply_eventD)
  from handlersD [OF h(1)] have "h \<in> snd ` set handlers" by force
  then have "graph_frame s s1 \<or> graph_grows s s1"
    using h(2) unfolding handlers_def list.set image_insert snd_conv image_empty
    by (elim insertE emptyE) (simp_all add: graph_all graph_code_node_planned)
  then show ?thesis using s' by (simp add: graph_frame_def graph_grows_def)
qed

subsection \<open>The graph only points back\<close>

definition points_back :: "session_state \<Rightarrow> bool" where
  "points_back s \<longleftrightarrow> (\<forall>xs k ys x. map fst (st_code_nodes s) = xs @ k # ys \<longrightarrow>
     map_of (st_code_nodes s) k = Some x \<longrightarrow> set (cn_dependencies x) \<subseteq> set xs)"

lemma points_back_step:
  assumes p: "points_back s" and ok: "apply_event s ev = Inr s'" and wf: "wf_state s"
  shows "points_back s'"
  using apply_event_graph [OF ok]
proof
  assume f: "graph_frame s s'"
  show ?thesis unfolding points_back_def
  proof (intro allI impI)
    fix xs k ys x assume k: "map fst (st_code_nodes s') = xs @ k # ys" "map_of (st_code_nodes s') k = Some x"
    have keys: "map fst (st_code_nodes s) = xs @ k # ys" using f k(1) by (simp add: graph_frame_def)
    then have "k \<in> fst ` set (st_code_nodes s)" by (metis in_set_conv_decomp list.set_map)
    then obtain x0 where x0: "map_of (st_code_nodes s) k = Some x0" by (metis map_of_eq_None_iff not_None_eq)
    with f k(2) have "cn_dependencies x = cn_dependencies x0" unfolding graph_frame_def by fastforce
    with p keys x0 show "set (cn_dependencies x) \<subseteq> set xs" unfolding points_back_def by auto
  qed
next
  assume "graph_grows s s'"
  then obtain j y where g: "map_of (st_code_nodes s) j = None" "st_code_nodes s' = st_code_nodes s @ [(j, y)]"
      "set (cn_dependencies y) \<subseteq> fst ` set (st_code_nodes s)" by (auto simp: graph_grows_def)
  show ?thesis unfolding points_back_def
  proof (intro allI impI)
    fix xs k ys x assume k: "map fst (st_code_nodes s') = xs @ k # ys" "map_of (st_code_nodes s') k = Some x"
    show "set (cn_dependencies x) \<subseteq> set xs"
    proof (cases ys rule: rev_cases)
      case Nil
      with k(1) g(2) have j: "k = j" and xs: "xs = map fst (st_code_nodes s)" by auto
      with k(2) g(1,2) have "x = y" by (auto simp: map_add_def)
      with g(3) show ?thesis by (simp only: xs set_map)
    next
      case (snoc zs z)
      with k g have keys: "map fst (st_code_nodes s) = xs @ k # zs" by simp
      then have "map_of (st_code_nodes s) k \<noteq> None" by (simp add: map_of_eq_None_iff) (metis in_set_conv_decomp list.set_map)
      then have "map_of (st_code_nodes s) k = Some x" using k(2) g(2) by auto
      with p keys show ?thesis unfolding points_back_def by blast
    qed
  qed
qed

interpretation graph_points_back: event_machine apply_event "\<lambda>s. wf_state s \<and> points_back s"
  by unfold_locales (auto intro: points_back_step dest: reducer.keeps)

lemma replay_points_back: "replay es = Inr s \<Longrightarrow> points_back s"
proof -
  assume "replay es = Inr s"
  then have "foldE apply_event empty_state es = Inr s" by (auto simp: replay_def replay_from_def succ_simps)
  moreover have "wf_state empty_state" using replay_wf [of "[]"] by (simp add: replay_def replay_from_def)
  moreover have "points_back empty_state" by (simp add: points_back_def empty_state_def)
  ultimately show ?thesis using graph_points_back.run_keeps by blast
qed

subsection \<open>Worlds\<close>

text \<open>A step of the pipeline that keeps the nodes there are.\<close>

definition nodes_kept :: "session_state \<Rightarrow> session_state \<Rightarrow> bool" where
  "nodes_kept s s' \<longleftrightarrow> (\<forall>k x. map_of (st_code_nodes s) k = Some x \<longrightarrow> (\<exists>x'. map_of (st_code_nodes s') k = Some x' \<and>
     cn_dependencies x' = cn_dependencies x \<and> cn_ordinal x' = cn_ordinal x \<and> cn_node_id x' = cn_node_id x))"

lemma nodes_kept_refl [simp]: "nodes_kept s s"
  by (simp add: nodes_kept_def)

lemma nodes_kept_trans: "nodes_kept a b \<Longrightarrow> nodes_kept b c \<Longrightarrow> nodes_kept a c"
  unfolding nodes_kept_def by metis

lemma apply_event_nodes: "apply_event s ev = Inr s' \<Longrightarrow> nodes_kept s s'"
  by (drule apply_event_graph) (auto simp: graph_frame_def graph_grows_def nodes_kept_def)

definition graph_step :: "('a, 'u) world \<Rightarrow> ('a, 'u) world \<Rightarrow> bool" where
  "graph_step w w' \<longleftrightarrow> journal_step w w' \<and> (w_usable w' \<longrightarrow> nodes_kept (w_state w) (w_state w'))"

interpretation graph: pipeline_order "graph_step :: ('a, 'u) world \<Rightarrow> ('a, 'u) world \<Rightarrow> bool"
proof
  show "moves graph_step (append_and_reduce ex ty p)" for ex :: "('a, 'u) executor" and ty p
  proof (rule movesI)
    fix w :: "('a, 'u) world" and r w'
    assume run: "append_and_reduce ex ty p w = (r, w')"
    then have "nodes_kept (w_state w) (w_state w')" if "w_usable w'"
      using that by (cases rule: append_and_reduce_cases) (auto dest: apply_event_nodes)
    with movesD [OF append_and_reduce_journal run] show "graph_step w w'" by (simp add: graph_step_def)
  qed
next
  show "graph_step u w" if "graph_step u v" "graph_step v w" for u v w :: "('a, 'u) world"
  proof -
    have "w_usable w \<Longrightarrow> w_usable v" using that(2) by (simp add: graph_step_def journal_step_def)
    with that show ?thesis
      unfolding graph_step_def by (blast intro: journal_step_trans nodes_kept_trans)
  qed
qed (auto simp: graph_step_def intro: journal_step_refl same_journal)

end
