(* ===== verification/ExecutorFaults.thy ===== *)
theory ExecutorFaults
  imports ExecutorRun
begin

section \<open>When the executor becomes unusable\<close>

text \<open>
  The executor gives up only by raising \<open>ToolExecutorError\<close>: an operation that ends in any other
  way leaves it as usable as it was. The contract of an operation says so, and holds for every
  operation of the executor; it is closed under sequencing and under handlers that let the
  error through.
\<close>

definition faultless :: "(('a, 'u) world, 'b) io \<Rightarrow> bool" where
  "faultless m \<longleftrightarrow> (\<forall>w. w_usable (snd (m w)) = w_usable w \<or> (\<exists>msg. fst (m w) = Inl (ToolExecutorError msg)))"

lemma faultlessI:
  "(\<And>w r w'. m w = (r, w') \<Longrightarrow> w_usable w' = w_usable w \<or> (\<exists>msg. r = Inl (ToolExecutorError msg))) \<Longrightarrow> faultless m"
  unfolding faultless_def by (metis prod.collapse)

lemma faultlessD:
  "faultless m \<Longrightarrow> m w = (r, w') \<Longrightarrow> w_usable w' = w_usable w \<or> (\<exists>msg. r = Inl (ToolExecutorError msg))"
  unfolding faultless_def by (metis fst_conv snd_conv)

lemma faultless_Inr: "faultless m \<Longrightarrow> m w = (Inr x, w') \<Longrightarrow> w_usable w' = w_usable w"
  by (drule faultlessD) auto

lemma faultless_pure: "faultless (ret x)" "faultless (throw e)" "faultless (lift_io m)" "faultless (asks f)"
    "faultless (\<lambda>w. (g w, w))"
  by (simp_all add: faultless_def)

lemma faultless_bind: "faultless m \<Longrightarrow> (\<And>x. faultless (f x)) \<Longrightarrow> faultless (bind_io m f)"
proof (rule faultlessI)
  fix w r w'
  assume m: "faultless m" and f: "\<And>x. faultless (f x)" and run: "bind_io m f w = (r, w')"
  obtain x w1 where x: "m w = (x, w1)" by (cases "m w") blast
  show "w_usable w' = w_usable w \<or> (\<exists>msg. r = Inl (ToolExecutorError msg))"
  proof (cases x)
    case (Inl e)
    then show ?thesis using run x faultlessD [OF m x] by (auto simp: bind_io_def)
  next
    case (Inr y)
    then have "f y w1 = (r, w')" using run x by (simp add: bind_io_def)
    then show ?thesis using faultlessD [OF f] faultless_Inr [OF m x [unfolded Inr]] by metis
  qed
qed

lemma faultless_handle:
  assumes m: "faultless m" and h: "\<And>e k. h e = Some k \<Longrightarrow> faultless k" "\<And>msg. h (ToolExecutorError msg) = None"
  shows "faultless (handle m h)"
proof (rule faultlessI)
  fix w r w'
  assume run: "handle m h w = (r, w')"
  obtain x w1 where x: "m w = (x, w1)" by (cases "m w") blast
  show "w_usable w' = w_usable w \<or> (\<exists>msg. r = Inl (ToolExecutorError msg))"
  proof (cases "\<exists>e k. x = Inl e \<and> h e = Some k")
    case True
    then obtain e k where e: "x = Inl e" "h e = Some k" by blast
    then have "k w1 = (r, w')" using run x by (simp add: handle_def)
    moreover have "w_usable w1 = w_usable w" using faultlessD [OF m x] e h(2) by auto
    ultimately show ?thesis using faultlessD [OF h(1) [OF e(2)]] by metis
  next
    case False
    then have "r = x \<and> w' = w1" using run x by (auto simp: handle_def split: sum.splits option.splits)
    then show ?thesis using faultlessD [OF m x] by simp
  qed
qed

lemma faultless_each: "(\<And>x. faultless (f x)) \<Longrightarrow> faultless (for_each f xs)"
  by (induction xs) (auto intro: faultless_pure faultless_bind)

lemma faultless_append: "faultless (append_and_reduce ex ty p)"
proof (rule faultlessI)
  fix w :: "('a, 'b) world" and r w'
  assume "append_and_reduce ex ty p w = (r, w')"
  then show "w_usable w' = w_usable w \<or> (\<exists>msg. r = Inl (ToolExecutorError msg))"
    by (cases rule: append_and_reduce_cases) simp_all
qed

lemmas faultless_basic = faultless_pure faultless_bind faultless_each faultless_append

lemma faultless_finish_requested: "faultless (finish_requested_error ex c st msg extra)"
  unfolding finish_requested_error_def by (intro faultless_basic)

lemma faultless_finish_unstarted: "faultless (finish_unstarted ex c st msg extra)"
  unfolding finish_unstarted_def by (rule faultless_finish_requested)

lemma faultless_finish_started: "faultless (finish_started ex c r)"
  unfolding finish_started_def by (auto intro!: faultless_basic)

lemma faultless_approval_decision_of: "faultless (approval_decision_of ex q)"
  by (rule faultlessI) (auto simp: approval_decision_of_def Let_def split: prod.splits sum.splits if_splits)

lemma faultless_stop: "faultless (stop ex c st msg)"
  unfolding stop_def by (intro faultless_basic faultless_finish_requested)

lemma faultless_decide: "faultless (decide ex a c q)"
  unfolding decide_def record_decision_def
  by (auto intro!: faultless_basic faultless_handle faultless_approval_decision_of faultless_finish_requested split: if_splits)

lemma faultless_approve: "faultless (approve escape ex a c spec p)"
  unfolding approve_def record_decision_def
  by (auto intro!: faultless_basic faultless_finish_requested faultless_stop faultless_decide
      split: option.split sum.split)

lemma faultless_authorize: "faultless (authorize escape ex a c spec p)"
  unfolding authorize_def by (auto intro!: faultless_basic faultless_stop faultless_approve split: option.split)

lemma faultless_record_write: "faultless (record_write ex c p)"
  unfolding record_write_def append_mutation_plan_def append_first_snapshot_def
  by (auto intro!: faultless_basic split: option.split prepared.split)

lemma faultless_prepare_call: "faultless (prepare_call ex c spec args)"
  unfolding prepare_call_def
  by (auto intro!: faultless_basic faultless_finish_requested split: option.split sum.split)

lemma faultless_prepare_staged: "faultless (prepare_staged escape ex a)"
  unfolding prepare_staged_def Let_def
  by (auto intro!: faultless_basic faultless_finish_requested faultless_prepare_call faultless_authorize
      faultless_record_write split: option.split sum.split py_error.split)

lemma faultless_start_staged: "faultless (start_staged ex staged)"
  unfolding start_staged_def by (rule faultless_append)

lemma faultless_commit_staged: "faultless (commit_staged ex staged r)"
  unfolding commit_staged_def
  by (auto intro!: faultless_basic faultless_handle faultless_finish_started split: if_splits)

text \<open>A code program must keep the contract for the dispatch of its call to keep it.\<close>

lemma faultless_dispatch_staged:
  assumes "\<And>c d s. faultless (program c d s)"
  shows "faultless (dispatch_staged program ex staged)"
proof (rule faultlessI)
  fix w r w'
  assume run: "dispatch_staged program ex staged w = (r, w')"
  show "w_usable w' = w_usable w \<or> (\<exists>msg. r = Inl (ToolExecutorError msg))"
  proof (cases "\<exists>d s. sg_prepared staged = Some (PreparedCode d s)")
    case True
    then obtain d s where p: "sg_prepared staged = Some (PreparedCode d s)" by blast
    obtain x w1 where x: "program (sg_call staged) d s w = (x, w1)" by fastforce
    with run p have "r = settle_body ex staged x" "w' = w1" by (auto simp: dispatch_staged_def)
    with faultlessD [OF assms x] show ?thesis by (auto simp: settle_body_def Let_def)
  next
    case False
    with run show ?thesis by (auto simp: dispatch_staged_def split: prod.splits option.splits prepared.splits)
  qed
qed

lemma faultless_execute:
  assumes "\<And>c d s. faultless (program c d s)"
  shows "faultless (execute escape program ex a)"
  unfolding execute_def
  by (auto intro!: faultless_basic faultless_prepare_staged faultless_start_staged faultless_dispatch_staged
      faultless_commit_staged assms split: sum.split)

subsection \<open>Good worlds\<close>

text \<open>A session in step with its log whose executor can go on.\<close>

definition good :: "('a, 'u) world \<Rightarrow> bool" where
  "good w \<longleftrightarrow> consistent w \<and> w_usable w"

lemma good_wf: "good w \<Longrightarrow> wf_state (w_state w)"
  by (auto simp: good_def consistent_def dest: replay_wf)

lemma good_step:
  assumes "moves journal_step m" "faultless m" "m w = (Inr x, w')" "good w"
  shows "good w' \<and> evolves (w_state w) (w_state w')"
  using movesD [OF assms(1,3)] faultless_Inr [OF assms(2,3)] assms(4) by (auto simp: good_def journal_step_def)

lemma faultless_prepare_parallel: "faultless (prepare_parallel ex a)"
  unfolding prepare_parallel_def by (auto intro!: faultless_basic)

lemma faultless_commit_parallel: "faultless (commit_parallel ex p r)"
  unfolding commit_parallel_def by (auto intro!: faultless_basic faultless_finish_started split: option.split)

end
