(* ===== verification/SchedulerRun.thy ===== *)
theory SchedulerRun
  imports ScheduleOrder GraphSteps ExecutorFaults
begin

section \<open>Running a graph closure\<close>

text \<open>
  What the loops of the scheduler do to the calls of the nodes. \<open>sound\<close> is the contract of every
  operation (a step of the journal that keeps the planned nodes, and gives up only with a
  \<open>ToolExecutorError\<close>); \<open>advances\<close> is what it means for an operation that returned. From these and
  what each loop settles follows that the whole loop ends with every node of the closure settled.
\<close>

definition advances :: "('a, 'u) world \<Rightarrow> ('a, 'u) world \<Rightarrow> bool" where
  "advances w w' \<longleftrightarrow> good w' \<and> evolves (w_state w) (w_state w') \<and> nodes_kept (w_state w) (w_state w')"

lemma advances_refl: "good w \<Longrightarrow> advances w w"
  by (simp add: advances_def)

lemma advances_trans: "advances u v \<Longrightarrow> advances v w \<Longrightarrow> advances u w"
  unfolding advances_def by (blast intro: evolves_trans nodes_kept_trans)

lemma good_points_back: "good w \<Longrightarrow> points_back (w_state w)"
  by (auto simp: good_def consistent_def dest: replay_points_back)

definition sound :: "(('a, 'u) world, 'b) io \<Rightarrow> bool" where
  "sound m \<longleftrightarrow> moves graph_step m \<and> faultless m"

lemma soundD: "sound m \<Longrightarrow> m w = (Inr x, w') \<Longrightarrow> good w \<Longrightarrow> advances w w'"
  unfolding sound_def good_def advances_def
  using movesD [of graph_step m w "Inr x" w'] faultless_Inr [of m w x w']
  by (auto simp: graph_step_def journal_step_def)

lemma sound_pure: "sound (ret x)" "sound (throw e)" "sound (lift_io m)" "sound (\<lambda>w. (g w, w))"
  by (simp_all add: sound_def faultless_pure graph.moves_ret graph.moves_pure)

lemma sound_bind: "sound m \<Longrightarrow> (\<And>x. sound (f x)) \<Longrightarrow> sound (bind_io m f)"
  by (simp add: sound_def faultless_bind graph.moves_bind)

lemma sound_handle:
  "sound m \<Longrightarrow> (\<And>e k. h e = Some k \<Longrightarrow> sound k) \<Longrightarrow> (\<And>msg. h (ToolExecutorError msg) = None) \<Longrightarrow> sound (handle m h)"
  unfolding sound_def by (blast intro: faultless_handle graph.moves_handle)

lemma sound_each: "(\<And>x. sound (f x)) \<Longrightarrow> sound (for_each f xs)"
  by (simp add: sound_def faultless_each graph.moves_each)

definition careful :: "('a, 'u) scheduler \<Rightarrow> bool" where
  "careful sd \<longleftrightarrow> (\<forall>c d s. sound (sd_program sd c d s))"

lemma sound_finish_unstarted: "sound (finish_unstarted ex c st msg extra)"
  by (simp add: sound_def faultless_finish_unstarted graph.moves_finish_unstarted)

lemma sound_prepare_staged: "sound (prepare_staged escape ex a)"
  by (simp add: sound_def faultless_prepare_staged graph.moves_prepare_staged)

lemma sound_start_staged: "sound (start_staged ex i)"
  by (simp add: sound_def faultless_start_staged graph.moves_start_staged)

lemma sound_commit_staged: "sound (commit_staged ex i r)"
  by (simp add: sound_def faultless_commit_staged graph.moves_commit_staged)

lemma sound_outside:
  assumes "\<And>w. \<exists>u. snd (m w) = w\<lparr>w_outside := u\<rparr>"
  shows "sound m"
proof -
  have u: "\<exists>u. w' = w\<lparr>w_outside := u\<rparr>" if "m w = (r, w')" for w r w' using assms [of w] that by simp
  have "moves graph_step m"
  proof (rule movesI)
    fix w r w' assume "m w = (r, w')"
    then obtain x where "w' = w\<lparr>w_outside := x\<rparr>" using u by blast
    then show "graph_step w w'" by (simp add: graph.outside)
  qed
  moreover have "faultless m"
  proof (rule faultlessI)
    fix w r w' assume "m w = (r, w')"
    then obtain x where "w' = w\<lparr>w_outside := x\<rparr>" using u by blast
    then show "w_usable w' = w_usable w \<or> (\<exists>msg. r = Inl (ToolExecutorError msg))" by simp
  qed
  ultimately show ?thesis by (simp add: sound_def)
qed

lemma sound_is_set: "sound (is_set sd)"
  by (rule sound_outside) (auto simp: is_set_def split: prod.splits)

lemma sound_wait_any: "sound (wait_any sd items)"
  by (rule sound_outside) (auto simp: wait_any_def split: prod.splits)

lemma sound_call_of: "sound (call_of k)"
  unfolding call_of_def by (rule sound_pure)

lemmas sound_rules = sound_pure sound_bind sound_each sound_finish_unstarted sound_prepare_staged sound_start_staged
  sound_commit_staged sound_is_set sound_wait_any sound_call_of

lemma sound_finish_not_executed: "sound (finish_not_executed sd k)"
  unfolding finish_not_executed_def by (intro sound_rules)

lemma sound_fill: "sound (fill sd items rest)"
  by (induction sd items rest rule: fill.induct) (auto intro!: sound_rules)

lemma sound_settle: "careful sd \<Longrightarrow> sound (settle sd i)"
  unfolding settle_def careful_def sound_def
  by (auto intro!: graph.moves_rules graph.moves_dispatch_staged graph.moves_commit_staged
      faultless_bind faultless_dispatch_staged faultless_commit_staged)

lemma sound_after: "sound m \<Longrightarrow> sound k \<Longrightarrow> sound (after m k)"
  unfolding after_def by (auto intro!: sound_rules)

definition collect :: "('a, 'u) scheduler \<Rightarrow> 'u staged_call list \<Rightarrow> (('a, 'u) world, 'u staged_call list \<times> 'u staged_call list) io" where
  "collect sd in_flight = handle (wait_any sd in_flight) (\<lambda>e.
     if e = KeyboardInterrupt then Some (
       bind_io (for_each (settle sd) in_flight) (\<lambda>_. throw KeyboardInterrupt))
     else None)"

lemma sound_collect: "careful sd \<Longrightarrow> sound (collect sd items)"
  unfolding collect_def by (auto intro!: sound_handle sound_rules sound_settle split: if_splits)

lemma wave_step:
  "execute_staged_wave sd fuel in_flight remaining =
     (if remaining = [] \<and> in_flight = [] then ret Completed
      else case fuel of 0 \<Rightarrow> ret OutOfFuel | Suc n \<Rightarrow>
        bind_io (fill sd in_flight remaining) (\<lambda>(in_flight, remaining).
        if in_flight = [] then
          bind_io (for_each (\<lambda>item. finish_not_executed sd (tc_call_key (sg_call item))) remaining) (\<lambda>_.
          ret Completed)
        else
          bind_io (collect sd in_flight) (\<lambda>(finished, in_flight).
          bind_io (for_each (settle sd) finished) (\<lambda>_.
          execute_staged_wave sd n in_flight remaining))))"
  unfolding collect_def by (rule execute_staged_wave.simps)

lemma sound_wave: "careful sd \<Longrightarrow> sound (execute_staged_wave sd fuel items rest)"
proof (induction fuel arbitrary: items rest)
  case 0
  then show ?case by (subst wave_step) (auto intro: sound_pure)
next
  case (Suc n)
  then show ?case
    by (subst wave_step) (auto intro!: sound_rules sound_fill sound_finish_not_executed sound_collect sound_settle)
qed

lemma sound_run_waves: "careful sd \<Longrightarrow> sound (run_waves sd fuel staged)"
  by (induction sd fuel staged rule: run_waves.induct)
     (auto simp: run_waves.simps intro!: sound_rules sound_finish_not_executed sound_after sound_wave split: prod.split)

lemma sound_stage_nodes: "sound (stage_nodes sd submitted nodes)"
  by (induction sd submitted nodes rule: stage_nodes.induct)
     (auto intro!: sound_rules sound_finish_not_executed split: sum.split)

lemma sound_execute_ready: "careful sd \<Longrightarrow> sound (execute_ready sd fuel submitted nodes)"
  unfolding execute_ready_def by (intro sound_bind sound_stage_nodes sound_run_waves)

lemma sound_close_blocked: "sound (close_blocked sd nodes)"
  by (induction sd nodes rule: close_blocked.induct) (auto intro!: sound_rules)

subsection \<open>What each loop settles\<close>

abbreviation key_of :: "'u staged_call \<Rightarrow> string" where
  "key_of i \<equiv> tc_call_key (sg_call i)"

lemma settled_stays: "settled k w \<Longrightarrow> advances w w' \<Longrightarrow> settled k w'"
proof -
  assume "settled k w" "advances w w'"
  then obtain c where c0: "map_of (st_tool_calls (w_state w)) k = Some c" "is_terminal c" by (auto simp: settled_def)
  with \<open>advances w w'\<close> obtain c' where c: "map_of (st_tool_calls (w_state w')) k = Some c'" "call_evolves c c'"
    unfolding advances_def evolves_def by blast
  from c(2) c0(2) have "is_terminal c'"
    by (cases "outcome_unknown_call c") (auto simp: call_evolves_def dest: user_resolved_settled)
  with c(1) show ?thesis by (auto simp: settled_def)
qed

lemma settled_all:
  assumes "\<And>x w w'. f x w = (Inr (), w') \<Longrightarrow> good w \<Longrightarrow> settled (k x) w'" "\<And>x. sound (f x)"
    "for_each f xs w = (Inr (), w')" "good w"
  shows "\<forall>x \<in> set xs. settled (k x) w'"
  using assms(3,4)
proof (induction xs arbitrary: w)
  case (Cons x xs)
  then obtain w1 where w1: "f x w = (Inr (), w1)" "for_each f xs w1 = (Inr (), w')" by (auto simp: io_run)
  have g: "advances w w1" by (rule soundD [OF assms(2) w1(1) Cons.prems(2)])
  then have "\<forall>x \<in> set xs. settled (k x) w'" using Cons.IH [OF w1(2)] by (simp add: advances_def)
  moreover have "advances w1 w'"
    by (rule soundD [OF sound_each [OF assms(2)] w1(2)]) (use g in \<open>simp add: advances_def\<close>)
  moreover have "settled (k x) w1" using assms(1) [OF w1(1) Cons.prems(2)] .
  ultimately show ?case using settled_stays by auto
qed simp

lemma call_of_key: "call_of k w = (Inr c, w1) \<Longrightarrow> good w \<Longrightarrow>
    w1 = w \<and> tc_call_key c = k \<and> map_of (st_tool_calls (w_state w)) k = Some c"
  by (auto simp: call_of_def need_Inr_iff dest!: good_wf simp: wf_state_def calls_wf_def)

lemma finish_unstarted_settles:
  assumes "finish_unstarted ex c st msg extra w = (Inr r, w')" "good w" "map_of extra ''call_key'' = None"
  shows "settled (tc_call_key c) w'"
proof -
  have keep: "map_of (fold (\<lambda>(k, v) d. dict_set k v d) extra d) ''call_key'' = map_of d ''call_key''" for d :: mapping
    using assms(3) by (induction extra arbitrary: d) (auto split: if_splits)
  have g: "good w'" using soundD [OF sound_finish_unstarted assms(1,2)] by (simp add: advances_def)
  from assms(1) obtain p where "append_and_reduce ex ''tool_finished'' p w = (Inr (), w')"
    "map_of p ''call_key'' = Some (PStr (tc_call_key c))"
    by (auto simp: finish_unstarted_def finish_requested_error_def io_run dict_update_def keep)
  then show ?thesis using finish_appended_settles assms(2) g by (auto simp: good_def)
qed

lemma finish_not_executed_settles:
  assumes "finish_not_executed sd k w = (Inr (), w')" "good w" shows "settled k w'"
proof -
  from assms(1) obtain c r w1 where "call_of k w = (Inr c, w1)"
      "finish_unstarted (sd_executor sd) c NotExecuted
       ''node was not started because the code run was cancelled'' [] w1 = (Inr r, w')"
    by (auto simp: finish_not_executed_def io_run)
  with call_of_key [OF this(1) assms(2)] finish_unstarted_settles assms(2) show ?thesis by fastforce
qed

lemma commit_settles:
  assumes "commit_staged ex i r w = (Inr (), w')" "good w" shows "settled (key_of i) w'"
  using commit_staged_settles [OF assms(1)] soundD [OF sound_commit_staged assms] assms(2)
  by (simp add: good_def advances_def)

lemma settle_settles:
  assumes "settle sd i w = (Inr (), w')" "good w" "careful sd" shows "settled (key_of i) w'"
proof -
  from assms(1) obtain r w1 where r: "dispatch_staged (sd_program sd) (sd_executor sd) i w = (Inr r, w1)"
      "commit_staged (sd_executor sd) i r w1 = (Inr (), w')"
    by (auto simp: settle_def io_run)
  have "sound (dispatch_staged (sd_program sd) (sd_executor sd) i)"
    using assms(3) by (auto simp: careful_def sound_def intro: graph.moves_dispatch_staged faultless_dispatch_staged)
  from soundD [OF this r(1) assms(2)] commit_settles [OF r(2)] show ?thesis by (simp add: advances_def)
qed

text \<open>
  The hypothesis on the futures: at most \<open>k\<close> waits in a row time out, whatever the polls of the
  cancellation event between them. (A wait that is interrupted ends the wave.)
\<close>

definition patient :: "nat \<Rightarrow> ('u \<Rightarrow> nat) \<Rightarrow> ('a, 'u) scheduler \<Rightarrow> bool" where
  "patient k rank sd \<longleftrightarrow> (\<forall>u. rank u \<le> k) \<and> (\<forall>u. rank (snd (sd_cancelled sd u)) \<le> rank u) \<and>
     (\<forall>n u. 0 < n \<longrightarrow> (case sd_wait sd n u of (Inl _, _) \<Rightarrow> True
        | (Inr finished, u') \<Rightarrow> (\<exists>i \<in> set finished. i < n) \<or> rank u' < rank u))"

lemma start_outside: "start_staged ex i w = (r, w') \<Longrightarrow> w_outside w' = w_outside w"
  unfolding start_staged_def by (cases rule: append_and_reduce_cases) auto

lemma is_set_rank: "is_set sd w = (Inr b, w') \<Longrightarrow> patient k rank sd \<Longrightarrow> rank (w_outside w') \<le> rank (w_outside w)"
  by (auto simp: is_set_def patient_def split: prod.splits dest: spec [of _ "w_outside w"])

lemma fill_settles:
  assumes "fill sd items rest w = (Inr (items', rest'), w')" "good w" "patient k rank sd"
  shows "(\<forall>i \<in> set (items @ rest). i \<in> set (items' @ rest') \<or> settled (key_of i) w') \<and>
    (length items' + length rest' = length items + length rest \<and> rank (w_outside w') \<le> rank (w_outside w) \<or>
     length items' + length rest' < length items + length rest)"
  using assms
proof (induction sd items rest arbitrary: w rule: fill.induct)
  case (1 sd items)
  then show ?case by auto
next
  case (2 sd items item more)
  show ?case
  proof (cases "length items < sd_max_parallel sd")
    case False
    with "2.prems" show ?thesis by auto
  next
    case room: True
    with "2.prems" obtain w1 w2 b where w1: "start_staged (sd_executor sd) item w = (Inr (), w1)"
      and w2: "is_set sd w1 = (Inr b, w2)"
      and r: "(if b then bind_io (lift_io (cancelled_result (sg_call item))) (\<lambda>r.
          bind_io (commit_staged (sd_executor sd) item r) (\<lambda>_. ret (items, more)))
        else fill sd (items @ [item]) more) w2 = (Inr (items', rest'), w')"
      by (auto simp: io_run)
    have g: "good w2"
      using soundD [OF sound_start_staged w1 "2.prems"(2)] soundD [OF sound_is_set w2] by (simp add: advances_def)
    show ?thesis
    proof (cases b)
      case True
      with r obtain x where "commit_staged (sd_executor sd) item x w2 = (Inr (), w')" "items' = items" "rest' = more"
        by (auto simp: io_run)
      with commit_settles [OF this(1) g] show ?thesis by auto
    next
      case False
      with r have "fill sd (items @ [item]) more w2 = (Inr (items', rest'), w')" by simp
      note rec = "2.IH" [OF _ False this g "2.prems"(3)]
      moreover have "rank (w_outside w2) \<le> rank (w_outside w)"
        using is_set_rank [OF w2 "2.prems"(3)] start_outside [OF w1] by simp
      ultimately show ?thesis using room by auto
    qed
  qed
qed

lemma length_nths_split: "length (nths xs A) + length (nths xs (- A)) = length xs"
proof -
  have "card {i. i < length xs \<and> i \<in> A} + card {i. i < length xs \<and> i \<in> - A} =
      card ({i. i < length xs \<and> i \<in> A} \<union> {i. i < length xs \<and> i \<in> - A})"
    by (rule card_Un_disjoint [symmetric]) auto
  also have "{i. i < length xs \<and> i \<in> A} \<union> {i. i < length xs \<and> i \<in> - A} = {..<length xs}" by auto
  finally show ?thesis by (simp add: length_nths)
qed

lemma collect_splits:
  assumes "collect sd items w = (Inr (finished, items'), w')" "patient k rank sd" "items \<noteq> []"
  shows "set items = set finished \<union> set items'"
    "length items' < length items \<or> length items' = length items \<and> finished = [] \<and> rank (w_outside w') < rank (w_outside w)"
proof -
  obtain r u where wait: "sd_wait sd (length items) (w_outside w) = (r, u)" by fastforce
  from assms(1) have "wait_any sd items w = (Inr (finished, items'), w')"
    by (auto simp: collect_def io_run split: if_splits)
  with wait obtain ns where ns: "r = Inr ns" "finished = nths items (set ns)" "items' = nths items (- set ns)"
      "w' = w\<lparr>w_outside := u\<rparr>"
    by (auto simp: wait_any_def split: sum.splits)
  have "x \<in> set finished \<union> set items'" if "x \<in> set items" for x
  proof -
    from that obtain i where "i < length items" "x = items ! i" by (auto simp: in_set_conv_nth)
    then show ?thesis unfolding ns(2,3) set_nths by blast
  qed
  moreover have "set finished \<union> set items' \<subseteq> set items"
    unfolding ns(2,3) by (blast dest: in_set_nthsD)
  ultimately show "set items = set finished \<union> set items'" by blast
  have len: "length finished + length items' = length items" unfolding ns(2,3) by (rule length_nths_split)
  have "(\<exists>i \<in> set ns. i < length items) \<or> rank u < rank (w_outside w)"
  proof -
    have "case sd_wait sd (length items) (w_outside w) of (Inl _, _) \<Rightarrow> True
        | (Inr finished, u') \<Rightarrow> (\<exists>i \<in> set finished. i < length items) \<or> rank u' < rank (w_outside w)"
      using assms(2,3) by (simp add: patient_def)
    then show ?thesis by (simp add: wait ns(1))
  qed
  moreover have "finished \<noteq> []" if "\<exists>i \<in> set ns. i < length items"
  proof -
    from that obtain i where "i \<in> set ns" "i < length items" by blast
    then have "items ! i \<in> set finished" unfolding ns(2) set_nths by blast
    then show ?thesis by force
  qed
  ultimately have "0 < length finished \<or> rank u < rank (w_outside w)" by auto
  with len show "length items' < length items \<or>
      length items' = length items \<and> finished = [] \<and> rank (w_outside w') < rank (w_outside w)"
    by (cases finished) (simp_all add: ns(4))
qed

lemma wave_settles:
  assumes "execute_staged_wave sd fuel items rest w = (Inr x, w')" "good w" "careful sd" "patient k rank sd"
    "(length items + length rest) * Suc k + rank (w_outside w) \<le> fuel + k"
  shows "x = Completed \<and> (\<forall>i \<in> set (items @ rest). settled (key_of i) w')"
  using assms(1,2,5)
proof (induction fuel arbitrary: items rest w)
  case 0
  then have "items = [] \<and> rest = []" by (cases "length items + length rest") auto
  with 0 show ?case by (subst (asm) wave_step) simp
next
  case (Suc n)
  show ?case
  proof (cases "rest = [] \<and> items = []")
    case True
    with Suc.prems(1) show ?thesis by (subst (asm) wave_step) simp
  next
    case False
    with Suc.prems(1) obtain items1 rest1 w1 where f: "fill sd items rest w = (Inr (items1, rest1), w1)"
      and r: "(if items1 = [] then
          bind_io (for_each (\<lambda>item. finish_not_executed sd (key_of item)) rest1) (\<lambda>_. ret Completed)
        else
          bind_io (collect sd items1) (\<lambda>(finished, in_flight).
          bind_io (for_each (settle sd) finished) (\<lambda>_.
          execute_staged_wave sd n in_flight rest1))) w1 = (Inr x, w')"
      by (subst (asm) wave_step) (auto simp: bind_io_Inr)
    have g1: "advances w w1" by (rule soundD [OF sound_fill f Suc.prems(2)])
    then have good1: "good w1" by (simp add: advances_def)
    note filled = fill_settles [OF f Suc.prems(2) assms(4)]
    show ?thesis
    proof (cases "items1 = []")
      case True
      with r have x: "x = Completed" and e: "for_each (\<lambda>item. finish_not_executed sd (key_of item)) rest1 w1 = (Inr (), w')"
        by (auto simp: bind_io_Inr)
      have "\<forall>i \<in> set rest1. settled (key_of i) w'"
        by (rule settled_all [OF finish_not_executed_settles sound_finish_not_executed e good1])
      moreover have "advances w1 w'" by (rule soundD [OF sound_each [OF sound_finish_not_executed] e good1])
      ultimately show ?thesis using x filled True settled_stays by fastforce
    next
      case False
      with r obtain finished items2 w2 w3 where c: "collect sd items1 w1 = (Inr (finished, items2), w2)"
        and e: "for_each (settle sd) finished w2 = (Inr (), w3)"
        and rec: "execute_staged_wave sd n items2 rest1 w3 = (Inr x, w')"
        by (auto simp: bind_io_Inr)
      have g2: "advances w1 w2" by (rule soundD [OF sound_collect [OF assms(3)] c good1])
      then have good2: "good w2" by (simp add: advances_def)
      have g3: "advances w2 w3" by (rule soundD [OF sound_each [OF sound_settle [OF assms(3)]] e good2])
      then have good3: "good w3" by (simp add: advances_def)
      have g4: "advances w3 w'" by (rule soundD [OF sound_wave [OF assms(3)] rec good3])
      note split = collect_splits [OF c assms(4) False]
      have fin: "\<forall>i \<in> set finished. settled (key_of i) w3"
        by (rule settled_all [OF settle_settles sound_settle e good2]) (auto intro: assms(3))
      have "(length items2 + length rest1) * Suc k + rank (w_outside w3) \<le> n + k"
      proof -
        have le: "rank (w_outside w3) \<le> k" using assms(4) by (simp add: patient_def)
        have "length items2 + length rest1 < length items + length rest \<or>
            length items2 + length rest1 = length items + length rest \<and> rank (w_outside w3) < rank (w_outside w)"
          using split(2) filled e by (auto simp: io_run)
        then show ?thesis
        proof
          assume "length items2 + length rest1 < length items + length rest"
          then have "Suc (length items2 + length rest1) * Suc k \<le> (length items + length rest) * Suc k"
            by (simp only: Suc_le_eq mult_le_mono1)
          then show ?thesis using Suc.prems(3) le by simp
        qed (use Suc.prems(3) in simp)
      qed
      from Suc.IH [OF rec good3 this] fin split(1) filled show ?thesis
        using settled_stays [OF _ g4] settled_stays [OF _ advances_trans [OF g2 advances_trans [OF g3 g4]]] by fastforce
    qed
  qed
qed

lemma split_wave_set: "split_wave ps items = (wave, deferred) \<Longrightarrow> set items = set wave \<union> set deferred"
  by (induction ps items arbitrary: wave deferred rule: split_wave.induct)
     (auto split: option.splits if_splits prod.splits)

lemma run_waves_settles:
  assumes "run_waves sd fuel staged w = (Inr x, w')" "good w" "careful sd" "patient k rank sd"
    "length staged * Suc k \<le> fuel"
  shows "x = Completed \<and> (\<forall>i \<in> set staged. settled (key_of i) w')"
  using assms
proof (induction sd fuel staged arbitrary: w rule: run_waves.induct)
  case (1 sd fuel)
  then show ?case by (simp add: run_waves.simps)
next
  case (2 sd fuel item items)
  let ?staged = "item # items"
  from "2.prems"(1) obtain b w1 where s: "is_set sd w = (Inr b, w1)"
    and r: "(if b then
       bind_io (for_each (\<lambda>i. finish_not_executed sd (key_of i)) ?staged) (\<lambda>_. ret Completed)
     else
       case next_execution_wave ?staged of (wave, deferred) \<Rightarrow>
         after (execute_staged_wave sd fuel [] wave) (run_waves sd fuel deferred)) w1 = (Inr x, w')"
    by (auto simp: run_waves.simps(2) bind_io_Inr simp del: for_each.simps)
  have good1: "good w1" using soundD [OF sound_is_set s "2.prems"(2)] by (simp add: advances_def)
  show ?case
  proof (cases b)
    case True
    with r have x: "x = Completed" and e: "for_each (\<lambda>i. finish_not_executed sd (key_of i)) ?staged w1 = (Inr (), w')"
      by (auto simp: bind_io_Inr simp del: for_each.simps)
    have "\<forall>i \<in> set ?staged. settled (key_of i) w'"
      by (rule settled_all [OF finish_not_executed_settles sound_finish_not_executed e good1])
    with x show ?thesis by blast
  next
    case False
    obtain wave deferred where sp: "next_execution_wave ?staged = (wave, deferred)" by fastforce
    with r False obtain y w2 where y: "execute_staged_wave sd fuel [] wave w1 = (Inr y, w2)"
      and r2: "(if y = Completed then run_waves sd fuel deferred else ret y) w2 = (Inr x, w')"
      by (auto simp: after_def bind_io_Inr)
    have lens: "length wave + length deferred = length ?staged"
      and sets: "set ?staged = set wave \<union> set deferred"
      using split_wave_length split_wave_set sp unfolding next_execution_wave_def by blast+
    have le: "length wave * Suc k \<le> fuel" "length deferred * Suc k \<le> fuel"
      using mult_le_mono1 [of "length wave" "length ?staged" "Suc k"]
        mult_le_mono1 [of "length deferred" "length ?staged" "Suc k"] lens "2.prems"(5) by linarith+
    have "rank (w_outside w1) \<le> k" using "2.prems"(4) by (simp add: patient_def)
    then have y2: "y = Completed" "\<forall>i \<in> set wave. settled (key_of i) w2"
      using wave_settles [OF y good1 "2.prems"(3,4)] le(1) by auto
    have good2: "good w2" using soundD [OF sound_wave [OF "2.prems"(3)] y good1] by (simp add: advances_def)
    from r2 y2(1) have rec: "run_waves sd fuel deferred w2 = (Inr x, w')" by simp
    have "x = Completed \<and> (\<forall>i \<in> set deferred. settled (key_of i) w')"
      using "2.IH" [OF False sp [symmetric] rec good2 "2.prems"(3,4) le(2)] .
    moreover have "advances w2 w'" by (rule soundD [OF sound_run_waves [OF "2.prems"(3)] rec good2])
    ultimately show ?thesis using y2(2) sets settled_stays by blast
  qed
qed

subsection \<open>Staging the ready nodes\<close>

lemma from_tool_call_key: "ac_call_key (from_tool_call c) = tc_call_key c"
  by (simp add: from_tool_call_def)

lemma prepare_settles_or_stages:
  assumes "prepare_staged escape ex (from_tool_call c) w = (Inr p, w')" "good w" "tc_call_key c = k"
  shows "case p of Inl _ \<Rightarrow> settled k w' | Inr staged \<Rightarrow> key_of staged = k"
proof -
  have key: "tc_call_key c' = k" if "require_accepted_identity (from_tool_call c) (w_state w) = Inr c'" for c'
    using identityD [OF that] good_wf [OF assms(2)] assms(3) by (auto simp: from_tool_call_key wf_state_def calls_wf_def)
  show ?thesis
  proof (cases p)
    case (Inl r)
    with assms(1) obtain c' st msg w1 where c': "require_accepted_identity (from_tool_call c) (w_state w) = Inr c'"
      and w1: "journal_step w w1" "finish_requested_error ex c' st msg [] w1 = (Inr r, w')"
      by (auto elim: prepare_staged_early)
    have "consistent w1" using w1(1) assms(2) by (simp add: journal_step_def good_def)
    moreover have "w_usable w'"
      using soundD [OF sound_prepare_staged assms(1,2)] by (simp add: advances_def good_def)
    ultimately show ?thesis using finish_requested_settles [OF w1(2)] key [OF c'] Inl by simp
  next
    case (Inr staged)
    with assms(1) show ?thesis by (auto elim!: prepare_staged_staged dest!: key)
  qed
qed

lemma stage_nodes_settles:
  assumes "stage_nodes sd submitted nodes w = (Inr staged, w')" "good w"
  shows "(\<forall>n \<in> set nodes. settled (cn_node_id n) w' \<or> cn_node_id n \<in> key_of ` set staged) \<and> length staged \<le> length nodes"
  using assms
proof (induction sd submitted nodes arbitrary: w staged rule: stage_nodes.induct)
  case (1 sd submitted)
  then show ?case by simp
next
  case (2 sd submitted node nodes)
  from "2.prems"(1) obtain b w1 where s: "is_set sd w = (Inr b, w1)" and r: "(if b then
       bind_io (finish_not_executed sd (cn_node_id node)) (\<lambda>_. stage_nodes sd submitted nodes)
     else
       bind_io (call_of (cn_node_id node)) (\<lambda>c.
       bind_io (prepare_staged (sd_escape sd) (sd_executor sd) (from_tool_call c)) (\<lambda>p.
       case p of
         Inl r \<Rightarrow> stage_nodes sd submitted nodes
       | Inr staged \<Rightarrow>
           bind_io (lift_io (local_of submitted (cn_node_id node))) (\<lambda>_.
           bind_io (stage_nodes sd submitted nodes) (\<lambda>rest. ret (staged # rest)))))) w1 = (Inr staged, w')"
    by (auto simp: bind_io_Inr)
  have good1: "good w1" using soundD [OF sound_is_set s "2.prems"(2)] by (simp add: advances_def)
  show ?case
  proof (cases b)
    case True
    with r obtain w2 where f: "finish_not_executed sd (cn_node_id node) w1 = (Inr (), w2)"
      and rec: "stage_nodes sd submitted nodes w2 = (Inr staged, w')" by (auto simp: bind_io_Inr)
    have good2: "good w2" using soundD [OF sound_finish_not_executed f good1] by (simp add: advances_def)
    have "settled (cn_node_id node) w'"
      using settled_stays [OF finish_not_executed_settles [OF f good1] soundD [OF sound_stage_nodes rec good2]] .
    with "2.IH"(1) [OF True rec good2] show ?thesis by auto
  next
    case False
    with r obtain c p w2 where c: "call_of (cn_node_id node) w1 = (Inr c, w1)"
      and p: "prepare_staged (sd_escape sd) (sd_executor sd) (from_tool_call c) w1 = (Inr p, w2)"
      and r2: "(case p of
         Inl r \<Rightarrow> stage_nodes sd submitted nodes
       | Inr staged \<Rightarrow>
           bind_io (lift_io (local_of submitted (cn_node_id node))) (\<lambda>_.
           bind_io (stage_nodes sd submitted nodes) (\<lambda>rest. ret (staged # rest)))) w2 = (Inr staged, w')"
      by (auto simp: bind_io_Inr call_of_def)
    have key: "tc_call_key c = cn_node_id node" using call_of_key [OF c good1] by simp
    have good2: "good w2" using soundD [OF sound_prepare_staged p good1] by (simp add: advances_def)
    note kind = prepare_settles_or_stages [OF p good1 key]
    show ?thesis
    proof (cases p)
      case (Inl x)
      with r2 have rec: "stage_nodes sd submitted nodes w2 = (Inr staged, w')" by simp
      have "settled (cn_node_id node) w'"
        using settled_stays [OF _ soundD [OF sound_stage_nodes rec good2]] kind Inl by simp
      with "2.IH"(2) [OF False rec good2] Inl show ?thesis by auto
    next
      case (Inr x)
      with r2 obtain rest where rec: "stage_nodes sd submitted nodes w2 = (Inr rest, w')" and st: "staged = x # rest"
        by (auto simp: bind_io_Inr)
      with "2.IH"(3) [OF False rec good2] Inr kind show ?thesis by auto
    qed
  qed
qed

lemma execute_ready_settles:
  assumes "execute_ready sd fuel submitted nodes w = (Inr x, w')" "good w" "careful sd" "patient k rank sd"
    "length nodes * Suc k \<le> fuel"
  shows "x = Completed \<and> (\<forall>n \<in> set nodes. settled (cn_node_id n) w')"
proof -
  from assms(1) obtain staged w1 where s: "stage_nodes sd submitted nodes w = (Inr staged, w1)"
    and r: "run_waves sd fuel staged w1 = (Inr x, w')" by (auto simp: execute_ready_def bind_io_Inr)
  have good1: "good w1" using soundD [OF sound_stage_nodes s assms(2)] by (simp add: advances_def)
  note st = stage_nodes_settles [OF s assms(2)]
  have "length staged * Suc k \<le> fuel"
    using mult_le_mono1 [of "length staged" "length nodes" "Suc k"] st assms(5) by linarith
  from run_waves_settles [OF r good1 assms(3,4) this] st
    settled_stays [OF _ soundD [OF sound_run_waves [OF assms(3)] r good1]]
  show ?thesis by fastforce
qed

subsection \<open>Closing the blocked nodes\<close>

lemma close_blocked_progress:
  assumes "close_blocked sd nodes w = (Inr b, w')" "good w"
  shows "if b then \<exists>n \<in> set nodes. settled (cn_node_id n) w'
    else w' = w \<and> (\<forall>n \<in> set nodes. blockers_of (w_state w) n = Inr [])"
  using assms
proof (induction sd nodes arbitrary: w b rule: close_blocked.induct)
  case (1 sd)
  then show ?case by simp
next
  case (2 sd node nodes)
  from "2.prems"(1) obtain blockers where b: "blockers_of (w_state w) node = Inr blockers"
    by (auto simp: bind_io_Inr)
  show ?case
  proof (cases "blockers = []")
    case True
    with "2.prems"(1) b have "close_blocked sd nodes w = (Inr b, w')" by (simp add: bind_io_def)
    with "2.IH"(1) [OF True this "2.prems"(2)] b True show ?thesis by auto
  next
    case False
    with "2.prems"(1) b obtain c r w1 extra rest where c: "call_of (cn_node_id node) w = (Inr c, w)"
      and f: "finish_unstarted (sd_executor sd) c UpstreamFailed
         ''node was not executed because a dependency failed'' extra w = (Inr r, w1)"
      and extra: "map_of extra ''call_key'' = None"
      and rec: "close_blocked sd nodes w1 = (Inr rest, w')" and "b = True"
      by (auto simp: bind_io_Inr call_of_def)
    have good1: "good w1" using soundD [OF sound_finish_unstarted f "2.prems"(2)] by (simp add: advances_def)
    have "settled (cn_node_id node) w1"
      using finish_unstarted_settles [OF f "2.prems"(2) extra] call_of_key [OF c "2.prems"(2)] by simp
    from settled_stays [OF this soundD [OF sound_close_blocked rec good1]] \<open>b = True\<close> show ?thesis by simp
  qed
qed

subsection \<open>Planned nodes\<close>

definition planned :: "session_state \<Rightarrow> string \<Rightarrow> bool" where
  "planned s k \<longleftrightarrow> (\<exists>x. map_of (st_code_nodes s) k = Some x \<and> cn_status x = NPlanned)"

lemma status_planned: "node_status_for st = NPlanned \<longleftrightarrow> st = Requested"
  by (cases st) (simp_all add: node_status_for_def node_status_of_tool_def code_node_status_of_def all_node_statuses_def)

lemma node_call:
  assumes "wf_state s" "map_of (st_code_nodes s) k = Some x"
  obtains c where "cn_node_id x = k" "map_of (st_tool_calls s) k = Some c" "cn_status x = NPlanned \<longleftrightarrow> tc_status c = Requested"
proof -
  from assms have "node_wf s k x" by (simp add: wf_state_def nodes_wf_def)
  then show thesis using that by (auto simp: node_wf_def status_planned)
qed

lemma never_replanned:
  assumes "advances w w'" "good w" "map_of (st_code_nodes (w_state w)) k = Some x" "planned (w_state w') k"
  shows "planned (w_state w) k"
proof -
  from good_wf [OF assms(2)] assms(3) obtain c where c: "map_of (st_tool_calls (w_state w)) k = Some c"
      "cn_status x = NPlanned \<longleftrightarrow> tc_status c = Requested" by (rule node_call)
  from assms(1) c(1) obtain c' where c': "map_of (st_tool_calls (w_state w')) k = Some c'" "call_evolves c c'"
    unfolding advances_def evolves_def by blast
  have "wf_state (w_state w')" using assms(1) by (auto simp: advances_def dest: good_wf)
  with assms(4) c'(1) have r: "tc_status c' = Requested"
    by (auto simp: planned_def elim: node_call)
  have "tc_status c = Requested"
  proof (rule ccontr)
    assume "tc_status c \<noteq> Requested"
    with c'(2) r show False
      by (cases "tc_status c") (auto simp: call_evolves_def is_terminal_def tool_terminal_def outcome_unknown_call_def user_resolved_def)
  qed
  then show ?thesis using c(2) assms(3) by (auto simp: planned_def)
qed

lemma settled_not_planned: "settled k w \<Longrightarrow> good w \<Longrightarrow> \<not> planned (w_state w) k"
  by (auto simp: planned_def settled_def is_terminal_def tool_terminal_def dest!: good_wf elim: node_call)

lemma nodes_of_all:
  assumes "nodes_of s ks = Inr ns"
  shows "length ns = length ks" "\<forall>i \<in> set ks. \<exists>x \<in> set ns. map_of (st_code_nodes s) i = Some x"
    "\<forall>x \<in> set ns. \<exists>i \<in> set ks. map_of (st_code_nodes s) i = Some x"
proof -
  from assms have l: "list_all2 (\<lambda>i x. map_of (st_code_nodes s) i = Some x) ks ns"
    by (simp add: nodes_of_def mapE_Inr_iff need_Inr_iff)
  then show "length ns = length ks" by (simp add: list_all2_lengthD)
  from l show "\<forall>i \<in> set ks. \<exists>x \<in> set ns. map_of (st_code_nodes s) i = Some x"
    "\<forall>x \<in> set ns. \<exists>i \<in> set ks. map_of (st_code_nodes s) i = Some x"
    by (induction ks ns rule: list_all2_induct) auto
qed

lemma planned_nodes_all:
  assumes "planned_nodes relevant s = Inr ns"
  shows "length ns \<le> length relevant" "\<forall>k \<in> set relevant. \<exists>x. map_of (st_code_nodes s) k = Some x"
    "x \<in> set ns \<longleftrightarrow> (\<exists>k \<in> set relevant. map_of (st_code_nodes s) k = Some x \<and> cn_status x = NPlanned)"
proof -
  from assms obtain all_nodes where n: "nodes_of s relevant = Inr all_nodes"
    and ns: "ns = sort_key cn_ordinal (filter (\<lambda>n. cn_status n = NPlanned) all_nodes)"
    by (auto simp: planned_nodes_def succ_simps)
  note a = nodes_of_all [OF n]
  show "length ns \<le> length relevant" using a(1) length_filter_le [of _ all_nodes] by (simp add: ns)
  show "\<forall>k \<in> set relevant. \<exists>x. map_of (st_code_nodes s) k = Some x" using a(2) by blast
  show "x \<in> set ns \<longleftrightarrow> (\<exists>k \<in> set relevant. map_of (st_code_nodes s) k = Some x \<and> cn_status x = NPlanned)"
    using a(2,3) by (force simp: ns)
qed

lemma no_planned: "planned_nodes relevant s = Inr [] \<Longrightarrow> k \<in> set relevant \<Longrightarrow> \<not> planned s k"
  using planned_nodes_all(3) [of relevant s "[]"] by (auto simp: planned_def)

lemma ready_nodes_all:
  assumes "ready_nodes relevant s = Inr rs"
  obtains ns where "planned_nodes relevant s = Inr ns" "length rs \<le> length ns" "set rs \<subseteq> set ns"
    "\<forall>n \<in> set ns. n \<notin> set rs \<longrightarrow>
       (\<exists>d \<in> set (cn_dependencies n). \<exists>c. map_of (st_tool_calls s) d = Some c \<and> tc_status c \<notin> success)"
proof -
  let ?mark = "\<lambda>n. bindE (mapE (\<lambda>d. need (map_of (st_tool_calls s) d) (KeyError d)) (cn_dependencies n))
       (\<lambda>calls. Inr (n, list_all (\<lambda>c. tc_status c \<in> success) calls))"
  from assms obtain ns marked where n: "planned_nodes relevant s = Inr ns" and m: "mapE ?mark ns = Inr marked"
    and rs: "rs = map fst (filter snd marked)"
    by (auto simp: ready_nodes_def succ_simps)
  from m have l: "list_all2 (\<lambda>n m. ?mark n = Inr m) ns marked" by (simp add: mapE_Inr_iff)
  have len: "length marked = length ns" using l by (simp add: list_all2_lengthD)
  have fst: "?mark n = Inr m \<Longrightarrow> fst m = n" for n m by (auto simp: succ_simps)
  have "map fst marked = ns" using l by (induction ns marked rule: list_all2_induct) (auto dest: fst)
  then have sub: "set rs \<subseteq> set ns" by (force simp: rs)
  show thesis
  proof (rule that [OF n _ sub])
    show "length rs \<le> length ns" using len length_filter_le [of snd marked] by (simp add: rs)
  next
    show "\<forall>n \<in> set ns. n \<notin> set rs \<longrightarrow>
       (\<exists>d \<in> set (cn_dependencies n). \<exists>c. map_of (st_tool_calls s) d = Some c \<and> tc_status c \<notin> success)"
    proof (intro ballI impI)
    fix n assume "n \<in> set ns" "n \<notin> set rs"
    from \<open>n \<in> set ns\<close> obtain i where i: "i < length ns" "n = ns ! i" by (auto simp: in_set_conv_nth)
    from i(1) len have "marked ! i \<in> set marked" by simp
    moreover have "?mark n = Inr (marked ! i)" unfolding i(2) by (rule list_all2_nthD [OF l i(1)])
    ultimately have mm: "marked ! i \<in> set marked" "?mark n = Inr (marked ! i)" .
    define m where "m = marked ! i"
    note mm = mm [folded m_def]
    from mm(2) obtain calls where calls: "mapE (\<lambda>d. need (map_of (st_tool_calls s) d) (KeyError d)) (cn_dependencies n) = Inr calls"
      "m = (n, list_all (\<lambda>c. tc_status c \<in> success) calls)" by (auto simp: succ_simps)
    with \<open>n \<notin> set rs\<close> mm(1) have "\<not> list_all (\<lambda>c. tc_status c \<in> success) calls" by (force simp: rs)
    then obtain j where j: "j < length calls" "tc_status (calls ! j) \<notin> success"
      by (auto simp: list_all_iff in_set_conv_nth)
    from calls(1) have "list_all2 (\<lambda>d c. map_of (st_tool_calls s) d = Some c) (cn_dependencies n) calls"
      by (simp add: mapE_Inr_iff need_Inr_iff)
    with j(1) have "cn_dependencies n ! j \<in> set (cn_dependencies n)"
      "map_of (st_tool_calls s) (cn_dependencies n ! j) = Some (calls ! j)" by (simp_all add: list_all2_conv_all_nth)
    with j(2) show "\<exists>d \<in> set (cn_dependencies n). \<exists>c. map_of (st_tool_calls s) d = Some c \<and> tc_status c \<notin> success"
      by blast
    qed
  qed
qed

lemma blockers_all:
  assumes "blockers_of s n = Inr []" "d \<in> set (cn_dependencies n)" "map_of (st_tool_calls s) d = Some c" "tc_status c \<notin> success"
  shows "\<not> is_terminal c"
proof
  assume t: "is_terminal c"
  from assms(1) obtain calls where calls: "list_all2 (\<lambda>d c. map_of (st_tool_calls s) d = Some c) (cn_dependencies n) calls"
    "filter (\<lambda>(d, c). tc_status c \<notin> success \<and> is_terminal c) (zip (cn_dependencies n) calls) = []"
    by (auto simp: blockers_of_def succ_simps mapE_Inr_iff need_Inr_iff)
  from assms(2) obtain i where i: "i < length (cn_dependencies n)" "cn_dependencies n ! i = d" by (auto simp: in_set_conv_nth)
  with calls(1) assms(3) have "i < length calls" "calls ! i = c" by (auto simp: list_all2_conv_all_nth)
  with i have "(d, c) \<in> set (zip (cn_dependencies n) calls)" by (auto simp: set_zip)
  with calls(2) assms(4) t show False by (auto simp: filter_empty_conv)
qed

subsection \<open>The loop over the closure\<close>

lemma fewer_planned:
  assumes "advances w w'" "good w" "\<forall>k \<in> set relevant. \<exists>x. map_of (st_code_nodes (w_state w)) k = Some x"
  shows "{k \<in> set relevant. planned (w_state w') k} \<subseteq> {k \<in> set relevant. planned (w_state w) k}"
  using never_replanned [OF assms(1,2)] assms(3) by blast

lemma fewer_planned_strict:
  assumes "advances w w'" "good w" "\<forall>k \<in> set relevant. \<exists>x. map_of (st_code_nodes (w_state w)) k = Some x"
    "n \<in> set relevant" "planned (w_state w) n" "settled n w'"
  shows "card {k \<in> set relevant. planned (w_state w') k} < card {k \<in> set relevant. planned (w_state w) k}"
proof (rule psubset_card_mono)
  have "\<not> planned (w_state w') n" using settled_not_planned assms(1,6) by (auto simp: advances_def)
  then show "{k \<in> set relevant. planned (w_state w') k} \<subset> {k \<in> set relevant. planned (w_state w) k}"
    using fewer_planned [OF assms(1-3)] assms(4,5) by blast
qed simp

text \<open>Without progress and without a ready node, some call of the closure was left executing.\<close>

lemma stuck:
  assumes "good w" "planned_nodes relevant (w_state w) = Inr ns" "ns \<noteq> []"
    "\<forall>n \<in> set ns. blockers_of (w_state w) n = Inr []"
    "\<forall>n \<in> set ns. \<exists>d \<in> set (cn_dependencies n). \<exists>c. map_of (st_tool_calls (w_state w)) d = Some c \<and> tc_status c \<notin> success"
    "\<forall>k \<in> set relevant. \<forall>x. map_of (st_code_nodes (w_state w)) k = Some x \<longrightarrow> set (cn_dependencies x) \<subseteq> set relevant"
  shows "\<exists>k \<in> set relevant. \<exists>c. map_of (st_tool_calls (w_state w)) k = Some c \<and> tc_status c = Started"
proof -
  let ?keys = "map fst (st_code_nodes (w_state w))"
  let ?P = "\<lambda>k. k \<in> set relevant \<and> planned (w_state w) k"
  from assms(3) obtain n where "n \<in> set ns" by (cases ns) auto
  with planned_nodes_all(3) [OF assms(2)] obtain k where "?P k" by (auto simp: planned_def)
  moreover from this have "k \<in> set ?keys" by (force simp: planned_def dest: map_of_SomeD)
  ultimately obtain xs j ys where j: "?keys = xs @ j # ys" "?P j" "\<forall>i \<in> set xs. \<not> ?P i"
    using split_list_first_prop [of ?keys ?P] by blast
  from j(2) obtain x where x: "map_of (st_code_nodes (w_state w)) j = Some x" "cn_status x = NPlanned" by (auto simp: planned_def)
  with j(2) planned_nodes_all(3) [OF assms(2)] have "x \<in> set ns" by blast
  with assms(5) obtain d c where d: "d \<in> set (cn_dependencies x)" "map_of (st_tool_calls (w_state w)) d = Some c"
      "tc_status c \<notin> success" by blast
  have rel: "d \<in> set relevant" using assms(6) j(2) x(1) d(1) by blast
  have "d \<in> set xs" using good_points_back [OF assms(1)] j(1) x(1) d(1) unfolding points_back_def by blast
  with j(3) rel have np: "\<not> planned (w_state w) d" by blast
  obtain y where y: "map_of (st_code_nodes (w_state w)) d = Some y"
    using planned_nodes_all(2) [OF assms(2)] rel by blast
  have "tc_status c \<noteq> Requested"
    using node_call [OF good_wf [OF assms(1)] y] np y d(2) by (auto simp: planned_def)
  moreover have "\<not> is_terminal c" using blockers_all [OF _ d] assms(4) \<open>x \<in> set ns\<close> by blast
  ultimately have "tc_status c = Started" by (auto simp: is_terminal_def tool_terminal_def)
  with d(2) rel show ?thesis by blast
qed

definition closed_under_dependencies :: "session_state \<Rightarrow> string list \<Rightarrow> bool" where
  "closed_under_dependencies s relevant \<longleftrightarrow>
     (\<forall>k \<in> set relevant. \<forall>x. map_of (st_code_nodes s) k = Some x \<longrightarrow> set (cn_dependencies x) \<subseteq> set relevant)"

lemma closed_stays:
  assumes "advances w w'" "closed_under_dependencies (w_state w) relevant"
    "\<forall>k \<in> set relevant. \<exists>x. map_of (st_code_nodes (w_state w)) k = Some x"
  shows "closed_under_dependencies (w_state w') relevant"
  unfolding closed_under_dependencies_def
proof (intro ballI allI impI)
  fix k x assume k: "k \<in> set relevant" "map_of (st_code_nodes (w_state w')) k = Some x"
  with assms(3) obtain x0 where x0: "map_of (st_code_nodes (w_state w)) k = Some x0" by blast
  with assms(1) k(2) have "cn_dependencies x = cn_dependencies x0" unfolding advances_def nodes_kept_def by fastforce
  with assms(2) k(1) x0 show "set (cn_dependencies x) \<subseteq> set relevant"
    unfolding closed_under_dependencies_def by auto
qed

definition left_executing :: "session_state \<Rightarrow> string list \<Rightarrow> bool" where
  "left_executing s relevant \<longleftrightarrow> (\<exists>k \<in> set relevant. \<exists>c. map_of (st_tool_calls s) k = Some c \<and> tc_status c = Started)"

definition concluded :: "loop_end \<Rightarrow> session_state \<Rightarrow> string list \<Rightarrow> bool" where
  "concluded x s relevant \<longleftrightarrow> (case x of Completed \<Rightarrow> list_all (\<lambda>k. \<not> planned s k) relevant
     | NoProgress \<Rightarrow> left_executing s relevant | OutOfFuel \<Rightarrow> False)"

lemma sound_state: "sound (\<lambda>w. (f (w_state w), w))"
  by (rule sound_pure)

lemma execute_closure_concludes:
  assumes "execute_closure sd patience rounds submitted relevant w = (Inr x, w')" "good w" "careful sd" "patient k rank sd"
    "length relevant * Suc k \<le> patience" "closed_under_dependencies (w_state w) relevant"
    "card {i \<in> set relevant. planned (w_state w) i} \<le> rounds"
  shows "concluded x (w_state w') relevant"
  using assms(1,2,6,7)
proof (induction rounds arbitrary: w)
  case 0
  then obtain ns where ns: "planned_nodes relevant (w_state w) = Inr ns" by (subst (asm) execute_closure.simps) (auto simp: bind_io_Inr)
  have "\<not> planned (w_state w) i" if "i \<in> set relevant" for i using 0(4) that by auto
  then have "m \<notin> set ns" for m using planned_nodes_all(3) [OF ns, of m] by (auto simp: planned_def)
  then have "ns = []" by (metis list.set_intros(1) neq_Nil_conv)
  with 0(1) ns show ?case
    by (subst (asm) execute_closure.simps) (auto simp: bind_io_Inr concluded_def list_all_iff dest: no_planned)
next
  case (Suc n)
  from Suc.prems(1) obtain ns where ns: "planned_nodes relevant (w_state w) = Inr ns"
    by (subst (asm) execute_closure.simps) (auto simp: bind_io_Inr)
  note there = planned_nodes_all(2) [OF ns]
  show ?case
  proof (cases "ns = []")
    case True
    with Suc.prems(1) ns show ?thesis
      by (subst (asm) execute_closure.simps) (auto simp: bind_io_Inr concluded_def list_all_iff dest: no_planned)
  next
    case False
    with Suc.prems(1) ns obtain progress b w1 w2 where c: "close_blocked sd ns w = (Inr progress, w1)"
      and s: "is_set sd w1 = (Inr b, w2)"
      and r: "(if b then
         bind_io (\<lambda>w. (planned_nodes relevant (w_state w), w)) (\<lambda>remaining.
         bind_io (for_each (\<lambda>node. finish_not_executed sd (cn_node_id node)) remaining) (\<lambda>_. ret Completed))
       else
         bind_io (\<lambda>w. (ready_nodes relevant (w_state w), w)) (\<lambda>ready.
         if ready \<noteq> [] then
           after (execute_ready sd patience submitted ready) (execute_closure sd patience n submitted relevant)
         else if progress then execute_closure sd patience n submitted relevant
         else ret NoProgress)) w2 = (Inr x, w')"
      by (subst (asm) execute_closure.simps) (auto simp: bind_io_Inr)
    have a1: "advances w w1" by (rule soundD [OF sound_close_blocked c Suc.prems(2)])
    have a2: "advances w1 w2" by (rule soundD [OF sound_is_set s]) (use a1 in \<open>simp add: advances_def\<close>)
    have a: "advances w w2" by (rule advances_trans [OF a1 a2])
    have good2: "good w2" using a2 by (simp add: advances_def)
    have state2: "w_state w2 = w_state w1" using s by (auto simp: is_set_def split: prod.splits)
    note closed2 = closed_stays [OF a Suc.prems(3) there]
    show ?thesis
    proof (cases b)
      case True
      with r obtain ms where ms: "planned_nodes relevant (w_state w2) = Inr ms"
        and f: "for_each (\<lambda>node. finish_not_executed sd (cn_node_id node)) ms w2 = (Inr (), w')" and x: "x = Completed"
        by (auto simp: bind_io_Inr)
      have a3: "advances w2 w'" by (rule soundD [OF sound_each [OF sound_finish_not_executed] f good2])
      have done3: "\<forall>m \<in> set ms. settled (cn_node_id m) w'"
        by (rule settled_all [OF finish_not_executed_settles sound_finish_not_executed f good2])
      have "\<not> planned (w_state w') i" if i: "i \<in> set relevant" for i
      proof
        assume p: "planned (w_state w') i"
        obtain y where y: "map_of (st_code_nodes (w_state w2)) i = Some y" using planned_nodes_all(2) [OF ms] i by blast
        from never_replanned [OF a3 good2 y p] y have "y \<in> set ms"
          using planned_nodes_all(3) [OF ms] i by (auto simp: planned_def)
        moreover have "cn_node_id y = i" using node_call [OF good_wf [OF good2] y] by blast
        ultimately show False using done3 settled_not_planned p a3 by (auto simp: advances_def)
      qed
      then show ?thesis by (simp add: x concluded_def list_all_iff)
    next
      case False
      with r obtain ready where ready: "ready_nodes relevant (w_state w2) = Inr ready"
        and r2: "(if ready \<noteq> [] then
           after (execute_ready sd patience submitted ready) (execute_closure sd patience n submitted relevant)
         else if progress then execute_closure sd patience n submitted relevant
         else ret NoProgress) w2 = (Inr x, w')" by (auto simp: bind_io_Inr)
      from ready obtain ms where ms: "planned_nodes relevant (w_state w2) = Inr ms" "length ready \<le> length ms" "set ready \<subseteq> set ms"
        and unready: "\<forall>n \<in> set ms. n \<notin> set ready \<longrightarrow>
          (\<exists>d \<in> set (cn_dependencies n). \<exists>c. map_of (st_tool_calls (w_state w2)) d = Some c \<and> tc_status c \<notin> success)"
        by (rule ready_nodes_all)
      have step: ?thesis if rec: "execute_closure sd patience n submitted relevant w3 = (Inr x, w')" and a3: "advances w w3"
        and m: "m \<in> set ns \<or> m \<in> set ms" and closes: "settled (cn_node_id m) w3" and a23: "m \<in> set ms \<longrightarrow> advances w2 w3" for w3 m
      proof -
        have "card {i \<in> set relevant. planned (w_state w3) i} \<le> n"
        proof -
          have less: "card {i \<in> set relevant. planned (w_state w3) i} < card {i \<in> set relevant. planned (w_state v) i}"
            if v: "advances v w3" "good v" "planned_nodes relevant (w_state v) = Inr vs" "m \<in> set vs" for v vs
          proof -
            obtain i where i: "i \<in> set relevant" "map_of (st_code_nodes (w_state v)) i = Some m" "cn_status m = NPlanned"
              using planned_nodes_all(3) [OF v(3)] v(4) by blast
            moreover have "cn_node_id m = i" using node_call [OF good_wf [OF v(2)] i(2)] by blast
            ultimately show ?thesis
              using fewer_planned_strict [OF v(1,2) planned_nodes_all(2) [OF v(3)], of i] closes by (auto simp: planned_def)
          qed
          have "card {i \<in> set relevant. planned (w_state w2) i} \<le> card {i \<in> set relevant. planned (w_state w) i}"
            by (rule card_mono [OF _ fewer_planned [OF a Suc.prems(2) there]]) simp
          then show ?thesis using m a23 less [OF a3 Suc.prems(2) ns] less [OF _ good2 ms(1)] Suc.prems(4) by fastforce
        qed
        moreover have "good w3" using a3 by (simp add: advances_def)
        ultimately show ?thesis using Suc.IH [OF rec _ closed_stays [OF a3 Suc.prems(3) there]] by blast
      qed
      show ?thesis
      proof (cases "ready = []")
        case none: True
        show ?thesis
        proof (cases progress)
          case True
          with close_blocked_progress [OF c Suc.prems(2)] obtain m where m: "m \<in> set ns" "settled (cn_node_id m) w1" by auto
          have "settled (cn_node_id m) w2" by (rule settled_stays [OF m(2) a2])
          moreover have "execute_closure sd patience n submitted relevant w2 = (Inr x, w')" using r2 none True by simp
          ultimately show ?thesis using step [OF _ a] m(1) advances_refl [OF good2] by blast
        next
          case no_progress: False
          with close_blocked_progress [OF c Suc.prems(2)] have w1: "w1 = w" "\<forall>n \<in> set ns. blockers_of (w_state w) n = Inr []" by auto
          then have "ms = ns" using ms(1) ns state2 by simp
          with w1 state2 ns ms(1) none unready \<open>ns \<noteq> []\<close> closed2 have "left_executing (w_state w2) relevant"
            unfolding left_executing_def closed_under_dependencies_def by (intro stuck [OF good2 ms(1)]) auto
          moreover have "x = NoProgress" "w' = w2" using r2 none no_progress by auto
          ultimately show ?thesis by (simp add: concluded_def)
        qed
      next
        case some: False
        with r2 obtain y w3 where y: "execute_ready sd patience submitted ready w2 = (Inr y, w3)"
          and r3: "(if y = Completed then execute_closure sd patience n submitted relevant else ret y) w3 = (Inr x, w')"
          by (auto simp: after_def bind_io_Inr)
        have "length ready * Suc k \<le> patience"
          using mult_le_mono1 [of "length ready" "length relevant" "Suc k"] ms(2) planned_nodes_all(1) [OF ms(1)] assms(5) by linarith
        note fin = execute_ready_settles [OF y good2 assms(3,4) this]
        have a3: "advances w2 w3" by (rule soundD [OF sound_execute_ready [OF assms(3)] y good2])
        from some obtain m where m: "m \<in> set ready" by (cases ready) auto
        show ?thesis
          using step [OF _ advances_trans [OF a a3], of m] r3 fin m ms(3) a3 by auto
      qed
    qed
  qed
qed

end
