(* ===== verification/ClosureRun.thy ===== *)
theory ClosureRun
  imports SchedulerRun
begin

section \<open>The closure of the targets\<close>

text \<open>
  The traversal that collects the targets and everything they depend on always ends and yields
  exactly the reachable nodes; with \<open>SchedulerRun\<close> this gives the termination of a graph run.
\<close>

definition dependency :: "session_state \<Rightarrow> (string \<times> string) set" where
  "dependency s = {(k, d). \<exists>x. map_of (st_code_nodes s) k = Some x \<and> d \<in> set (cn_dependencies x)}"

definition inside :: "code_node dict \<Rightarrow> bool" where
  "inside nodes \<longleftrightarrow> (\<forall>k x. map_of nodes k = Some x \<longrightarrow> set (cn_dependencies x) \<subseteq> fst ` set nodes)"

lemma points_back_inside: "points_back s \<Longrightarrow> inside (st_code_nodes s)"
  unfolding inside_def
proof (intro allI impI)
  fix k x assume p: "points_back s" and k: "map_of (st_code_nodes s) k = Some x"
  then have "k \<in> set (map fst (st_code_nodes s))" by (force dest: map_of_SomeD)
  then obtain xs ys where xs: "map fst (st_code_nodes s) = xs @ k # ys" by (meson split_list)
  with p k have "set (cn_dependencies x) \<subseteq> set xs" unfolding points_back_def by blast
  also have "\<dots> \<subseteq> set (map fst (st_code_nodes s))" unfolding xs by auto
  finally show "set (cn_dependencies x) \<subseteq> fst ` set (st_code_nodes s)" by simp
qed

text \<open>What a visit of \<open>ks\<close> adds to the nodes collected before.\<close>

definition collects :: "session_state \<Rightarrow> string list \<Rightarrow> string list \<Rightarrow> string list \<Rightarrow> bool" where
  "collects s before ks reached \<longleftrightarrow> (\<exists>new. reached = before @ new \<and> distinct reached \<and> set ks \<subseteq> set reached \<and>
     set reached \<subseteq> fst ` set (st_code_nodes s) \<and> (\<forall>j \<in> set new. dependency s `` {j} \<subseteq> set reached) \<and>
     (\<forall>j \<in> set new. \<exists>t \<in> set ks. (t, j) \<in> (dependency s)\<^sup>*))"

lemma collects_Nil: "distinct b \<Longrightarrow> set b \<subseteq> fst ` set (st_code_nodes s) \<Longrightarrow> collects s b [] b"
  by (simp add: collects_def)

lemma collects_Cons: "collects s a [k] b \<Longrightarrow> collects s b ks c \<Longrightarrow> collects s a (k # ks) c"
proof -
  assume "collects s a [k] b" "collects s b ks c"
  then obtain m n where m: "b = a @ m" "k \<in> set b" "\<forall>j \<in> set m. dependency s `` {j} \<subseteq> set b"
      "\<forall>j \<in> set m. (k, j) \<in> (dependency s)\<^sup>*"
    and n: "c = b @ n" "distinct c" "set ks \<subseteq> set c" "set c \<subseteq> fst ` set (st_code_nodes s)"
      "\<forall>j \<in> set n. dependency s `` {j} \<subseteq> set c" "\<forall>j \<in> set n. \<exists>t \<in> set ks. (t, j) \<in> (dependency s)\<^sup>*"
    unfolding collects_def by auto
  have sub: "set b \<subseteq> set c" using n(1) by auto
  show "collects s a (k # ks) c" unfolding collects_def
  proof (intro exI [of _ "m @ n"] conjI)
    show "c = a @ m @ n" using m(1) n(1) by simp
    show "set (k # ks) \<subseteq> set c" using m(2) n(3) sub by auto
    show "\<forall>j \<in> set (m @ n). dependency s `` {j} \<subseteq> set c" using m(3) n(5) sub by fastforce
    show "\<forall>j \<in> set (m @ n). \<exists>t \<in> set (k # ks). (t, j) \<in> (dependency s)\<^sup>*" using m(4) n(6) by auto
  qed (use n in auto)
qed

lemma fold_collects:
  assumes visit: "\<And>before k. distinct before \<Longrightarrow> set before \<subseteq> fst ` set (st_code_nodes s) \<Longrightarrow> k \<in> fst ` set (st_code_nodes s) \<Longrightarrow>
      card (fst ` set (st_code_nodes s) - set before) \<le> d \<Longrightarrow>
      \<exists>reached. visit_closure d (st_code_nodes s) before k = Inr reached \<and> collects s before [k] reached"
    and before: "distinct before" "set before \<subseteq> fst ` set (st_code_nodes s)"
      "card (fst ` set (st_code_nodes s) - set before) \<le> d" "set ks \<subseteq> fst ` set (st_code_nodes s)"
  shows "\<exists>reached. foldE (visit_closure d (st_code_nodes s)) before ks = Inr reached \<and> collects s before ks reached"
  using before
proof (induction ks arbitrary: before)
  case Nil
  then show ?case by (simp add: collects_Nil)
next
  case (Cons k ks)
  then obtain b where b: "visit_closure d (st_code_nodes s) before k = Inr b" "collects s before [k] b"
    using visit [of before k] by auto
  then have "card (fst ` set (st_code_nodes s) - set b) \<le> card (fst ` set (st_code_nodes s) - set before)"
    by (intro card_mono) (auto simp: collects_def)
  with b(2) Cons.prems obtain c where c: "foldE (visit_closure d (st_code_nodes s)) b ks = Inr c" "collects s b ks c"
    using Cons.IH [of b] by (auto simp: collects_def)
  have "foldE (visit_closure d (st_code_nodes s)) before (k # ks) = Inr c" using b(1) c(1) by simp
  with collects_Cons [OF b(2) c(2)] show ?case by blast
qed

lemma visit_step: "visit_closure (Suc d) nodes included k =
    (if k \<in> set included then Inr included
     else bindE (need (map_of nodes k) (KeyError k)) (\<lambda>node.
       foldE (visit_closure d nodes) (included @ [k]) (cn_dependencies node)))"
  by (subst visit_closure.simps) simp

lemma visit_known: "k \<in> set included \<Longrightarrow> visit_closure d nodes included k = Inr included"
  by (subst visit_closure.simps) simp

lemma collects_known: "k \<in> set b \<Longrightarrow> distinct b \<Longrightarrow> set b \<subseteq> fst ` set (st_code_nodes s) \<Longrightarrow> collects s b [k] b"
  by (simp add: collects_def)

lemma visit_collects:
  assumes "inside (st_code_nodes s)" "distinct before" "set before \<subseteq> fst ` set (st_code_nodes s)"
    "k \<in> fst ` set (st_code_nodes s)" "card (fst ` set (st_code_nodes s) - set before) \<le> d"
  shows "\<exists>reached. visit_closure d (st_code_nodes s) before k = Inr reached \<and> collects s before [k] reached"
  using assms(2-)
proof (induction d arbitrary: before k)
  case 0
  then have "fst ` set (st_code_nodes s) - set before = {}" by simp
  with 0 have "k \<in> set before" by blast
  with 0 show ?case using visit_known collects_known by blast
next
  case (Suc d)
  let ?K = "fst ` set (st_code_nodes s)"
  show ?case
  proof (cases "k \<in> set before")
    case True
    with Suc.prems show ?thesis using visit_known collects_known by blast
  next
    case False
    from Suc.prems(3) obtain x where x: "map_of (st_code_nodes s) k = Some x"
      by (cases "map_of (st_code_nodes s) k") (auto simp: map_of_eq_None_iff)
    have deps: "set (cn_dependencies x) \<subseteq> ?K" using assms(1) x by (simp add: inside_def)
    have "?K - set (before @ [k]) \<subset> ?K - set before" using False Suc.prems(3) by auto
    then have "card (?K - set (before @ [k])) < card (?K - set before)" by (intro psubset_card_mono) auto
    then have "card (?K - set (before @ [k])) \<le> d" using Suc.prems(4) by linarith
    then have "\<exists>reached. foldE (visit_closure d (st_code_nodes s)) (before @ [k]) (cn_dependencies x) = Inr reached \<and>
        collects s (before @ [k]) (cn_dependencies x) reached"
      using Suc.prems False deps by (intro fold_collects Suc.IH) simp_all
    then obtain reached where a: "foldE (visit_closure d (st_code_nodes s)) (before @ [k]) (cn_dependencies x) = Inr reached"
      "collects s (before @ [k]) (cn_dependencies x) reached" by blast
    have "visit_closure (Suc d) (st_code_nodes s) before k = Inr reached"
      using False x a(1) by (simp add: visit_step)
    moreover have "collects s before [k] reached"
    proof -
      have kd: "dependency s `` {k} = set (cn_dependencies x)" by (auto simp: dependency_def x)
      then have step: "(k, j) \<in> (dependency s)\<^sup>*" if "t \<in> set (cn_dependencies x)" "(t, j) \<in> (dependency s)\<^sup>*" for t j
        using that by (auto intro: converse_rtrancl_into_rtrancl)
      from a(2) obtain new where "reached = (before @ [k]) @ new" "distinct reached" "set (cn_dependencies x) \<subseteq> set reached"
        "set reached \<subseteq> ?K" "\<forall>j \<in> set new. dependency s `` {j} \<subseteq> set reached"
        "\<forall>j \<in> set new. \<exists>t \<in> set (cn_dependencies x). (t, j) \<in> (dependency s)\<^sup>*" unfolding collects_def by blast
      note n = this
      show ?thesis unfolding collects_def
      proof (intro exI [of _ "k # new"] conjI)
        show "\<forall>j \<in> set (k # new). dependency s `` {j} \<subseteq> set reached" using n(3,5) kd by simp
        show "\<forall>j \<in> set (k # new). \<exists>t \<in> set [k]. (t, j) \<in> (dependency s)\<^sup>*" using n(6) step by fastforce
        show "set [k] \<subseteq> set reached" using n(1) by simp
      qed (use n(1,2,4) in simp_all)
    qed
    ultimately show ?thesis by blast
  qed
qed

lemma closure_reaches:
  assumes "points_back s" "set targets \<subseteq> fst ` set (st_code_nodes s)"
  obtains relevant where "closure s targets = Inr relevant" "distinct relevant"
    "set relevant = {k. \<exists>t \<in> set targets. (t, k) \<in> (dependency s)\<^sup>*}" "set relevant \<subseteq> fst ` set (st_code_nodes s)"
proof -
  let ?K = "fst ` set (st_code_nodes s)"
  have "card ?K \<le> length (st_code_nodes s)" by (metis card_length length_map list.set_map)
  then obtain relevant where r: "closure s targets = Inr relevant" "collects s [] targets relevant"
    using fold_collects [OF visit_collects [OF points_back_inside [OF assms(1)]],
        where before = "[]" and ks = targets and d = "length (st_code_nodes s)"] assms(2)
    by (auto simp: closure_def)
  have "k \<in> set relevant" if "(t, k) \<in> (dependency s)\<^sup>*" "t \<in> set relevant" for t k
    using that by (induction rule: rtrancl_induct) (use r(2) in \<open>auto simp: collects_def\<close>)
  with r(2) have "set relevant = {k. \<exists>t \<in> set targets. (t, k) \<in> (dependency s)\<^sup>*}" by (auto simp: collects_def)
  with r show thesis by (intro that) (auto simp: collects_def)
qed

lemma closure_closed: "points_back s \<Longrightarrow> set targets \<subseteq> fst ` set (st_code_nodes s) \<Longrightarrow>
    closure s targets = Inr relevant \<Longrightarrow> closed_under_dependencies s relevant"
  (is "_ \<Longrightarrow> _ \<Longrightarrow> _ \<Longrightarrow> ?thesis")
proof -
  assume p: "points_back s" "set targets \<subseteq> fst ` set (st_code_nodes s)" and r: "closure s targets = Inr relevant"
  from p obtain r' where "closure s targets = Inr r'"
    "set r' = {k. \<exists>t \<in> set targets. (t, k) \<in> (dependency s)\<^sup>*}" by (rule closure_reaches)
  with r have rel: "set relevant = {k. \<exists>t \<in> set targets. (t, k) \<in> (dependency s)\<^sup>*}" by simp
  show ?thesis unfolding closed_under_dependencies_def
  proof (intro ballI allI impI subsetI)
    fix k x d assume k: "k \<in> set relevant" "map_of (st_code_nodes s) k = Some x" "d \<in> set (cn_dependencies x)"
    from k(1) rel obtain t where "t \<in> set targets" "(t, k) \<in> (dependency s)\<^sup>*" by blast
    moreover have "(k, d) \<in> dependency s" using k(2,3) by (auto simp: dependency_def)
    ultimately show "d \<in> set relevant" unfolding rel using rtrancl_into_rtrancl by fast
  qed
qed

subsection \<open>A demonstration\<close>

text \<open>A run of two nodes, the second after the first, which is executing: an interrupted session.\<close>

definition demo_graph :: "event list" where
  "demo_graph = demo_code @ [ev_of 8 ''code_node_planned'' [(''run_id'', PStr uuid_a), (''node_id'', PStr ''n2''),
     (''ordinal'', PInt 2), (''name'', PStr ''read_file''), (''arguments'', PStr ''{}''), (''dependencies'', PTuple [PStr ''n1''])]]"

definition demo_scheduler :: "(unit, nat) scheduler" where
  "demo_scheduler = \<lparr>sd_executor = demo_executor, sd_run_id = uuid_a, sd_max_parallel = 2, sd_max_nodes = 8,
     sd_cancelled = (\<lambda>u. (False, u)), sd_wait = (\<lambda>n u. (Inr [0], u)), sd_escape = (\<lambda>s. s), sd_program = no_programs\<rparr>"

definition demo_graph_world :: "(unit, nat) world" where
  "demo_graph_world = \<lparr>w_store = \<lparr>ro_session_id = uuid_b, ro_file = [], ro_events = demo_graph, ro_open = True, ro_poisoned = False\<rparr>,
     w_state = demo_state demo_graph, w_usable = True, w_approver = (), w_outside = 0\<rparr>"

lemma demo_graph_replays: "replay demo_graph = Inr (demo_state demo_graph)"
proof -
  have "case replay demo_graph of Inl _ \<Rightarrow> False | Inr _ \<Rightarrow> True" by code_simp
  then show ?thesis by (auto simp: demo_state_def split: sum.splits)
qed

lemma demo_graph_consistent: "consistent demo_graph_world"
  using demo_graph_replays by (simp add: consistent_def demo_graph_world_def log_of_def)

lemma demo_graph_keys: "map fst (st_code_nodes (demo_state demo_graph)) = [''n1'', ''n2'']" by code_simp

lemma demo_graph_closure: "closure (demo_state demo_graph) [''n2''] = Inr [''n2'', ''n1'']" by code_simp

lemma demo_graph_ends: "fst (execute_closure demo_scheduler 2 2 [] [''n2'', ''n1''] demo_graph_world) = Inr NoProgress"
  by code_simp

lemma demo_scheduler_ok: "careful demo_scheduler" "patient 0 (\<lambda>_. 0) demo_scheduler"
  by (simp_all add: careful_def patient_def demo_scheduler_def no_programs_def sound_pure)

subsection \<open>Properties\<close>

text \<open>
  C40. The nodes a request executes are exactly the targets and everything they depend on,
  directly or not, each once: over any replayed session and any planned targets the traversal
  returns, without an error, the nodes reachable from the targets along dependencies.
\<close>

theorem closure_is_reachability:
  assumes "replay es = Inr s" "set targets \<subseteq> fst ` set (st_code_nodes s)"
  shows "\<exists>relevant. closure s targets = Inr relevant \<and> distinct relevant \<and>
    set relevant = {k. \<exists>t \<in> set targets. (t, k) \<in> (dependency s)\<^sup>*}"
proof -
  from replay_points_back [OF assms(1)] assms(2) obtain relevant where "closure s targets = Inr relevant"
    "distinct relevant" "set relevant = {k. \<exists>t \<in> set targets. (t, k) \<in> (dependency s)\<^sup>*}" by (rule closure_reaches)
  then show ?thesis by blast
qed

lemma closure_is_reachability_witness:
  "\<exists>relevant. closure (demo_state demo_graph) [''n2''] = Inr relevant \<and> distinct relevant"
proof -
  have "''n2'' \<in> set (map fst (st_code_nodes (demo_state demo_graph)))" unfolding demo_graph_keys by simp
  then have "set [''n2''] \<subseteq> fst ` set (st_code_nodes (demo_state demo_graph))" by simp
  from closure_is_reachability [OF demo_graph_replays this] show ?thesis by blast
qed

text \<open>
  C10. Executing a closure ends. Take a session in step with its log, code programs that keep
  the contract of the executor, and futures of which at most \<open>k\<close> waits in a row time out: then the
  loop, with as many rounds as nodes, never runs out of rounds or waits. Either it raises, or it
  completes with no node of the closure still planned, or it reports that it made no progress,
  and this it does only if a call of the closure was left executing.
\<close>

theorem graph_execution_terminates:
  assumes "consistent w" "w_usable w" "careful sd" "patient k rank sd"
    "set targets \<subseteq> fst ` set (st_code_nodes (w_state w))" "closure (w_state w) targets = Inr relevant"
    "length relevant * Suc k \<le> patience"
    "execute_closure sd patience (length relevant) submitted relevant w = (Inr x, w')"
  shows "consistent w' \<and> w_usable w' \<and>
    (case x of Completed \<Rightarrow> list_all (\<lambda>i. \<not> planned (w_state w') i) relevant
     | NoProgress \<Rightarrow> left_executing (w_state w') relevant
     | OutOfFuel \<Rightarrow> False)"
proof -
  have good: "good w" using assms(1,2) by (simp add: good_def)
  have "closed_under_dependencies (w_state w) relevant"
    by (rule closure_closed [OF good_points_back [OF good] assms(5,6)])
  moreover have "card {i \<in> set relevant. planned (w_state w) i} \<le> length relevant"
    using card_mono [of "set relevant" "{i \<in> set relevant. planned (w_state w) i}"] card_length [of relevant] by fastforce
  ultimately have c: "concluded x (w_state w') relevant"
    using execute_closure_concludes [OF assms(8) good assms(3,4,7)] by blast
  have "sound (execute_closure sd patience n submitted relevant)" for n
  proof (induction n)
    case 0
    show ?case by (subst execute_closure.simps) (auto intro!: sound_rules)
  next
    case (Suc n)
    then show ?case
      by (subst execute_closure.simps)
         (auto intro!: sound_rules sound_close_blocked sound_finish_not_executed sound_after
           sound_execute_ready assms(3))
  qed
  from soundD [OF this assms(8) good] have "good w'" by (simp add: advances_def)
  with c show ?thesis by (simp add: concluded_def good_def)
qed

lemma graph_execution_terminates_witness:
  "left_executing (demo_state demo_graph) [''n2'', ''n1''] \<and>
   (\<exists>w'. execute_closure demo_scheduler 2 2 [] [''n2'', ''n1''] demo_graph_world = (Inr NoProgress, w') \<and>
     left_executing (w_state w') [''n2'', ''n1''])"
proof -
  have state: "w_state demo_graph_world = demo_state demo_graph" "w_usable demo_graph_world" by (simp_all add: demo_graph_world_def)
  have "''n2'' \<in> set (map fst (st_code_nodes (demo_state demo_graph)))" unfolding demo_graph_keys by simp
  then have targets: "set [''n2''] \<subseteq> fst ` set (st_code_nodes (w_state demo_graph_world))" by (simp add: state)
  have closure: "closure (w_state demo_graph_world) [''n2''] = Inr [''n2'', ''n1'']" by (simp add: state demo_graph_closure)
  obtain w' where run: "execute_closure demo_scheduler 2 (length [''n2'', ''n1'']) [] [''n2'', ''n1''] demo_graph_world = (Inr NoProgress, w')"
    using demo_graph_ends by (cases "execute_closure demo_scheduler 2 2 [] [''n2'', ''n1''] demo_graph_world") (simp add: numeral_2_eq_2)
  have "length [''n2'', ''n1''] * Suc 0 \<le> 2" by simp
  from graph_execution_terminates [OF demo_graph_consistent state(2) demo_scheduler_ok targets closure this run]
  have "left_executing (w_state w') [''n2'', ''n1'']" by simp
  moreover have "left_executing (demo_state demo_graph) [''n2'', ''n1'']"
  proof -
    have "case map_of (st_tool_calls (demo_state demo_graph)) ''n1'' of None \<Rightarrow> False | Some c \<Rightarrow> tc_status c = Started" by code_simp
    then show ?thesis by (auto simp: left_executing_def split: option.splits)
  qed
  ultimately show ?thesis using run by (auto simp: numeral_2_eq_2)
qed

end
