(* ===== verification/ToolScheduler.thy ===== *)
theory ToolScheduler
  imports ExecutorRun
begin

section \<open>Scheduling one batch of tool calls (tool_scheduler.py)\<close>

text \<open>
  An accepted batch is executed in groups: an exclusive call runs alone through \<open>execute\<close>, a
  maximal run of parallel calls is overlapped. Admission (the durable start) and commit (the
  durable result) happen in the order of the model, bodies in any order.

  The scheduler runs beside a client that closes the calls it leaves open; the client's own state
  is the type \<open>'s\<close>. A group is a program over the world and its local variables, the record
  \<open>batch\<close>, which carries the client's state along. Futures are
  positions in flight; the body of a call acts on the outside when its future is observed to be
  done, or when the pool is shut down. \<open>ts_wait\<close> is \<open>concurrent.futures.wait\<close>: given the number
  of futures in flight it raises or says which are done.
\<close>

record ('a, 'u, 's) tool_scheduler =
  ts_executor :: "('a, 'u) executor"
  ts_max_parallel :: nat
  ts_close_calls :: "accepted_call list \<Rightarrow> (('a, 'u) world \<times> 's, unit) io"
  ts_wait :: "nat \<Rightarrow> 'u \<Rightarrow> (py_error + nat list) \<times> 'u"
  ts_escape :: "string \<Rightarrow> string"
  ts_program :: "tool_call \<Rightarrow> string \<Rightarrow> string \<Rightarrow> (('a, 'u) world, tool_result) io"

type_synonym 'u in_flight = "nat \<times> 'u parallel_call"

record ('u, 's) batch =
  bt_slots :: "('u parallel_call \<times> tool_result) option list"
  bt_in_flight :: "'u in_flight list"
  bt_next_to_start :: nat
  bt_next_to_commit :: nat
  bt_client :: 's

type_synonym ('a, 'u, 's) bworld = "('a, 'u) world \<times> ('u, 's) batch"

subsection \<open>Programs over the world and the batch\<close>

definition on_world :: "('w, 'b) io \<Rightarrow> ('w \<times> 'c, 'b) io" where
  "on_world m = (\<lambda>(w, b). let (r, w') = m w in (r, (w', b)))"

definition batch_get :: "(('u, 's) batch \<Rightarrow> 'b) \<Rightarrow> (('a, 'u, 's) bworld, 'b) io" where
  "batch_get f = (\<lambda>(w, b). (Inr (f b), (w, b)))"

definition batch_set :: "(('u, 's) batch \<Rightarrow> ('u, 's) batch) \<Rightarrow> (('a, 'u, 's) bworld, unit) io" where
  "batch_set f = (\<lambda>(w, b). (Inr (), (w, f b)))"

definition on_client :: "(('a, 'u) world \<times> 's, 'b) io \<Rightarrow> (('a, 'u, 's) bworld, 'b) io" where
  "on_client m = (\<lambda>(w, b). let (r, (w', s)) = m (w, bt_client b) in (r, (w', b\<lparr>bt_client := s\<rparr>)))"

text \<open>\<open>try: m finally: k\<close>, for a \<open>k\<close> whose own outcome does not matter.\<close>

definition try_finally :: "('w, 'b) io \<Rightarrow> ('w, 'c) io \<Rightarrow> ('w, 'b) io" where
  "try_finally m k = (\<lambda>w. let (r, w') = m w in (r, snd (k w')))"

subsection \<open>A parallel group\<close>

definition interrupted_result :: "tool_result \<Rightarrow> bool" where
  "interrupted_result r \<longleftrightarrow> tr_status r = tool_status_value Interrupted"

text \<open>\<open>commit_ready\<close>, on the slots from \<open>next_to_commit\<close> on.\<close>

fun commit_slots ::
  "('a, 'u, 's) tool_scheduler \<Rightarrow> ('u parallel_call \<times> tool_result) option list \<Rightarrow> (('a, 'u, 's) bworld, bool) io" where
  "commit_slots sd [] = ret False"
| "commit_slots sd (None # slots) = ret False"
| "commit_slots sd (Some (p, r) # slots) =
     bind_io (on_world (commit_parallel (ts_executor sd) p r)) (\<lambda>_.
     bind_io (batch_set (\<lambda>b. b\<lparr>bt_next_to_commit := Suc (bt_next_to_commit b)\<rparr>)) (\<lambda>_.
     bind_io (commit_slots sd slots) (\<lambda>observed.
     ret (interrupted_result r \<or> observed))))"

definition commit_ready :: "('a, 'u, 's) tool_scheduler \<Rightarrow> (('a, 'u, 's) bworld, bool) io" where
  "commit_ready sd =
     bind_io (batch_get (\<lambda>b. drop (bt_next_to_commit b) (bt_slots b))) (\<lambda>slots. commit_slots sd slots)"

text \<open>The inner loop: start calls while there is room.\<close>

fun admit :: "('a, 'u, 's) tool_scheduler \<Rightarrow> accepted_call list \<Rightarrow> (('a, 'u, 's) bworld, unit) io" where
  "admit sd [] = ret ()"
| "admit sd (call # calls) =
     bind_io (batch_get (\<lambda>b. length (bt_in_flight b))) (\<lambda>n.
     if \<not> n < ts_max_parallel sd then ret () else
     bind_io (on_world (prepare_parallel (ts_executor sd) call)) (\<lambda>p.
     bind_io (batch_set (\<lambda>b. b\<lparr>bt_in_flight := bt_in_flight b @ [(bt_next_to_start b, p)],
       bt_next_to_start := Suc (bt_next_to_start b)\<rparr>)) (\<lambda>_.
     admit sd calls)))"

text \<open>\<open>in_flight.pop(future)\<close>, \<open>future.result()\<close> and the store into the slot.\<close>

definition observe :: "('a, 'u, 's) tool_scheduler \<Rightarrow> 'u in_flight \<Rightarrow> (('a, 'u, 's) bworld, unit) io" where
  "observe sd = (\<lambda>(i, p).
     bind_io (batch_set (\<lambda>b. b\<lparr>bt_in_flight := filter (\<lambda>e. fst e \<noteq> i) (bt_in_flight b)\<rparr>)) (\<lambda>_.
     bind_io (on_world (dispatch_parallel (ts_executor sd) p)) (\<lambda>r.
     batch_set (\<lambda>b. b\<lparr>bt_slots := (bt_slots b)[i := Some (p, r)]\<rparr>))))"

definition wait_first :: "('a, 'u, 's) tool_scheduler \<Rightarrow> (('a, 'u, 's) bworld, 'u in_flight list) io" where
  "wait_first sd =
     bind_io (batch_get bt_in_flight) (\<lambda>in_flight.
     bind_io (on_world (\<lambda>w. let (r, u) = ts_wait sd (length in_flight) (w_outside w) in (r, w\<lparr>w_outside := u\<rparr>))) (\<lambda>finished.
     ret (nths in_flight (set finished))))"

text \<open>A wait in a \<open>try\<close>: \<open>None\<close> when the user interrupted it.\<close>

definition guarded_wait :: "('a, 'u, 's) tool_scheduler \<Rightarrow> (('a, 'u, 's) bworld, 'u in_flight list option) io" where
  "guarded_wait sd = handle (bind_io (wait_first sd) (\<lambda>es. ret (Some es)))
     (\<lambda>e. if e = KeyboardInterrupt then Some (ret None) else None)"

text \<open>The second loop, after an interruption was observed: wait for the rest.\<close>

fun drain :: "('a, 'u, 's) tool_scheduler \<Rightarrow> nat \<Rightarrow> (('a, 'u, 's) bworld, bool) io" where
  "drain sd fuel =
     bind_io (batch_get bt_in_flight) (\<lambda>in_flight.
     if in_flight = [] then ret True
     else case fuel of 0 \<Rightarrow> ret False | Suc n \<Rightarrow>
       bind_io (wait_first sd) (\<lambda>finished.
       bind_io (for_each (observe sd) finished) (\<lambda>_.
       bind_io (commit_ready sd) (\<lambda>_.
       drain sd n))))"

declare drain.simps [simp del]

text \<open>\<open>None\<close>: the fuel ran out; each wait observes at least one call.\<close>

definition close_rest :: "('a, 'u, 's) tool_scheduler \<Rightarrow> accepted_call list \<Rightarrow> (('a, 'u, 's) bworld, bool option) io" where
  "close_rest sd calls =
     bind_io (batch_get bt_next_to_start) (\<lambda>s.
     bind_io (on_client (ts_close_calls sd (drop s calls))) (\<lambda>_. ret (Some True)))"

fun group_loop :: "('a, 'u, 's) tool_scheduler \<Rightarrow> nat \<Rightarrow> accepted_call list \<Rightarrow> (('a, 'u, 's) bworld, bool option) io" where
  "group_loop sd fuel calls =
     bind_io (batch_get bt_next_to_commit) (\<lambda>c.
     if \<not> c < length calls then ret (Some False)
     else case fuel of 0 \<Rightarrow> ret None | Suc n \<Rightarrow>
       bind_io (batch_get bt_next_to_start) (\<lambda>s.
       bind_io (admit sd (drop s calls)) (\<lambda>_.
       bind_io (guarded_wait sd) (\<lambda>observed.
       case observed of
         None \<Rightarrow>
           bind_io (batch_get bt_in_flight) (\<lambda>in_flight.
           bind_io (for_each (observe sd) in_flight) (\<lambda>_.
           bind_io (commit_ready sd) (\<lambda>_.
           close_rest sd calls)))
       | Some finished \<Rightarrow>
           bind_io (for_each (observe sd) finished) (\<lambda>_.
           bind_io (commit_ready sd) (\<lambda>interrupted.
           if \<not> interrupted then group_loop sd n calls
           else
             bind_io (drain sd (length calls)) (\<lambda>drained.
             if drained then close_rest sd calls else ret None)))))))"

declare group_loop.simps [simp del]

definition shut_down :: "('a, 'u, 's) tool_scheduler \<Rightarrow> (('a, 'u, 's) bworld, unit) io" where
  "shut_down sd =
     bind_io (batch_get bt_in_flight) (\<lambda>in_flight.
     for_each (\<lambda>(i, p). on_world (\<lambda>w. (Inr (), snd (dispatch_parallel (ts_executor sd) p w)))) in_flight)"

definition empty_batch :: "accepted_call list \<Rightarrow> 's \<Rightarrow> ('u, 's) batch" where
  "empty_batch calls s = \<lparr>bt_slots = replicate (length calls) None, bt_in_flight = [], bt_next_to_start = 0,
     bt_next_to_commit = 0, bt_client = s\<rparr>"

definition run_parallel_group ::
  "('a, 'u, 's) tool_scheduler \<Rightarrow> accepted_call list \<Rightarrow> (('a, 'u) world \<times> 's, bool option) io" where
  "run_parallel_group sd calls = (\<lambda>(w, s).
     let (r, (w', b)) = try_finally (group_loop sd (length calls) calls) (shut_down sd) (w, empty_batch calls s)
     in (r, (w', bt_client b)))"

subsection \<open>The batch\<close>

definition mode_of :: "('a, 'u, 's) tool_scheduler \<Rightarrow> accepted_call \<Rightarrow> execution_mode" where
  "mode_of sd call = execution_mode (ex_loads (ts_executor sd)) (ex_registry (ts_executor sd))
     (ac_name call) (ac_raw_arguments call)"

function execute_batch ::
  "('a, 'u, 's) tool_scheduler \<Rightarrow> accepted_call list \<Rightarrow> (('a, 'u) world \<times> 's, bool option) io" where
  "execute_batch sd [] = ret (Some False)"
| "execute_batch sd (call # calls) =
     (if mode_of sd call = Exclusive then
        bind_io (on_world (execute (ts_escape sd) (ts_program sd) (ts_executor sd) call)) (\<lambda>r.
        if interrupted_result r then bind_io (ts_close_calls sd calls) (\<lambda>_. ret (Some True))
        else execute_batch sd calls)
      else
        let group = takeWhile (\<lambda>c. mode_of sd c = Parallel) (call # calls);
            rest = dropWhile (\<lambda>c. mode_of sd c = Parallel) (call # calls)
        in bind_io (run_parallel_group sd group) (\<lambda>r.
          case r of
            None \<Rightarrow> ret None
          | Some interrupted \<Rightarrow>
              if interrupted then bind_io (ts_close_calls sd rest) (\<lambda>_. ret (Some True))
              else execute_batch sd rest))"
  by pat_completeness auto
termination
proof (relation "measure (\<lambda>(sd, calls). length calls)")
  fix sd :: "('a, 'u, 's) tool_scheduler" and call calls group rest and r :: "bool option" and interrupted
  assume "mode_of sd call \<noteq> Exclusive" and rest: "rest = dropWhile (\<lambda>c. mode_of sd c = Parallel) (call # calls)"
  then have "mode_of sd call = Parallel" by (cases "mode_of sd call") simp_all
  with rest have "rest = dropWhile (\<lambda>c. mode_of sd c = Parallel) calls" by simp
  then show "((sd, rest), sd, call # calls) \<in> measure (\<lambda>(sd, calls). length calls)"
    using length_dropWhile_le [of "\<lambda>c. mode_of sd c = Parallel" calls] by (simp add: less_Suc_eq_le)
qed simp_all

declare execute_batch.simps [simp del]

end
