(* ===== verification/Agent.thy ===== *)
theory Agent
  imports ToolScheduler Compaction
begin

section \<open>The turn loop (agent.py)\<close>

text \<open>
  One turn of a session: the user's input is recorded, then the model is sampled and its tool
  calls are executed until it answers, fails, is interrupted or has used up its steps; in each
  case the end of the turn is recorded. The loop shares the store and the state with the
  executor and the compactor; its own state is whether it can still be used, and the tool
  steps of the running turn.

  The model client, the approver and the environment are arguments, as are the identifiers of
  the candidates. A Ctrl-C can arrive at any append of the loop, before the fact is written or
  after (\<open>ag_interrupt\<close>). The callbacks that show a response on the terminal are left out: what
  they raise is caught, and they return nothing.
\<close>

datatype interrupt_point = Undisturbed | BeforeAppend | AfterAppend

record ('a, 'u) agent =
  ag_executor :: "('a, 'u) executor"
  ag_max_steps :: nat
  ag_max_calls_per_batch :: nat
  ag_max_parallel :: nat
  ag_context_window :: int
  ag_max_output_tokens :: int
  ag_model :: "'u sampler"
  ag_environment :: "'u \<Rightarrow> py_error + environment_value"
  ag_compactor :: "'u compactor option"
  ag_candidate :: "int \<Rightarrow> string \<times> string"
  ag_interrupt :: "int \<Rightarrow> interrupt_point"
  ag_wait :: "nat \<Rightarrow> 'u \<Rightarrow> (py_error + nat list) \<times> 'u"
  ag_escape :: "string \<Rightarrow> string"
  ag_program :: "tool_call \<Rightarrow> string \<Rightarrow> string \<Rightarrow> (('a, 'u) world, tool_result) io"

record agent_state =
  as_usable :: bool
  as_steps :: nat

record turn_result =
  tn_status :: turn_status
  tn_final_text :: string
  tn_turn_id :: string
  tn_tool_steps :: nat
  tn_error :: "string option"

type_synonym ('a, 'u) aworld = "('a, 'u) world \<times> agent_state"

abbreviation agent_unusable :: py_error where
  "agent_unusable \<equiv> AgentLoopError ''agent loop is unusable after reducer divergence''"

text \<open>Reading the session, the agent, and giving up.\<close>

definition session :: "(session_state \<Rightarrow> 'b) \<Rightarrow> (('a, 'u) aworld, 'b) io" where
  "session f = asks (\<lambda>(w, a). f (w_state w))"

definition steps :: "(('a, 'u) aworld, nat) io" where
  "steps = asks (\<lambda>(w, a). as_steps a)"

definition set_steps :: "nat \<Rightarrow> (('a, 'u) aworld, unit) io" where
  "set_steps n = (\<lambda>(w, a). (Inr (), (w, a\<lparr>as_steps := n\<rparr>)))"

definition give_up :: "string \<Rightarrow> (('a, 'u) aworld, 'b) io" where
  "give_up message = (\<lambda>(w, a). (Inl (AgentLoopError message), (w, a\<lparr>as_usable := False\<rparr>)))"

definition require_usable :: "(('a, 'u) aworld, unit) io" where
  "require_usable = (\<lambda>(w, a). (raise_if (\<not> as_usable a) agent_unusable (Inr ()), (w, a)))"

subsection \<open>Appending a fact\<close>

definition synchronize_state_from_store :: "(('a, 'u) aworld, unit) io" where
  "synchronize_state_from_store = (\<lambda>(w, a).
     case bindE (load_events (w_store w)) replay of
       Inl e \<Rightarrow> give_up ''rollout state could not be synchronized after interruption'' (w, a)
     | Inr s \<Rightarrow> (Inr (), (w\<lparr>w_state := s\<rparr>, a)))"

definition candidate_event :: "('a, 'u) agent \<Rightarrow> string \<Rightarrow> mapping \<Rightarrow> ('a, 'u) world \<Rightarrow> py_error + event" where
  "candidate_event ag type payload w =
     (let (event_id, timestamp) = ag_candidate ag (st_last_seq (w_state w) + 1) in
      mk_event (ex_iso_utc (ag_executor ag)) (PInt 1) (PInt (st_last_seq (w_state w) + 1)) (PStr event_id) (PStr timestamp)
        (PStr (ro_session_id (w_store w))) (PStr type) (PDict payload))"

text \<open>The candidate is reduced on a copy before anything is written.\<close>

definition try_candidate :: "event \<Rightarrow> (('a, 'u) aworld, unit) io" where
  "try_candidate candidate = (\<lambda>(w, a).
     case reduce_event (w_state w) candidate of
       Inr s \<Rightarrow> (Inr (), (w, a))
     | Inl (DomainError m) \<Rightarrow> (Inl (DomainError m), (w, a))
     | Inl _ \<Rightarrow> give_up ''candidate event could not be reduced'' (w, a))"

definition interrupted_append ::
  "interrupt_point \<Rightarrow> rollout_store \<Rightarrow> (py_error + event) \<times> rollout_store \<Rightarrow> (py_error + event) \<times> rollout_store" where
  "interrupted_append p st = (\<lambda>(r, st'). case p of
     Undisturbed \<Rightarrow> (r, st')
   | BeforeAppend \<Rightarrow> (Inl KeyboardInterrupt, st)
   | AfterAppend \<Rightarrow> (bindE r (\<lambda>_. Inl KeyboardInterrupt), st'))"

definition store_fact :: "('a, 'u) agent \<Rightarrow> string \<Rightarrow> mapping \<Rightarrow> (('a, 'u) aworld, event) io" where
  "store_fact ag type payload = (\<lambda>(w, a).
     let n = int (length (ro_events (w_store w))) + 1;
         (event_id, timestamp, outcome) = ex_clock (ag_executor ag) n
     in case interrupted_append (ag_interrupt ag n) (w_store w)
          (append_new (ex_iso_utc (ag_executor ag)) (w_store w) event_id timestamp type payload outcome) of
        (Inr ev, st) \<Rightarrow> (Inr ev, (w\<lparr>w_store := st\<rparr>, a))
      | (Inl e, st) \<Rightarrow>
          if is_interrupt e then bind_io synchronize_state_from_store (\<lambda>_. throw e) (w\<lparr>w_store := st\<rparr>, a)
          else give_up ''rollout store append failed'' (w\<lparr>w_store := st\<rparr>, a))"

definition apply_fact :: "event \<Rightarrow> (('a, 'u) aworld, unit) io" where
  "apply_fact ev = (\<lambda>(w, a).
     case apply_event (w_state w) ev of
       Inl (e, s) \<Rightarrow> give_up ''durable event could not be applied to state'' (w\<lparr>w_state := s\<rparr>, a)
     | Inr s \<Rightarrow> (Inr (), (w\<lparr>w_state := s\<rparr>, a)))"

definition agent_append :: "('a, 'u) agent \<Rightarrow> string \<Rightarrow> mapping \<Rightarrow> (('a, 'u) aworld, event) io" where
  "agent_append ag type payload =
     bind_io require_usable (\<lambda>_.
     bind_io (\<lambda>(w, a). (candidate_event ag type payload w, (w, a))) (\<lambda>candidate.
     bind_io (try_candidate candidate) (\<lambda>_.
     bind_io (store_fact ag type payload) (\<lambda>ev.
     bind_io (apply_fact ev) (\<lambda>_. ret ev)))))"

subsection \<open>The end of a turn\<close>

definition finish_event_of :: "string \<Rightarrow> event \<Rightarrow> bool" where
  "finish_event_of turn_id ev \<longleftrightarrow> ev_type ev = ''turn_finished'' \<and> get (ev_payload ev) ''turn_id'' = PStr turn_id"

definition persisted_turn_result :: "session_state \<Rightarrow> string \<Rightarrow> nat \<Rightarrow> py_error + turn_result option" where
  "persisted_turn_result s turn_id tool_steps =
     (if st_active_turn_id s = Some turn_id then Inr None
      else case map_of (st_turns s) turn_id of
        None \<Rightarrow> Inr None
      | Some status \<Rightarrow>
          if status \<in> {TActive, TRecoveryBlocked} then Inr None
          else
            bindE (need (find (finish_event_of turn_id) (rev (st_events s)))
              (AgentLoopError ''terminal turn has no durable finish event'')) (\<lambda>terminal.
            bindE (need (as_str (get_or (ev_payload terminal) ''final_text'' (PStr [])))
              (AgentLoopError ''terminal turn has an invalid durable result'')) (\<lambda>final_text.
            bindE (case get (ev_payload terminal) ''error'' of
                PNone \<Rightarrow> Inr None | PStr m \<Rightarrow> Inr (Some m)
              | _ \<Rightarrow> Inl (AgentLoopError ''terminal turn has an invalid durable result'')) (\<lambda>error.
            Inr (Some \<lparr>tn_status = status, tn_final_text = final_text, tn_turn_id = turn_id,
              tn_tool_steps = tool_steps, tn_error = error\<rparr>)))))"

definition persisted :: "string \<Rightarrow> (('a, 'u) aworld, turn_result option) io" where
  "persisted turn_id = (\<lambda>(w, a). (persisted_turn_result (w_state w) turn_id (as_steps a), (w, a)))"

definition turn_end_payload :: "string \<Rightarrow> turn_status \<Rightarrow> string \<Rightarrow> string option \<Rightarrow> mapping" where
  "turn_end_payload turn_id status final_text error =
     [(''turn_id'', PStr turn_id), (''status'', PStr (turn_status_value status))]
     @ (if final_text = [] then [] else [(''final_text'', PStr final_text)])
     @ (case error of None \<Rightarrow> [] | Some m \<Rightarrow> [(''error'', PStr m)])"

definition finish ::
  "('a, 'u) agent \<Rightarrow> string \<Rightarrow> turn_status \<Rightarrow> string \<Rightarrow> string option \<Rightarrow> (('a, 'u) aworld, turn_result) io" where
  "finish ag turn_id status final_text error =
     bind_io (persisted turn_id) (\<lambda>p.
     case p of Some r \<Rightarrow> ret r
     | None \<Rightarrow>
         bind_io (agent_append ag ''turn_finished'' (turn_end_payload turn_id status final_text error)) (\<lambda>_.
         bind_io steps (\<lambda>n.
         ret \<lparr>tn_status = status, tn_final_text = final_text, tn_turn_id = turn_id, tn_tool_steps = n, tn_error = error\<rparr>)))"

definition fail :: "('a, 'u) agent \<Rightarrow> string \<Rightarrow> string \<Rightarrow> (('a, 'u) aworld, turn_result) io" where
  "fail ag turn_id message = finish ag turn_id TFailed [] (Some message)"

definition interrupted :: "('a, 'u) agent \<Rightarrow> string \<Rightarrow> (('a, 'u) aworld, turn_result) io" where
  "interrupted ag turn_id = finish ag turn_id TInterrupted [] (Some ''turn interrupted by user'')"

subsection \<open>Closing calls\<close>

definition finish_requested_call ::
  "('a, 'u) agent \<Rightarrow> accepted_call \<Rightarrow> tool_status \<Rightarrow> string \<Rightarrow> (('a, 'u) aworld, unit) io" where
  "finish_requested_call ag call status result =
     bind_io (agent_append ag ''tool_finished''
       [(''call_key'', PStr (ac_call_key call)), (''call_id'', PStr (ac_provider_call_id call)),
        (''status'', PStr (tool_status_value status)), (''result'', PStr result), (''truncated'', PBool False)]) (\<lambda>_. ret ())"

definition state_call :: "string \<Rightarrow> (('a, 'u) aworld, tool_call) io" where
  "state_call call_key = bind_io (session (\<lambda>s. map_of (st_tool_calls s) call_key)) (\<lambda>c.
     lift_io (need c (KeyError call_key)))"

definition close_calls ::
  "('a, 'u) agent \<Rightarrow> string option \<Rightarrow> tool_status \<Rightarrow> accepted_call list \<Rightarrow> (('a, 'u) aworld, unit) io" where
  "close_calls ag current_call_key current_status = for_each (\<lambda>call.
     bind_io (state_call (ac_call_key call)) (\<lambda>c.
     if is_terminal c then ret ()
     else finish_requested_call ag call
       (if tc_status c = Started then Cancelled
        else if Some (ac_call_key call) = current_call_key then current_status else NotExecuted)
       ''tool call not executed because the turn was interrupted''))"

abbreviation close :: "('a, 'u) agent \<Rightarrow> accepted_call list \<Rightarrow> (('a, 'u) aworld, unit) io" where
  "close ag \<equiv> close_calls ag None Cancelled"

definition open_calls :: "string \<Rightarrow> session_state \<Rightarrow> accepted_call list" where
  "open_calls turn_id s = map from_tool_call
     (filter (\<lambda>c. tc_turn_id c = turn_id \<and> tc_status c \<in> {Requested, Started}) (vals (st_tool_calls s)))"

definition close_open_calls_after_interrupt :: "('a, 'u) agent \<Rightarrow> string \<Rightarrow> (('a, 'u) aworld, unit) io" where
  "close_open_calls_after_interrupt ag turn_id = bind_io (session (open_calls turn_id)) (close ag)"

subsection \<open>Sampling\<close>

definition usage_payload :: "token_usage option \<Rightarrow> pyval" where
  "usage_payload usage = (case usage of None \<Rightarrow> PNone
   | Some (p, c, n) \<Rightarrow> PDict [(''prompt_tokens'', PInt p), (''completion_tokens'', PInt c), (''total_tokens'', PInt n)])"

definition project_request :: "('a, 'u) agent \<Rightarrow> bool \<Rightarrow> (('a, 'u) aworld, pyval list \<times> pyval list) io" where
  "project_request ag allow_tools = (\<lambda>(w, a).
     (bindE (load_events (w_store w)) (\<lambda>events.
      bindE (ag_environment ag (w_outside w)) (\<lambda>env.
      bindE (project events (w_state w) env) (\<lambda>messages.
      Inr (messages, if allow_tools then provider_schemas (ex_registry (ag_executor ag)) else [])))), (w, a)))"

definition sample_projected ::
  "('a, 'u) agent \<Rightarrow> bool \<Rightarrow> pyval list \<times> pyval list \<Rightarrow> (('a, 'u) aworld, sampling_result) io" where
  "sample_projected ag allow_tools = (\<lambda>(messages, schemas) (w, a).
     let (r, u) = ag_model ag messages schemas allow_tools (w_outside w) in (r, (w\<lparr>w_outside := u\<rparr>, a)))"

definition request_safety_margin :: int where
  "request_safety_margin = 256"

definition usage_value :: "(int \<times> int \<times> int) option \<Rightarrow> pyval" where
  "usage_value usage = (case usage of None \<Rightarrow> PNone | Some (p, c, t) \<Rightarrow> PTuple [PInt p, PInt c, PInt t])"

definition request_fits :: "('a, 'u) agent \<Rightarrow> pyval list \<times> pyval list \<Rightarrow> (('a, 'u) aworld, bool) io" where
  "request_fits ag = (\<lambda>(messages, schemas). bind_io (session st_last_usage) (\<lambda>usage.
     lift_io (request_fits_budget (map message_fields messages) (Some schemas) (ag_context_window ag)
       (ag_max_output_tokens ag) request_safety_margin (usage_value usage))))"

definition compact_once :: "('a, 'u) agent \<Rightarrow> (('a, 'u) aworld, bool) io" where
  "compact_once ag = (case ag_compactor ag of
     None \<Rightarrow> ret False
   | Some co \<Rightarrow> handle (on_world (compact co)) (\<lambda>e. if is_interrupt e then None else Some (ret False)))"

text \<open>\<open>None\<close>: there is no room for the request, and no compaction made any.\<close>

definition fitting_request :: "('a, 'u) agent \<Rightarrow> bool \<Rightarrow> (('a, 'u) aworld, (pyval list \<times> pyval list) option) io" where
  "fitting_request ag allow_tools =
     bind_io (project_request ag allow_tools) (\<lambda>request.
     bind_io (request_fits ag request) (\<lambda>fits.
     ret (if fits then Some request else None)))"

definition compact_and_sample ::
  "('a, 'u) agent \<Rightarrow> bool \<Rightarrow> (('a, 'u) aworld, sampling_result option) io" where
  "compact_and_sample ag allow_tools =
     bind_io (compact_once ag) (\<lambda>compacted.
     if \<not> compacted then ret None
     else bind_io (fitting_request ag allow_tools) (\<lambda>r. case r of
         None \<Rightarrow> ret None
       | Some request \<Rightarrow> bind_io (sample_projected ag allow_tools request) (\<lambda>observed. ret (Some observed))))"

definition sample_with_one_compaction ::
  "('a, 'u) agent \<Rightarrow> bool \<Rightarrow> (('a, 'u) aworld, sampling_result option) io" where
  "sample_with_one_compaction ag allow_tools =
     bind_io (fitting_request ag allow_tools) (\<lambda>r. case r of
       None \<Rightarrow> compact_and_sample ag allow_tools
     | Some request \<Rightarrow>
         bind_io (sample_projected ag allow_tools request) (\<lambda>observed.
         if sm_outcome observed \<noteq> ContextOverflow then ret (Some observed)
         else compact_and_sample ag allow_tools))"

subsection \<open>Accepting a response\<close>

definition call_document :: "sampled_tool_call \<Rightarrow> pyval" where
  "call_document c = PDict [(''id'', PStr (sc_id c)), (''type'', PStr (sc_type c)),
     (''function'', PDict [(''name'', PStr (sc_name c)), (''arguments'', PStr (sc_arguments c))])]"

definition assistant_payload :: "string \<Rightarrow> sampling_result \<Rightarrow> bool \<Rightarrow> mapping" where
  "assistant_payload turn_id sampled include_calls =
     [(''turn_id'', PStr turn_id),
      (''content'', if sm_content sampled = [] then PNone else PStr (sm_content sampled)),
      (''reasoning_content'', PStr (sm_reasoning sampled)),
      (''finish_reason'', case sm_finish_reason sampled of None \<Rightarrow> PNone | Some r \<Rightarrow> PStr r),
      (''tool_calls'', PList (if include_calls then map call_document (sm_tool_calls sampled) else [])),
      (''usage'', usage_payload (sm_usage sampled))]"

definition accepted_calls :: "event \<Rightarrow> sampling_result \<Rightarrow> session_state \<Rightarrow> py_error + accepted_call list" where
  "accepted_calls ev sampled s = mapE (\<lambda>call.
     let key = call_key_of (ev_seq ev) (sc_id call)
     in bindE (need (map_of (st_tool_calls s) key) (KeyError key)) (\<lambda>c. Inr (from_tool_call c))) (sm_tool_calls sampled)"

definition accept_assistant ::
  "('a, 'u) agent \<Rightarrow> string \<Rightarrow> sampling_result \<Rightarrow> bool \<Rightarrow> (('a, 'u) aworld, accepted_call list) io" where
  "accept_assistant ag turn_id sampled include_calls =
     bind_io (agent_append ag ''assistant_accepted'' (assistant_payload turn_id sampled include_calls)) (\<lambda>ev.
     if include_calls then bind_io (session (accepted_calls ev sampled)) lift_io else ret [])"

definition accepted_assistant_event :: "int \<Rightarrow> string \<Rightarrow> session_state \<Rightarrow> event option" where
  "accepted_assistant_event expected_seq turn_id s =
     (if st_assistant_events s = [] then None
      else let ev = last (st_assistant_events s)
        in if ev_seq ev \<noteq> expected_seq \<or> get (ev_payload ev) ''turn_id'' \<noteq> PStr turn_id then None else Some ev)"

text \<open>
  Accepting may be interrupted: \<open>None\<close>, with the event, when the response is durable all the
  same; otherwise the interruption goes on.
\<close>

definition accept_guarded ::
  "('a, 'u) agent \<Rightarrow> string \<Rightarrow> sampling_result \<Rightarrow> bool \<Rightarrow> (('a, 'u) aworld, event + accepted_call list) io" where
  "accept_guarded ag turn_id sampled include_calls =
     bind_io (session st_last_seq) (\<lambda>before_accept.
     handle (bind_io (accept_assistant ag turn_id sampled include_calls) (\<lambda>calls. ret (Inr calls)))
       (\<lambda>e. if is_interrupt e then
          Some (bind_io (session (accepted_assistant_event (before_accept + 1) turn_id)) (\<lambda>accepted. case accepted of
            None \<Rightarrow> throw e | Some ev \<Rightarrow> ret (Inl ev)))
        else None))"

subsection \<open>Executing a batch\<close>

definition batch_scheduler :: "('a, 'u) agent \<Rightarrow> ('a, 'u, agent_state) tool_scheduler" where
  "batch_scheduler ag = \<lparr>ts_executor = ag_executor ag, ts_max_parallel = ag_max_parallel ag, ts_close_calls = close ag,
     ts_wait = ag_wait ag, ts_escape = ag_escape ag, ts_program = ag_program ag\<rparr>"

text \<open>\<open>_execute_batch\<close>; \<open>None\<close>: a wait of the scheduler returned without a finished future.\<close>

definition scheduled :: "('a, 'u) agent \<Rightarrow> accepted_call list \<Rightarrow> (('a, 'u) aworld, bool option option) io" where
  "scheduled ag calls =
     handle (bind_io (execute_batch (batch_scheduler ag) calls) (\<lambda>interrupted. ret (Some interrupted)))
       (\<lambda>e. if is_interrupt e then
          Some (bind_io synchronize_state_from_store (\<lambda>_. bind_io (close ag calls) (\<lambda>_. ret None)))
        else case e of ToolExecutorError _ \<Rightarrow> Some (give_up ''tool executor cannot safely continue'')
          | _ \<Rightarrow> None)"

definition execute_accepted :: "('a, 'u) agent \<Rightarrow> accepted_call list \<Rightarrow> (('a, 'u) aworld, bool option) io" where
  "execute_accepted ag calls =
     (let limit = ag_max_calls_per_batch ag in
      bind_io (scheduled ag (take limit calls)) (\<lambda>r. case r of
        None \<Rightarrow> ret (Some True)
      | Some None \<Rightarrow> ret None
      | Some (Some True) \<Rightarrow> bind_io (close ag (drop limit calls)) (\<lambda>_. ret (Some True))
      | Some (Some False) \<Rightarrow>
          bind_io (for_each (\<lambda>call. finish_requested_call ag call BatchLimitExceeded
            ''tool call skipped: batch limit exceeded'') (drop limit calls)) (\<lambda>_. ret (Some False))))"

subsection \<open>The turn\<close>

definition max_steps_fallback :: string where
  "max_steps_fallback = ''Maximum tool steps reached before completion.''"

definition is_text :: "sampling_result \<Rightarrow> bool" where
  "is_text sampled \<longleftrightarrow> sm_content sampled \<noteq> [] \<and> sm_tool_calls sampled = []"

definition finalize_after_limit :: "('a, 'u) agent \<Rightarrow> string \<Rightarrow> (('a, 'u) aworld, turn_result) io" where
  "finalize_after_limit ag turn_id =
     bind_io (sample_with_one_compaction ag False) (\<lambda>observed. case observed of
       None \<Rightarrow> finish ag turn_id TMaxStepsReached max_steps_fallback
         (Some ''maximum tool steps reached; context compaction failed'')
     | Some sampled \<Rightarrow>
         bind_io (if sm_outcome sampled = CompleteText \<and> is_text sampled
           then bind_io (accept_guarded ag turn_id sampled False) (\<lambda>_. ret (sm_content sampled))
           else ret max_steps_fallback) (\<lambda>final_text.
         finish ag turn_id TMaxStepsReached final_text (Some ''maximum tool steps reached'')))"

fun failure_message :: "sampling_outcome \<Rightarrow> (turn_status \<times> string) option" where
  "failure_message LengthExceeded = Some (TFailed, ''model output exceeded the configured length limit'')"
| "failure_message Filtered = Some (TFailed, ''model response was filtered'')"
| "failure_message SamplingProtocolError = Some (TFailed, ''model returned an invalid response'')"
| "failure_message TransportInterrupted = Some (TFailed, ''model transport was interrupted'')"
| "failure_message Aborted = Some (TInterrupted, ''model sampling was aborted'')"
| "failure_message _ = None"

text \<open>
  One tool batch: \<open>Inl\<close> when the turn goes on, \<open>Inr\<close> when it is over (\<open>None\<close> as above).
\<close>

definition tool_step ::
  "('a, 'u) agent \<Rightarrow> string \<Rightarrow> sampling_result \<Rightarrow> (('a, 'u) aworld, unit + turn_result option) io" where
  "tool_step ag turn_id sampled =
     bind_io (accept_guarded ag turn_id sampled True) (\<lambda>accepted.
     bind_io steps (\<lambda>n.
     bind_io (set_steps (Suc n)) (\<lambda>_.
     case accepted of
       Inl ev \<Rightarrow>
         bind_io (bind_io (session (accepted_calls ev sampled)) lift_io) (\<lambda>calls.
         bind_io (close ag calls) (\<lambda>_.
         bind_io (interrupted ag turn_id) (\<lambda>r. ret (Inr (Some r)))))
     | Inr calls \<Rightarrow>
         bind_io (execute_accepted ag calls) (\<lambda>r. case r of
           None \<Rightarrow> ret (Inr None)
         | Some True \<Rightarrow> bind_io (interrupted ag turn_id) (\<lambda>r. ret (Inr (Some r)))
         | Some False \<Rightarrow> ret (Inl ())))))"

definition answer_step ::
  "('a, 'u) agent \<Rightarrow> string \<Rightarrow> sampling_result \<Rightarrow> (('a, 'u) aworld, unit + turn_result option) io" where
  "answer_step ag turn_id sampled =
     bind_io (case sm_outcome sampled of
         ContextOverflow \<Rightarrow> fail ag turn_id ''model context overflow persisted after compaction''
       | CompleteText \<Rightarrow>
           if \<not> is_text sampled then fail ag turn_id ''model returned an empty text response''
           else bind_io (accept_guarded ag turn_id sampled False) (\<lambda>_.
             finish ag turn_id TCompleted (sm_content sampled) None)
       | outcome \<Rightarrow>
           case failure_message outcome of
             Some (status, message) \<Rightarrow> finish ag turn_id status [] (Some message)
           | None \<Rightarrow> fail ag turn_id ''model returned an unsupported sampling outcome'') (\<lambda>r. ret (Inr (Some r)))"

definition sampled_step :: "('a, 'u) agent \<Rightarrow> string \<Rightarrow> (('a, 'u) aworld, unit + turn_result option) io" where
  "sampled_step ag turn_id =
     bind_io (sample_with_one_compaction ag True) (\<lambda>observed. case observed of
       None \<Rightarrow> bind_io (fail ag turn_id ''context compaction failed'') (\<lambda>r. ret (Inr (Some r)))
     | Some sampled \<Rightarrow>
         if sm_outcome sampled \<noteq> ValidToolBatch then answer_step ag turn_id sampled
         else if sm_tool_calls sampled = [] then
           bind_io (fail ag turn_id ''model returned an invalid tool batch'') (\<lambda>r. ret (Inr (Some r)))
         else tool_step ag turn_id sampled)"

text \<open>
  The loop runs while \<open>tool_steps < max_steps\<close>. Each round that goes on has added one step, so
  the argument, the number of steps left, counts the rounds exactly.
\<close>

primrec turn_loop :: "('a, 'u) agent \<Rightarrow> string \<Rightarrow> nat \<Rightarrow> (('a, 'u) aworld, turn_result option) io" where
  "turn_loop ag turn_id 0 = bind_io (finalize_after_limit ag turn_id) (\<lambda>r. ret (Some r))"
| "turn_loop ag turn_id (Suc left) =
     bind_io (sampled_step ag turn_id) (\<lambda>r. case r of Inl _ \<Rightarrow> turn_loop ag turn_id left | Inr end_result \<Rightarrow> ret end_result)"

definition turn_body ::
  "('a, 'u) agent \<Rightarrow> string \<Rightarrow> string option \<Rightarrow> (('a, 'u) aworld, turn_result option) io" where
  "turn_body ag turn_id new_user_input =
     bind_io (case new_user_input of None \<Rightarrow> ret ()
       | Some user_input \<Rightarrow>
           bind_io (agent_append ag ''turn_started'' [(''turn_id'', PStr turn_id), (''user_input'', PStr user_input)]) (\<lambda>_. ret ())) (\<lambda>_.
     bind_io steps (\<lambda>n. turn_loop ag turn_id (ag_max_steps ag - n)))"

definition on_interrupt :: "('a, 'u) agent \<Rightarrow> string \<Rightarrow> py_error \<Rightarrow> (('a, 'u) aworld, turn_result option) io" where
  "on_interrupt ag turn_id e =
     bind_io (persisted turn_id) (\<lambda>p. case p of
       Some r \<Rightarrow> ret (Some r)
     | None \<Rightarrow>
         bind_io (session st_active_turn_id) (\<lambda>active.
         if active \<noteq> Some turn_id then throw e else
         bind_io (close_open_calls_after_interrupt ag turn_id) (\<lambda>_.
         bind_io (interrupted ag turn_id) (\<lambda>r. ret (Some r)))))"

definition on_failure :: "('a, 'u) agent \<Rightarrow> string \<Rightarrow> (('a, 'u) aworld, turn_result option) io" where
  "on_failure ag turn_id =
     bind_io (close_open_calls_after_interrupt ag turn_id) (\<lambda>_.
     bind_io (fail ag turn_id ''agent turn failed'') (\<lambda>r. ret (Some r)))"

definition turn_handler ::
  "('a, 'u) agent \<Rightarrow> string \<Rightarrow> py_error \<Rightarrow> (('a, 'u) aworld, turn_result option) io option" where
  "turn_handler ag turn_id e =
     (if is_interrupt e then Some (on_interrupt ag turn_id e)
      else case e of AgentLoopError _ \<Rightarrow> None | _ \<Rightarrow> Some (on_failure ag turn_id))"

definition drive_turn ::
  "('a, 'u) agent \<Rightarrow> string \<Rightarrow> nat \<Rightarrow> string option \<Rightarrow> (('a, 'u) aworld, turn_result option) io" where
  "drive_turn ag turn_id tool_steps new_user_input =
     bind_io (set_steps tool_steps) (\<lambda>_.
     handle (turn_body ag turn_id new_user_input) (turn_handler ag turn_id))"

definition require_ready :: "session_state \<Rightarrow> py_error + unit" where
  "require_ready s =
     raise_if (st_recovery_blocked s) (AgentLoopError ''session recovery is blocked by an unknown tool outcome'') (
     raise_if (st_active_turn_id s \<noteq> None) (AgentLoopError ''session already has an active turn'') (
     raise_if (st_session_id s = None) (AgentLoopError ''session has not been created'') (Inr ())))"

text \<open>\<open>run_turn\<close>; the fresh turn id is an argument.\<close>

definition run_turn ::
  "('a, 'u) agent \<Rightarrow> string \<Rightarrow> string \<Rightarrow> (('a, 'u) aworld, turn_result option) io" where
  "run_turn ag turn_id user_input =
     bind_io require_usable (\<lambda>_.
     bind_io (bind_io (session require_ready) lift_io) (\<lambda>_.
     drive_turn ag turn_id 0 (Some user_input)))"

definition steps_taken :: "string \<Rightarrow> session_state \<Rightarrow> py_error + nat" where
  "steps_taken turn_id s =
     (let starts = [ev_seq ev. ev \<leftarrow> st_events s, ev_type ev = ''turn_started'', get (ev_payload ev) ''turn_id'' = PStr turn_id]
      in raise_if (starts = []) (ValueError ''max() iterable argument is empty'') (
      Inr (length (filter (\<lambda>ev. ev_type ev = ''assistant_accepted'' \<and> Max (set starts) < ev_seq ev \<and>
        truthy (get_or (ev_payload ev) ''tool_calls'' (PTuple []))) (st_events s)))))"

definition resumable :: "session_state \<Rightarrow> py_error + string \<times> nat" where
  "resumable s =
     raise_if (st_session_id s = None) (AgentLoopError ''session has not been created'') (
     raise_if (st_recovery_blocked s) (AgentLoopError ''session recovery is blocked by an unknown tool outcome'') (
     bindE (need (st_active_turn_id s) (AgentLoopError ''session has no active turn to resume'')) (\<lambda>turn_id.
     raise_if (map_of (st_turns s) turn_id \<noteq> Some TActive) (AgentLoopError ''session has no active turn to resume'') (
     raise_if (\<exists>c \<in> set (vals (st_tool_calls s)). tc_turn_id c = turn_id \<and> tc_status c \<in> {Requested, Started, OutcomeUnknown})
       (AgentLoopError ''active turn has unresolved recovery tool calls'') (
     bindE (steps_taken turn_id s) (\<lambda>tool_steps. Inr (turn_id, tool_steps)))))))"

definition resume_active_turn :: "('a, 'u) agent \<Rightarrow> (('a, 'u) aworld, turn_result option) io" where
  "resume_active_turn ag =
     bind_io require_usable (\<lambda>_.
     bind_io (bind_io (session resumable) lift_io) (\<lambda>(turn_id, tool_steps).
     drive_turn ag turn_id tool_steps None))"

end
