(* ===== verification/SteadyPrograms.thy ===== *)
theory SteadyPrograms
  imports ToolScheduler ExecutorFaults
begin

section \<open>Programs that keep the session steady\<close>

text \<open>
  A client of the executor runs programs over the world and its own state. Such a program is
  steady for a relation \<open>R\<close> on the client's state when it only extends the log and, started in a
  session that is in step with its log, leaves it so, or raises an error of a class \<open>E\<close>, after
  which nothing is promised. The locale proves that steadiness is closed under the combinators,
  that the executor's operations are steady, and that so is a whole batch of the scheduler if
  the client closes calls steadily.
\<close>

definition extends :: "('a, 'u) world \<Rightarrow> ('a, 'u) world \<Rightarrow> bool" where
  "extends w w' \<longleftrightarrow> (\<exists>es. log_of w' = log_of w @ es)"

lemma extends_refl: "extends w w" and extends_trans: "extends u v \<Longrightarrow> extends v w \<Longrightarrow> extends u w"
  by (auto simp: extends_def)

lemma journal_extends: "journal_step w w' \<Longrightarrow> extends w w'"
  by (simp add: journal_step_def extends_def)

definition reaches ::
  "('c \<Rightarrow> 'c \<Rightarrow> bool) \<Rightarrow> ('a, 'u) world \<times> 'c \<Rightarrow> ('a, 'u) world \<times> 'c \<Rightarrow> bool" where
  "reaches R x y \<longleftrightarrow> good (fst y) \<and> evolves (w_state (fst x)) (w_state (fst y)) \<and> R (snd x) (snd y)"

definition steady ::
  "('c \<Rightarrow> 'c \<Rightarrow> bool) \<Rightarrow> (py_error \<Rightarrow> bool) \<Rightarrow> (('a, 'u) world \<times> 'c, 'b) io \<Rightarrow> bool" where
  "steady R E m \<longleftrightarrow> (\<forall>x r y. m x = (r, y) \<longrightarrow> extends (fst x) (fst y) \<and>
     (good (fst x) \<longrightarrow> reaches R x y \<or> (\<exists>e. r = Inl e \<and> E e)))"

text \<open>Giving up: whatever the world, an error of the class is raised.\<close>

definition gives_up :: "(py_error \<Rightarrow> bool) \<Rightarrow> (('a, 'u) world \<times> 'c, 'b) io \<Rightarrow> bool" where
  "gives_up E m \<longleftrightarrow> (\<forall>x. \<exists>e y. m x = (Inl e, y) \<and> E e \<and> extends (fst x) (fst y))"

lemma steadyI:
  assumes "\<And>x r y. m x = (r, y) \<Longrightarrow> extends (fst x) (fst y)"
    "\<And>x r y. m x = (r, y) \<Longrightarrow> good (fst x) \<Longrightarrow> reaches R x y \<or> (\<exists>e. r = Inl e \<and> E e)"
  shows "steady R E m"
  using assms unfolding steady_def by blast

lemma steady_extends: "steady R E m \<Longrightarrow> m x = (r, y) \<Longrightarrow> extends (fst x) (fst y)"
  unfolding steady_def by blast

lemma steadyD: "steady R E m \<Longrightarrow> m x = (r, y) \<Longrightarrow> good (fst x) \<Longrightarrow> reaches R x y \<or> (\<exists>e. r = Inl e \<and> E e)"
  unfolding steady_def by blast

lemma steady_Inr: "steady R E m \<Longrightarrow> m x = (Inr z, y) \<Longrightarrow> good (fst x) \<Longrightarrow> reaches R x y"
  by (drule steadyD) auto

lemma steady_mono: "steady R E m \<Longrightarrow> (\<And>c c'. R c c' \<Longrightarrow> S c c') \<Longrightarrow> (\<And>e. E e \<Longrightarrow> F e) \<Longrightarrow> steady S F m"
  unfolding steady_def reaches_def by blast

lemma gives_up_steady: "gives_up E m \<Longrightarrow> steady R E m"
  unfolding steady_def gives_up_def by (metis Pair_inject)

lemma gives_upD: "gives_up E m \<Longrightarrow> m x = (r, y) \<Longrightarrow> (\<exists>e. r = Inl e \<and> E e) \<and> extends (fst x) (fst y)"
  unfolding gives_up_def by (metis Pair_inject)

text \<open>Sequencing, with a relation for each part.\<close>

lemma steady_seq:
  assumes m: "steady R E m" and f: "\<And>z. steady S E (f z)"
    and RS: "\<And>a b c. R a b \<Longrightarrow> S b c \<Longrightarrow> T a c" and RT: "\<And>a b. R a b \<Longrightarrow> T a b"
  shows "steady T E (bind_io m f)"
proof (rule steadyI)
  fix x r y
  assume run: "bind_io m f x = (r, y)"
  obtain z x1 where z: "m x = (z, x1)" by (cases "m x") blast
  note e1 = steady_extends [OF m z]
  show "extends (fst x) (fst y)"
  proof (cases z)
    case (Inl e)
    with run z e1 show ?thesis by (simp add: bind_io_def)
  next
    case (Inr v)
    with run z have "f v x1 = (r, y)" by (simp add: bind_io_def)
    with extends_trans [OF e1 steady_extends [OF f]] show ?thesis .
  qed
  assume good: "good (fst x)"
  show "reaches T x y \<or> (\<exists>e. r = Inl e \<and> E e)"
  proof (cases z)
    case (Inl e)
    with run z have "r = Inl e" "y = x1" by (simp_all add: bind_io_def)
    then show ?thesis using steadyD [OF m z good] Inl RT unfolding reaches_def by blast
  next
    case (Inr v)
    with run z have "f v x1 = (r, y)" by (simp add: bind_io_def)
    moreover have R: "reaches R x x1" using steady_Inr [OF m z [unfolded Inr] good] .
    ultimately have "reaches S x1 y \<or> (\<exists>e. r = Inl e \<and> E e)"
      using steadyD [OF f] unfolding reaches_def by blast
    then show ?thesis using R RS evolves_trans unfolding reaches_def by blast
  qed
qed

locale steady_order =
  fixes R :: "'c \<Rightarrow> 'c \<Rightarrow> bool"
  assumes same: "R c c" and trans: "R a b \<Longrightarrow> R b c \<Longrightarrow> R a c"
begin

lemma reaches_refl: "good (fst x) \<Longrightarrow> reaches R x x"
  by (simp add: reaches_def same)

lemma reaches_trans: "reaches R x y \<Longrightarrow> reaches R y z \<Longrightarrow> reaches R x z"
  unfolding reaches_def by (blast intro: evolves_trans trans)

lemma steady_pure: "steady R E (ret z)" "steady R E (throw e)" "steady R E (lift_io p)" "steady R E (asks f)"
    "steady R E (\<lambda>x. (g x, x))"
  by (auto intro!: steadyI simp: extends_refl reaches_refl)

lemma steady_bind: "steady R E m \<Longrightarrow> (\<And>z. steady R E (f z)) \<Longrightarrow> steady R E (bind_io m f)"
  by (rule steady_seq [where R = R and S = R and T = R]) (auto intro: trans)

lemma steady_each: "(\<And>z. steady R E (f z)) \<Longrightarrow> steady R E (for_each f zs)"
  by (induction zs) (auto intro: steady_pure steady_bind)

lemma steady_handle:
  assumes m: "steady R F m" and
    h: "\<And>e. F e \<Longrightarrow> (case h e of None \<Rightarrow> E e | Some k \<Rightarrow> gives_up E k)" "\<And>e k. h e = Some k \<Longrightarrow> steady R E k"
  shows "steady R E (handle m h)"
proof (rule steadyI)
  fix x r y
  assume run: "handle m h x = (r, y)"
  obtain z x1 where z: "m x = (z, x1)" by (cases "m x") blast
  note e1 = steady_extends [OF m z]
  consider (through) "r = z" "y = x1" "\<And>e. z = Inl e \<Longrightarrow> h e = None"
    | (handled) e k where "z = Inl e" "h e = Some k" "k x1 = (r, y)"
    using run z by (fastforce simp: handle_def split: sum.splits option.splits)
  then show "extends (fst x) (fst y)"
  proof cases
    case through
    with e1 show ?thesis by simp
  next
    case handled
    from extends_trans [OF e1 steady_extends [OF h(2) [OF handled(2)] handled(3)]] show ?thesis .
  qed
  assume good: "good (fst x)"
  note R = steadyD [OF m z good]
  show "reaches R x y \<or> (\<exists>e. r = Inl e \<and> E e)"
  proof (cases "\<exists>e. z = Inl e \<and> F e")
    case True
    then obtain e where e: "z = Inl e" "F e" by blast
    show ?thesis
    proof (cases "h e")
      case None
      with h(1) [OF e(2)] run z e show ?thesis by (auto simp: handle_def)
    next
      case (Some k)
      with run z e have "k x1 = (r, y)" by (simp add: handle_def)
      with gives_upD [of E k] h(1) [OF e(2)] Some show ?thesis by simp
    qed
  next
    case False
    with R have R1: "reaches R x x1" by blast
    then have g1: "good (fst x1)" by (simp add: reaches_def)
    show ?thesis
    proof (cases "\<exists>e k. z = Inl e \<and> h e = Some k")
      case True
      then obtain e k where k: "z = Inl e" "h e = Some k" by blast
      with run z have "k x1 = (r, y)" by (simp add: handle_def)
      with steadyD [OF h(2) [OF k(2)] this g1] R1 show ?thesis using reaches_trans by blast
    next
      case False
      with run z have "y = x1" by (auto simp: handle_def split: sum.splits option.splits)
      with R1 show ?thesis by simp
    qed
  qed
qed

lemma steady_outside:
  assumes "\<And>w. \<exists>u. snd (m w) = w\<lparr>w_outside := u\<rparr>"
  shows "steady R E (on_world m :: (('a, 'u) world \<times> 'c, 'b) io)"
proof (rule steadyI)
  fix x y :: "('a, 'u) world \<times> 'c" and r :: "py_error + 'b"
  assume run: "on_world m x = (r, y)"
  then obtain u where y: "fst y = fst x\<lparr>w_outside := u\<rparr>" "snd y = snd x"
    using assms [of "fst x"] by (auto simp: on_world_def split: prod.splits)
  then have j: "journal_step (fst x) (fst y)" by (simp add: same_journal)
  then show "extends (fst x) (fst y)" by (rule journal_extends)
  assume "good (fst x)"
  with j y same show "reaches R x y \<or> (\<exists>e. r = Inl e \<and> E e)"
    by (auto simp: reaches_def good_def journal_step_def)
qed

lemma steady_world:
  assumes "moves journal_step m" "faultless m" "\<And>msg. E (ToolExecutorError msg)"
  shows "steady R E (on_world m :: (('a, 'u) world \<times> 'c, 'b) io)"
proof (rule steadyI)
  fix x y :: "('a, 'u) world \<times> 'c" and r :: "py_error + 'b"
  assume run: "on_world m x = (r, y)"
  then have m: "m (fst x) = (r, fst y)" and snd: "snd y = snd x" by (auto simp: on_world_def split: prod.splits)
  note j = movesD [OF assms(1) m]
  then show "extends (fst x) (fst y)" by (rule journal_extends)
  assume g: "good (fst x)"
  show "reaches R x y \<or> (\<exists>e. r = Inl e \<and> E e)"
    using faultlessD [OF assms(2) m] j g assms(3) snd same
    by (auto simp: reaches_def good_def journal_step_def)
qed

end

subsection \<open>The scheduler\<close>

definition programs_keep :: "('a, 'u, 's) tool_scheduler \<Rightarrow> bool" where
  "programs_keep sd \<longleftrightarrow> (\<forall>c d s. moves journal_step (ts_program sd c d s) \<and> faultless (ts_program sd c d s))"

lemma dispatch_parallel_outside: "\<exists>u. snd (dispatch_parallel ex p w) = w\<lparr>w_outside := u\<rparr>"
  by (auto simp: dispatch_parallel_def split: prod.splits)

text \<open>The programs of a group run over the batch, which carries the client's state along.\<close>

locale scheduler_client =
  steady_order R + batch: steady_order "\<lambda>b b' :: ('u, 'c) batch. R (bt_client b) (bt_client b')"
  for R :: "'c \<Rightarrow> 'c \<Rightarrow> bool" and sd :: "('a, 'u, 'c) tool_scheduler" and E :: "py_error \<Rightarrow> bool" +
  assumes close_steady: "steady R E (ts_close_calls sd calls)"
    and fault: "E (ToolExecutorError msg)"
begin

abbreviation (input) steady_batch :: "(py_error \<Rightarrow> bool) \<Rightarrow> (('a, 'u, 'c) bworld, 'b) io \<Rightarrow> bool" where
  "steady_batch F m \<equiv> steady (\<lambda>b b'. R (bt_client b) (bt_client b')) F m"

lemma steady_get: "steady_batch F (batch_get f)"
  by (rule steadyI) (auto simp: batch_get_def extends_refl batch.reaches_refl)

lemma steady_set: "(\<And>b. bt_client (f b) = bt_client b) \<Longrightarrow> steady_batch F (batch_set f)"
  by (rule steadyI) (auto simp: batch_set_def extends_refl reaches_def same)

lemma steady_client:
  assumes "steady R E m" shows "steady_batch E (on_client m)"
proof (rule steadyI)
  fix x y :: "('a, 'u, 'c) bworld" and r
  assume "on_client m x = (r, y)"
  then have m: "m (fst x, bt_client (snd x)) = (r, (fst y, bt_client (snd y)))"
    by (auto simp: on_client_def split: prod.splits)
  from steady_extends [OF assms m] show "extends (fst x) (fst y)" by simp
  assume "good (fst x)"
  with steadyD [OF assms m] show "reaches (\<lambda>b b'. R (bt_client b) (bt_client b')) x y \<or> (\<exists>e. r = Inl e \<and> E e)"
    by (simp add: reaches_def)
qed

lemmas batch_rules = batch.steady_pure batch.steady_bind batch.steady_each steady_get steady_set

lemma steady_prepare: "steady_batch E (on_world (prepare_parallel ex a))"
  by (intro batch.steady_world journal.moves_prepare_parallel faultless_prepare_parallel fault)

lemma steady_commit: "steady_batch E (on_world (commit_parallel ex p r))"
  by (intro batch.steady_world journal.moves_commit_parallel faultless_commit_parallel fault)

lemma steady_dispatch: "steady_batch F (on_world (dispatch_parallel ex p))"
  by (rule batch.steady_outside [OF dispatch_parallel_outside])

lemma steady_commit_slots: "steady_batch E (commit_slots sd slots)"
  by (induction slots rule: commit_slots.induct) (auto intro!: batch_rules steady_commit)

lemma steady_commit_ready: "steady_batch E (commit_ready sd)"
  unfolding commit_ready_def by (intro batch_rules steady_commit_slots)

lemma steady_admit: "steady_batch E (admit sd calls)"
  by (induction calls) (auto intro!: batch_rules steady_prepare)

lemma steady_observe: "steady_batch F (observe sd e)"
  unfolding observe_def by (cases e) (auto intro!: batch_rules steady_dispatch)

lemma steady_wait_first: "steady_batch F (wait_first sd)"
  unfolding wait_first_def
  by (intro batch_rules batch.steady_outside) (auto split: prod.splits)

lemma steady_guarded_wait: "steady_batch F (guarded_wait sd)"
  unfolding guarded_wait_def
  by (rule batch.steady_handle [where F = "\<lambda>_. False"]) (auto intro!: batch_rules steady_wait_first split: if_splits)

lemma steady_drain: "steady_batch E (drain sd fuel)"
  by (induction fuel; subst drain.simps)
     (auto intro!: batch_rules steady_wait_first steady_observe steady_commit_ready)

lemma steady_close_rest: "steady_batch E (close_rest sd calls)"
  unfolding close_rest_def by (intro batch_rules steady_client close_steady)

lemma steady_group_loop: "steady_batch E (group_loop sd fuel calls)"
  by (induction fuel; subst group_loop.simps)
     (auto intro!: batch_rules steady_admit steady_guarded_wait steady_observe steady_commit_ready
       steady_drain steady_close_rest split: option.split)

lemma steady_shut_down: "steady_batch F (shut_down sd)"
  unfolding shut_down_def
  by (auto intro!: batch_rules batch.steady_outside dispatch_parallel_outside)

lemma steady_run_parallel_group: "steady R E (run_parallel_group sd calls)"
proof (rule steadyI)
  fix x y :: "('a, 'u) world \<times> 'c" and r
  let ?x = "(fst x, empty_batch calls (snd x) :: ('u, 'c) batch)"
  assume run: "run_parallel_group sd calls x = (r, y)"
  obtain z x1 where z: "group_loop sd (length calls) calls ?x = (z, x1)"
    by (cases "group_loop sd (length calls) calls ?x") blast
  obtain q x2 where q: "shut_down sd x1 = (q, x2)" by (cases "shut_down sd x1") blast
  from run z q have r: "r = z" "y = (fst x2, bt_client (snd x2))"
    by (auto simp: run_parallel_group_def try_finally_def split: prod.splits)
  note 1 = steady_extends [OF steady_group_loop z] and 2 = steady_extends [OF steady_shut_down [where F = "\<lambda>_. False"] q]
  show "extends (fst x) (fst y)" using extends_trans [OF 1 2] r by simp
  assume "good (fst x)"
  then have "reaches (\<lambda>b b'. R (bt_client b) (bt_client b')) ?x x1 \<or> (\<exists>e. z = Inl e \<and> E e)"
    using steadyD [OF steady_group_loop z] by simp
  then show "reaches R x y \<or> (\<exists>e. r = Inl e \<and> E e)"
  proof
    assume R1: "reaches (\<lambda>b b'. R (bt_client b) (bt_client b')) ?x x1"
    then have "good (fst x1)" by (simp add: reaches_def)
    with steadyD [OF steady_shut_down [where F = "\<lambda>_. False"] q]
    have "reaches (\<lambda>b b'. R (bt_client b) (bt_client b')) x1 x2" by simp
    from batch.reaches_trans [OF R1 this] show ?thesis by (simp add: reaches_def r empty_batch_def)
  qed (simp add: r)
qed

lemma steady_execute:
  assumes "programs_keep sd" shows "steady R E (on_world (execute (ts_escape sd) (ts_program sd) ex a))"
  using assms unfolding programs_keep_def
  by (intro steady_world journal.moves_execute faultless_execute fault) blast+

lemma steady_execute_batch:
  assumes programs: "programs_keep sd" shows "steady R E (execute_batch sd calls)"
proof (induction "length calls" arbitrary: calls rule: less_induct)
  case less
  show ?case
  proof (cases calls)
    case Nil
    then show ?thesis by (simp add: execute_batch.simps steady_pure)
  next
    case (Cons call rest)
    have 1: "steady R E (execute_batch sd rest)" using less Cons by simp
    have 2: "steady R E (execute_batch sd (dropWhile (\<lambda>c. mode_of sd c = Parallel) calls))" if "mode_of sd call \<noteq> Exclusive"
    proof (rule less)
      have "mode_of sd call = Parallel" using that by (cases "mode_of sd call") simp_all
      then show "length (dropWhile (\<lambda>c. mode_of sd c = Parallel) calls) < length calls"
        using Cons length_dropWhile_le [of "\<lambda>c. mode_of sd c = Parallel" rest] by (simp add: less_Suc_eq_le)
    qed
    show ?thesis
      unfolding Cons by (subst execute_batch.simps)
        (use 1 2 Cons in \<open>auto simp: Let_def intro!: steady_pure steady_bind steady_execute programs close_steady
          steady_run_parallel_group split: option.split if_splits\<close>)
  qed
qed

end

end
