(* ===== verification/AgentRun.thy ===== *)
theory AgentRun
  imports Agent SteadyPrograms CompactionRun
begin

section \<open>What a turn leaves behind\<close>

text \<open>
  The operations of the loop are steady for equality on its own state, with \<open>AgentLoopError\<close> as the
  error after which nothing is promised; only the steps of the turn change, by one per tool
  batch. From this and from what the last append of a turn says follows the property: the
  result a turn returns is the one its log records.
\<close>

fun loop_error :: "py_error \<Rightarrow> bool" where
  "loop_error (AgentLoopError m) = True"
| "loop_error _ = False"

fun batch_error :: "py_error \<Rightarrow> bool" where
  "batch_error (AgentLoopError m) = True"
| "batch_error (ToolExecutorError m) = True"
| "batch_error _ = False"

lemma loop_error_batch: "loop_error e \<Longrightarrow> batch_error e"
  by (cases e) simp_all

lemma loop_error_iff: "loop_error e \<longleftrightarrow> (\<exists>m. e = AgentLoopError m)"
  by (cases e) simp_all

interpretation agent: steady_order "(=) :: agent_state \<Rightarrow> agent_state \<Rightarrow> bool"
  by unfold_locales simp_all

subsection \<open>Appending a fact\<close>

lemma give_up_run [simp]: "give_up m (w, a) = (Inl (AgentLoopError m), (w, a\<lparr>as_usable := False\<rparr>))"
  by (simp add: give_up_def)

lemma steady_give_up: "gives_up loop_error (give_up m)" "gives_up batch_error (give_up m)"
  by (simp_all add: gives_up_def give_up_def extends_refl)

lemma good_replay: "good w \<Longrightarrow> replay (log_of w) = Inr (w_state w)"
  by (simp add: good_def consistent_def)

lemma good_snoc:
  assumes "good w" "log_of w' = log_of w @ [ev]" "replay (log_of w') = Inr (w_state w')" "w_usable w' = w_usable w"
  shows "good w' \<and> evolves (w_state w) (w_state w') \<and> apply_event (w_state w) ev = Inr (w_state w')"
proof -
  have a: "apply_event (w_state w) ev = Inr (w_state w')"
    using assms good_replay [OF assms(1)] by (auto simp: replay_snoc succ_simps)
  moreover have "evolves (w_state w) (w_state w')" by (rule apply_event_evolves [OF good_wf [OF assms(1)] a])
  ultimately show ?thesis using assms by (simp add: good_def consistent_def)
qed

lemma synchronize_cases:
  assumes "synchronize_state_from_store (w, a) = (r, (w', a'))"
  obtains (lost) m where "r = Inl (AgentLoopError m)" "w' = w"
  | (replayed) "r = Inr ()" "replay (log_of w) = Inr (w_state w')" "w' = w\<lparr>w_state := w_state w'\<rparr>" "a' = a"
proof (cases "bindE (load_events (w_store w)) replay")
  case (Inl e)
  with assms show ?thesis by (intro lost) (auto simp: synchronize_state_from_store_def)
next
  case (Inr s)
  then have "replay (log_of w) = Inr s" by (auto simp: load_events_def log_of_def succ_simps)
  with assms Inr show ?thesis by (intro replayed) (auto simp: synchronize_state_from_store_def)
qed

lemma steady_synchronize: "steady (=) loop_error synchronize_state_from_store"
proof (rule steadyI)
  fix x r and y :: "('a, 'b) aworld"
  assume run: "synchronize_state_from_store x = (r, y)"
  obtain w a w' a' where p: "x = (w, a)" "y = (w', a')" by (cases x, cases y) blast
  from run[unfolded p] show "extends (fst x) (fst y)"
  proof (cases rule: synchronize_cases)
    case replayed
    then have "log_of w' = log_of w" by (metis log_of_def world.ext_inject world.surjective world.update_convs(2))
    then show ?thesis by (simp add: p extends_def)
  qed (simp add: p extends_refl)
  assume g: "good (fst x)"
  from run[unfolded p] show "reaches (=) x y \<or> (\<exists>e. r = Inl e \<and> loop_error e)"
  proof (cases rule: synchronize_cases)
    case replayed
    have "w_state w' = w_state w" using replayed(2) good_replay [of w] g by (simp add: p)
    then have "w' = w" using replayed(3) by simp
    then show ?thesis using g replayed(4) by (simp add: p agent.reaches_refl)
  qed simp
qed

lemma interrupted_append_cases:
  assumes "interrupted_append p st (append_new utc st i t ty pl oc) = (r, st')"
  obtains (refused) e where "r = Inl e" "ro_events st' = ro_events st"
  | (appended) ev where "r = Inr ev \<or> r = Inl KeyboardInterrupt" "append_new utc st i t ty pl oc = (Inr ev, st')"
proof -
  obtain x st1 where x: "append_new utc st i t ty pl oc = (x, st1)" by (cases "append_new utc st i t ty pl oc")
  show ?thesis
  proof (cases x)
    case (Inl e)
    with x assms append_new_Inl [of utc st i t ty pl oc e st1] show ?thesis
      by (cases p) (auto simp: interrupted_append_def intro: refused)
  next
    case (Inr ev)
    with x assms show ?thesis by (cases p) (auto simp: interrupted_append_def intro: refused appended)
  qed
qed

text \<open>How an append ends, in a session that is in step with its log.\<close>

lemma append_cases:
  assumes run: "agent_append ag ty pl (w, a) = (r, (w', a'))"
  obtains (lost) m where "r = Inl (AgentLoopError m)" "extends w w'"
  | (refused) e where "r = Inl e" "log_of w' = log_of w" "w_state w' = w_state w \<or> replay (log_of w') = Inr (w_state w')"
      "w_usable w' = w_usable w" "a' = a"
  | (interrupted) e ev where "r = Inl e" "log_of w' = log_of w @ [ev]" "replay (log_of w') = Inr (w_state w')"
      "w_usable w' = w_usable w" "a' = a"
  | (appended) ev where "r = Inr ev" "log_of w' = log_of w @ [ev]" "recorded ty pl ev"
      "apply_event (w_state w) ev = Inr (w_state w')" "w_usable w' = w_usable w" "a' = a"
proof -
  let ?n = "int (length (ro_events (w_store w))) + 1"
  obtain i t oc where c: "ex_clock (ag_executor ag) ?n = (i, t, oc)" by (metis prod_cases3)
  obtain x st where x: "interrupted_append (ag_interrupt ag ?n) (w_store w)
      (append_new (ex_iso_utc (ag_executor ag)) (w_store w) i t ty pl oc) = (x, st)"
    by (cases "interrupted_append (ag_interrupt ag ?n) (w_store w)
      (append_new (ex_iso_utc (ag_executor ag)) (w_store w) i t ty pl oc)") blast
  note run = run[unfolded agent_append_def]
  show ?thesis
  proof (cases "as_usable a")
    case False
    then have "require_usable (w, a) = (Inl agent_unusable, (w, a))" by (simp add: require_usable_def)
    with run show ?thesis by (intro lost) (auto simp: bind_io_raise extends_refl)
  next
    case True
    then have u: "require_usable (w, a) = (Inr (), (w, a))" by (simp add: require_usable_def)
    show ?thesis
    proof (cases "candidate_event ag ty pl w")
      case (Inl e)
      with run u show ?thesis by (intro refused [of e]) (auto simp: bind_io_def)
    next
      case cand: (Inr candidate)
      show ?thesis
      proof (cases "reduce_event (w_state w) candidate")
        case (Inl e)
        show ?thesis
        proof (cases "\<exists>m. e = DomainError m")
          case True
          with run u cand Inl show ?thesis by (intro refused [of e]) (auto simp: bind_io_def try_candidate_def)
        next
          case False
          then have "try_candidate candidate (w, a) = give_up ''candidate event could not be reduced'' (w, a)"
            using Inl by (cases e) (auto simp: try_candidate_def)
          with run u cand show ?thesis by (intro lost) (auto simp: bind_io_def extends_refl)
        qed
      next
        case (Inr s)
        then have tried: "try_candidate candidate (w, a) = (Inr (), (w, a))" by (simp add: try_candidate_def)
        let ?w = "w\<lparr>w_store := st\<rparr>"
        from run u cand tried have run2: "bind_io (store_fact ag ty pl) (\<lambda>ev. bind_io (apply_fact ev) (\<lambda>_. ret ev)) (w, a) = (r, (w', a'))"
          by (simp add: bind_io_def)
        from x show ?thesis
        proof (cases rule: interrupted_append_cases)
          case (refused e)
          show ?thesis
          proof (cases "is_interrupt e")
            case False
            then have "store_fact ag ty pl (w, a) = give_up ''rollout store append failed'' (?w, a)"
              using c x refused by (simp add: store_fact_def)
            with run2 refused show ?thesis by (intro lost) (auto simp: bind_io_def extends_def log_of_def)
          next
            case True
            then have s: "store_fact ag ty pl (w, a) = bind_io synchronize_state_from_store (\<lambda>_. throw e) (?w, a)"
              using c x refused by (simp add: store_fact_def)
            obtain z w1 a1 where z: "synchronize_state_from_store (?w, a) = (z, (w1, a1))"
              by (cases "synchronize_state_from_store (?w, a)") auto
            from z show ?thesis
            proof (cases rule: synchronize_cases)
              case (lost m)
              with run2 s z refused show ?thesis
                by (intro that(1) [of m]) (auto simp: bind_io_def extends_def log_of_def)
            next
              case replayed
              then have "log_of w1 = log_of w" "w_usable w1 = w_usable w"
                using refused by (metis log_of_def world.ext_inject world.surjective world.update_convs(1,2))+
              moreover have "r = Inl e" "w' = w1" "a' = a" using run2 s z replayed by (auto simp: bind_io_def)
              moreover have "replay (log_of w1) = Inr (w_state w1)"
                using replayed(2) refused calculation(1) by (simp add: log_of_def)
              ultimately show ?thesis by (intro that(2) [of e]) simp_all
            qed
          qed
        next
          case (appended ev)
          note n = append_new_Inr [OF appended(2)]
          then have rec: "recorded ty pl ev" and log: "log_of ?w = log_of w @ [ev]"
            by (simp_all add: recorded_def log_of_def)
          show ?thesis
          proof (cases "x = Inr ev")
            case True
            then have s: "store_fact ag ty pl (w, a) = (Inr ev, (?w, a))" using c x by (simp add: store_fact_def)
            show ?thesis
            proof (cases "apply_event (w_state w) ev")
              case (Inl es)
              with run2 s log show ?thesis
                by (intro that(1)) (auto simp: bind_io_def apply_fact_def extends_def log_of_def split: prod.splits)
            next
              case (Inr s')
              with run2 s log rec show ?thesis
                by (intro that(4) [of ev]) (auto simp: bind_io_def apply_fact_def log_of_def)
            qed
          next
            case False
            then have "x = Inl KeyboardInterrupt" using appended by simp
            then have s: "store_fact ag ty pl (w, a) =
                bind_io synchronize_state_from_store (\<lambda>_. throw KeyboardInterrupt) (?w, a)"
              using c x by (simp add: store_fact_def)
            obtain z w1 a1 where z: "synchronize_state_from_store (?w, a) = (z, (w1, a1))"
              by (cases "synchronize_state_from_store (?w, a)") auto
            from z show ?thesis
            proof (cases rule: synchronize_cases)
              case (lost m)
              with run2 s z log show ?thesis
                by (intro that(1) [of m]) (auto simp: bind_io_def extends_def)
            next
              case replayed
              then have "log_of w1 = log_of ?w" "w_usable w1 = w_usable w"
                by (metis log_of_def world.ext_inject world.surjective world.update_convs(1,2))+
              moreover have "r = Inl KeyboardInterrupt" "w' = w1" "a' = a" using run2 s z replayed by (auto simp: bind_io_def)
              moreover have "replay (log_of w1) = Inr (w_state w1)"
                using replayed(2) calculation(1) by simp
              ultimately show ?thesis using log by (intro that(3) [of KeyboardInterrupt ev]) simp_all
            qed
          qed
        qed
      qed
    qed
  qed
qed

lemma steady_append: "steady (=) loop_error (agent_append ag ty pl)"
proof (rule steadyI)
  fix x r and y :: "('a, 'b) aworld"
  assume run: "agent_append ag ty pl x = (r, y)"
  obtain w a w' a' where p: "x = (w, a)" "y = (w', a')" by (cases x, cases y) blast
  from run[unfolded p] show "extends (fst x) (fst y)"
    by (cases rule: append_cases) (auto simp: p extends_def)
  assume "good (fst x)"
  then have g: "good w" by (simp add: p)
  from run[unfolded p] show "reaches (=) x y \<or> (\<exists>e. r = Inl e \<and> loop_error e)"
  proof (cases rule: append_cases)
    case (refused e)
    then have "w_state w' = w_state w" using good_replay [OF g] by auto
    with refused g show ?thesis by (simp add: p reaches_def good_def consistent_def)
  next
    case (interrupted e ev)
    with good_snoc [OF g interrupted(2,3,4)] show ?thesis by (simp add: p reaches_def)
  next
    case (appended ev)
    then have "replay (log_of w') = Inr (w_state w')" using good_replay [OF g] by (simp add: replay_snoc)
    with good_snoc [OF g appended(2) this appended(5)] appended show ?thesis by (simp add: p reaches_def)
  qed simp
qed

lemma steady_compact: "steady (=) E (on_world (compact co) :: (('a, 'u) aworld, bool) io)"
proof (rule steadyI)
  fix x y :: "('a, 'u) aworld" and r
  assume run: "on_world (compact co) x = (r, y)"
  obtain w a w' a' where p: "x = (w, a)" "y = (w', a')" by (cases x, cases y) blast
  from run have m: "compact co w = (r, w')" and a: "a' = a" by (auto simp: p on_world_def split: prod.splits)
  have step: "(log_of w' = log_of w \<and> w_state w' = w_state w \<and> w_usable w' = w_usable w) \<or>
    (\<exists>ev. log_of w' = log_of w @ [ev] \<and> apply_event (w_state w) ev = Inr (w_state w') \<and> w_usable w' = w_usable w)"
    using m
  proof (cases rule: compact_cases)
    case (stopped e)
    then show ?thesis by (simp add: log_of_def)
  next
    case (sampled events env draft w1 summary payload)
    note w1 = sample_summary_keeps [OF sampled(4)]
    then have log: "log_of w1 = log_of w" by (simp add: log_of_def)
    have "events = log_of w1" using load_events_log [OF sampled(1)] log by simp
    from sampled(6) this show ?thesis by (cases rule: commit_checkpoint_cases) (use w1 log in auto)
  qed
  then show "extends (fst x) (fst y)" by (auto simp: p extends_def)
  assume "good (fst x)"
  then have g: "good w" by (simp add: p)
  from step show "reaches (=) x y \<or> (\<exists>e. r = Inl e \<and> E e)"
  proof
    assume s: "log_of w' = log_of w \<and> w_state w' = w_state w \<and> w_usable w' = w_usable w"
    then have "good w'" using g by (simp add: good_def consistent_def)
    with s a show ?thesis by (simp add: p reaches_def)
  next
    assume "\<exists>ev. log_of w' = log_of w @ [ev] \<and> apply_event (w_state w) ev = Inr (w_state w') \<and> w_usable w' = w_usable w"
    then obtain ev where s: "log_of w' = log_of w @ [ev]" "apply_event (w_state w) ev = Inr (w_state w')"
      "w_usable w' = w_usable w" by blast
    then have "replay (log_of w') = Inr (w_state w')" using good_replay [OF g] by (simp add: replay_snoc)
    with good_snoc [OF g s(1) this s(3)] a show ?thesis by (simp add: p reaches_def)
  qed
qed

subsection \<open>Every operation of the loop\<close>

lemma steady_session: "steady (=) E (session f)" and steady_steps: "steady (=) E steps"
  and steady_require: "steady (=) E require_usable" and steady_persisted: "steady (=) E (persisted turn_id)"
  and steady_project: "steady (=) E (project_request ag allow)"
  by (auto intro!: steadyI simp: session_def steps_def require_usable_def persisted_def project_request_def
      extends_refl reaches_def)

lemmas agent_rules = agent.steady_pure agent.steady_bind agent.steady_each steady_append steady_session steady_steps
  steady_require steady_persisted steady_project

lemma steady_finish: "steady (=) loop_error (finish ag turn_id st text err)"
  unfolding finish_def by (auto intro!: agent_rules split: option.split)

lemma steady_close: "steady (=) loop_error (close_calls ag k st calls)"
  unfolding close_calls_def state_call_def finish_requested_call_def by (auto intro!: agent_rules)

lemma steady_close_open: "steady (=) loop_error (close_open_calls_after_interrupt ag turn_id)"
  unfolding close_open_calls_after_interrupt_def by (intro agent_rules steady_close)

lemma steady_sample_projected: "steady (=) E (sample_projected ag allow request)"
proof (rule steadyI)
  fix x r and y :: "('a, 'b) aworld"
  assume "sample_projected ag allow request x = (r, y)"
  then have "log_of (fst y) = log_of (fst x) \<and> w_state (fst y) = w_state (fst x) \<and> w_usable (fst y) = w_usable (fst x) \<and> snd y = snd x"
    by (auto simp: sample_projected_def log_of_def split: prod.splits)
  then show "extends (fst x) (fst y)" "good (fst x) \<Longrightarrow> reaches (=) x y \<or> (\<exists>e. r = Inl e \<and> E e)"
    by (auto simp: extends_def reaches_def good_def consistent_def)
qed

lemma steady_compact_once: "steady (=) E (compact_once ag)"
  unfolding compact_once_def
  by (auto intro!: agent_rules agent.steady_handle [where F = "\<lambda>_. False"] steady_compact split: option.split if_splits)

lemma steady_fitting: "steady (=) E (fitting_request ag allow)"
  unfolding fitting_request_def request_fits_def by (auto intro!: agent_rules split: prod.split)

lemma steady_sample: "steady (=) E (sample_with_one_compaction ag allow)"
  unfolding sample_with_one_compaction_def compact_and_sample_def
  by (auto intro!: agent_rules steady_fitting steady_sample_projected steady_compact_once split: option.split)

lemma steady_accept: "steady (=) loop_error (accept_guarded ag turn_id sampled inc)"
  unfolding accept_guarded_def accept_assistant_def
  by (auto intro!: agent_rules agent.steady_handle [where F = loop_error] split: option.split if_splits elim!: loop_error.elims)

text \<open>The scheduler, with the agent as its client.\<close>

interpretation turn: scheduler_client "(=) :: agent_state \<Rightarrow> agent_state \<Rightarrow> bool" "batch_scheduler ag" batch_error
  for ag :: "('a, 'u) agent"
proof (unfold_locales)
  show "steady (=) batch_error (ts_close_calls (batch_scheduler ag) calls)" for calls
    unfolding batch_scheduler_def tool_scheduler.select_convs
    by (rule steady_mono [OF steady_close]) (simp_all add: loop_error_batch)
qed simp_all

lemma steady_scheduled:
  assumes "programs_keep (batch_scheduler ag)" shows "steady (=) loop_error (scheduled ag calls)"
  unfolding scheduled_def
proof (rule agent.steady_handle [where F = batch_error])
  show "steady (=) batch_error (bind_io (execute_batch (batch_scheduler ag) calls) (\<lambda>b. ret (Some b)))"
    by (intro agent_rules turn.steady_execute_batch assms)
next
  fix e
  assume "batch_error e"
  then show "case if is_interrupt e then Some (bind_io synchronize_state_from_store (\<lambda>_. bind_io (close ag calls) (\<lambda>_. ret None)))
      else case e of ToolExecutorError _ \<Rightarrow> Some (give_up ''tool executor cannot safely continue'') | _ \<Rightarrow> None of
      None \<Rightarrow> loop_error e | Some k \<Rightarrow> gives_up loop_error k"
    by (cases e) (simp_all add: steady_give_up)
next
  fix e and k :: "(('a, 'b) aworld, bool option option) io"
  assume "(if is_interrupt e then Some (bind_io synchronize_state_from_store (\<lambda>_. bind_io (close ag calls) (\<lambda>_. ret None)))
      else case e of ToolExecutorError _ \<Rightarrow> Some (give_up ''tool executor cannot safely continue'') | _ \<Rightarrow> None) = Some k"
  then consider "k = bind_io synchronize_state_from_store (\<lambda>_. bind_io (close ag calls) (\<lambda>_. ret None))"
    | "k = give_up ''tool executor cannot safely continue''" by (cases e) (auto split: if_splits)
  then show "steady (=) loop_error k"
  proof cases
    case 1
    show ?thesis unfolding 1 by (intro agent_rules steady_synchronize steady_close)
  next
    case 2
    show ?thesis unfolding 2 by (intro gives_up_steady steady_give_up)
  qed
qed

lemma steady_execute_accepted:
  assumes "programs_keep (batch_scheduler ag)" shows "steady (=) loop_error (execute_accepted ag calls)"
  unfolding execute_accepted_def Let_def finish_requested_call_def
  by (auto intro!: agent_rules steady_scheduled steady_close assms split: option.split bool.split)

subsection \<open>The steps of a turn\<close>

definition more_steps :: "nat \<Rightarrow> agent_state \<Rightarrow> agent_state \<Rightarrow> bool" where
  "more_steps n a a' \<longleftrightarrow> as_usable a' = as_usable a \<and> as_steps a \<le> as_steps a' \<and> as_steps a' \<le> as_steps a + n"

lemma steady_more: "steady (=) E m \<Longrightarrow> steady (more_steps n) E m"
  by (erule steady_mono) (simp_all add: more_steps_def)

lemma steady_set_steps: "steady (more_steps 1) E (bind_io steps (\<lambda>n. bind_io (set_steps (Suc n)) (\<lambda>_. ret ())))"
  by (rule steadyI) (auto simp: bind_io_def steps_def set_steps_def extends_refl reaches_def more_steps_def)

lemma steady_finish_steps:
  "steady (=) loop_error (bind_io (finish ag turn_id st text err) (\<lambda>r. ret (f r)))"
  by (intro agent_rules steady_finish)

lemmas turn_rules = agent_rules steady_finish steady_close steady_accept steady_sample

lemma steady_finalize: "steady (=) loop_error (finalize_after_limit ag turn_id)"
  unfolding finalize_after_limit_def by (auto intro!: turn_rules split: option.split)

lemma bind_assoc: "bind_io (bind_io m f) g = bind_io m (\<lambda>x. bind_io (f x) g)"
  by (auto simp: bind_io_def fun_eq_iff split: prod.splits sum.splits)

lemma steady_tool_step:
  assumes "programs_keep (batch_scheduler ag)" shows "steady (more_steps 1) loop_error (tool_step ag turn_id sampled)"
proof -
  let ?rest = "\<lambda>accepted. case accepted of
       Inl ev \<Rightarrow>
         bind_io (bind_io (session (accepted_calls ev sampled)) lift_io) (\<lambda>calls.
         bind_io (close ag calls) (\<lambda>_.
         bind_io (interrupted ag turn_id) (\<lambda>r. ret (Inr (Some r)))))
     | Inr calls \<Rightarrow>
         bind_io (execute_accepted ag calls) (\<lambda>r. case r of
           None \<Rightarrow> ret (Inr None)
         | Some True \<Rightarrow> bind_io (interrupted ag turn_id) (\<lambda>r. ret (Inr (Some r)))
         | Some False \<Rightarrow> ret (Inl ()))"
  have eq: "tool_step ag turn_id sampled = bind_io (accept_guarded ag turn_id sampled True) (\<lambda>accepted.
     bind_io (bind_io steps (\<lambda>n. bind_io (set_steps (Suc n)) (\<lambda>_. ret ()))) (\<lambda>_. ?rest accepted))"
    by (simp add: tool_step_def bind_assoc)
  have rest: "steady (=) loop_error (?rest accepted)" for accepted
    unfolding interrupted_def
    by (auto intro!: turn_rules steady_execute_accepted assms split: sum.split option.split bool.split)
  have "steady (more_steps 1) loop_error (bind_io (bind_io steps (\<lambda>n. bind_io (set_steps (Suc n)) (\<lambda>_. ret ()))) (\<lambda>_. ?rest accepted))" for accepted
    by (rule steady_seq [OF steady_set_steps rest]) auto
  then show ?thesis unfolding eq
    by (rule steady_seq [OF steady_accept]) (auto simp: more_steps_def)
qed

lemma steady_answer_step: "steady (=) loop_error (answer_step ag turn_id sampled)"
  unfolding answer_step_def fail_def
  by (auto intro!: turn_rules split: sampling_outcome.split option.split)

lemma steady_sampled_step:
  assumes "programs_keep (batch_scheduler ag)" shows "steady (more_steps 1) loop_error (sampled_step ag turn_id)"
  unfolding sampled_step_def fail_def
  by (rule steady_seq [OF steady_sample, where S = "more_steps 1"])
    (auto intro!: steady_more [OF steady_finish_steps] steady_more [OF steady_answer_step] steady_tool_step assms
      simp: more_steps_def simp del: One_nat_def split: option.split)

lemma steady_turn_loop:
  assumes "programs_keep (batch_scheduler ag)" shows "steady (more_steps left) loop_error (turn_loop ag turn_id left)"
proof (induction left)
  case 0
  show ?case by (auto intro!: steady_more agent_rules steady_finalize)
next
  case (Suc left)
  show ?case
    unfolding turn_loop.simps
  proof (rule steady_seq [OF steady_sampled_step [OF assms], where S = "more_steps left"])
    show "steady (more_steps left) loop_error
        (case r of Inl _ \<Rightarrow> turn_loop ag turn_id left | Inr end_result \<Rightarrow> ret end_result)" for r
      using Suc steady_more [OF agent.steady_pure(1)] by (cases r) simp_all
  qed (simp_all add: more_steps_def)
qed

definition steps_within :: "nat \<Rightarrow> agent_state \<Rightarrow> agent_state \<Rightarrow> bool" where
  "steps_within m a a' \<longleftrightarrow> as_usable a' = as_usable a \<and> as_steps a' \<le> max (as_steps a) m"

interpretation steps_bounded: steady_order "steps_within m" for m
  by unfold_locales (auto simp: steps_within_def)

lemma steady_within: "steady (=) E m \<Longrightarrow> steady (steps_within n) E m"
  by (erule steady_mono) (simp_all add: steps_within_def)

lemma steady_turn_body:
  assumes "programs_keep (batch_scheduler ag)"
  shows "steady (steps_within (ag_max_steps ag)) loop_error (turn_body ag turn_id input)"
proof -
  have loop: "steady (steps_within (ag_max_steps ag)) loop_error (bind_io steps (\<lambda>n. turn_loop ag turn_id (ag_max_steps ag - n)))"
  proof (rule steadyI)
    fix x r and y :: "('a, 'b) aworld"
    assume "bind_io steps (\<lambda>n. turn_loop ag turn_id (ag_max_steps ag - n)) x = (r, y)"
    then have run: "turn_loop ag turn_id (ag_max_steps ag - as_steps (snd x)) x = (r, y)"
      by (cases x) (simp add: steps_def bind_asks)
    note s = steady_turn_loop [OF assms]
    from steady_extends [OF s run] show "extends (fst x) (fst y)" .
    assume "good (fst x)"
    from steadyD [OF s run this] show "reaches (steps_within (ag_max_steps ag)) x y \<or> (\<exists>e. r = Inl e \<and> loop_error e)"
      by (auto simp: reaches_def more_steps_def steps_within_def)
  qed
  show ?thesis
    unfolding turn_body_def
    by (intro steps_bounded.steady_bind loop) (auto intro!: steady_within agent_rules split: option.split)
qed

lemma turn_handler_loop: "loop_error e \<Longrightarrow> turn_handler ag turn_id e = None"
  by (cases e) (simp_all add: turn_handler_def)

lemma turn_handler_cases:
  "turn_handler ag turn_id e = Some k \<Longrightarrow> k = on_interrupt ag turn_id e \<or> k = on_failure ag turn_id"
  by (cases e) (auto simp: turn_handler_def split: if_splits)

lemma steady_drive_turn:
  assumes "programs_keep (batch_scheduler ag)"
  shows "steady (steps_within (ag_max_steps ag)) loop_error (handle (turn_body ag turn_id input) (turn_handler ag turn_id))"
proof (rule steps_bounded.steady_handle [OF steady_turn_body [OF assms]])
  fix e
  assume "loop_error e"
  then show "case turn_handler ag turn_id e of None \<Rightarrow> loop_error e | Some k \<Rightarrow> gives_up loop_error k"
    by (simp add: turn_handler_loop)
next
  fix e and k :: "(('a, 'b) aworld, turn_result option) io"
  assume "turn_handler ag turn_id e = Some k"
  moreover have "steady (=) loop_error (on_interrupt ag turn_id e)" "steady (=) loop_error (on_failure ag turn_id)"
    unfolding on_interrupt_def on_failure_def interrupted_def fail_def
    by (auto intro!: turn_rules steady_close_open split: option.split)
  ultimately show "steady (steps_within (ag_max_steps ag)) loop_error k" using turn_handler_cases steady_within by metis
qed

end
