(* ===== verification/ToolSchedulerRun.thy ===== *)
theory ToolSchedulerRun
  imports ToolScheduler ExecutorFaults ExecutorProps
begin

section \<open>A parallel group does what its calls do one after another\<close>

text \<open>
  The reference is \<open>sequential\<close>: prepare, run and commit each call before the next. As long as
  the part of the outside that the tools can see (\<open>view\<close>) does not change, a group that was not
  interrupted records the same starts and the same results, in the same order.
\<close>

definition sequential :: "('a, 'u, 's) tool_scheduler \<Rightarrow> accepted_call list \<Rightarrow> (('a, 'u) world, unit) io" where
  "sequential sd calls = for_each (\<lambda>call.
     bind_io (prepare_parallel (ts_executor sd) call) (\<lambda>p.
     bind_io (dispatch_parallel (ts_executor sd) p) (\<lambda>r.
     commit_parallel (ts_executor sd) p r))) calls"

definition quiet :: "('u \<Rightarrow> 'v) \<Rightarrow> ('a, 'u, 's) tool_scheduler \<Rightarrow> bool" where
  "quiet view sd \<longleftrightarrow>
     (\<forall>n u. view (snd (ts_wait sd n u)) = view u) \<and>
     (\<forall>name spec h args u. resolve (ex_registry (ts_executor sd)) name = Inr spec \<longrightarrow> ts_handler spec = Some h \<longrightarrow>
        view (snd (h args u)) = view u \<and> (\<forall>u'. view u' = view u \<longrightarrow> fst (h args u') = fst (h args u)))"

subsection \<open>One call\<close>

abbreviation parsed :: "('a, 'u) executor \<Rightarrow> accepted_call \<Rightarrow> py_error + mapping" where
  "parsed ex a \<equiv> parse_and_validate (ex_loads ex) (ex_registry ex) (ac_name a) (ac_raw_arguments a)"

definition start_fact :: "('a, 'u) executor \<Rightarrow> accepted_call \<Rightarrow> event \<Rightarrow> bool" where
  "start_fact ex a ev \<longleftrightarrow> (\<exists>args. parsed ex a = Inr args \<and> recorded ''tool_started''
     [(''call_key'', PStr (ac_call_key a)), (''call_id'', PStr (ac_provider_call_id a)),
      (''name'', PStr (ac_name a)), (''arguments'', PDict args)] ev)"

definition prepared_for :: "('a, 'u) executor \<Rightarrow> ('a, 'u) world \<Rightarrow> accepted_call \<Rightarrow> 'u parallel_call \<Rightarrow> bool" where
  "prepared_for ex w0 a p \<longleftrightarrow> parsed ex a = Inr (pp_arguments p) \<and> pp_name p = ac_name a \<and>
     (\<exists>spec. resolve (ex_registry ex) (ac_name a) = Inr spec \<and> ts_handler spec = Some (pp_handler p)) \<and>
     (\<exists>c. map_of (st_tool_calls (w_state w0)) (ac_call_key a) = Some c \<and> tc_call_key (pp_call p) = ac_call_key a)"

definition body_of :: "('a, 'u) executor \<Rightarrow> 'u parallel_call \<Rightarrow> 'u \<Rightarrow> py_error + tool_result" where
  "body_of ex p u = (case bindE (fst (pp_handler p (pp_arguments p) u)) normalize_result of
     Inr r \<Rightarrow> Inr r
   | Inl e \<Rightarrow> if is_interrupt e then error_result (pp_name p) Interrupted ''tool execution interrupted''
       else error_result (pp_name p) Failed (safe_error (ex_secrets ex) ''tool execution failed'' e))"

definition finish_fact :: "('a, 'u) executor \<Rightarrow> ('a, 'u) world \<Rightarrow> accepted_call \<Rightarrow> event \<Rightarrow> bool" where
  "finish_fact ex w0 a ev \<longleftrightarrow> (\<exists>p r c st r'. prepared_for ex w0 a p \<and> body_of ex p (w_outside w0) = Inr r \<and>
     map_of (st_tool_calls (w_state w0)) (ac_call_key a) = Some c \<and> settled_result c r = Inr (st, r') \<and>
     recorded ''tool_finished'' (finish_payload c st r') ev)"

lemma start_fact_payload: "start_fact ex a ev \<Longrightarrow> start_fact ex a ev' \<Longrightarrow> ev_payload ev = ev_payload ev'"
  by (auto simp: start_fact_def recorded_def)

lemma body_of_same: "prepared_for ex w0 a p \<Longrightarrow> prepared_for ex w0 a q \<Longrightarrow> body_of ex p u = body_of ex q u"
  by (auto simp: prepared_for_def body_of_def split: sum.split)

lemma finish_fact_payload:
  assumes "finish_fact ex w0 a ev" "finish_fact ex w0 a ev'" shows "ev_payload ev = ev_payload ev'"
proof -
  from assms obtain p r c st x p' r' st' x' where
    "prepared_for ex w0 a p" "body_of ex p (w_outside w0) = Inr r" "settled_result c r = Inr (st, x)"
    "recorded ''tool_finished'' (finish_payload c st x) ev"
    "prepared_for ex w0 a p'" "body_of ex p' (w_outside w0) = Inr r'" "settled_result c r' = Inr (st', x')"
    "recorded ''tool_finished'' (finish_payload c st' x') ev'"
    unfolding finish_fact_def by fastforce
  with body_of_same [of ex w0 a p p'] show ?thesis by (auto simp: recorded_def)
qed

lemma same_call_finish:
  "same_call c c' \<Longrightarrow> settled_result c' r = settled_result c r \<and> finish_payload c' st x = finish_payload c st x"
  by (auto simp: same_call_def settled_result_def finish_payload_def code_origin_def code_metadata_def split: option.split)

definition since :: "('a, 'u) world \<Rightarrow> ('a, 'u) world \<Rightarrow> bool" where
  "since w0 w \<longleftrightarrow> good w \<and> evolves (w_state w0) (w_state w)"

lemma since_refl: "good w \<Longrightarrow> since w w"
  by (simp add: since_def)

lemma since_step: "moves journal_step m \<Longrightarrow> faultless m \<Longrightarrow> m w = (Inr x, w') \<Longrightarrow> since w0 w \<Longrightarrow> since w0 w'"
  unfolding since_def by (blast dest: good_step intro: evolves_trans)

lemma appended: "append_and_reduce ex ty p w = (Inr (), w') \<Longrightarrow>
    w_outside w' = w_outside w \<and> (\<exists>ev. recorded ty p ev \<and> log_of w' = log_of w @ [ev])"
  by (cases rule: append_and_reduce_cases) auto

lemma prepare_step:
  assumes "prepare_parallel ex a w = (Inr p, w')" "since w0 w" "has_key (st_tool_calls (w_state w0)) (ac_call_key a)"
  shows "since w0 w' \<and> prepared_for ex w0 a p \<and> w_outside w' = w_outside w \<and>
    (\<exists>ev. log_of w' = log_of w @ [ev] \<and> start_fact ex a ev)"
proof -
  from assms(1) obtain c spec args h where c: "require_accepted_identity a (w_state w) = Inr c"
    and s: "resolve (ex_registry ex) (ac_name a) = Inr spec" "parsed ex a = Inr args" "ts_handler spec = Some h"
    and p: "p = \<lparr>pp_call = c, pp_name = ac_name a, pp_arguments = args, pp_handler = h\<rparr>"
    and ap: "append_and_reduce ex ''tool_started''
       [(''call_key'', PStr (ac_call_key a)), (''call_id'', PStr (ac_provider_call_id a)),
        (''name'', PStr (ac_name a)), (''arguments'', PDict args)] w = (Inr (), w')"
    by (auto simp: prepare_parallel_def bind_asks io_run need_Inr_iff split: if_splits)
  have "tc_call_key c = ac_call_key a"
    using identityD [OF c] good_wf assms(2) by (auto simp: since_def wf_state_def calls_wf_def)
  then have "prepared_for ex w0 a p" using assms(3) s p by (auto simp: prepared_for_def has_key_def)
  moreover have "since w0 w'"
    by (rule since_step [OF journal.moves_prepare_parallel faultless_prepare_parallel assms(1,2)])
  ultimately show ?thesis using appended [OF ap] s(2) by (auto simp: start_fact_def)
qed

lemma dispatch_step:
  assumes "dispatch_parallel ex p w = (Inr r, w')"
  shows "body_of ex p (w_outside w) = Inr r \<and> w' = w\<lparr>w_outside := snd (pp_handler p (pp_arguments p) (w_outside w))\<rparr>"
  using assms by (auto simp: dispatch_parallel_def body_of_def split: prod.splits)

lemma since_outside: "since w0 w \<Longrightarrow> since w0 (w\<lparr>w_outside := u\<rparr>)"
  by (auto simp: since_def good_def consistent_def log_of_def)

lemma quiet_body:
  assumes "quiet view sd" "prepared_for (ts_executor sd) w0 a p" "view u' = view u"
  shows "body_of (ts_executor sd) p u' = body_of (ts_executor sd) p u"
    "view (snd (pp_handler p (pp_arguments p) u)) = view u"
proof -
  from assms(2) obtain spec where spec: "resolve (ex_registry (ts_executor sd)) (ac_name a) = Inr spec"
    "ts_handler spec = Some (pp_handler p)" by (auto simp: prepared_for_def)
  with assms(1) have q: "view (snd (pp_handler p (pp_arguments p) u)) = view u"
    "\<forall>u'. view u' = view u \<longrightarrow> fst (pp_handler p (pp_arguments p) u') = fst (pp_handler p (pp_arguments p) u)"
    unfolding quiet_def by blast+
  then show "view (snd (pp_handler p (pp_arguments p) u)) = view u" by blast
  from q(2) assms(3) have "fst (pp_handler p (pp_arguments p) u') = fst (pp_handler p (pp_arguments p) u)" by blast
  then show "body_of (ts_executor sd) p u' = body_of (ts_executor sd) p u" by (simp add: body_of_def)
qed

lemma commit_step:
  assumes "commit_parallel ex p r w = (Inr (), w')" "since w0 w" "good w0" "prepared_for ex w0 a p"
    "body_of ex p (w_outside w0) = Inr r"
  shows "since w0 w' \<and> w_outside w' = w_outside w \<and> (\<exists>ev. log_of w' = log_of w @ [ev] \<and> finish_fact ex w0 a ev)"
proof -
  from assms(1) obtain c where c: "map_of (st_tool_calls (w_state w)) (tc_call_key (pp_call p)) = Some c"
    and f: "finish_started ex c r w = (Inr (), w')"
    by (auto simp: commit_parallel_def bind_asks split: option.splits if_splits)
  from f obtain st x where s: "settled_result c r = Inr (st, x)"
    and ap: "append_and_reduce ex ''tool_finished'' (finish_payload c st x) w = (Inr (), w')"
    by (auto simp: finish_started_def io_run)
  from assms(4) obtain c0 where c0: "map_of (st_tool_calls (w_state w0)) (ac_call_key a) = Some c0"
      "tc_call_key (pp_call p) = ac_call_key a" by (auto simp: prepared_for_def)
  have "same_call c0 c" using assms(2) c c0 unfolding since_def evolves_def call_evolves_def by fastforce
  note same = same_call_finish [OF this]
  have "since w0 w'" by (rule since_step [OF journal.moves_commit_parallel faultless_commit_parallel assms(1,2)])
  moreover obtain ev where "recorded ''tool_finished'' (finish_payload c st x) ev" "log_of w' = log_of w @ [ev]"
    "w_outside w' = w_outside w" using appended [OF ap] by blast
  moreover from this have "finish_fact ex w0 a ev"
    unfolding finish_fact_def using assms(4,5) c0(1) s same by fastforce
  ultimately show ?thesis by blast
qed

subsection \<open>The facts recorded since the start\<close>

definition recorded_since ::
  "('a, 'u) executor \<Rightarrow> ('a, 'u) world \<Rightarrow> ('a, 'u) world \<Rightarrow> accepted_call list \<Rightarrow> accepted_call list \<Rightarrow> bool" where
  "recorded_since ex w0 w started finished \<longleftrightarrow> (\<exists>es. log_of w = log_of w0 @ es \<and>
     set (map ev_type es) \<subseteq> {''tool_started'', ''tool_finished''} \<and>
     list_all2 (start_fact ex) started (filter (\<lambda>ev. ev_type ev = ''tool_started'') es) \<and>
     list_all2 (finish_fact ex w0) finished (filter (\<lambda>ev. ev_type ev = ''tool_finished'') es))"

lemma fact_types: "start_fact ex a ev \<Longrightarrow> ev_type ev = ''tool_started''" "finish_fact ex w0 a ev \<Longrightarrow> ev_type ev = ''tool_finished''"
  by (auto simp: start_fact_def finish_fact_def recorded_def)

lemma recorded_refl: "recorded_since ex w w [] []"
  by (simp add: recorded_since_def)

lemma recorded_start:
  assumes "recorded_since ex w0 w S F" "log_of w' = log_of w @ [ev]" "start_fact ex a ev"
  shows "recorded_since ex w0 w' (S @ [a]) F"
proof -
  from assms(1) obtain es where "log_of w = log_of w0 @ es" "set (map ev_type es) \<subseteq> {''tool_started'', ''tool_finished''}"
    "list_all2 (start_fact ex) S (filter (\<lambda>ev. ev_type ev = ''tool_started'') es)"
    "list_all2 (finish_fact ex w0) F (filter (\<lambda>ev. ev_type ev = ''tool_finished'') es)" by (auto simp: recorded_since_def)
  then show ?thesis unfolding recorded_since_def using assms(2,3) fact_types(1) [OF assms(3)]
    by (intro exI [of _ "es @ [ev]"]) (simp add: list_all2_appendI)
qed

lemma recorded_finish:
  assumes "recorded_since ex w0 w S F" "log_of w' = log_of w @ [ev]" "finish_fact ex w0 a ev"
  shows "recorded_since ex w0 w' S (F @ [a])"
proof -
  from assms(1) obtain es where "log_of w = log_of w0 @ es" "set (map ev_type es) \<subseteq> {''tool_started'', ''tool_finished''}"
    "list_all2 (start_fact ex) S (filter (\<lambda>ev. ev_type ev = ''tool_started'') es)"
    "list_all2 (finish_fact ex w0) F (filter (\<lambda>ev. ev_type ev = ''tool_finished'') es)" by (auto simp: recorded_since_def)
  then show ?thesis unfolding recorded_since_def using assms(2,3) fact_types(2) [OF assms(3)]
    by (intro exI [of _ "es @ [ev]"]) (simp add: list_all2_appendI)
qed

lemma recorded_same: "recorded_since ex w0 w S F \<Longrightarrow> log_of w' = log_of w \<Longrightarrow> recorded_since ex w0 w' S F"
  by (simp add: recorded_since_def)

text \<open>The payloads of the facts of one type since the start.\<close>

definition facts_since :: "('a, 'u) world \<Rightarrow> string \<Rightarrow> ('a, 'u) world \<Rightarrow> mapping list" where
  "facts_since w0 ty w = map ev_payload (filter (\<lambda>ev. ev_type ev = ty) (drop (length (log_of w0)) (log_of w)))"

lemma same_payloads:
  assumes "list_all2 P xs es" "list_all2 P xs es'" "\<And>a ev ev'. P a ev \<Longrightarrow> P a ev' \<Longrightarrow> ev_payload ev = ev_payload ev'"
  shows "map ev_payload es = map ev_payload es'"
proof (rule nth_equalityI)
  show "length (map ev_payload es) = length (map ev_payload es')" using assms(1,2) by (simp add: list_all2_lengthD [symmetric])
  fix i assume "i < length (map ev_payload es)"
  then have i: "i < length xs" using assms(1) by (simp add: list_all2_lengthD)
  then have "ev_payload (es ! i) = ev_payload (es' ! i)"
    by (intro assms(3) [of "xs ! i"] list_all2_nthD [OF assms(1)] list_all2_nthD [OF assms(2)])
  then show "map ev_payload es ! i = map ev_payload es' ! i"
    using i list_all2_lengthD [OF assms(1)] list_all2_lengthD [OF assms(2)] by simp
qed

lemma recorded_facts:
  assumes "recorded_since ex w0 w S F" "recorded_since ex w0 w' S F"
  shows "facts_since w0 ''tool_started'' w = facts_since w0 ''tool_started'' w'"
    "facts_since w0 ''tool_finished'' w = facts_since w0 ''tool_finished'' w'"
proof -
  from assms(1) obtain es where 1: "log_of w = log_of w0 @ es"
      "list_all2 (start_fact ex) S (filter (\<lambda>ev. ev_type ev = ''tool_started'') es)"
      "list_all2 (finish_fact ex w0) F (filter (\<lambda>ev. ev_type ev = ''tool_finished'') es)"
    unfolding recorded_since_def by blast
  from assms(2) obtain es' where 2: "log_of w' = log_of w0 @ es'"
      "list_all2 (start_fact ex) S (filter (\<lambda>ev. ev_type ev = ''tool_started'') es')"
      "list_all2 (finish_fact ex w0) F (filter (\<lambda>ev. ev_type ev = ''tool_finished'') es')"
    unfolding recorded_since_def by blast
  note e = 1(1) 2(1) and s = 1(2) 2(2) and f = 1(3) 2(3)
  from same_payloads [OF s start_fact_payload] show "facts_since w0 ''tool_started'' w = facts_since w0 ''tool_started'' w'"
    by (simp add: facts_since_def e)
  from same_payloads [OF f finish_fact_payload] show "facts_since w0 ''tool_finished'' w = facts_since w0 ''tool_finished'' w'"
    by (simp add: facts_since_def e)
qed

subsection \<open>The reference\<close>

lemma sequential_records:
  assumes "sequential sd rest w = (Inr (), w')" "since w0 w" "good w0" "quiet view sd" "view (w_outside w) = view (w_outside w0)"
    "\<forall>a \<in> set rest. has_key (st_tool_calls (w_state w0)) (ac_call_key a)"
    "recorded_since (ts_executor sd) w0 w before before"
  shows "recorded_since (ts_executor sd) w0 w' (before @ rest) (before @ rest)"
  using assms(1,2,5,6,7)
proof (induction rest arbitrary: w before)
  case Nil
  then show ?case by (simp add: sequential_def)
next
  case (Cons a rest)
  let ?ex = "ts_executor sd"
  from Cons.prems(1) obtain p w1 r w2 w3 where p: "prepare_parallel ?ex a w = (Inr p, w1)"
    and r: "dispatch_parallel ?ex p w1 = (Inr r, w2)" and c: "commit_parallel ?ex p r w2 = (Inr (), w3)"
    and rec: "sequential sd rest w3 = (Inr (), w')"
    by (auto simp: sequential_def bind_io_Inr)
  obtain ev1 where 1: "since w0 w1" "prepared_for ?ex w0 a p" "w_outside w1 = w_outside w"
      "log_of w1 = log_of w @ [ev1]" "start_fact ?ex a ev1"
    using prepare_step [OF p Cons.prems(2)] Cons.prems(4) by auto
  have 2: "body_of ?ex p (w_outside w1) = Inr r" "w2 = w1\<lparr>w_outside := snd (pp_handler p (pp_arguments p) (w_outside w1))\<rparr>"
    using dispatch_step [OF r] by auto
  have v1: "view (w_outside w1) = view (w_outside w0)" using 1(3) Cons.prems(3) by simp
  have "body_of ?ex p (w_outside w0) = Inr r" using quiet_body(1) [OF assms(4) 1(2) v1] 2(1) by simp
  moreover have "since w0 w2" unfolding 2(2) by (rule since_outside [OF 1(1)])
  ultimately obtain ev2 where 3: "since w0 w3" "w_outside w3 = w_outside w2" "log_of w3 = log_of w2 @ [ev2]" "finish_fact ?ex w0 a ev2"
    using commit_step [OF c _ assms(3) 1(2)] by blast
  have log2: "log_of w2 = log_of w1" by (simp add: 2(2) log_of_def)
  have "recorded_since ?ex w0 w1 (before @ [a]) before" by (rule recorded_start [OF Cons.prems(5) 1(4,5)])
  then have "recorded_since ?ex w0 w3 (before @ [a]) (before @ [a])"
    using recorded_finish recorded_same [OF _ log2] 3(3,4) by blast
  moreover have "view (w_outside w3) = view (w_outside w0)"
    using quiet_body(2) [OF assms(4) 1(2) refl, of "w_outside w1"] v1 3(2) 2(2) by simp
  ultimately show ?case using Cons.IH [OF rec 3(1), of "before @ [a]"] Cons.prems(4) by simp
qed

end
