(* ===== verification/ToolGroupRun.thy ===== *)
theory ToolGroupRun
  imports ToolSchedulerRun
begin

section \<open>The invariant of a parallel group\<close>

text \<open>
  Between two steps of the group, calls before \<open>next_to_commit\<close> are committed, calls before
  \<open>next_to_start\<close> are started, and of the calls in between each is in flight or in its slot.
\<close>

definition in_group ::
  "('u \<Rightarrow> 'v) \<Rightarrow> ('a, 'u) executor \<Rightarrow> ('a, 'u) world \<Rightarrow> accepted_call list \<Rightarrow> ('a, 'u, 's) bworld \<Rightarrow> bool" where
  "in_group view ex w0 calls = (\<lambda>(w, b).
     since w0 w \<and> view (w_outside w) = view (w_outside w0) \<and>
     recorded_since ex w0 w (take (bt_next_to_start b) calls) (take (bt_next_to_commit b) calls) \<and>
     bt_next_to_commit b \<le> bt_next_to_start b \<and> bt_next_to_start b \<le> length calls \<and>
     length (bt_slots b) = length calls \<and> distinct (map fst (bt_in_flight b)) \<and>
     (\<forall>(i, p) \<in> set (bt_in_flight b). bt_next_to_commit b \<le> i \<and> i < bt_next_to_start b \<and> bt_slots b ! i = None \<and>
        prepared_for ex w0 (calls ! i) p) \<and>
     (\<forall>i p r. i < length calls \<longrightarrow> bt_slots b ! i = Some (p, r) \<longrightarrow> i < bt_next_to_start b \<and>
        prepared_for ex w0 (calls ! i) p \<and> body_of ex p (w_outside w0) = Inr r) \<and>
     (\<forall>i. bt_next_to_commit b \<le> i \<longrightarrow> i < bt_next_to_start b \<longrightarrow> bt_slots b ! i = None \<longrightarrow> i \<in> fst ` set (bt_in_flight b)))"

lemma batch_get_run [simp]: "batch_get f (w, b) = (Inr (f b), (w, b))"
  by (simp add: batch_get_def)

lemma batch_set_run [simp]: "batch_set f (w, b) = (Inr (), (w, f b))"
  by (simp add: batch_set_def)

lemma on_world_run: "on_world m (w, b) = (r, w', b') \<longleftrightarrow> m w = (r, w') \<and> b' = b"
  by (auto simp: on_world_def split: prod.splits)

lemma admit_keeps:
  assumes "admit sd rest (w, b) = (Inr (), w', b')" "in_group view (ts_executor sd) w0 calls (w, b)"
    "rest = drop (bt_next_to_start b) calls" "\<forall>a \<in> set calls. has_key (st_tool_calls (w_state w0)) (ac_call_key a)"
    "0 < ts_max_parallel sd"
  shows "in_group view (ts_executor sd) w0 calls (w', b') \<and> bt_slots b' = bt_slots b \<and>
    bt_next_to_commit b' = bt_next_to_commit b \<and> (bt_in_flight b' \<noteq> [] \<or> bt_next_to_start b' = length calls)"
  using assms(1-3)
proof (induction rest arbitrary: w b)
  case Nil
  then show ?case by (auto simp: in_group_def)
next
  case (Cons call rest)
  show ?case
  proof (cases "length (bt_in_flight b) < ts_max_parallel sd")
    case False
    with Cons.prems(1) have "w' = w \<and> b' = b" by (simp add: bind_io_def)
    with False Cons.prems(2) assms(5) show ?thesis by auto
  next
    case True
    let ?ex = "ts_executor sd" and ?s = "bt_next_to_start b"
    from Cons.prems(1) True obtain p w1 where p: "prepare_parallel ?ex call w = (Inr p, w1)"
      and rec: "admit sd rest (w1, b\<lparr>bt_in_flight := bt_in_flight b @ [(?s, p)], bt_next_to_start := Suc ?s\<rparr>) = (Inr (), w', b')"
      by (auto simp: bind_io_Inr on_world_run)
    note g = Cons.prems(2)
    have s: "?s < length calls" "call = calls ! ?s" "rest = drop (Suc ?s) calls"
      using Cons.prems(3) by (metis drop_all list.distinct(1) not_less, metis hd_drop_conv_nth list.sel(1) drop_all list.distinct(1) not_less, metis drop_Suc list.sel(3) tl_drop)
    have "since w0 w" using g by (simp add: in_group_def)
    from prepare_step [OF p this] assms(4) s obtain ev where 1: "since w0 w1" "prepared_for ?ex w0 call p" "w_outside w1 = w_outside w"
      "log_of w1 = log_of w @ [ev]" "start_fact ?ex call ev" by auto
    let ?b = "b\<lparr>bt_in_flight := bt_in_flight b @ [(?s, p)], bt_next_to_start := Suc ?s\<rparr>"
    have "recorded_since ?ex w0 w1 (take ?s calls @ [call]) (take (bt_next_to_commit b) calls)"
      using g by (intro recorded_start [OF _ 1(4,5)]) (simp add: in_group_def)
    then have "recorded_since ?ex w0 w1 (take (Suc ?s) calls) (take (bt_next_to_commit b) calls)"
      using s by (simp add: take_Suc_conv_app_nth)
    moreover have "bt_slots b ! ?s = None" using g s(1)
      by (cases "bt_slots b ! ?s") (auto simp: in_group_def)
    moreover have "?s \<notin> fst ` set (bt_in_flight b)" using g by (auto simp: in_group_def)
    ultimately have "in_group view ?ex w0 calls (w1, ?b)"
      using g 1(1-3) s by (auto simp: in_group_def less_Suc_eq)
    with Cons.IH [OF rec this] s True show ?thesis by auto
  qed
qed

lemma observe_keeps:
  assumes "observe sd (i, p) (w, b) = (Inr (), w', b')" "in_group view (ts_executor sd) w0 calls (w, b)"
    "(i, p) \<in> set (bt_in_flight b)" "quiet view sd"
  shows "in_group view (ts_executor sd) w0 calls (w', b') \<and> log_of w' = log_of w \<and>
    bt_in_flight b' = filter (\<lambda>e. fst e \<noteq> i) (bt_in_flight b) \<and> (\<exists>x. bt_slots b' = (bt_slots b)[i := Some x]) \<and>
    bt_next_to_commit b' = bt_next_to_commit b \<and> bt_next_to_start b' = bt_next_to_start b"
proof -
  let ?ex = "ts_executor sd"
  from assms(1) obtain r w1 where d: "dispatch_parallel ?ex p w = (Inr r, w1)" and w': "w' = w1"
    and b': "b' = b\<lparr>bt_in_flight := filter (\<lambda>e. fst e \<noteq> i) (bt_in_flight b), bt_slots := (bt_slots b)[i := Some (p, r)]\<rparr>"
    by (auto simp: observe_def bind_io_Inr on_world_run)
  note g = assms(2)[unfolded in_group_def prod.case]
  from g assms(3) have p: "bt_next_to_commit b \<le> i" "i < bt_next_to_start b" "bt_slots b ! i = None" "prepared_for ?ex w0 (calls ! i) p"
    by auto
  from dispatch_step [OF d] have r: "body_of ?ex p (w_outside w) = Inr r"
    and w1: "w1 = w\<lparr>w_outside := snd (pp_handler p (pp_arguments p) (w_outside w))\<rparr>" by auto
  have v: "view (w_outside w) = view (w_outside w0)" using g by simp
  have r0: "body_of ?ex p (w_outside w0) = Inr r" using quiet_body(1) [OF assms(4) p(4) v] r by simp
  have "since w0 w1" using g unfolding w1 by (intro since_outside) simp
  moreover have "view (w_outside w1) = view (w_outside w0)" using quiet_body(2) [OF assms(4) p(4) refl] v by (simp add: w1)
  moreover have log: "log_of w1 = log_of w" by (simp add: w1 log_of_def)
  moreover have "distinct (map fst (filter (\<lambda>e. fst e \<noteq> i) (bt_in_flight b)))" using g distinct_map_filter by blast
  moreover have "i < length calls" using p(2) g by simp
  ultimately have "in_group view ?ex w0 calls (w1, b')"
    using g p r0 by (auto simp: in_group_def b' nth_list_update recorded_since_def)
  with log show ?thesis by (auto simp: w' b')
qed

lemma observe_all_keeps:
  assumes "for_each (observe sd) es (w, b) = (Inr (), w', b')" "in_group view (ts_executor sd) w0 calls (w, b)"
    "set es \<subseteq> set (bt_in_flight b)" "distinct (map fst es)" "quiet view sd"
  shows "in_group view (ts_executor sd) w0 calls (w', b') \<and> log_of w' = log_of w \<and>
    bt_in_flight b' = filter (\<lambda>e. fst e \<notin> fst ` set es) (bt_in_flight b) \<and>
    bt_next_to_commit b' = bt_next_to_commit b \<and> bt_next_to_start b' = bt_next_to_start b"
  using assms(1-4)
proof (induction es arbitrary: w b)
  case Nil
  then show ?case by simp
next
  case (Cons e es)
  obtain i p where e: "e = (i, p)" by (cases e)
  from Cons.prems(1) obtain w1 b1 where o: "observe sd (i, p) (w, b) = (Inr (), w1, b1)"
    and rest: "for_each (observe sd) es (w1, b1) = (Inr (), w', b')" by (auto simp: bind_io_Inr e)
  have "(i, p) \<in> set (bt_in_flight b)" using Cons.prems(3) e by simp
  note o = observe_keeps [OF o Cons.prems(2) this assms(5)]
  have "set es \<subseteq> set (bt_in_flight b1)" using o Cons.prems(3,4) e by (auto simp: image_iff)
  with Cons.IH [OF rest] o Cons.prems(4) e show ?case by (auto simp: conj_commute intro!: filter_cong)
qed

lemma commit_slots_keeps:
  assumes "commit_slots sd slots (w, b) = (Inr x, w', b')" "in_group view (ts_executor sd) w0 calls (w, b)"
    "slots = drop (bt_next_to_commit b) (bt_slots b)" "good w0"
  shows "in_group view (ts_executor sd) w0 calls (w', b') \<and> bt_in_flight b' = bt_in_flight b \<and> bt_slots b' = bt_slots b \<and>
    bt_next_to_start b' = bt_next_to_start b \<and> w_outside w' = w_outside w \<and>
    (bt_next_to_commit b' = length calls \<or> bt_slots b ! bt_next_to_commit b' = None)"
  using assms(1-3)
proof (induction slots arbitrary: w b x)
  case Nil
  then show ?case by (auto simp: in_group_def)
next
  case (Cons slot slots)
  let ?ex = "ts_executor sd" and ?c = "bt_next_to_commit b"
  note g = Cons.prems(2)[unfolded in_group_def prod.case]
  have c: "?c < length (bt_slots b)" "bt_slots b ! ?c = slot" "slots = drop (Suc ?c) (bt_slots b)"
    using Cons.prems(3) by (metis drop_all list.distinct(1) not_less, metis hd_drop_conv_nth list.sel(1) drop_all list.distinct(1) not_less, metis drop_Suc list.sel(3) tl_drop)
  show ?case
  proof (cases slot)
    case None
    with Cons.prems c show ?thesis by auto
  next
    case (Some pr)
    obtain p r where pr: "pr = (p, r)" by (cases pr)
    from Cons.prems(1) Some pr obtain w1 y where k: "commit_parallel ?ex p r w = (Inr (), w1)"
      and rest: "commit_slots sd slots (w1, b\<lparr>bt_next_to_commit := Suc ?c\<rparr>) = (Inr y, w', b')"
      by (auto simp: bind_io_Inr on_world_run)
    from g c Some pr have s: "?c < bt_next_to_start b" "prepared_for ?ex w0 (calls ! ?c) p" "body_of ?ex p (w_outside w0) = Inr r" by auto
    from g have "since w0 w" by simp
    from commit_step [OF k this assms(4) s(2,3)] obtain ev where 1: "since w0 w1" "w_outside w1 = w_outside w"
      "log_of w1 = log_of w @ [ev]" "finish_fact ?ex w0 (calls ! ?c) ev" by blast
    have "recorded_since ?ex w0 w1 (take (bt_next_to_start b) calls) (take ?c calls @ [calls ! ?c])"
      using g by (intro recorded_finish [OF _ 1(3,4)]) simp
    then have "recorded_since ?ex w0 w1 (take (bt_next_to_start b) calls) (take (Suc ?c) calls)"
      using g c(1) by (simp add: take_Suc_conv_app_nth)
    moreover have "Suc ?c \<le> i" if "(i, q) \<in> set (bt_in_flight b)" for i q
      using that g c Some by (cases "i = ?c") force+
    ultimately have "in_group view ?ex w0 calls (w1, b\<lparr>bt_next_to_commit := Suc ?c\<rparr>)"
      using g 1(1,2) s by (auto simp: in_group_def)
    with Cons.IH [OF rest this] c(3) 1(2) show ?thesis by simp
  qed
qed

lemma in_group_outside:
  assumes "in_group view ex w0 calls (w, b)" "view u = view (w_outside w)"
  shows "in_group view ex w0 calls (w\<lparr>w_outside := u\<rparr>, b)"
  using assms since_outside [of w0 w u] by (auto simp: in_group_def recorded_since_def log_of_def)

lemma wait_first_run:
  "wait_first sd (w, b) = (case ts_wait sd (length (bt_in_flight b)) (w_outside w) of
     (Inl e, u) \<Rightarrow> (Inl e, (w\<lparr>w_outside := u\<rparr>, b))
   | (Inr ns, u) \<Rightarrow> (Inr (nths (bt_in_flight b) (set ns)), (w\<lparr>w_outside := u\<rparr>, b)))"
  by (simp add: wait_first_def bind_io_def on_world_def split: prod.split sum.split)

lemma wait_first_keeps:
  assumes "wait_first sd (w, b) = (Inr es, w', b')" "in_group view (ts_executor sd) w0 calls (w, b)" "quiet view sd"
  shows "in_group view (ts_executor sd) w0 calls (w', b') \<and> b' = b \<and> set es \<subseteq> set (bt_in_flight b) \<and> distinct (map fst es) \<and>
    (\<exists>ns u. ts_wait sd (length (bt_in_flight b)) (w_outside w) = (Inr ns, u) \<and> es = nths (bt_in_flight b) (set ns))"
proof -
  obtain r u where wait: "ts_wait sd (length (bt_in_flight b)) (w_outside w) = (r, u)" by fastforce
  with assms(1) obtain ns where "r = Inr ns" by (cases r) (simp_all add: wait_first_run)
  have run: "nths (bt_in_flight b) (set ns) = es \<and> w\<lparr>w_outside := u\<rparr> = w' \<and> b = b'"
    using assms(1) unfolding wait_first_run wait \<open>r = Inr ns\<close> prod.case sum.case prod.inject sum.inject .
  have eqs: "nths (bt_in_flight b) (set ns) = es" "w\<lparr>w_outside := u\<rparr> = w'" "b = b'" using run by blast+
  note ns = \<open>r = Inr ns\<close> eqs [symmetric]
  have "view (snd (ts_wait sd (length (bt_in_flight b)) (w_outside w))) = view (w_outside w)"
    using assms(3) by (simp add: quiet_def)
  then have "view u = view (w_outside w)" by (simp add: wait)
  from in_group_outside [OF assms(2) this] have "in_group view (ts_executor sd) w0 calls (w', b')" unfolding ns(3,4) .
  moreover have "distinct (map fst es)"
  proof -
    have "map fst es = nths (map fst (bt_in_flight b)) (set ns)" unfolding ns(2) by (rule nths_map [symmetric])
    moreover have "distinct (map fst (bt_in_flight b))" using assms(2) by (simp add: in_group_def)
    ultimately show ?thesis by simp
  qed
  moreover have "set es \<subseteq> set (bt_in_flight b)" unfolding ns(2) by (rule set_nths_subset)
  moreover have "ts_wait sd (length (bt_in_flight b)) (w_outside w) = (Inr ns, u)" unfolding wait ns(1) ..
  ultimately show ?thesis by (intro conjI exI [of _ ns] exI [of _ u] ns(2,4))
qed

text \<open>\<open>concurrent.futures.wait\<close> without a timeout returns when at least one future is done.\<close>

definition prompt :: "('a, 'u, 's) tool_scheduler \<Rightarrow> bool" where
  "prompt sd \<longleftrightarrow> (\<forall>n u. 0 < n \<longrightarrow> (case fst (ts_wait sd n u) of Inl _ \<Rightarrow> True | Inr ns \<Rightarrow> \<exists>i \<in> set ns. i < n))"

lemma wait_first_some:
  assumes "wait_first sd (w, b) = (Inr es, w', b')" "prompt sd" "bt_in_flight b \<noteq> []"
  shows "es \<noteq> []"
proof -
  obtain r u where wait: "ts_wait sd (length (bt_in_flight b)) (w_outside w) = (r, u)" by fastforce
  from assms(1)[unfolded wait_first_run wait] obtain ns where ns: "r = Inr ns" "es = nths (bt_in_flight b) (set ns)"
    by (cases r) auto
  have "case fst (ts_wait sd (length (bt_in_flight b)) (w_outside w)) of Inl _ \<Rightarrow> True | Inr ns \<Rightarrow> \<exists>i \<in> set ns. i < length (bt_in_flight b)"
    using assms(2,3) by (simp add: prompt_def)
  then obtain i where i: "i \<in> set ns" "i < length (bt_in_flight b)" by (auto simp: wait ns(1))
  then have "bt_in_flight b ! i \<in> set es" unfolding ns(2) set_nths by blast
  then show ?thesis by force
qed

subsection \<open>The loop\<close>

lemma commit_ready_keeps:
  assumes "commit_ready sd (w, b) = (Inr x, w', b')" "in_group view (ts_executor sd) w0 calls (w, b)" "good w0"
  shows "in_group view (ts_executor sd) w0 calls (w', b') \<and> bt_in_flight b' = bt_in_flight b \<and> bt_slots b' = bt_slots b \<and>
    bt_next_to_start b' = bt_next_to_start b \<and> w_outside w' = w_outside w \<and>
    (bt_next_to_commit b' = length calls \<or> bt_slots b ! bt_next_to_commit b' = None)"
proof -
  from assms(1) have "commit_slots sd (drop (bt_next_to_commit b) (bt_slots b)) (w, b) = (Inr x, w', b')"
    by (simp add: commit_ready_def bind_io_def)
  from commit_slots_keeps [OF this assms(2) refl assms(3)] show ?thesis .
qed

text \<open>How many calls have not been observed: a wait observes at least one.\<close>

definition unobserved :: "accepted_call list \<Rightarrow> ('u, 's) batch \<Rightarrow> nat" where
  "unobserved calls b = (length calls - bt_next_to_start b) + length (bt_in_flight b)"

lemma admit_unobserved:
  "admit sd rest (w, b) = (Inr (), w', b') \<Longrightarrow> rest = drop (bt_next_to_start b) calls \<Longrightarrow>
   unobserved calls b' = unobserved calls b"
proof (induction rest arbitrary: w b)
  case (Cons call rest)
  have n: "bt_next_to_start b < length calls" using Cons.prems(2) by (metis drop_all list.distinct(1) not_less)
  have rest: "rest = drop (Suc (bt_next_to_start b)) calls" using Cons.prems(2) by (metis drop_Suc list.sel(3) tl_drop)
  show ?case
  proof (cases "length (bt_in_flight b) < ts_max_parallel sd")
    case True
    with Cons.prems(1) obtain p w1 where
      "admit sd rest (w1, b\<lparr>bt_in_flight := bt_in_flight b @ [(bt_next_to_start b, p)], bt_next_to_start := Suc (bt_next_to_start b)\<rparr>) = (Inr (), w', b')"
      by (auto simp: bind_io_Inr on_world_run)
    from Cons.IH [OF this] rest n show ?thesis by (simp add: unobserved_def)
  next
    case False
    with Cons.prems(1) show ?thesis by (simp add: bind_io_def)
  qed
qed simp

lemma filter_shorter:
  assumes "set es \<subseteq> set xs" "es \<noteq> []"
  shows "length (filter (\<lambda>e. fst e \<notin> fst ` set es) xs) < length xs"
proof -
  from assms obtain e where "e \<in> set es" "e \<in> set xs" by (cases es) auto
  then show ?thesis by (intro length_filter_less [of e]) auto
qed

lemma drain_ends:
  assumes "drain sd fuel (w, b) = (Inr x, w', b')" "in_group view (ts_executor sd) w0 calls (w, b)" "good w0" "quiet view sd" "prompt sd"
    "length (bt_in_flight b) \<le> fuel"
  shows x
  using assms(1,2,6)
proof (induction fuel arbitrary: w b)
  case 0
  then show ?case by (subst (asm) drain.simps) (simp add: bind_io_def)
next
  case (Suc n)
  show ?case
  proof (cases "bt_in_flight b = []")
    case True
    with Suc.prems(1) show ?thesis by (subst (asm) drain.simps) (simp add: bind_io_def)
  next
    case False
    from Suc.prems(1) False obtain es w1 b1 w2 b2 y w3 b3 where f: "wait_first sd (w, b) = (Inr es, w1, b1)"
      and o: "for_each (observe sd) es (w1, b1) = (Inr (), w2, b2)" and c: "commit_ready sd (w2, b2) = (Inr y, w3, b3)"
      and rec: "drain sd n (w3, b3) = (Inr x, w', b')"
      by (subst (asm) drain.simps) (auto simp: bind_io_Inr)
    note f1 = wait_first_keeps [OF f Suc.prems(2) assms(4)]
    then have 1: "in_group view (ts_executor sd) w0 calls (w1, b1)" "b1 = b" by blast+
    from f1 1(2) have "set es \<subseteq> set (bt_in_flight b1)" "distinct (map fst es)" by simp_all
    note o1 = observe_all_keeps [OF o 1(1) this assms(4)]
    then have "in_group view (ts_executor sd) w0 calls (w2, b2)" by simp
    note c1 = commit_ready_keeps [OF c this assms(3)]
    have "length (bt_in_flight b3) < length (bt_in_flight b)"
      using o1 c1 f1 filter_shorter [OF _ wait_first_some [OF f assms(5) False], of "bt_in_flight b"] by simp
    with Suc.IH [OF rec] c1 Suc.prems(3) show ?thesis by simp
  qed
qed

lemma in_flight_bounded:
  assumes "in_group view ex w0 calls (w, b)" shows "length (bt_in_flight b) \<le> length calls"
proof -
  have d: "distinct (map fst (bt_in_flight b))" and "set (map fst (bt_in_flight b)) \<subseteq> {..<length calls}"
    using assms by (auto simp: in_group_def)
  then have "card (set (map fst (bt_in_flight b))) \<le> length calls" using card_mono [of "{..<length calls}"] by fastforce
  with distinct_card [OF d] show ?thesis by simp
qed

lemma group_loop_ends:
  assumes "group_loop sd fuel calls (w, b) = (Inr x, w', b')" "in_group view (ts_executor sd) w0 calls (w, b)" "good w0"
    "quiet view sd" "prompt sd" "0 < ts_max_parallel sd"
    "\<forall>a \<in> set calls. has_key (st_tool_calls (w_state w0)) (ac_call_key a)"
    "bt_next_to_commit b = length calls \<or> bt_slots b ! bt_next_to_commit b = None" "unobserved calls b \<le> fuel"
  shows "x \<noteq> None \<and> (x = Some False \<longrightarrow> in_group view (ts_executor sd) w0 calls (w', b') \<and> bt_next_to_commit b' = length calls)"
  using assms(1,2,8,9)
proof (induction fuel arbitrary: w b)
  case 0
  note g = "0.prems"(2)[unfolded in_group_def prod.case]
  have "bt_next_to_commit b = length calls"
  proof (rule ccontr)
    assume n: "bt_next_to_commit b \<noteq> length calls"
    have "length calls - bt_next_to_start b = 0" "length (bt_in_flight b) = 0" using 0(4) by (simp_all add: unobserved_def)
    with g 0 n have "bt_next_to_start b = length calls" "bt_in_flight b = []" "bt_slots b ! bt_next_to_commit b = None"
      by simp_all
    moreover have "bt_next_to_commit b < bt_next_to_start b" using g n calculation(1) by simp
    ultimately show False using g by force
  qed
  with 0 show ?case by (subst (asm) group_loop.simps) (auto simp: bind_io_def)
next
  case (Suc n)
  show ?case
  proof (cases "bt_next_to_commit b < length calls")
    case False
    moreover from this have "bt_next_to_commit b = length calls" using Suc.prems(2) by (auto simp: in_group_def)
    ultimately show ?thesis using Suc.prems(1,2) by (subst (asm) group_loop.simps) (auto simp: bind_io_def)
  next
    case True
    from Suc.prems(1) True obtain w1 b1 observed w2 b2 where a: "admit sd (drop (bt_next_to_start b) calls) (w, b) = (Inr (), w1, b1)"
      and wt: "guarded_wait sd (w1, b1) = (Inr observed, w2, b2)"
      and r: "(case observed of
         None \<Rightarrow>
           bind_io (batch_get bt_in_flight) (\<lambda>in_flight.
           bind_io (for_each (observe sd) in_flight) (\<lambda>_.
           bind_io (commit_ready sd) (\<lambda>_.
           close_rest sd calls)))
       | Some es \<Rightarrow>
           bind_io (for_each (observe sd) es) (\<lambda>_.
           bind_io (commit_ready sd) (\<lambda>interrupted.
           if \<not> interrupted then group_loop sd n calls
           else
             bind_io (drain sd (length calls)) (\<lambda>drained.
             if drained then close_rest sd calls else ret None)))) (w2, b2) = (Inr x, w', b')"
      by (subst (asm) group_loop.simps) (auto simp: bind_io_Inr)
    note a1 = admit_keeps [OF a Suc.prems(2) refl assms(7,6)]
    show ?thesis
    proof (cases observed)
      case None
      with r have "x = Some True" by (auto simp: bind_io_Inr close_rest_def)
      then show ?thesis by simp
    next
      case (Some es)
      with wt have f: "wait_first sd (w1, b1) = (Inr es, w2, b2)"
        by (auto simp: guarded_wait_def io_run split: if_splits)
      from Some r obtain w3 b3 y w4 b4 where o: "for_each (observe sd) es (w2, b2) = (Inr (), w3, b3)"
        and c: "commit_ready sd (w3, b3) = (Inr y, w4, b4)"
        and r2: "(if \<not> y then group_loop sd n calls
           else
             bind_io (drain sd (length calls)) (\<lambda>drained.
             if drained then close_rest sd calls else ret None)) (w4, b4) = (Inr x, w', b')"
        by (auto simp: bind_io_Inr)
      have g1: "in_group view (ts_executor sd) w0 calls (w1, b1)" using a1 by simp
      note f1 = wait_first_keeps [OF f g1 assms(4)]
      then have 2: "in_group view (ts_executor sd) w0 calls (w2, b2)" "b2 = b1" by blast+
      from f1 2(2) have "set es \<subseteq> set (bt_in_flight b2)" "distinct (map fst es)" by simp_all
      note o1 = observe_all_keeps [OF o 2(1) this assms(4)]
      then have "in_group view (ts_executor sd) w0 calls (w3, b3)" by simp
      note c1 = commit_ready_keeps [OF c this assms(3)]
      have "bt_in_flight b1 \<noteq> []"
      proof
        assume none: "bt_in_flight b1 = []"
        with a1 have "bt_next_to_start b1 = length calls" by simp
        moreover have "bt_slots b1 ! bt_next_to_commit b1 = None" "bt_next_to_commit b1 < length calls"
          using a1 Suc.prems(3) True by simp_all
        ultimately show False using g1 none by (force simp: in_group_def)
      qed
      note some = wait_first_some [OF f assms(5) this]
      have "unobserved calls b4 < unobserved calls b1"
        using o1 c1 f1 filter_shorter [OF _ some, of "bt_in_flight b1"] by (simp add: unobserved_def)
      then have less: "unobserved calls b4 \<le> n" using admit_unobserved [OF a refl] Suc.prems(4) by simp
      show ?thesis
      proof (cases y)
        case False
        with r2 have "group_loop sd n calls (w4, b4) = (Inr x, w', b')" by simp
        from Suc.IH [OF this _ _ less] c1 show ?thesis by simp
      next
        case interrupted: True
        with r2 obtain d w5 b5 where d: "drain sd (length calls) (w4, b4) = (Inr d, w5, b5)"
          and r3: "(if d then close_rest sd calls else ret None) (w5, b5) = (Inr x, w', b')" by (auto simp: bind_io_Inr)
        have g4: "in_group view (ts_executor sd) w0 calls (w4, b4)" using c1 by simp
        have d using drain_ends [OF d g4 assms(3,4,5) in_flight_bounded [OF g4]] .
        with r3 show ?thesis by (auto simp: bind_io_Inr close_rest_def)
      qed
    qed
  qed
qed

subsection \<open>The group as a whole\<close>

lemma in_group_start: "good w \<Longrightarrow> in_group view ex w calls (w, empty_batch calls s)"
  by (auto simp: in_group_def empty_batch_def since_refl recorded_refl)

lemma group_records:
  assumes "run_parallel_group sd calls (w, s) = (r, w', s')" "good w" "quiet view sd" "prompt sd" "0 < ts_max_parallel sd"
    "\<forall>a \<in> set calls. has_key (st_tool_calls (w_state w)) (ac_call_key a)"
  shows "r \<noteq> Inr None" "r = Inr (Some False) \<Longrightarrow> recorded_since (ts_executor sd) w w' calls calls"
proof -
  obtain r1 w1 b1 where l: "group_loop sd (length calls) calls (w, empty_batch calls s) = (r1, w1, b1)" by (metis prod_cases3)
  then have r: "r = r1" and w': "w' = fst (snd (shut_down sd (w1, b1)))"
    using assms(1) by (auto simp: run_parallel_group_def try_finally_def split: prod.splits)
  have e: "bt_next_to_commit (empty_batch calls s) = length calls \<or> bt_slots (empty_batch calls s) ! bt_next_to_commit (empty_batch calls s) = None"
    "unobserved calls (empty_batch calls s) \<le> length calls"
    by (cases calls, auto simp: empty_batch_def unobserved_def)
  note ends = group_loop_ends [OF _ in_group_start [OF assms(2)] assms(2-6) e]
  show "r \<noteq> Inr None" using ends l r by blast
  assume "r = Inr (Some False)"
  with l r have "group_loop sd (length calls) calls (w, empty_batch calls s) = (Inr (Some False), w1, b1)" by simp
  from ends [OF this] have g: "in_group view (ts_executor sd) w calls (w1, b1)" "bt_next_to_commit b1 = length calls" by simp_all
  have idle: "bt_in_flight b1 = []"
  proof (cases "bt_in_flight b1")
    case (Cons e es)
    then obtain i p where "(i, p) \<in> set (bt_in_flight b1)" by (cases e) auto
    with g show ?thesis by (auto simp: in_group_def)
  qed
  then have "w' = w1" by (simp add: w' shut_down_def bind_io_def)
  moreover have "bt_next_to_start b1 = length calls" using g by (simp add: in_group_def)
  ultimately show "recorded_since (ts_executor sd) w w' calls calls" using g by (simp add: in_group_def)
qed

subsection \<open>A demonstration\<close>

text \<open>Two calls of a tool that only reads; the one that was started last is done first.\<close>

definition demo_peek :: "nat spec" where
  "demo_peek = \<lparr>ts_name = ''peek'', ts_description = ''d'', ts_schema = closed_object [] [],
     ts_handler = Some (\<lambda>_ u. (Inr (RawToolResult \<lparr>tr_title = ''t'', tr_output = ''o'', tr_metadata = [], tr_status = ''succeeded''\<rparr>), u)),
     ts_prepare = None, ts_side_effect = NoEffect, ts_renderer = None, ts_concurrency = Some (\<lambda>_. Some (PBool True))\<rparr>"

definition demo_peeks :: "event list" where
  "demo_peeks = [demo_created, demo_turn, ev_of 3 ''assistant_accepted''
     [(''tool_calls'', PTuple [PProxy [(''id'', PStr ''a''), (''name'', PStr ''peek''), (''arguments'', PStr ''{}'')],
       PProxy [(''id'', PStr ''b''), (''name'', PStr ''peek''), (''arguments'', PStr ''{}'')]])]]"

definition demo_tools :: "(unit, nat, unit) tool_scheduler" where
  "demo_tools = \<lparr>ts_executor = demo_executor\<lparr>ex_registry := [(''peek'', demo_peek)]\<rparr>, ts_max_parallel = 2,
     ts_close_calls = (\<lambda>_. ret ()), ts_wait = (\<lambda>n u. (Inr [n - 1], u)), ts_escape = (\<lambda>s. s), ts_program = no_programs\<rparr>"

definition demo_peek_call :: "string \<Rightarrow> accepted_call" where
  "demo_peek_call i = \<lparr>ac_call_key = ''3:'' @ i, ac_provider_call_id = i, ac_name = ''peek'', ac_raw_arguments = ''{}''\<rparr>"

definition demo_peek_calls :: "accepted_call list" where
  "demo_peek_calls = [demo_peek_call ''a'', demo_peek_call ''b'']"

definition demo_peek_world :: "(unit, nat) world" where
  "demo_peek_world = \<lparr>w_store = \<lparr>ro_session_id = uuid_b, ro_file = [], ro_events = demo_peeks, ro_open = True, ro_poisoned = False\<rparr>,
     w_state = demo_state demo_peeks, w_usable = True, w_approver = (), w_outside = 0\<rparr>"

lemma demo_peeks_consistent: "consistent demo_peek_world"
proof -
  have "case replay demo_peeks of Inl _ \<Rightarrow> False | Inr _ \<Rightarrow> True" by code_simp
  then show ?thesis by (auto simp: consistent_def demo_peek_world_def log_of_def demo_state_def split: sum.splits)
qed

lemma demo_peeks_known: "list_all (\<lambda>a. has_key (st_tool_calls (w_state demo_peek_world)) (ac_call_key a)) demo_peek_calls"
  by code_simp

lemma demo_peeks_parallel: "fst (run_parallel_group demo_tools demo_peek_calls (demo_peek_world, ())) = Inr (Some False)"
  by code_simp

lemma demo_peeks_sequential: "fst (sequential demo_tools demo_peek_calls demo_peek_world) = Inr ()"
  by code_simp

lemma demo_tools_ok: "quiet (\<lambda>u. u) demo_tools" "prompt demo_tools" "0 < ts_max_parallel demo_tools"
  by (auto simp: quiet_def prompt_def demo_tools_def resolve_def demo_peek_def demo_executor_def split: option.splits if_splits)

text \<open>
  C9. Running a group in parallel refines running its calls one after another. Let the part of
  the outside that the tools of the registry can see be left alone by them and by the waits, and
  let a wait return only when some future is done. Then the group ends in finitely many waits;
  and if it was not interrupted and the sequential run also returns, both runs record the same
  starts and the same results (statuses, outputs, truncation), in the order of the model, and
  no other fact.
\<close>

theorem parallel_group_refines_sequential:
  assumes "consistent w" "w_usable w" "quiet view sd" "prompt sd" "0 < ts_max_parallel sd"
    "\<forall>a \<in> set calls. has_key (st_tool_calls (w_state w)) (ac_call_key a)"
    "run_parallel_group sd calls (w, c) = (r, w1, c')" "sequential sd calls w = (s, w2)"
  shows "r \<noteq> Inr None \<and> (r = Inr (Some False) \<and> s = Inr () \<longrightarrow>
    facts_since w ''tool_started'' w1 = facts_since w ''tool_started'' w2 \<and>
    facts_since w ''tool_finished'' w1 = facts_since w ''tool_finished'' w2 \<and>
    length (log_of w1) = length (log_of w2))"
proof -
  have good: "good w" using assms(1,2) by (simp add: good_def)
  note par = group_records [OF assms(7) good assms(3-6)]
  have lens: "length (log_of v) = length (log_of w) + length S + length F" if "recorded_since ex w v S F" for ex v S F
  proof -
    from that obtain es where es: "log_of v = log_of w @ es" "set (map ev_type es) \<subseteq> {''tool_started'', ''tool_finished''}"
      "length S = length (filter (\<lambda>ev. ev_type ev = ''tool_started'') es)"
      "length F = length (filter (\<lambda>ev. ev_type ev = ''tool_finished'') es)"
      unfolding recorded_since_def by (meson list_all2_lengthD)
    have "filter (\<lambda>ev. ev_type ev \<noteq> ''tool_started'') es = filter (\<lambda>ev. ev_type ev = ''tool_finished'') es"
      using es(2) by (intro filter_cong) auto
    with es(1,3,4) sum_length_filter_compl [of "\<lambda>ev. ev_type ev = ''tool_started''" es] show ?thesis by simp
  qed
  show ?thesis
  proof (intro conjI impI)
    show "r \<noteq> Inr None" by (rule par(1))
  next
    assume "r = Inr (Some False) \<and> s = Inr ()"
    then have p: "recorded_since (ts_executor sd) w w1 calls calls" and "sequential sd calls w = (Inr (), w2)"
      using par(2) assms(8) by simp_all
    from sequential_records [OF this(2) since_refl [OF good] good assms(3) refl assms(6) recorded_refl]
    have q: "recorded_since (ts_executor sd) w w2 calls calls" by simp
    show "facts_since w ''tool_started'' w1 = facts_since w ''tool_started'' w2" by (rule recorded_facts(1) [OF p q])
    show "facts_since w ''tool_finished'' w1 = facts_since w ''tool_finished'' w2" by (rule recorded_facts(2) [OF p q])
    show "length (log_of w1) = length (log_of w2)" using lens [OF p] lens [OF q] by simp
  qed
qed

lemma parallel_group_refines_sequential_witness:
  "facts_since demo_peek_world ''tool_finished'' (fst (snd (run_parallel_group demo_tools demo_peek_calls (demo_peek_world, ())))) =
   facts_since demo_peek_world ''tool_finished'' (snd (sequential demo_tools demo_peek_calls demo_peek_world))"
proof -
  have u: "w_usable demo_peek_world" by (simp add: demo_peek_world_def)
  have k: "\<forall>a \<in> set demo_peek_calls. has_key (st_tool_calls (w_state demo_peek_world)) (ac_call_key a)"
    using demo_peeks_known by (simp add: list_all_iff)
  obtain w1 w2 where "run_parallel_group demo_tools demo_peek_calls (demo_peek_world, ()) = (Inr (Some False), w1, ())"
      "sequential demo_tools demo_peek_calls demo_peek_world = (Inr (), w2)"
    using demo_peeks_parallel demo_peeks_sequential by (metis prod.collapse old.unit.exhaust)
  with parallel_group_refines_sequential [OF demo_peeks_consistent u demo_tools_ok k this] show ?thesis by simp
qed

end
