(* ===== verification/AgentProps.thy ===== *)
theory AgentProps
  imports AgentRun ToolGroupRun
begin

section \<open>A turn that returns is finished durably\<close>

text \<open>
  \<open>yields P m\<close>: whenever \<open>m\<close> returns, in a session that is in step with its log, its value and
  the world it leaves satisfy \<open>P\<close>. Followed through the loop it shows that every result a turn
  returns was either just appended by \<open>finish\<close> or read back from the log.
\<close>

definition yields :: "('b \<Rightarrow> ('a, 'u) aworld \<Rightarrow> bool) \<Rightarrow> (('a, 'u) aworld, 'b) io \<Rightarrow> bool" where
  "yields P m \<longleftrightarrow> (\<forall>x v y. m x = (Inr v, y) \<longrightarrow> good (fst x) \<longrightarrow> P v y)"

lemma yieldsD: "yields P m \<Longrightarrow> m x = (Inr v, y) \<Longrightarrow> good (fst x) \<Longrightarrow> P v y"
  unfolding yields_def by blast

lemma yields_ret: "(\<And>y. P v y) \<Longrightarrow> yields P (ret v)"
  by (simp add: yields_def)

lemma yields_throw: "yields P (throw e)"
  by (simp add: yields_def)

lemma yields_bind: "steady R L m \<Longrightarrow> (\<And>z. yields P (f z)) \<Longrightarrow> yields P (bind_io m f)"
proof -
  assume m: "steady R L m" and f: "\<And>z. yields P (f z)"
  show "yields P (bind_io m f)"
    unfolding yields_def bind_io_Inr
  proof (intro allI impI)
    fix x v y
    assume "\<exists>z x1. m x = (Inr z, x1) \<and> f z x1 = (Inr v, y)" and g: "good (fst x)"
    then obtain z x1 where z: "m x = (Inr z, x1)" "f z x1 = (Inr v, y)" by blast
    from steady_Inr [OF m z(1) g] have "good (fst x1)" by (simp add: reaches_def)
    with yieldsD [OF f z(2)] show "P v y" .
  qed
qed

lemma yields_map: "yields P m \<Longrightarrow> (\<And>r y. P r y \<Longrightarrow> Q (g r) y) \<Longrightarrow> yields Q (bind_io m (\<lambda>r. ret (g r)))"
  unfolding yields_def bind_io_Inr by auto

lemma yields_handle:
  assumes "steady R L m" "yields P m" "\<And>e. L e \<Longrightarrow> h e = None" "\<And>e k. h e = Some k \<Longrightarrow> yields P k"
  shows "yields P (handle m h)"
  unfolding yields_def handle_Inr
proof (intro allI impI)
  fix x v y
  assume run: "m x = (Inr v, y) \<or> (\<exists>e x1 k. m x = (Inl e, x1) \<and> h e = Some k \<and> k x1 = (Inr v, y))" and g: "good (fst x)"
  from run show "P v y"
  proof
    assume "\<exists>e x1 k. m x = (Inl e, x1) \<and> h e = Some k \<and> k x1 = (Inr v, y)"
    then obtain e x1 k where k: "m x = (Inl e, x1)" "h e = Some k" "k x1 = (Inr v, y)" by blast
    with assms(3) have "\<not> L e" by force
    with steadyD [OF assms(1) k(1) g] have "good (fst x1)" by (auto simp: reaches_def)
    with yieldsD [OF assms(4) [OF k(2)] k(3)] show ?thesis .
  qed (use yieldsD [OF assms(2)] g in blast)
qed

text \<open>The result is the one that the state, and so the log, holds for the turn.\<close>

definition ended :: "string \<Rightarrow> turn_result \<Rightarrow> ('a, 'u) aworld \<Rightarrow> bool" where
  "ended turn_id r y \<longleftrightarrow> persisted_turn_result (w_state (fst y)) turn_id (as_steps (snd y)) = Inr (Some r)"

definition may_end :: "string \<Rightarrow> turn_result option \<Rightarrow> ('a, 'u) aworld \<Rightarrow> bool" where
  "may_end turn_id v y \<longleftrightarrow> (\<forall>r. v = Some r \<longrightarrow> ended turn_id r y)"

definition step_end :: "string \<Rightarrow> unit + turn_result option \<Rightarrow> ('a, 'u) aworld \<Rightarrow> bool" where
  "step_end turn_id v y \<longleftrightarrow> (\<forall>r. v = Inr (Some r) \<longrightarrow> ended turn_id r y)"

lemma parse_turn_status_value:
  "parse_turn_status (PStr (turn_status_value st)) = Inr st' \<Longrightarrow> st' = st \<and> turn_terminal st"
  by (cases st) (auto simp: parse_turn_status_def turn_status_of_def turn_terminal_def succ_simps)

lemma turn_finished_ends:
  assumes "apply_event s ev = Inr s'" "recorded ''turn_finished'' (turn_end_payload turn_id st final_text err) ev"
  shows "persisted_turn_result s' turn_id n = Inr (Some \<lparr>tn_status = st, tn_final_text = final_text, tn_turn_id = turn_id,
    tn_tool_steps = n, tn_error = err\<rparr>)"
proof -
  have ty: "ev_type ev = ''turn_finished''" using recorded_type [OF assms(2)] .
  have id: "get (ev_payload ev) ''turn_id'' = PStr turn_id" and st: "get (ev_payload ev) ''status'' = PStr (turn_status_value st)"
    by (rule recorded_str [OF assms(2)]; simp add: turn_end_payload_def)+
  have final: "get_or (ev_payload ev) ''final_text'' (PStr []) = PStr final_text"
  proof (cases "final_text = []")
    case True
    then show ?thesis using recorded_get(2) [OF assms(2)] by (simp add: turn_end_payload_def split: option.split)
  next
    case False
    then show ?thesis using recorded_get(1) [OF assms(2)] by (simp add: turn_end_payload_def)
  qed
  have err: "get (ev_payload ev) ''error'' = (case err of None \<Rightarrow> PNone | Some m \<Rightarrow> PStr m)"
    using recorded_get [OF assms(2)] by (cases err) (simp_all add: turn_end_payload_def get_def)
  obtain s1 where h: "apply_turn_finished s ev = Inr s1" and s': "s' = record_event ev s1"
    using apply_eventD [OF assms(1)] ty by (auto simp: handlers_def)
  from h id obtain st' where p: "parse_turn_status (get (ev_payload ev) ''status'') = Inr st'"
    and s1: "st_active_turn_id s1 = None" "st_turns s1 = dict_set turn_id st' (st_turns s)"
    by (auto simp: apply_turn_finished_def payload_uuid_def payload_string_def succ_simps at_state_Inr_iff)
  have "st' = st" "turn_terminal st" using parse_turn_status_value [OF p[unfolded st]] by simp_all
  with s1 have s1: "st_active_turn_id s1 = None" "map_of (st_turns s1) turn_id = Some st" "turn_terminal st"
    by (simp_all add: map_of_dict_set)
  then show ?thesis
    using id final err ty
    by (auto simp: s' persisted_turn_result_def record_event_def finish_event_of_def turn_terminal_def split: option.split)
qed

lemma finish_ends: "yields (ended turn_id) (finish ag turn_id st final_text err)"
  unfolding yields_def
proof (intro allI impI)
  fix x v and y :: "('a, 'b) aworld"
  assume run: "finish ag turn_id st final_text err x = (Inr v, y)" and "good (fst x)"
  obtain w a w' a' where p: "x = (w, a)" "y = (w', a')" by (cases x, cases y) blast
  from run obtain q where q: "persisted_turn_result (w_state w) turn_id (as_steps a) = Inr q"
    and k: "(case q of Some r \<Rightarrow> ret r
     | None \<Rightarrow>
         bind_io (agent_append ag ''turn_finished'' (turn_end_payload turn_id st final_text err)) (\<lambda>_.
         bind_io steps (\<lambda>n.
         ret \<lparr>tn_status = st, tn_final_text = final_text, tn_turn_id = turn_id, tn_tool_steps = n, tn_error = err\<rparr>))) (w, a) = (Inr v, (w', a'))"
    by (auto simp: finish_def p persisted_def bind_io_Inr)
  show "ended turn_id v y"
  proof (cases q)
    case (Some r)
    with k q show ?thesis by (auto simp: ended_def p)
  next
    case None
    with k obtain ev w1 a1 where ap: "agent_append ag ''turn_finished'' (turn_end_payload turn_id st final_text err) (w, a) = (Inr ev, (w1, a1))"
      and v: "w' = w1" "a' = a1" "v = \<lparr>tn_status = st, tn_final_text = final_text, tn_turn_id = turn_id, tn_tool_steps = as_steps a1, tn_error = err\<rparr>"
      by (auto simp: bind_io_Inr steps_def)
    from ap show ?thesis
      by (cases rule: append_cases) (use v p in \<open>auto simp: ended_def turn_finished_ends\<close>)
  qed
qed

subsection \<open>Every way a turn ends\<close>

lemma steady_set_steps_any: "steady (\<lambda>_ _. True) loop_error (set_steps n)"
  by (rule steadyI) (auto simp: set_steps_def extends_refl reaches_def)

lemma fail_ends: "yields (ended turn_id) (fail ag turn_id msg)" and interrupted_ends: "yields (ended turn_id) (interrupted ag turn_id)"
  unfolding fail_def interrupted_def by (rule finish_ends)+

lemma step_end_map: "yields (ended turn_id) m \<Longrightarrow> yields (step_end turn_id) (bind_io m (\<lambda>r. ret (Inr (Some r))))"
  by (rule yields_map) (auto simp: step_end_def)

lemma may_end_map: "yields (ended turn_id) m \<Longrightarrow> yields (may_end turn_id) (bind_io m (\<lambda>r. ret (Some r)))"
  by (rule yields_map) (auto simp: may_end_def)

lemmas end_rules = yields_bind [OF steady_accept] yields_bind [OF steady_sample] yields_bind [OF steady_close]
  yields_bind [OF steady_steps [where E = loop_error]] yields_bind [OF steady_set_steps_any]
  yields_bind [OF agent.steady_bind [OF steady_session agent.steady_pure(3)]]
  yields_bind [OF steady_close_open] yields_bind [OF steady_session [where E = loop_error]] finish_ends fail_ends interrupted_ends step_end_map may_end_map

lemma finalize_ends: "yields (ended turn_id) (finalize_after_limit ag turn_id)"
proof -
  have m: "steady (=) loop_error (bind_io (accept_guarded ag turn_id sampled False) (\<lambda>_. ret x))"
    for sampled and x :: string by (auto intro!: turn_rules)
  show ?thesis unfolding finalize_after_limit_def
    by (auto intro!: end_rules yields_bind [OF m] split: option.split)
qed

lemma tool_step_ends:
  assumes "programs_keep (batch_scheduler ag)" shows "yields (step_end turn_id) (tool_step ag turn_id sampled)"
proof -
  note x = yields_bind [OF steady_execute_accepted [OF assms]]
  have r: "yields (step_end turn_id) (ret (Inl ()))" "yields (step_end turn_id) (ret (Inr None))"
    by (rule yields_ret, simp add: step_end_def)+
  show ?thesis unfolding tool_step_def
    by (auto intro!: end_rules x r split: sum.split option.split bool.split)
qed

lemma answer_step_ends: "yields (step_end turn_id) (answer_step ag turn_id sampled)"
  unfolding answer_step_def
  by (rule step_end_map) (auto intro!: end_rules split: sampling_outcome.split option.split)

lemma sampled_step_ends:
  assumes "programs_keep (batch_scheduler ag)" shows "yields (step_end turn_id) (sampled_step ag turn_id)"
  unfolding sampled_step_def
  by (auto intro!: end_rules answer_step_ends tool_step_ends assms split: option.split)

lemma turn_loop_ends:
  assumes "programs_keep (batch_scheduler ag)" shows "yields (may_end turn_id) (turn_loop ag turn_id left)"
proof (induction left)
  case 0
  show ?case unfolding turn_loop.simps by (intro may_end_map finalize_ends)
next
  case (Suc left)
  show ?case
    unfolding yields_def turn_loop.simps bind_io_Inr
  proof (intro allI impI)
    fix x v and y :: "('a, 'b) aworld"
    assume "\<exists>z x1. sampled_step ag turn_id x = (Inr z, x1) \<and>
        (case z of Inl _ \<Rightarrow> turn_loop ag turn_id left | Inr end_result \<Rightarrow> ret end_result) x1 = (Inr v, y)" and g: "good (fst x)"
    then obtain z x1 where z: "sampled_step ag turn_id x = (Inr z, x1)"
      and v: "(case z of Inl _ \<Rightarrow> turn_loop ag turn_id left | Inr end_result \<Rightarrow> ret end_result) x1 = (Inr v, y)" by blast
    have "good (fst x1)" using steady_Inr [OF steady_sampled_step [OF assms] z g] by (simp add: reaches_def)
    with yieldsD [OF Suc] yieldsD [OF sampled_step_ends [OF assms] z g] v show "may_end turn_id v y"
      by (cases z) (auto simp: step_end_def may_end_def)
  qed
qed

lemma on_interrupt_ends: "yields (may_end turn_id) (on_interrupt ag turn_id e)"
proof -
  let ?m = "bind_io (session st_active_turn_id) (\<lambda>active.
         if active \<noteq> Some turn_id then throw e else
         bind_io (close_open_calls_after_interrupt ag turn_id) (\<lambda>_.
         bind_io (interrupted ag turn_id) (\<lambda>r. ret (Some r))))"
  have m: "yields (may_end turn_id) (?m :: (('a, 'b) aworld, turn_result option) io)"
  proof (rule yields_bind [OF steady_session [where E = loop_error]])
    show "yields (may_end turn_id) (if active \<noteq> Some turn_id then throw e else
         bind_io (close_open_calls_after_interrupt ag turn_id) (\<lambda>_.
         bind_io (interrupted ag turn_id) (\<lambda>r. ret (Some r))) :: (('a, 'b) aworld, turn_result option) io)" for active
      by (cases "active = Some turn_id")
        (simp_all add: yields_throw yields_bind [OF steady_close_open] may_end_map [OF interrupted_ends])
  qed
  show ?thesis
    unfolding yields_def
  proof (intro allI impI)
    fix x v and y :: "('a, 'b) aworld"
    assume run: "on_interrupt ag turn_id e x = (Inr v, y)" and g: "good (fst x)"
    obtain w a where x: "x = (w, a)" by (cases x)
    obtain p where p: "persisted_turn_result (w_state w) turn_id (as_steps a) = Inr p"
      using run by (cases "persisted_turn_result (w_state w) turn_id (as_steps a)")
        (simp_all add: on_interrupt_def persisted_def bind_io_def x)
    have "on_interrupt ag turn_id e x = (case p of Some r \<Rightarrow> ret (Some r) | None \<Rightarrow> ?m) x"
      unfolding on_interrupt_def by (rule bind_io_run) (simp add: persisted_def x p)
    with run have k: "(case p of Some r \<Rightarrow> ret (Some r) | None \<Rightarrow> ?m) x = (Inr v, y)" by simp
    show "may_end turn_id v y"
    proof (cases p)
      case (Some r)
      with k have "v = Some r" "y = x" by simp_all
      with p Some show ?thesis by (simp add: may_end_def ended_def x)
    next
      case None
      with k have "?m x = (Inr v, y)" by simp
      from yieldsD [OF m this g] show ?thesis .
    qed
  qed
qed

lemma drive_ends:
  assumes "programs_keep (batch_scheduler ag)"
  shows "yields (may_end turn_id) (handle (turn_body ag turn_id input) (turn_handler ag turn_id))"
proof (rule yields_handle [OF steady_turn_body [OF assms] _ turn_handler_loop])
  have start: "steady (=) loop_error (case input of None \<Rightarrow> ret ()
      | Some i \<Rightarrow> bind_io (agent_append ag ''turn_started'' [(''turn_id'', PStr turn_id), (''user_input'', PStr i)]) (\<lambda>_. ret ()))"
    by (auto intro!: agent_rules split: option.split)
  show "yields (may_end turn_id) (turn_body ag turn_id input)"
    unfolding turn_body_def
    by (rule yields_bind [OF start], rule yields_bind [OF steady_steps [where E = loop_error]], rule turn_loop_ends [OF assms])
next
  fix e k
  assume "turn_handler ag turn_id e = Some (k :: (('a, 'b) aworld, turn_result option) io)"
  moreover have "yields (may_end turn_id) (on_failure ag turn_id)"
    unfolding on_failure_def by (rule yields_bind [OF steady_close_open]) (rule may_end_map [OF fail_ends])
  ultimately show "yields (may_end turn_id) k" using turn_handler_cases on_interrupt_ends by metis
qed

subsection \<open>The whole turn\<close>

lemma persisted_fields:
  assumes "persisted_turn_result s turn_id n = Inr (Some r)"
  shows "tn_tool_steps r = n \<and> tn_turn_id r = turn_id \<and> st_active_turn_id s \<noteq> Some turn_id \<and>
    map_of (st_turns s) turn_id = Some (tn_status r)"
  using assms by (auto simp: persisted_turn_result_def succ_simps split: if_splits option.splits)

lemma drive_turn_done:
  assumes "programs_keep (batch_scheduler ag)" "good w" "drive_turn ag turn_id n input (w, a) = (Inr (Some r), (w', a'))"
  shows "good w' \<and> extends w w' \<and> as_usable a' = as_usable a \<and> tn_tool_steps r \<le> max n (ag_max_steps ag) \<and>
    persisted_turn_result (w_state w') turn_id (tn_tool_steps r) = Inr (Some r)"
proof -
  let ?m = "handle (turn_body ag turn_id input) (turn_handler ag turn_id)"
  let ?x = "(w, a\<lparr>as_steps := n\<rparr>)"
  from assms(3) have run: "?m ?x = (Inr (Some r), (w', a'))"
    unfolding drive_turn_def by (simp add: bind_io_def set_steps_def)
  note s = steady_drive_turn [OF assms(1)]
  have g: "good (fst ?x)" using assms(2) by simp
  have 1: "reaches (steps_within (ag_max_steps ag)) ?x (w', a')" by (rule steady_Inr [OF s run g])
  have 2: "extends w w'" using steady_extends [OF s run] by simp
  have "may_end turn_id (Some r) (w', a')" by (rule yieldsD [OF drive_ends [OF assms(1)] run g])
  then have 3: "persisted_turn_result (w_state w') turn_id (as_steps a') = Inr (Some r)" by (simp add: may_end_def ended_def)
  have 4: "tn_tool_steps r = as_steps a'" using persisted_fields [OF 3] by blast
  show ?thesis using 1 2 3 4 by (simp add: reaches_def steps_within_def)
qed

lemma ended_calls_closed:
  assumes "wf_state s" "st_active_turn_id s \<noteq> Some turn_id" "c \<in> set (vals (st_tool_calls s))" "tc_turn_id c = turn_id"
  shows "is_terminal c \<and> tc_status c \<noteq> OutcomeUnknown"
proof (rule ccontr)
  assume "\<not> (is_terminal c \<and> tc_status c \<noteq> OutcomeUnknown)"
  then have u: "open_or_unknown c" unfolding open_or_unknown_def outcome_unknown_call_def by blast
  have "dict_ok (st_tool_calls s)" using assms(1) unfolding wf_state_def calls_wf_def by blast
  from assms(3) obtain k where "map_of (st_tool_calls s) k = Some c" unfolding vals_iff [OF \<open>dict_ok (st_tool_calls s)\<close>] by blast
  with u have "st_active_turn_id s = Some (tc_turn_id c)" using assms(1) unfolding wf_state_def turns_wf_def by blast
  with assms(2,4) show False by simp
qed

subsection \<open>A demonstration\<close>

text \<open>A model that would answer at once; the user presses Ctrl-C while the input is recorded.\<close>

definition demo_answer :: "sampling_result" where
  "demo_answer = \<lparr>sm_outcome = CompleteText, sm_content = ''ok'', sm_reasoning = [], sm_tool_calls = [],
     sm_finish_reason = Some ''stop'', sm_usage = None\<rparr>"

definition demo_agent :: "(unit, nat) agent" where
  "demo_agent = \<lparr>ag_executor = ts_executor demo_tools, ag_max_steps = 2, ag_max_calls_per_batch = 4, ag_max_parallel = 2,
     ag_context_window = 100000, ag_max_output_tokens = 100,
     ag_model = (\<lambda>messages schemas allow u. (Inr demo_answer, Suc u)),
     ag_environment = (\<lambda>_. Inr demo_environment), ag_compactor = None, ag_candidate = (\<lambda>_. (uuid_a, ''t'')),
     ag_interrupt = (\<lambda>n. if n = 2 then AfterAppend else Undisturbed), ag_wait = ts_wait demo_tools,
     ag_escape = (\<lambda>s. s), ag_program = no_programs\<rparr>"

definition demo_fresh :: "(unit, nat) world" where
  "demo_fresh = \<lparr>w_store = \<lparr>ro_session_id = uuid_b, ro_file = [], ro_events = [demo_created], ro_open = True, ro_poisoned = False\<rparr>,
     w_state = demo_state [demo_created], w_usable = True, w_approver = (), w_outside = 0\<rparr>"

definition demo_ready :: agent_state where
  "demo_ready = \<lparr>as_usable = True, as_steps = 0\<rparr>"

definition demo_interrupted :: turn_result where
  "demo_interrupted = \<lparr>tn_status = TInterrupted, tn_final_text = [], tn_turn_id = uuid_a, tn_tool_steps = 0,
     tn_error = Some ''turn interrupted by user''\<rparr>"

lemma demo_turn_runs: "fst (run_turn demo_agent uuid_a ''hi'' (demo_fresh, demo_ready)) = Inr (Some demo_interrupted)"
  by code_simp

lemma demo_fresh_consistent: "consistent demo_fresh \<and> w_usable demo_fresh"
proof -
  have "case replay [demo_created] of Inl _ \<Rightarrow> False | Inr _ \<Rightarrow> True" by code_simp
  then show ?thesis by (auto simp: consistent_def demo_fresh_def log_of_def demo_state_def split: sum.splits)
qed

lemma no_programs_keep: "programs_keep (batch_scheduler demo_agent)"
  unfolding programs_keep_def
  by (simp add: batch_scheduler_def demo_agent_def no_programs_journal)
    (simp add: no_programs_def faultless_pure)

text \<open>
  C1. A turn that returns is finished durably. Whatever the model, the tools, the approver and
  the disk do, and at whichever append a Ctrl-C arrives, as long as a code program (an argument)
  writes the log only through steps like those of the executor: when \<open>run_turn\<close> returns a result, the log has only
  grown and the state is its replay; the turn is no longer active, it ended with the status, the
  text and the error of the result as the log records them; it took at most \<open>max_steps\<close> tool
  steps; each of its calls has a known outcome; and the agent can be used for the next turn.
\<close>

theorem turn_ends_durably:
  assumes "consistent w" "w_usable w" "programs_keep (batch_scheduler ag)"
    "run_turn ag turn_id user_input (w, a) = (Inr (Some r), (w', a'))"
  shows "(\<exists>es. log_of w' = log_of w @ es) \<and> replay (log_of w') = Inr (w_state w') \<and> as_usable a' \<and>
    persisted_turn_result (w_state w') turn_id (tn_tool_steps r) = Inr (Some r) \<and>
    st_active_turn_id (w_state w') \<noteq> Some turn_id \<and> tn_tool_steps r \<le> ag_max_steps ag \<and>
    (\<forall>c \<in> set (vals (st_tool_calls (w_state w'))). tc_turn_id c = turn_id \<longrightarrow> is_terminal c \<and> tc_status c \<noteq> OutcomeUnknown)"
proof -
  have "good w" using assms(1,2) by (simp add: good_def)
  from assms(4) have u: "as_usable a" and run: "drive_turn ag turn_id 0 (Some user_input) (w, a) = (Inr (Some r), (w', a'))"
    by (auto simp: run_turn_def require_usable_def session_def bind_io_Inr succ_simps)
  note d = drive_turn_done [OF assms(3) \<open>good w\<close> run]
  then have "good w'" by blast
  note p = persisted_fields [OF d [THEN conjunct2, THEN conjunct2, THEN conjunct2, THEN conjunct2]]
  have "\<forall>c \<in> set (vals (st_tool_calls (w_state w'))). tc_turn_id c = turn_id \<longrightarrow> is_terminal c \<and> tc_status c \<noteq> OutcomeUnknown"
    using ended_calls_closed [OF good_wf [OF \<open>good w'\<close>]] p by blast
  with d p u good_replay [OF \<open>good w'\<close>] show ?thesis by (simp add: extends_def)
qed

lemma turn_ends_durably_witness:
  "\<exists>w' a'. run_turn demo_agent uuid_a ''hi'' (demo_fresh, demo_ready) = (Inr (Some demo_interrupted), (w', a')) \<and>
    persisted_turn_result (w_state w') uuid_a 0 = Inr (Some demo_interrupted)"
proof -
  obtain w' a' where run: "run_turn demo_agent uuid_a ''hi'' (demo_fresh, demo_ready) = (Inr (Some demo_interrupted), (w', a'))"
    using demo_turn_runs by (metis prod.collapse)
  from turn_ends_durably [OF _ _ no_programs_keep run] demo_fresh_consistent
  have "persisted_turn_result (w_state w') uuid_a (tn_tool_steps demo_interrupted) = Inr (Some demo_interrupted)" by blast
  with run show ?thesis by (auto simp: demo_interrupted_def)
qed

end
