(* ===== verification/Session.thy ===== *)
theory Session
  imports Executor
begin

section \<open>Resuming and reconciling a session (session.py)\<close>

text \<open>
  A session left by a crash is replayed and closed: calls whose outcome is known are finished,
  calls that were running become unknown, and the turn is ended when nothing is left to decide.
  Every fact is first tried on a copy of the state, then appended, then applied.

  The programs run over the store and the state. \<open>ResumeError\<close> and \<open>ReconciliationError\<close> are
  subclasses of \<open>RuntimeError\<close> that say which function refused; here both are \<open>RuntimeError\<close>
  with their message. The clock, new identifiers, \<open>uuid5\<close>, the fate of each write, \<open>json.dumps\<close>
  with its default separators, and the questions asked of the file system are the fields of
  \<open>session_io\<close>.
\<close>

record session_io =
  sr_iso_utc :: "string \<Rightarrow> bool"
  sr_fresh :: "int \<Rightarrow> string \<times> string"
  sr_uuid5 :: "string \<Rightarrow> string \<Rightarrow> string"
  sr_fate :: "int \<Rightarrow> write_outcome"
  sr_dumps :: "pyval \<Rightarrow> py_error + string"
  sr_resolve_strict :: "string \<Rightarrow> string option"
  sr_is_dir :: "string \<Rightarrow> bool"
  sr_resolve_write :: "string \<Rightarrow> string \<Rightarrow> py_error + string"
  sr_capture :: "string \<Rightarrow> py_error + file_version"

type_synonym rworld = "rollout_store \<times> session_state"

definition at_session :: "(session_state \<Rightarrow> py_error + 'b) \<Rightarrow> (rworld, 'b) io" where
  "at_session f = (\<lambda>(st, s). (f s, (st, s)))"

definition closing :: "py_error \<Rightarrow> (rworld, 'b) io" where
  "closing e = (\<lambda>(st, s). (Inl e, (close_store st, s)))"

subsection \<open>Appending candidates\<close>

definition prevalidate :: "event list \<Rightarrow> session_state \<Rightarrow> py_error + session_state" where
  "prevalidate events s = foldE reduce_event s events"

definition invalid_candidates :: "py_error \<Rightarrow> py_error" where
  "invalid_candidates e = (case e of
     DomainError m \<Rightarrow> RuntimeError (''candidate recovery facts are invalid: '' @ m) | _ \<Rightarrow> e)"

text \<open>The store is closed before the error goes on, whatever it is.\<close>

definition append_candidate :: "session_io \<Rightarrow> event \<Rightarrow> (rworld, event) io" where
  "append_candidate sr candidate = (\<lambda>(st, s).
     case append_event st candidate (sr_fate sr (ev_seq candidate)) of
       (Inl e, st') \<Rightarrow> closing (if is_interrupt e then e else RuntimeError ''recovery event append failed'') (st', s)
     | (Inr durable, st') \<Rightarrow>
         (case apply_event s durable of
            Inl (e, s') \<Rightarrow> closing (if is_interrupt e then e else RuntimeError ''durable recovery event could not be applied'') (st', s')
          | Inr s' \<Rightarrow> (Inr durable, (st', s'))))"

fun append_all_candidates :: "session_io \<Rightarrow> event list \<Rightarrow> (rworld, event list) io" where
  "append_all_candidates sr [] = ret []"
| "append_all_candidates sr (c # cs) =
     bind_io (append_candidate sr c) (\<lambda>durable.
     bind_io (append_all_candidates sr cs) (\<lambda>rest. ret (durable # rest)))"

definition append_candidates :: "session_io \<Rightarrow> event list \<Rightarrow> (rworld, event list) io" where
  "append_candidates sr candidates =
     bind_io (at_session (\<lambda>s. reraise invalid_candidates (prevalidate candidates s))) (\<lambda>_.
     append_all_candidates sr candidates)"

subsection \<open>Candidates\<close>

definition create_event :: "session_io \<Rightarrow> int \<Rightarrow> string \<Rightarrow> string \<Rightarrow> mapping \<Rightarrow> py_error + event" where
  "create_event sr seq session_id type payload =
     (let (event_id, timestamp) = sr_fresh sr seq in
      mk_event (sr_iso_utc sr) (PInt 1) (PInt seq) (PStr event_id) (PStr timestamp) (PStr session_id) (PStr type) (PDict payload))"

fun create_events :: "session_io \<Rightarrow> int \<Rightarrow> string \<Rightarrow> string \<Rightarrow> mapping list \<Rightarrow> py_error + event list" where
  "create_events sr next_seq session_id type [] = Inr []"
| "create_events sr next_seq session_id type (p # ps) =
     bindE (create_event sr next_seq session_id type p) (\<lambda>ev.
     bindE (create_events sr (next_seq + 1) session_id type ps) (\<lambda>evs. Inr (ev # evs)))"

definition active_session :: "string \<Rightarrow> session_state \<Rightarrow> py_error + string \<times> string" where
  "active_session message s =
     (case (st_active_turn_id s, st_session_id s) of
        (Some turn_id, Some session_id) \<Rightarrow> Inr (turn_id, session_id)
      | _ \<Rightarrow> Inl (DomainError message))"

definition finish_candidate :: "session_io \<Rightarrow> turn_status \<Rightarrow> pyval \<Rightarrow> session_state \<Rightarrow> py_error + event" where
  "finish_candidate sr status error s =
     bindE (active_session ''cannot finish a session without an active turn'' s) (\<lambda>(turn_id, session_id).
     create_event sr (st_last_seq s + 1) session_id ''turn_finished''
       [(''turn_id'', PStr turn_id), (''status'', PStr (turn_status_value status)), (''error'', error)])"

definition intent_candidate :: "session_io \<Rightarrow> string \<Rightarrow> string \<Rightarrow> session_state \<Rightarrow> py_error + event" where
  "intent_candidate sr action reason s =
     bindE (active_session ''cannot recover a session without an active turn'' s) (\<lambda>(turn_id, session_id).
     create_event sr (st_last_seq s + 1) session_id ''turn_recovery_intent''
       [(''turn_id'', PStr turn_id), (''action'', PStr action), (''reason'', PStr reason)])"

definition abandon_candidates :: "session_io \<Rightarrow> pyval \<Rightarrow> session_state \<Rightarrow> py_error + event list" where
  "abandon_candidates sr note s =
     bindE (need (st_session_id s) (DomainError ''cannot reconcile before session creation'')) (\<lambda>session_id.
     create_events sr (st_last_seq s + 1) session_id ''tool_reconciled''
       (map (\<lambda>c. [(''call_key'', PStr (tc_call_key c)), (''call_id'', PStr (tc_provider_call_id c)),
           (''outcome'', PStr ''abandoned''), (''note'', note)])
         (filter (\<lambda>c. st_active_turn_id s = Some (tc_turn_id c) \<and> tc_status c = OutcomeUnknown)
           (vals (st_tool_calls s)))))"

subsection \<open>Completing a pending intent\<close>

definition intended :: "session_io \<Rightarrow> session_state \<Rightarrow> py_error + event list \<times> turn_status \<times> pyval" where
  "intended sr s =
     bindE (need (st_pending_recovery_intent s) (DomainError ''no recovery intent is pending'')) (\<lambda>intent.
     bindE (need (map_of (ev_payload intent) ''action'') (KeyError ''action'')) (\<lambda>action.
     bindE (need (map_of (ev_payload intent) ''reason'') (KeyError ''reason'')) (\<lambda>reason.
     if action = PStr ''recover_interrupted''
     then bindE (plan_recovery_events (sr_uuid5 sr) s) (\<lambda>cs. Inr (cs, TInterrupted, reason))
     else bindE (abandon_candidates sr reason s) (\<lambda>cs. Inr (cs, TAbandoned, reason)))))"

definition append_some :: "session_io \<Rightarrow> event list \<Rightarrow> (rworld, event list) io" where
  "append_some sr candidates = (if candidates = [] then ret [] else append_candidates sr candidates)"

definition complete_recovery_intent :: "session_io \<Rightarrow> (rworld, event list) io" where
  "complete_recovery_intent sr =
     bind_io (at_session (intended sr)) (\<lambda>(candidates, finish_status, reason).
     bind_io (append_some sr candidates) (\<lambda>durable.
     bind_io (at_session (\<lambda>s. Inr (st_recovery_blocked s))) (\<lambda>blocked.
     if blocked then ret durable
     else
       bind_io (at_session (finish_candidate sr finish_status reason)) (\<lambda>finish.
       bind_io (append_candidates sr [finish]) (\<lambda>finished. ret (durable @ finished))))))"

subsection \<open>Code runs left open\<close>

definition node_closing :: "session_state \<Rightarrow> string \<Rightarrow> py_error + mapping option" where
  "node_closing s node_id =
     bindE (need (map_of (st_tool_calls s) node_id) (KeyError node_id)) (\<lambda>c.
     let closing = (\<lambda>status result blocked. [(''call_key'', PStr node_id), (''call_id'', PStr node_id),
           (''origin'', PStr ''code''), (''status'', PStr (tool_status_value status)), (''result'', PStr result),
           (''recovery_blocked'', PBool blocked)])
     in case tc_status c of
          Started \<Rightarrow> Inr (Some (closing OutcomeUnknown ''code node began but no terminal result was recorded'' True))
        | Requested \<Rightarrow> Inr (Some (closing NotExecuted ''code node was not started before recovery'' False))
        | _ \<Rightarrow> Inr None)"

definition replay_refused :: string where
  "replay_refused = ''code runtime was interrupted and was not replayed''"

fun run_candidates :: "session_io \<Rightarrow> string \<Rightarrow> session_state \<Rightarrow> int \<Rightarrow> string list \<Rightarrow> py_error + event list" where
  "run_candidates sr session_id s next_seq [] = Inr []"
| "run_candidates sr session_id s next_seq (node_id # node_ids) =
     bindE (node_closing s node_id) (\<lambda>payload. case payload of
         None \<Rightarrow> run_candidates sr session_id s next_seq node_ids
       | Some p \<Rightarrow>
           bindE (create_event sr next_seq session_id ''tool_finished'' p) (\<lambda>ev.
           bindE (run_candidates sr session_id s (next_seq + 1) node_ids) (\<lambda>evs. Inr (ev # evs))))"

definition finish_run_candidate :: "session_io \<Rightarrow> string \<Rightarrow> string \<Rightarrow> session_state \<Rightarrow> py_error + event" where
  "finish_run_candidate sr session_id run_id s =
     bindE (graph_summary (st_code_runs s) (st_code_nodes s) run_id) (\<lambda>summary.
     create_event sr (st_last_seq s + 1) session_id ''code_run_finished''
       [(''run_id'', PStr run_id), (''status'', PStr (code_run_status_value RunFailed)),
        (''result'', PStr replay_refused), (''summary'', PDict summary)])"

definition finish_parent_candidate :: "session_io \<Rightarrow> string \<Rightarrow> string \<Rightarrow> tool_call \<Rightarrow> session_state \<Rightarrow> py_error + event" where
  "finish_parent_candidate sr session_id run_id parent s =
     bindE (graph_summary (st_code_runs s) (st_code_nodes s) run_id) (\<lambda>summary.
     bindE (sr_dumps sr (PDict [(''error'', PStr replay_refused), (''execution_summary'', PDict summary)])) (\<lambda>result.
     create_event sr (st_last_seq s + 1) session_id ''tool_finished''
       [(''call_key'', PStr (tc_call_key parent)), (''call_id'', PStr (tc_provider_call_id parent)),
        (''status'', PStr (tool_status_value Failed)), (''result'', PStr result), (''truncated'', PBool False)]))"

definition append_one :: "session_io \<Rightarrow> (session_state \<Rightarrow> py_error + event) \<Rightarrow> (rworld, unit) io" where
  "append_one sr candidate =
     bind_io (at_session candidate) (\<lambda>ev. bind_io (append_candidates sr [ev]) (\<lambda>_. ret ()))"

text \<open>One run of the snapshot \<open>tuple(state.code_runs.items())\<close>.\<close>

definition recover_code_run :: "session_io \<Rightarrow> string \<times> code_run \<Rightarrow> (rworld, unit) io" where
  "recover_code_run sr = (\<lambda>(run_id, run).
     bind_io (\<lambda>(st, s). (Inr (ro_session_id st, map_of (st_tool_calls s) (cr_parent_call_key run)), (st, s))) (\<lambda>(session_id, parent).
     if parent = None then ret ()
     else
       bind_io (if cr_status run = RunActive then
           bind_io (at_session (\<lambda>s. run_candidates sr session_id s (st_last_seq s + 1) (cr_node_ids run))) (\<lambda>candidates.
           bind_io (append_some sr candidates) (\<lambda>_.
           append_one sr (finish_run_candidate sr session_id run_id)))
         else ret ()) (\<lambda>_.
       bind_io (at_session (\<lambda>s. need (map_of (st_tool_calls s) (cr_parent_call_key run))
           (KeyError (cr_parent_call_key run)))) (\<lambda>parent.
       if tc_status parent = Started then append_one sr (finish_parent_candidate sr session_id run_id parent) else ret ()))))"

definition recover_code_runs :: "session_io \<Rightarrow> (rworld, unit) io" where
  "recover_code_runs sr =
     bind_io (at_session (\<lambda>s. Inr (st_code_runs s))) (\<lambda>runs. for_each (recover_code_run sr) runs)"

subsection \<open>Recovery\<close>

definition only_requested :: "session_state \<Rightarrow> bool" where
  "only_requested s \<longleftrightarrow> (let statuses = set (map tc_status (vals (st_tool_calls s))) in
     Requested \<in> statuses \<and> Started \<notin> statuses \<and> OutcomeUnknown \<notin> statuses \<and> \<not> st_recovery_blocked s)"

definition recover_open_calls :: "session_io \<Rightarrow> (rworld, unit) io" where
  "recover_open_calls sr =
     bind_io (at_session (\<lambda>s. Inr (st_pending_recovery_intent s))) (\<lambda>pending.
     if pending \<noteq> None then bind_io (complete_recovery_intent sr) (\<lambda>_. ret ())
     else
       bind_io (recover_code_runs sr) (\<lambda>_.
       bind_io (at_session (\<lambda>s. Inr (only_requested s))) (\<lambda>requested.
       if requested then
         bind_io (append_one sr (intent_candidate sr ''recover_interrupted''
           ''turn interrupted before requested tools were started'')) (\<lambda>_.
         bind_io (complete_recovery_intent sr) (\<lambda>_. ret ()))
       else
         bind_io (at_session (plan_recovery_events (sr_uuid5 sr))) (\<lambda>candidates.
         bind_io (append_some sr candidates) (\<lambda>_. ret ())))))"

definition canonical_workspace :: "session_io \<Rightarrow> string \<Rightarrow> string \<Rightarrow> py_error + string" where
  "canonical_workspace sr label raw_workspace =
     bindE (need (sr_resolve_strict sr raw_workspace) (RuntimeError (label @ '' workspace does not exist''))) (\<lambda>candidate.
     raise_if (\<not> sr_is_dir sr candidate) (RuntimeError (label @ '' workspace must be a directory'')) (
     raise_if (label = ''requested'' \<and> (take 1 raw_workspace \<noteq> ''/'' \<or> candidate \<noteq> raw_workspace))
       (RuntimeError (label @ '' workspace must be a canonical absolute path'')) (Inr candidate)))"

definition recorded_workspace :: "session_io \<Rightarrow> string \<Rightarrow> session_state \<Rightarrow> py_error + unit" where
  "recorded_workspace sr requested s =
     bindE (need (st_cwd s) (RuntimeError ''session has no recorded cwd'')) (\<lambda>cwd.
     bindE (canonical_workspace sr ''recorded'' cwd) (\<lambda>recorded.
     raise_if (recorded \<noteq> cwd) (RuntimeError ''recorded cwd must be a canonical absolute path'') (
     raise_if (recorded \<noteq> requested) (RuntimeError ''requested cwd does not match session cwd'') (Inr ()))))"

record resumed_session =
  rs_store :: rollout_store
  rs_state :: session_state
  rs_workspace :: string

definition quoted :: "string \<Rightarrow> string" where \<comment> \<open>the \<open>repr\<close> of a session id, which is a UUID when the file is looked for\<close>
  "quoted s = CHR 0x27 # s @ [CHR 0x27]"

text \<open>
  \<open>resume_session\<close>; \<open>opened\<close> is what \<open>RolloutStore.open\<close> returns or raises. The result comes
  with the store as it is left, which is closed whenever the function raises after opening it.
\<close>

definition resume_session ::
  "session_io \<Rightarrow> py_error + rollout_store \<Rightarrow> string \<Rightarrow> string \<Rightarrow> (py_error + resumed_session) \<times> rollout_store option" where
  "resume_session sr opened session_id workspace =
     (case canonical_workspace sr ''requested'' workspace of
        Inl e \<Rightarrow> (Inl e, None)
      | Inr requested \<Rightarrow>
          (case opened of
             Inl e \<Rightarrow> (Inl (case e of FileNotFoundError _ \<Rightarrow> RuntimeError (''session '' @ quoted session_id @ '' does not exist'') | _ \<Rightarrow> e), None)
           | Inr st \<Rightarrow>
               (case bindE (load_events st) (\<lambda>events.
                     raise_if (events = []) (RuntimeError ''session rollout is empty'') (
                     bindE (replay events) (\<lambda>s.
                     bindE (recorded_workspace sr requested s) (\<lambda>_. Inr s)))) of
                  Inl e \<Rightarrow> (Inl e, Some (close_store st))
                | Inr s \<Rightarrow>
                    (case recover_open_calls sr (st, s) of
                       (Inl e, (st', s')) \<Rightarrow> (Inl e, Some (close_store st'))
                     | (Inr _, (st', s')) \<Rightarrow>
                         (Inr \<lparr>rs_store = st', rs_state = s', rs_workspace = requested\<rparr>, Some st')))))"

definition continuable_turn_id :: "session_state \<Rightarrow> py_error + string option" where
  "continuable_turn_id s =
     raise_if (st_pending_recovery_intent s \<noteq> None) (RuntimeError ''session has a pending recovery intent'') (
     raise_if (st_recovery_blocked s) (RuntimeError ''session recovery is blocked by an unknown tool outcome'') (
     case st_active_turn_id s of
       None \<Rightarrow> Inr None
     | Some turn_id \<Rightarrow>
         raise_if (map_of (st_turns s) turn_id \<noteq> Some TActive) (RuntimeError ''active turn has an inconsistent status'')
           (Inr (Some turn_id))))"

subsection \<open>Reconciling one call\<close>

definition reconcilable :: "string \<Rightarrow> string \<Rightarrow> string \<Rightarrow> session_state \<Rightarrow> py_error + tool_call \<times> string" where
  "reconcilable store_session_id call_key outcome s =
     raise_if (st_session_id s \<noteq> Some store_session_id) (RuntimeError ''state and store must belong to the same session'') (
     raise_if (call_key = []) (RuntimeError ''call_key must be a non-empty string'') (
     raise_if (outcome \<notin> {''succeeded'', ''failed'', ''abandoned''})
       (RuntimeError ''outcome must be succeeded, failed, or abandoned'') (
     bindE (need (map_of (st_tool_calls s) call_key) (RuntimeError (''unknown tool call key: '' @ call_key))) (\<lambda>target.
     raise_if (tc_status target \<noteq> OutcomeUnknown)
       (RuntimeError ''only an outcome_unknown tool call can be reconciled'') (
     raise_if (st_active_turn_id s \<noteq> Some (tc_turn_id target))
       (RuntimeError ''unknown tool call is not in the active turn'') (
     raise_if (st_pending_recovery_intent s \<noteq> None) (RuntimeError ''a recovery intent is already pending'')
       (Inr (target, store_session_id))))))))"

definition is_capture_error :: "py_error \<Rightarrow> bool" where \<comment> \<open>\<open>except (OSError, ValueError, FileVersionError)\<close>\<close>
  "is_capture_error e = (case e of
     OSError _ \<Rightarrow> True | FileNotFoundError _ \<Rightarrow> True | FileExistsError _ \<Rightarrow> True
   | FileVersionError _ \<Rightarrow> True | ValueError _ \<Rightarrow> True | FileToolError _ \<Rightarrow> True | PathSafetyError _ \<Rightarrow> True
   | FileConflictError _ \<Rightarrow> True | DomainError _ \<Rightarrow> True | ProjectionError _ \<Rightarrow> True | ProjectionBlockedError _ \<Rightarrow> True
   | ProtocolError _ \<Rightarrow> True | StreamInterruptedError _ \<Rightarrow> True | ProtocolFrameError _ \<Rightarrow> True
   | ToolValidationError _ \<Rightarrow> True | PlanToolError _ \<Rightarrow> True
   | _ \<Rightarrow> False)"

text \<open>A write the user says succeeded must be found in the file.\<close>

definition verified_mutation :: "session_io \<Rightarrow> mutation_plan \<Rightarrow> session_state \<Rightarrow> py_error + mapping" where
  "verified_mutation sr plan s =
     bindE (need (st_cwd s) AssertionError) (\<lambda>cwd.
     bindE (reraise (\<lambda>e. if is_capture_error e then RuntimeError (''cannot verify successful file mutation: '' @ error_text e) else e)
         (bindE (sr_resolve_write sr cwd (mp_path plan)) (\<lambda>path. bindE (sr_capture sr path) (\<lambda>v. Inr (path, v))))) (\<lambda>(path, observed).
     raise_if (\<not> fv_exists observed \<or> fv_sha256 observed \<noteq> Some (mp_proposed_hash plan))
       (RuntimeError ''current file does not match the approved mutation'')
       (Inr [(''path'', PStr path),
         (''after_hash'', case fv_sha256 observed of None \<Rightarrow> PNone | Some h \<Rightarrow> PStr h),
         (''after_mode'', case fv_mode observed of None \<Rightarrow> PNone | Some m \<Rightarrow> PInt m),
         (''after_version'', file_version_to_dict observed)])))"

definition reconciliation_candidate ::
  "session_io \<Rightarrow> string \<Rightarrow> tool_call \<Rightarrow> string \<Rightarrow> string \<Rightarrow> session_state \<Rightarrow> py_error + event" where
  "reconciliation_candidate sr session_id target outcome note s =
     bindE (case (outcome = ''succeeded'', map_of (st_file_mutation_plans s) (tc_call_key target)) of
         (True, Some plan) \<Rightarrow> verified_mutation sr plan s | _ \<Rightarrow> Inr []) (\<lambda>file_facts.
     create_event sr (st_last_seq s + 1) session_id ''tool_reconciled''
       ([(''call_key'', PStr (tc_call_key target)), (''call_id'', PStr (tc_provider_call_id target)),
         (''outcome'', PStr outcome), (''note'', PStr note)] @ file_facts))"

definition reconcile_tool :: "session_io \<Rightarrow> string \<Rightarrow> string \<Rightarrow> string \<Rightarrow> (rworld, event) io" where
  "reconcile_tool sr call_key outcome note =
     bind_io (\<lambda>(st, s). (reconcilable (ro_session_id st) call_key outcome s, (st, s))) (\<lambda>(target, session_id).
     if outcome = ''abandoned'' then
       bind_io (append_one sr (intent_candidate sr ''abandon'' note)) (\<lambda>_.
       bind_io (complete_recovery_intent sr) (\<lambda>durable.
       case durable of [] \<Rightarrow> throw (RuntimeError ''abandon recovery produced no reconciliation facts'') | ev # _ \<Rightarrow> ret ev))
     else
       bind_io (at_session (reconciliation_candidate sr session_id target outcome note)) (\<lambda>candidate.
       bind_io (append_candidates sr [candidate]) (\<lambda>durable.
       case durable of [] \<Rightarrow> throw (KeyError ''list index out of range'') | ev # _ \<Rightarrow> ret ev)))"

end
