(* ===== verification/SessionRun.thy ===== *)
theory SessionRun
  imports Session ExecutorProps
begin

section \<open>What resuming leaves behind\<close>

text \<open>
  Candidates are tried before they are written, so no program of \<open>Session\<close> can leave a log that
  does not replay: \<open>session_step\<close> is an interpretation of \<open>world_order\<close>. What a recovery decides
  follows from the facts it appended last.
\<close>

definition in_step :: "rworld \<Rightarrow> bool" where
  "in_step x \<longleftrightarrow> replay (ro_events (fst x)) = Inr (snd x)"

text \<open>However a program ends: the log has only grown and the state is still its replay.\<close>

definition session_step :: "rworld \<Rightarrow> rworld \<Rightarrow> bool" where
  "session_step x y \<longleftrightarrow> (in_step x \<longrightarrow> in_step y \<and> (\<exists>es. ro_events (fst y) = ro_events (fst x) @ es) \<and>
     evolves (snd x) (snd y))"

interpretation recovery: world_order session_step
proof
  fix u v w :: rworld
  show "session_step w w" by (simp add: session_step_def)
  assume uv: "session_step u v" and vw: "session_step v w"
  show "session_step u w"
    unfolding session_step_def
  proof (intro impI conjI)
    assume u: "in_step u"
    from u uv have v: "in_step v" "\<exists>es. ro_events (fst v) = ro_events (fst u) @ es" "evolves (snd u) (snd v)"
      by (simp_all add: session_step_def)
    with vw have w: "in_step w" "\<exists>es. ro_events (fst w) = ro_events (fst v) @ es" "evolves (snd v) (snd w)"
      by (simp_all add: session_step_def)
    show "in_step w" by (rule w)
    show "\<exists>es. ro_events (fst w) = ro_events (fst u) @ es" using v(2) w(2) by auto
    show "evolves (snd u) (snd w)" by (rule evolves_trans [OF v(3) w(3)])
  qed
qed

lemma moves_at: "moves session_step (at_session f)"
  by (rule movesI) (auto simp: at_session_def intro: recovery.same)

lemma same_events: "ro_events (fst y) = ro_events (fst x) \<Longrightarrow> snd y = snd x \<Longrightarrow> session_step x y"
  by (simp add: session_step_def in_step_def)

lemma append_event_ends:
  assumes "append_event st ev oc = (r, st')"
  obtains e where "r = Inl e" "ro_events st' = ro_events st"
  | "r = Inr ev" "ro_events st' = ro_events st @ [ev]"
  using assms by (auto simp: append_event_def split: sum.splits write_outcome.splits)

lemma one_event:
  assumes "in_step (st, s)" "apply_event s ev = Inr s'" "ro_events st' = ro_events st @ [ev]"
  shows "session_step (st, s) (st', s')"
proof -
  have "wf_state s" using assms(1) replay_wf by (simp add: in_step_def)
  from apply_event_evolves [OF this assms(2)] assms show ?thesis
    by (simp add: session_step_def in_step_def replay_snoc)
qed

text \<open>Candidates the reducer accepts are appended in step, or as far as the disk lets them.\<close>

lemma append_all_steps:
  assumes "append_all_candidates sr cs (st, s) = (r, (st', s'))" "prevalidate cs s = Inr t" "in_step (st, s)"
  shows "session_step (st, s) (st', s') \<and> (\<forall>es. r = Inr es \<longrightarrow> foldE apply_event s cs = Inr s')"
  using assms
proof (induction cs arbitrary: st s r)
  case Nil
  then show ?case by (auto intro: recovery.same)
next
  case (Cons c cs)
  from Cons.prems(2) obtain s1 where s1: "apply_event s c = Inr s1" "prevalidate cs s1 = Inr t"
    by (auto simp: prevalidate_def reduce_event_def succ_simps)
  obtain z st1 where z: "append_event st c (sr_fate sr (ev_seq c)) = (z, st1)"
    by (cases "append_event st c (sr_fate sr (ev_seq c))") blast
  from z show ?case
  proof (cases rule: append_event_ends)
    case (1 e)
    then have "\<exists>e'. append_candidate sr c (st, s) = (Inl e', (close_store st1, s))"
      using z by (simp add: append_candidate_def closing_def)
    moreover have "session_step (st, s) (close_store st1, s)" by (rule same_events) (simp_all add: 1 close_store_def)
    ultimately show ?thesis using Cons.prems(1) by (auto simp: bind_io_def)
  next
    case 2
    then have c: "append_candidate sr c (st, s) = (Inr c, (st1, s1))" using z s1 by (simp add: append_candidate_def)
    have step: "session_step (st, s) (st1, s1)" by (rule one_event [OF Cons.prems(3) s1(1) 2(2)])
    then have in1: "in_step (st1, s1)" using Cons.prems(3) by (simp add: session_step_def)
    obtain q x where q: "append_all_candidates sr cs (st1, s1) = (q, x)"
      by (cases "append_all_candidates sr cs (st1, s1)") blast
    have "x = (st', s')" and r: "\<And>es. r = Inr es \<Longrightarrow> \<exists>es'. q = Inr es'"
      using Cons.prems(1) c q by (auto simp: bind_io_def split: sum.splits)
    with q Cons.IH [of st1 s1 q] s1(2) in1
    have "session_step (st1, s1) (st', s') \<and> (\<forall>es. q = Inr es \<longrightarrow> foldE apply_event s1 cs = Inr s')" by simp
    with step r s1(1) show ?thesis using recovery.trans by fastforce
  qed
qed

lemma append_candidates_ends:
  assumes "append_candidates sr cs (st, s) = (r, (st', s'))" "in_step (st, s)"
  shows "session_step (st, s) (st', s') \<and> (\<forall>es. r = Inr es \<longrightarrow> foldE apply_event s cs = Inr s')"
proof (cases "prevalidate cs s")
  case (Inl e)
  with assms(1) show ?thesis by (auto simp: append_candidates_def at_session_def bind_io_def intro: recovery.same)
next
  case (Inr t)
  with assms(1) have "append_all_candidates sr cs (st, s) = (r, (st', s'))"
    by (simp add: append_candidates_def at_session_def bind_io_def)
  from append_all_steps [OF this Inr assms(2)] show ?thesis .
qed

lemma moves_append: "moves session_step (append_candidates sr cs)"
proof (rule movesI)
  fix x y r
  assume run: "append_candidates sr cs x = (r, y)"
  obtain st s st' s' where p: "x = (st, s)" "y = (st', s')" by (cases x, cases y) blast
  show "session_step x y"
  proof (cases "in_step x")
    case True
    with append_candidates_ends run p show ?thesis by simp
  next
    case False
    then show ?thesis by (simp add: session_step_def)
  qed
qed

lemmas session_rules = recovery.moves_rules moves_at moves_append

lemma moves_append_some: "moves session_step (append_some sr cs)"
  unfolding append_some_def by (auto intro!: session_rules)

lemma moves_append_one: "moves session_step (append_one sr f)"
  unfolding append_one_def by (auto intro!: session_rules)

lemma moves_complete: "moves session_step (complete_recovery_intent sr)"
  unfolding complete_recovery_intent_def by (auto intro!: session_rules moves_append_some)

lemma moves_recover_code_runs: "moves session_step (recover_code_runs sr)"
proof -
  have "moves session_step (\<lambda>(st, s). (Inr (g st s) :: py_error + 'b, (st, s)))" for g :: "rollout_store \<Rightarrow> session_state \<Rightarrow> 'b"
    by (rule movesI) (auto intro: recovery.same)
  then have "moves session_step (recover_code_run sr run)" for run
    unfolding recover_code_run_def
    by (cases run) (auto intro!: session_rules moves_append_some moves_append_one)
  then show ?thesis unfolding recover_code_runs_def by (auto intro!: session_rules)
qed

lemma moves_recover: "moves session_step (recover_open_calls sr)"
  unfolding recover_open_calls_def
  by (auto intro!: session_rules moves_complete moves_recover_code_runs moves_append_one moves_append_some)

lemma moves_reconcile: "moves session_step (reconcile_tool sr k outcome note)"
proof -
  have "moves session_step (\<lambda>(st, s). (g st s :: py_error + 'b, (st, s)))" for g :: "rollout_store \<Rightarrow> session_state \<Rightarrow> py_error + 'b"
    by (rule movesI) (auto intro: recovery.same)
  then show ?thesis
    unfolding reconcile_tool_def
    by (auto intro!: session_rules moves_complete moves_append_one split: list.split)
qed

subsection \<open>Nothing is left open\<close>

definition decided :: "session_state \<Rightarrow> bool" where
  "decided s \<longleftrightarrow> st_recovery_blocked s \<or>
     (\<forall>c \<in> set (vals (st_tool_calls s)). is_terminal c \<and> tc_status c \<noteq> OutcomeUnknown)"

lemma wf_call: "wf_state s \<Longrightarrow> c \<in> set (vals (st_tool_calls s)) \<Longrightarrow> map_of (st_tool_calls s) (tc_call_key c) = Some c"
  by (auto simp: wf_state_def calls_wf_def vals_iff)

lemma not_open_decided:
  assumes "wf_state s" "\<forall>c \<in> set (vals (st_tool_calls s)). is_terminal c" shows "decided s"
proof (cases "st_recovery_blocked s")
  case False
  then have "tc_status c \<noteq> OutcomeUnknown" if "c \<in> set (vals (st_tool_calls s))" for c
    using wf_call [OF assms(1) that] assms(1) unfolding wf_state_def turns_wf_def outcome_unknown_call_def by blast
  with assms(2) show ?thesis by (simp add: decided_def)
qed (simp add: decided_def)

lemma no_turn_decided:
  assumes "wf_state s" "st_active_turn_id s = None" shows "decided s"
proof -
  have "\<not> open_or_unknown c" if "c \<in> set (vals (st_tool_calls s))" for c
    using wf_call [OF assms(1) that] assms unfolding wf_state_def turns_wf_def by auto
  then show ?thesis by (auto simp: decided_def open_or_unknown_def outcome_unknown_call_def)
qed

lemma turn_finished_closes: "apply_event s ev = Inr s' \<Longrightarrow> ev_type ev = ''turn_finished'' \<Longrightarrow> st_active_turn_id s' = None"
  by (elim apply_eventD) (auto simp: handlers_def apply_turn_finished_def record_event_def succ_simps)

lemma tool_finished_step:
  assumes "apply_event s ev = Inr s'" "ev_type ev = ''tool_finished''" "get (ev_payload ev) ''call_key'' = PStr k"
    "wf_state s"
  obtains c' where "st_tool_calls s' = dict_set k c' (st_tool_calls s)" "is_terminal c'" "has_key (st_tool_calls s) k"
proof -
  from assms(1,2) obtain s1 where fin: "apply_tool_finished s ev = Inr s1" and s': "s' = record_event ev s1"
    by (elim apply_eventD) (auto simp: handlers_def)
  from fin obtain c f u c' s2 where c: "call_for_active_turn s (ev_payload ev) = Inr c"
    and f: "read_result_fields s c (ev_payload ev) = Inr f"
    and c': "tool_call_post_init
       (c\<lparr>tc_status := rf_status f, tc_result := rf_result f, tc_exit_code := rf_exit_code f,
          tc_truncated := rf_truncated f,
          tc_result_metadata := get_or (ev_payload ev) ''result_metadata'' (PDict []),
          tc_recovery_blocked := rf_recovery_blocked f,
          tc_finished_seq := Some (ev_seq ev)\<rparr>) = Inr c'"
    and s2: "finish_node (set_snapshot u (set_call c' s)) c ev f = Inr s2"
    and s1: "s1 = refresh_recovery_block s2"
    by (auto simp: apply_tool_finished_def succ_simps)
  note k = keyed_call [OF c assms(3)]
  then have "tc_call_key c = k" using assms(4) by (auto simp: wf_state_def calls_wf_def)
  moreover have "tool_terminal (rf_status f)" using f by (auto simp: read_result_fields_def succ_simps)
  moreover have "tc_call_key c' = tc_call_key c" "tc_status c' = rf_status f" using post_init_InrD [OF c'] by auto
  moreover have "st_tool_calls s' = dict_set (tc_call_key c') c' (st_tool_calls s)"
    using finish_node_calls [OF s2] s1 s' by simp
  ultimately show ?thesis using k by (intro that [of c']) (simp_all add: is_terminal_def has_key_def)
qed

text \<open>A call that is not among those still to be closed is closed.\<close>

lemma planned_calls_close:
  assumes "foldE apply_event s (plan_calls u sid ts n cs) = Inr s'" "wf_state s"
    "\<forall>k c. map_of (st_tool_calls s) k = Some c \<longrightarrow> is_terminal c \<or> (\<exists>d \<in> set cs. tc_call_key d = k \<and> recovery_payload d \<noteq> None)"
  shows "\<forall>k c. map_of (st_tool_calls s') k = Some c \<longrightarrow> is_terminal c"
  using assms
proof (induction cs arbitrary: s n)
  case Nil
  then show ?case by auto
next
  case (Cons d cs)
  show ?case
  proof (cases "recovery_payload d")
    case None
    with Cons.prems(1) have "foldE apply_event s (plan_calls u sid ts n cs) = Inr s'" by simp
    moreover have "\<forall>k c. map_of (st_tool_calls s) k = Some c \<longrightarrow> is_terminal c \<or>
        (\<exists>d \<in> set cs. tc_call_key d = k \<and> recovery_payload d \<noteq> None)"
      using Cons.prems(3) None by auto
    ultimately show ?thesis using Cons.IH [OF _ Cons.prems(2)] by blast
  next
    case (Some q)
    obtain st payload where q: "q = (st, payload)" by (cases q)
    define ev where "ev = \<lparr>ev_version = 1, ev_seq = n,
        ev_id = u sid (''recovery:tool_finished:'' @ show_int n @ '':'' @ tc_call_key d @ '':'' @ tool_status_value st),
        ev_timestamp = ts, ev_session_id = sid, ev_type = ''tool_finished'', ev_payload = payload\<rparr>"
    with Cons.prems(1) Some q obtain s1 where s1: "apply_event s ev = Inr s1"
      "foldE apply_event s1 (plan_calls u sid ts (n + 1) cs) = Inr s'" by (auto simp: succ_simps)
    have key: "get (ev_payload ev) ''call_key'' = PStr (tc_call_key d)" and ty: "ev_type ev = ''tool_finished''"
      using Some q by (auto simp: ev_def recovery_payload_def get_def get_or_def split: tool_status.splits)
    obtain c' where c': "st_tool_calls s1 = dict_set (tc_call_key d) c' (st_tool_calls s)" "is_terminal c'"
      by (rule tool_finished_step [OF s1(1) ty key Cons.prems(2)])
    have "\<forall>k c. map_of (st_tool_calls s1) k = Some c \<longrightarrow> is_terminal c \<or>
        (\<exists>d \<in> set cs. tc_call_key d = k \<and> recovery_payload d \<noteq> None)"
      using Cons.prems(3) c' by (auto simp: map_of_dict_set)
    from Cons.IH [OF s1(2) apply_event_keeps [OF Cons.prems(2) s1(1)] this] show ?thesis .
  qed
qed

lemma plan_closes:
  assumes "plan_recovery_events u s = Inr cs" "foldE apply_event s cs = Inr s'" "wf_state s"
  shows "\<forall>c \<in> set (vals (st_tool_calls s')). is_terminal c"
proof -
  from assms(1) obtain sid ts where cs: "cs = plan_calls u sid ts (st_last_seq s + 1) (vals (st_tool_calls s))"
    by (auto simp: plan_recovery_events_def succ_simps)
  have wf': "wf_state s'" using assms(2,3)
  proof (induction cs arbitrary: s)
    case (Cons c cs)
    then show ?case using apply_event_keeps by (auto simp: succ_simps)
  qed simp
  have "is_terminal c \<or> (\<exists>d \<in> set (vals (st_tool_calls s)). tc_call_key d = k \<and> recovery_payload d \<noteq> None)"
    if k: "map_of (st_tool_calls s) k = Some c" for k c
  proof (cases "is_terminal c")
    case False
    then have "recovery_payload c \<noteq> None"
      by (cases "tc_status c") (simp_all add: is_terminal_def tool_terminal_def recovery_payload_def)
    moreover have "tc_call_key c = k" "c \<in> set (vals (st_tool_calls s))"
      using k assms(3) by (auto simp: wf_state_def calls_wf_def vals_iff)
    ultimately show ?thesis by blast
  qed simp
  then have "\<forall>k c. map_of (st_tool_calls s') k = Some c \<longrightarrow> is_terminal c"
    using planned_calls_close [OF assms(2)[unfolded cs] assms(3)] by blast
  then show ?thesis using wf_call [OF wf'] by blast
qed

text \<open>Running a program from a state in step.\<close>

lemma step_in: "moves session_step m \<Longrightarrow> m x = (r, y) \<Longrightarrow> in_step x \<Longrightarrow> in_step y"
  by (drule (1) movesD) (simp add: session_step_def)

lemma in_step_wf: "in_step (st, s) \<Longrightarrow> wf_state s"
  by (simp add: in_step_def replay_wf)

lemma append_some_ends:
  assumes "append_some sr cs (st, s) = (Inr es, (st', s'))" "in_step (st, s)"
  shows "in_step (st', s') \<and> foldE apply_event s cs = Inr s'"
proof (cases "cs = []")
  case True
  with assms show ?thesis by (simp add: append_some_def)
next
  case False
  with assms(1) have "append_candidates sr cs (st, s) = (Inr es, (st', s'))" by (simp add: append_some_def)
  from append_candidates_ends [OF this assms(2)] assms(2) show ?thesis by (auto simp: session_step_def)
qed

lemma create_event_type: "create_event sr n sid ty p = Inr ev \<Longrightarrow> ev_type ev = ty"
  by (auto simp: create_event_def split: prod.splits dest: mk_event_fields)

lemma complete_decides:
  assumes "complete_recovery_intent sr (st, s) = (Inr es, (st', s'))" "in_step (st, s)"
  shows "decided s'"
proof -
  from assms(1) obtain cs fs reason es1 st1 s1 where
    a: "append_some sr cs (st, s) = (Inr es1, (st1, s1))"
    and k: "(if st_recovery_blocked s1 then ret es1
     else
       bind_io (at_session (finish_candidate sr fs reason)) (\<lambda>finish.
       bind_io (append_candidates sr [finish]) (\<lambda>finished. ret (es1 @ finished)))) (st1, s1) = (Inr es, (st', s'))"
    by (auto simp: complete_recovery_intent_def at_session_def bind_io_Inr)
  have in1: "in_step (st1, s1)" using append_some_ends [OF a assms(2)] by blast
  show ?thesis
  proof (cases "st_recovery_blocked s1")
    case True
    with k show ?thesis by (simp add: decided_def)
  next
    case False
    with k obtain finish es2 where f: "finish_candidate sr fs reason s1 = Inr finish"
      and ap: "append_candidates sr [finish] (st1, s1) = (Inr es2, (st', s'))"
      by (auto simp: at_session_def bind_io_Inr)
    from append_candidates_ends [OF ap in1] have e: "apply_event s1 finish = Inr s'" by (auto simp: succ_simps)
    have "ev_type finish = ''turn_finished''" using f by (auto simp: finish_candidate_def succ_simps dest: create_event_type)
    with turn_finished_closes [OF e] have "st_active_turn_id s' = None" by blast
    with no_turn_decided [OF apply_event_keeps [OF in_step_wf [OF in1] e]] show ?thesis by blast
  qed
qed

lemma recover_decides:
  assumes "recover_open_calls sr (st, s) = (Inr x, (st', s'))" "in_step (st, s)"
  shows "decided s'"
proof (cases "st_pending_recovery_intent s = None")
  case False
  with assms(1) obtain es where "complete_recovery_intent sr (st, s) = (Inr es, (st', s'))"
    by (auto simp: recover_open_calls_def at_session_def bind_io_Inr)
  from complete_decides [OF this assms(2)] show ?thesis .
next
  case True
  with assms(1) obtain st1 s1 where r: "recover_code_runs sr (st, s) = (Inr (), (st1, s1))"
    and k: "(if only_requested s1 then
         bind_io (append_one sr (intent_candidate sr ''recover_interrupted''
           ''turn interrupted before requested tools were started'')) (\<lambda>_.
         bind_io (complete_recovery_intent sr) (\<lambda>_. ret ()))
       else
         bind_io (at_session (plan_recovery_events (sr_uuid5 sr))) (\<lambda>candidates.
         bind_io (append_some sr candidates) (\<lambda>_. ret ()))) (st1, s1) = (Inr x, (st', s'))"
    by (auto simp: recover_open_calls_def at_session_def bind_io_Inr)
  note in1 = step_in [OF moves_recover_code_runs r assms(2)]
  show ?thesis
  proof (cases "only_requested s1")
    case True
    with k obtain st2 s2 es where a: "append_one sr (intent_candidate sr ''recover_interrupted''
           ''turn interrupted before requested tools were started'') (st1, s1) = (Inr (), (st2, s2))"
      and c: "complete_recovery_intent sr (st2, s2) = (Inr es, (st', s'))" by (auto simp: bind_io_Inr)
    from complete_decides [OF c step_in [OF moves_append_one a in1]] show ?thesis .
  next
    case False
    with k obtain cs es where p: "plan_recovery_events (sr_uuid5 sr) s1 = Inr cs"
      and a: "append_some sr cs (st1, s1) = (Inr es, (st', s'))" by (auto simp: at_session_def bind_io_Inr)
    from append_some_ends [OF a in1] have e: "in_step (st', s')" "foldE apply_event s1 cs = Inr s'" by simp_all
    from not_open_decided [OF in_step_wf [OF e(1)] plan_closes [OF p e(2) in_step_wf [OF in1]]] show ?thesis .
  qed
qed

subsection \<open>Resuming\<close>

lemma resume_cases:
  assumes "resume_session sr (Inr st) sid ws = (r, Some st')"
  obtains (refused) e where "r = Inl e" "st' = close_store st"
  | (failed) e s st1 s1 where "r = Inl e" "replay (ro_events st) = Inr s"
      "recover_open_calls sr (st, s) = (Inl e, (st1, s1))" "st' = close_store st1"
  | (resumed) s s1 where "replay (ro_events st) = Inr s" "recover_open_calls sr (st, s) = (Inr (), (st', s1))"
      "r = Inr \<lparr>rs_store = st', rs_state = s1, rs_workspace = ws\<rparr>"
proof (cases "canonical_workspace sr ''requested'' ws")
  case (Inl e)
  with assms show ?thesis by (simp add: resume_session_def)
next
  case ws: (Inr requested)
  then have req: "requested = ws" by (auto simp: canonical_workspace_def succ_simps)
  let ?read = "bindE (load_events st) (\<lambda>events.
      raise_if (events = []) (RuntimeError ''session rollout is empty'') (
      bindE (replay events) (\<lambda>s. bindE (recorded_workspace sr requested s) (\<lambda>_. Inr s))))"
  show ?thesis
  proof (cases ?read)
    case (Inl e)
    with assms ws show ?thesis by (intro refused [of e]) (simp_all add: resume_session_def)
  next
    case (Inr s)
    then have s: "replay (ro_events st) = Inr s" by (auto simp: load_events_def succ_simps)
    obtain z st1 s1 where z: "recover_open_calls sr (st, s) = (z, (st1, s1))" by (metis prod.collapse)
    show ?thesis
    proof (cases z)
      case (Inl e)
      with assms ws Inr z s show ?thesis by (intro failed [of e s st1 s1]) (simp_all add: resume_session_def)
    next
      case (Inr u)
      have "(Inr \<lparr>rs_store = st1, rs_state = s1, rs_workspace = requested\<rparr>, Some st1) = (r, Some st')"
        using assms unfolding resume_session_def ws sum.case \<open>?read = Inr s\<close> z Inr prod.case .
      with Inr z s req show ?thesis by (intro resumed [of s s1]) auto
    qed
  qed
qed

text \<open>A call was running when the process died.\<close>

definition demo_crashed :: "rollout_store" where
  "demo_crashed = \<lparr>ro_session_id = uuid_b, ro_file = [], ro_events = demo_open @ [demo_start], ro_open = True, ro_poisoned = False\<rparr>"

definition demo_io :: session_io where
  "demo_io = \<lparr>sr_iso_utc = (\<lambda>_. True), sr_fresh = (\<lambda>_. (uuid_a, ''t'')), sr_uuid5 = (\<lambda>_ _. uuid_a), sr_fate = (\<lambda>_. Written),
     sr_dumps = dumps, sr_resolve_strict = Some, sr_is_dir = (\<lambda>_. True),
     sr_resolve_write = (\<lambda>_ p. Inr p), sr_capture = (\<lambda>_. Inr absent)\<rparr>"

lemma demo_resumes:
  "case resume_session demo_io (Inr demo_crashed) uuid_b ''/'' of (Inr res, Some _) \<Rightarrow> st_recovery_blocked (rs_state res) | _ \<Rightarrow> False"
  by code_simp

text \<open>
  C2. Resuming a crashed session decides every call or asks the user. However it ends, nothing is
  taken from the log, a log that replayed still replays and its calls have only evolved; when
  it raises, the store is closed. When it returns, the state is the replay of the log, and either
  recovery is blocked, so that no turn can run before the user says what happened, or every
  call has ended with a known outcome.
\<close>

theorem resume_decides_every_call:
  assumes "resume_session sr (Inr st) sid ws = (r, Some st')"
  shows "(\<exists>es. ro_events st' = ro_events st @ es) \<and>
    (\<forall>s. replay (ro_events st) = Inr s \<longrightarrow> (\<exists>s'. replay (ro_events st') = Inr s' \<and> evolves s s')) \<and>
    (case r of Inl e \<Rightarrow> \<not> ro_open st'
     | Inr res \<Rightarrow> rs_store res = st' \<and> replay (ro_events st') = Inr (rs_state res) \<and>
         (st_recovery_blocked (rs_state res) \<or>
          (\<forall>c \<in> set (vals (st_tool_calls (rs_state res))). is_terminal c \<and> tc_status c \<noteq> OutcomeUnknown)))"
  using assms
proof (cases rule: resume_cases)
  case (refused e)
  then show ?thesis by (auto simp: close_store_def)
next
  case (failed e s st1 s1)
  have "in_step (st, s)" using failed(2) by (simp add: in_step_def)
  with movesD [OF moves_recover failed(3)] failed show ?thesis
    by (auto simp: session_step_def in_step_def close_store_def)
next
  case (resumed s s1)
  have i: "in_step (st, s)" using resumed(1) by (simp add: in_step_def)
  with movesD [OF moves_recover resumed(2)] recover_decides [OF resumed(2) i] resumed show ?thesis
    by (auto simp: session_step_def in_step_def decided_def)
qed

lemma resume_decides_every_call_witness:
  "\<exists>res st'. resume_session demo_io (Inr demo_crashed) uuid_b ''/'' = (Inr res, Some st') \<and> rs_store res = st' \<and>
     replay (ro_events st') = Inr (rs_state res) \<and> st_recovery_blocked (rs_state res)"
proof -
  obtain res st' where run: "resume_session demo_io (Inr demo_crashed) uuid_b ''/'' = (Inr res, Some st')"
    and b: "st_recovery_blocked (rs_state res)"
    using demo_resumes by (cases "resume_session demo_io (Inr demo_crashed) uuid_b ''/''") (auto split: sum.splits option.splits)
  with resume_decides_every_call [OF run] show ?thesis by simp
qed

end
