(* ===== verification/Spec2Isabelle.thy ===== *)
theory Spec2Isabelle
  imports Recovery StreamResponse Projection ExecutorProps CompactionRun ClosureRun AgentProps SessionRun
begin

text \<open>
  This development verifies \<open>mca\<close>, a local coding agent (src/src/mca). It is a model of the
  program in HOL, translated from the Python sources function by function, and the theorems
  that make it correct.

  \<^bold>\<open>The program.\<close> An agent talks to a model over an HTTP stream, executes the tool calls the model
  asks for, and records everything in an append-only log of events, the rollout. The log is the
  only source of truth: the session state is what \<open>SessionReducer\<close> makes of the log, the prompt
  is a projection of it, and after a crash the session is rebuilt from it. The parts:

  \<^item> \<open>domain.py\<close> holds the events, the session state and the reducer; \<open>store.py\<close> writes and repairs
    the log; \<open>conversation.py\<close> and \<open>projection.py\<close> turn a log into a valid prompt and estimate its
    size.
  \<^item> \<open>sse.py\<close> decodes the model's stream into one response; \<open>tools/registry.py\<close> holds the tools, checks
    the arguments of a call and bounds results.
  \<^item> \<open>executor.py\<close> takes one call through validation, approval, start, body and result;
    \<open>tool_scheduler.py\<close> overlaps the read-only calls of a batch; \<open>code_scheduler.py\<close> runs the graph of
    calls that a \<open>run_code\<close> program submits; \<open>file_versions.py\<close> guards concurrent writes.
  \<^item> \<open>compact.py\<close> replaces an old conversation by a summary; \<open>agent.py\<close> is the loop of one turn over
    all of these; \<open>session.py\<close> resumes a session after a crash.

  The components meet in two shared objects, the store and the session state. An operation
  appends a fact to the store and then applies it to the state. What each component promises
  about this pair is stated as a relation on worlds (\<open>journal_step\<close>, \<open>session_step\<close>) or as a
  contract (\<open>faultless\<close>, \<open>sound\<close>, \<open>steady\<close>), and every client rests on these.

  \<^bold>\<open>Representation.\<close> A string is the list of the bytes of its UTF-8 encoding. An int is \<open>int\<close> where
  Python's is unbounded and \<open>nat\<close> where the code has checked that it is not negative. A JSON or
  Python value is a \<open>pyval\<close> (\<open>PyPrelude\<close>), a dict an association list in insertion order, a
  dataclass a record, an enumeration a datatype. A function that may raise returns
  \<open>py_error + 'a\<close>, with \<open>Inl\<close> the exception; a method that also changes the world is an \<open>io\<close>
  (\<open>Effects\<close>), a function from the world to its result and the world it leaves. Clocks, fresh
  identifiers, hashes, \<open>json.loads\<close>, the model, the approver, tool bodies and the fate of each
  write are arguments, so a theorem holds whatever they do; where one relies on documented
  behaviour of such an argument, a named hypothesis says so (\<open>quiet\<close> and \<open>prompt\<close> for the tools
  and waits of a parallel group, \<open>storable\<close> for \<open>json.loads\<close>, \<open>programs_keep\<close> for the runner of code
  programs), and a witness instantiates it.

  \<^bold>\<open>Theories\<close>, in the order in which they build on each other:

  \<^item> \<open>PyPrelude\<close>, \<open>PyJson\<close>, \<open>Effects\<close>: the error monad and its collections \<open>succ_simps\<close> and \<open>fail_simps\<close>,
    Python values, dictionaries, \<open>json.dumps\<close>; stateful programs, the locale \<open>event_machine\<close> of
    invariants and relations along a run, and \<open>world_order\<close> of relations kept by programs.
  \<^item> \<open>DomainTypes\<close>, \<open>CodeGraph\<close>, \<open>FileVersions\<close> (\<open>domain.py\<close>, \<open>code_graph.py\<close>, \<open>file_versions.py\<close>): events with their
    validation and freezing, the dataclasses of the state, code runs and their summary, file
    versions, and the FIFO turns of the mutation coordinator as a step relation over threads.
  \<^item> \<open>Reducer\<close> (\<open>SessionReducer\<close>): one definition per event handler, \<open>apply_event\<close>, \<open>replay\<close>,
    \<open>reduce_event\<close> and \<open>plan_recovery_events\<close>. \<open>ReducerInv\<close> holds the invariant and its preservation by
    each handler, \<open>ReducerRun\<close> the run, \<open>ReducerSteps\<close> what one event may do to calls and baselines,
    \<open>ReducerErrors\<close> which errors a handler raises, \<open>ReducerProps\<close> and \<open>Recovery\<close> the properties.
  \<^item> \<open>Conversation\<close>, \<open>Projection\<close> (\<open>conversation.py\<close>, \<open>projection.py\<close>): the validator against the grammar of
    conversations; projected prompts are closed conversations; token estimates.
  \<^item> \<open>Store\<close> (\<open>store.py\<close>): the bytes of the file, the repair of a torn tail, appending and poisoning.
  \<^item> \<open>Sse\<close>, \<open>StreamAssembler\<close>, \<open>StreamResponse\<close>, \<open>Sampling\<close> (\<open>sse.py\<close>, the result types of \<open>model.py\<close>): decoding is
    independent of how the stream is cut; the response is made of the deltas.
  \<^item> \<open>ToolSchema\<close>, \<open>ToolOutput\<close>, \<open>ToolRegistry\<close> (\<open>tools/registry.py\<close>, \<open>tools/__init__.py\<close>): schemas and their
    meaning (\<open>conforms\<close>), validation, truncation, the registry.
  \<^item> \<open>Executor\<close> (\<open>executor.py\<close>), \<open>ExecutorRun\<close>, \<open>ExecutorFaults\<close>, \<open>ExecutorProps\<close>: the pipeline of a call over
    the world; the locales \<open>executor_order\<close> and \<open>pipeline_order\<close> prove for every operation what holds
    of one append.
  \<^item> \<open>Compaction\<close>, \<open>CompactionProps\<close>, \<open>CompactionRun\<close> (\<open>compact.py\<close>).
  \<^item> \<open>CodeScheduler\<close> (\<open>code_scheduler.py\<close>), \<open>ScheduleOrder\<close>, \<open>GraphSteps\<close>, \<open>SchedulerRun\<close>, \<open>ClosureRun\<close>: the order
    of a batch, the closure of targets, the rounds that execute it.
  \<^item> \<open>ToolScheduler\<close> (\<open>tool_scheduler.py\<close>), \<open>ToolSchedulerRun\<close>, \<open>ToolGroupRun\<close>: a parallel group and its
    refinement of the sequential reference.
  \<^item> \<open>Agent\<close> (\<open>agent.py\<close>), \<open>SteadyPrograms\<close>, \<open>AgentRun\<close>, \<open>AgentProps\<close>: the turn loop; the locales
    \<open>steady_order\<close> and \<open>scheduler_client\<close> state what the scheduler asks of its client and prove that a
    batch keeps it.
  \<^item> \<open>Session\<close> (\<open>session.py\<close>), \<open>SessionRun\<close>: candidates, recovery, resuming, reconciling.

  \<^bold>\<open>What the properties say.\<close> The log determines the session and only grows; calls move through
  their states in one direction and are executed at most once, after approval where one is
  needed; a crash at any point leaves a log that replays and recovery decides or asks about
  every call; a turn that returns is finished on record. What is shown to the model is a valid
  conversation within its budget and without known secrets; what it sends is decoded and
  checked exactly. Concurrent executions record what the sequential ones would, writers of a
  file exclude each other, and every loop ends.

  \<^bold>\<open>Bounds and fuel.\<close> Recursion is structural, or over a measure, wherever the code's own loop is.
  Four loops take fuel instead. \<open>group_loop\<close> and \<open>drain\<close> get the number of calls of the group: each
  wait observes at least one of them, and \<open>parallel_group_refines_sequential\<close> shows that the fuel is
  never used up. \<open>execute_closure\<close> gets as many rounds as the closure has nodes, since every round
  with progress closes one, and its waves get the waits their caller allows (\<open>patience\<close>), since a wait
  may time out; \<open>graph_execution_terminates\<close> shows that the rounds are never used up, nor the waits
  when at most \<open>k\<close> in a row time out. \<open>visit_closure\<close> gets the number of nodes, and
  \<open>closure_is_reachability\<close> shows that it is deep enough. The rounds of a turn (\<open>turn_loop\<close>) are the steps
  that are left: each round that goes on takes exactly one.

  \<^bold>\<open>Not modelled.\<close> The command line, the terminal and the views (\<open>cli.py\<close>, \<open>terminal.py\<close>, \<open>inspect.py\<close>):
  rendering and interactive input. The HTTP requests of \<open>model.py\<close>. The bodies of the file, shell
  and search tools: system calls, processes and an external program; they enter as tool bodies.
  The worker of Code Mode, an interpreter in a child process, which enters as the programs it
  submits. Undo (\<open>undo.py\<close>). Callbacks that display progress, whose exceptions the code swallows.
  A Ctrl-C is modelled where the code handles it, in approval, tool bodies, waits, and the
  appends of the agent loop, and not between any two bytecodes.
\<close>

end
